(* ===== verification/GoStrings.thy ===== *)
theory GoStrings
  imports Main "HOL-Library.Sublist"
begin

section \<open>Prelude: Go's byte strings\<close>

text \<open>
  A Go string is a sequence of bytes; here it is a \<open>string\<close>, that is a \<open>char list\<close>, and a
  \<open>char\<close> is a byte.  This theory models the functions of Go's packages \<^verbatim>\<open>strings\<close>,
  \<^verbatim>\<open>bytes\<close> and \<^verbatim>\<open>strconv\<close> that the program calls, with the generic facts the
  component theories share.

  Case conversion and white space are those of ASCII: a byte above 127 is left alone by
  \<open>to_lower\<close>, and \<open>trim_space\<close> removes the six ASCII space characters.  Go agrees with this on
  every ASCII string; the Unicode case tables for other strings are not modelled.
\<close>

named_theorems go_simps \<open>defining equations of the string helpers, for evaluation\<close>

subsection \<open>Bytes\<close>

abbreviation byte :: "char \<Rightarrow> int" where
  "byte c \<equiv> (of_char c :: int)"

lemma byte_less [simp]: "byte c < 256"
proof -
  have "(of_char c :: nat) < 256" by (cases c) (simp add: of_char_def horner_sum_simps)
  then have "int (of_char c) < 256" by simp
  then show ?thesis by (simp only: of_nat_of_char)
qed

lemma byte_nonneg [simp]: "0 \<le> byte c"
  by (metis of_nat_0_le_iff of_nat_of_char)

lemma byte_char_of: "byte (char_of (n :: int)) = n mod 256"
  by simp

lemma byte_inject: "byte a = byte b \<longleftrightarrow> a = b"
  by simp

definition is_upper :: "char \<Rightarrow> bool" where
  "is_upper c \<longleftrightarrow> 65 \<le> byte c \<and> byte c \<le> 90"

definition is_lower :: "char \<Rightarrow> bool" where
  "is_lower c \<longleftrightarrow> 97 \<le> byte c \<and> byte c \<le> 122"

definition is_alpha :: "char \<Rightarrow> bool" where
  "is_alpha c \<longleftrightarrow> is_lower c \<or> is_upper c"

definition is_digit :: "char \<Rightarrow> bool" where
  "is_digit c \<longleftrightarrow> 48 \<le> byte c \<and> byte c \<le> 57"

definition lower_byte :: "char \<Rightarrow> char" where
  "lower_byte c = (if is_upper c then char_of (byte c + 32) else c)"

definition upper_byte :: "char \<Rightarrow> char" where
  "upper_byte c = (if is_lower c then char_of (byte c - 32) else c)"

definition to_lower :: "string \<Rightarrow> string" where
  "to_lower s = map lower_byte s"

definition equal_fold :: "string \<Rightarrow> string \<Rightarrow> bool" where
  "equal_fold s t \<longleftrightarrow> to_lower s = to_lower t"

lemmas byte_class_defs = is_upper_def is_lower_def is_alpha_def is_digit_def

lemma byte_lower_byte: "byte (lower_byte c) = (if is_upper c then byte c + 32 else byte c)"
  by (simp add: lower_byte_def is_upper_def)

lemma lower_byte_idem [simp]: "lower_byte (lower_byte c) = lower_byte c"
proof -
  have "\<not> is_upper (lower_byte c)"
    by (cases "is_upper c") (simp_all add: is_upper_def byte_lower_byte)
  then show ?thesis by (simp add: lower_byte_def)
qed

lemma to_lower_idem [simp]: "to_lower (to_lower s) = to_lower s"
  by (induction s) (simp_all add: to_lower_def)

lemma length_to_lower [simp]: "length (to_lower s) = length s"
  by (simp add: to_lower_def)

lemma to_lower_Nil_iff [simp]: "to_lower s = [] \<longleftrightarrow> s = []"
  by (simp add: to_lower_def)

lemma to_lower_Nil [simp]: "to_lower [] = []"
  by (simp add: to_lower_def)

lemma to_lower_append: "to_lower (s @ t) = to_lower s @ to_lower t"
  by (simp add: to_lower_def)

lemma equal_fold_refl [simp, intro]: "equal_fold s s"
  by (simp add: equal_fold_def)

lemma equal_fold_sym: "equal_fold s t \<longleftrightarrow> equal_fold t s"
  by (auto simp: equal_fold_def)

lemma equal_fold_trans: "equal_fold s t \<Longrightarrow> equal_fold t u \<Longrightarrow> equal_fold s u"
  by (simp add: equal_fold_def)

lemma equal_fold_length: "equal_fold s t \<Longrightarrow> length s = length t"
  by (metis equal_fold_def length_to_lower)

lemma equal_fold_to_lower [simp]:
  "equal_fold (to_lower s) t \<longleftrightarrow> equal_fold s t"
  "equal_fold s (to_lower t) \<longleftrightarrow> equal_fold s t"
  by (simp_all add: equal_fold_def)

lemma lower_byte_eq_iff:
  assumes "\<not> is_alpha x"
  shows "lower_byte c = x \<longleftrightarrow> c = x"
proof (cases "is_upper c")
  case True
  then have "is_lower (lower_byte c)"
    by (simp add: is_lower_def is_upper_def byte_lower_byte)
  with True assms show ?thesis by (auto simp: is_alpha_def)
next
  case False
  then show ?thesis by (simp add: lower_byte_def)
qed

subsection \<open>Prefixes, suffixes and searching\<close>

definition has_prefix :: "string \<Rightarrow> string \<Rightarrow> bool" where
  "has_prefix s p \<longleftrightarrow> take (length p) s = p"

definition has_suffix :: "string \<Rightarrow> string \<Rightarrow> bool" where
  "has_suffix s p \<longleftrightarrow> length p \<le> length s \<and> drop (length s - length p) s = p"

definition trim_prefix :: "string \<Rightarrow> string \<Rightarrow> string" where
  "trim_prefix s p = (if has_prefix s p then drop (length p) s else s)"

definition trim_suffix :: "string \<Rightarrow> string \<Rightarrow> string" where
  "trim_suffix s p = (if has_suffix s p then take (length s - length p) s else s)"

fun index_pred :: "('a \<Rightarrow> bool) \<Rightarrow> 'a list \<Rightarrow> nat option" where
  "index_pred P [] = None"
| "index_pred P (x # xs) = (if P x then Some 0 else map_option Suc (index_pred P xs))"

definition index_byte :: "string \<Rightarrow> char \<Rightarrow> nat option" where
  "index_byte s c = index_pred (\<lambda>x. x = c) s"

definition index_any :: "string \<Rightarrow> string \<Rightarrow> nat option" where
  "index_any s cs = index_pred (\<lambda>x. x \<in> set cs) s"

definition last_index_byte :: "string \<Rightarrow> char \<Rightarrow> nat option" where
  "last_index_byte s c = map_option (\<lambda>i. length s - 1 - i) (index_byte (rev s) c)"

fun index_sub :: "string \<Rightarrow> string \<Rightarrow> nat option" where
  "index_sub s p = (if has_prefix s p then Some 0
     else (case s of [] \<Rightarrow> None | _ # t \<Rightarrow> map_option Suc (index_sub t p)))"

declare index_sub.simps [simp del]

definition contains_byte :: "string \<Rightarrow> char \<Rightarrow> bool" where
  "contains_byte s c \<longleftrightarrow> c \<in> set s"

definition cut :: "string \<Rightarrow> char \<Rightarrow> string \<times> string \<times> bool" where
  "cut s c = (case index_byte s c of
     None \<Rightarrow> (s, [], False)
   | Some i \<Rightarrow> (take i s, drop (Suc i) s, True))"

lemma has_prefix_iff: "has_prefix s p \<longleftrightarrow> (\<exists>t. s = p @ t)"
  by (auto simp: has_prefix_def) (metis append_take_drop_id)

lemma has_suffix_iff: "has_suffix s p \<longleftrightarrow> (\<exists>t. s = t @ p)"
  by (auto simp: has_suffix_def) (metis append_take_drop_id)

lemma has_suffix_append [simp]: "has_suffix (s @ p) p"
  by (auto simp: has_suffix_iff)

lemma trim_suffix_append [simp]: "trim_suffix (s @ p) p = s"
  by (simp add: trim_suffix_def)

lemma trim_suffix_cases:
  obtains t where "s = t @ p" "trim_suffix s p = t" | "\<not> has_suffix s p" "trim_suffix s p = s"
  by (metis has_suffix_iff trim_suffix_append trim_suffix_def)

lemma length_trim_suffix_le [simp]: "length (trim_suffix s p) \<le> length s"
  by (simp add: trim_suffix_def)

lemma index_pred_None_iff: "index_pred P xs = None \<longleftrightarrow> (\<forall>x\<in>set xs. \<not> P x)"
  by (induction xs) auto

lemma index_pred_Some:
  "index_pred P xs = Some i \<Longrightarrow> i < length xs \<and> P (xs ! i) \<and> (\<forall>x\<in>set (take i xs). \<not> P x)"
  by (induction xs arbitrary: i) (auto split: if_splits)

lemma index_pred_append:
  "\<forall>x\<in>set xs. \<not> P x \<Longrightarrow> P y \<Longrightarrow> index_pred P (xs @ y # ys) = Some (length xs)"
  by (induction xs) auto

lemma find_SomeD: "find P xs = Some x \<Longrightarrow> x \<in> set xs \<and> P x"
  by (auto simp: find_Some_iff)

lemma index_byte_None_iff [simp]: "index_byte s c = None \<longleftrightarrow> c \<notin> set s"
  by (auto simp: index_byte_def index_pred_None_iff)

lemma index_byte_SomeD:
  assumes "index_byte s c = Some i"
  shows "i < length s" "s ! i = c" "c \<notin> set (take i s)"
    "s = take i s @ c # drop (Suc i) s"
  using index_pred_Some [OF assms [unfolded index_byte_def]]
  by (auto simp: id_take_nth_drop [symmetric])

lemma index_byte_append [simp]: "c \<notin> set a \<Longrightarrow> index_byte (a @ c # b) c = Some (length a)"
  unfolding index_byte_def by (rule index_pred_append) auto

lemma last_index_byte_None_iff [simp]: "last_index_byte s c = None \<longleftrightarrow> c \<notin> set s"
  by (simp add: last_index_byte_def)

lemma last_index_byte_append [simp]:
  assumes "c \<notin> set b"
  shows "last_index_byte (a @ c # b) c = Some (length a)"
proof -
  have "index_byte (rev b @ c # rev a) c = Some (length (rev b))"
    by (rule index_byte_append) (simp add: assms)
  then show ?thesis by (simp add: last_index_byte_def)
qed

lemma last_index_byte_SomeD:
  assumes "last_index_byte s c = Some i"
  shows "\<exists>a b. s = a @ c # b \<and> length a = i \<and> c \<notin> set b"
proof -
  from assms have "c \<in> set s"
    by (metis last_index_byte_None_iff option.distinct(1))
  then obtain a b where s: "s = a @ c # b" and b: "c \<notin> set b"
    by (meson split_list_last)
  with assms show ?thesis by auto
qed

lemma cut_found: "c \<notin> set a \<Longrightarrow> cut (a @ c # b) c = (a, b, True)"
  by (simp add: cut_def)

lemma cut_absent: "c \<notin> set s \<Longrightarrow> cut s c = (s, [], False)"
  by (simp add: cut_def iffD2 [OF index_byte_None_iff])

lemma cut_True:
  "cut s c = (a, b, True) \<longleftrightarrow> s = a @ c # b \<and> c \<notin> set a"
proof
  assume "cut s c = (a, b, True)"
  then obtain i where i: "index_byte s c = Some i" and ab: "a = take i s" "b = drop (Suc i) s"
    by (auto simp: cut_def split: option.splits)
  then show "s = a @ c # b \<and> c \<notin> set a"
    using index_byte_SomeD [OF i] by simp
next
  assume "s = a @ c # b \<and> c \<notin> set a"
  then show "cut s c = (a, b, True)" by (simp add: cut_found)
qed

subsection \<open>Splitting, joining and trimming\<close>

fun split_byte :: "char \<Rightarrow> string \<Rightarrow> string list" where
  "split_byte c [] = [[]]"
| "split_byte c (x # xs) =
     (if x = c then [] # split_byte c xs
      else (case split_byte c xs of [] \<Rightarrow> [[x]] | p # ps \<Rightarrow> (x # p) # ps))"

fun join :: "string \<Rightarrow> string list \<Rightarrow> string" where
  "join sep [] = []"
| "join sep [s] = s"
| "join sep (s # t # ts) = s @ sep @ join sep (t # ts)"

definition trim_left :: "string \<Rightarrow> string \<Rightarrow> string" where
  "trim_left s cs = dropWhile (\<lambda>x. x \<in> set cs) s"

definition trim_right :: "string \<Rightarrow> string \<Rightarrow> string" where
  "trim_right s cs = rev (dropWhile (\<lambda>x. x \<in> set cs) (rev s))"

definition trim_set :: "string \<Rightarrow> string \<Rightarrow> string" where
  "trim_set s cs = trim_right (trim_left s cs) cs"

abbreviation tab :: char where "tab \<equiv> CHR 0x09"
abbreviation lf :: char where "lf \<equiv> CHR 0x0A"
abbreviation cr :: char where "cr \<equiv> CHR 0x0D"
abbreviation crlf :: string where "crlf \<equiv> [cr, lf]"

abbreviation wsp :: string where "wsp \<equiv> [CHR '' '', tab]"
abbreviation fws :: string where "fws \<equiv> [CHR '' '', tab, cr, lf]"

definition trim_space :: "string \<Rightarrow> string" where
  "trim_space s = trim_set s [CHR '' '', tab, lf, CHR 0x0B, CHR 0x0C, cr]"

text \<open>\<^verbatim>\<open>strings.FieldsFunc\<close>: the maximal runs of bytes that are not delimiters.\<close>

fun fields_func :: "(char \<Rightarrow> bool) \<Rightarrow> string \<Rightarrow> string \<Rightarrow> string list" where
  "fields_func D [] cur = (if cur = [] then [] else [cur])"
| "fields_func D (c # s) cur =
     (if D c then (if cur = [] then [] else [cur]) @ fields_func D s [] else fields_func D s (cur @ [c]))"

text \<open>\<^verbatim>\<open>strings.Fields\<close>, \<^verbatim>\<open>strings.ToUpper\<close> and \<^verbatim>\<open>strings.Contains\<close>.\<close>

definition space_fields :: "string \<Rightarrow> string list" where
  "space_fields s = fields_func (\<lambda>c. c \<in> set [CHR '' '', tab, lf, CHR 0x0B, CHR 0x0C, cr]) s []"

definition to_upper :: "string \<Rightarrow> string" where
  "to_upper s = map upper_byte s"

definition contains_sub :: "string \<Rightarrow> string \<Rightarrow> bool" where
  "contains_sub s p \<longleftrightarrow> index_sub s p \<noteq> None"

lemma split_byte_not_Nil [simp]: "split_byte c s \<noteq> []"
  by (induction s) (auto split: list.splits)

lemma join_split_byte: "join [c] (split_byte c s) = s"
proof (induction s)
  case (Cons x xs)
  obtain p ps where "split_byte c xs = p # ps"
    by (metis split_byte_not_Nil neq_Nil_conv)
  with Cons show ?case by (cases ps) auto
qed simp

lemma split_to_lower: "split_byte (CHR ''.'') (to_lower s) = map to_lower (split_byte (CHR ''.'') s)"
proof -
  have "lower_byte c = CHR ''.'' \<longleftrightarrow> c = CHR ''.''" for c
    by (rule lower_byte_eq_iff) (simp add: byte_class_defs)
  then show ?thesis by (induction s) (auto simp: to_lower_def split: list.split)
qed

lemma split_byte_no_sep: "p \<in> set (split_byte c s) \<Longrightarrow> c \<notin> set p"
proof (induction s arbitrary: p)
  case (Cons x xs)
  then show ?case by (force split: list.splits if_splits)
qed simp

lemma split_byte_subset: "p \<in> set (split_byte c s) \<Longrightarrow> set p \<subseteq> set s"
proof (induction s arbitrary: p)
  case (Cons x xs)
  then show ?case by (fastforce split: list.splits if_splits)
qed simp

lemma split_byte_absent: "c \<notin> set s \<Longrightarrow> split_byte c s = [s]"
  by (induction s) auto

lemma split_byte_append: "c \<notin> set a \<Longrightarrow> split_byte c (a @ c # b) = a # split_byte c b"
  by (induction a) auto

lemma split_byte_join:
  assumes "ps \<noteq> []" and "\<forall>p\<in>set ps. c \<notin> set p"
  shows "split_byte c (join [c] ps) = ps"
  using assms
proof (induction ps)
  case (Cons p ps)
  then show ?case by (cases ps) (simp_all add: split_byte_absent split_byte_append)
qed simp

lemma trim_right_append: "trim_right (s @ t) cs = (if set t \<subseteq> set cs then trim_right s cs else s @ trim_right t cs)"
  unfolding trim_right_def
  by (auto simp: dropWhile_append subset_iff)

lemma trim_left_subset: "set (trim_left s cs) \<subseteq> set s"
  by (auto simp: trim_left_def dest: set_dropWhileD)

lemma trim_right_subset: "set (trim_right s cs) \<subseteq> set s"
  by (auto simp: trim_right_def dest: set_dropWhileD)

lemma trim_set_subset: "set (trim_set s cs) \<subseteq> set s"
  unfolding trim_set_def using trim_left_subset trim_right_subset by blast

lemma trim_set_id:
  assumes "s = [] \<or> hd s \<notin> set cs \<and> last s \<notin> set cs"
  shows "trim_set s cs = s"
proof (cases "s = []")
  case False
  with assms have h: "hd s \<notin> set cs" and l: "last s \<notin> set cs" by auto
  have "trim_left s cs = s" using h False by (cases s) (simp_all add: trim_left_def)
  moreover have "trim_right s cs = s"
    using l False by (cases s rule: rev_cases) (simp_all add: trim_right_def)
  ultimately show ?thesis by (simp add: trim_set_def)
qed (simp add: trim_set_def trim_left_def trim_right_def)

lemma trim_set_Nil [simp]: "trim_set [] cs = []"
  by (rule trim_set_id) simp

lemmas trim_defs = trim_space_def trim_set_def trim_left_def trim_right_def

subsection \<open>Decimal numbers\<close>

definition digit_char :: "nat \<Rightarrow> char" where
  "digit_char d = char_of (48 + int d)"

fun show_nat :: "nat \<Rightarrow> string" where
  "show_nat n = (if n < 10 then [digit_char n] else show_nat (n div 10) @ [digit_char (n mod 10)])"

declare show_nat.simps [simp del]

definition show_int :: "int \<Rightarrow> string" where
  "show_int i = (if i < 0 then CHR ''-'' # show_nat (nat (- i)) else show_nat (nat i))"

definition digits_val :: "string \<Rightarrow> int" where
  "digits_val s = foldl (\<lambda>n c. n * 10 + (byte c - 48)) 0 s"

text \<open>
  \<open>strconv.ParseInt\<close> with base 10 and 64 bits, which is also \<open>strconv.Atoi\<close> on a 64-bit
  machine: an optional sign, one or more digits, a value that fits.
\<close>

definition parse_int64 :: "string \<Rightarrow> int option" where
  "parse_int64 s =
    (let (neg, ds) = (case s of [] \<Rightarrow> (False, [])
       | c # t \<Rightarrow> if c = CHR ''-'' then (True, t) else if c = CHR ''+'' then (False, t) else (False, s))
     in if ds = [] \<or> \<not> list_all is_digit ds then None
        else let v = (if neg then - digits_val ds else digits_val ds)
             in if - (2 ^ 63) \<le> v \<and> v < 2 ^ 63 then Some v else None)"

text \<open>\<open>strconv.ParseUint\<close> with base 10 and 32 bits: digits only.\<close>

definition parse_uint32 :: "string \<Rightarrow> int option" where
  "parse_uint32 s = (if s = [] \<or> \<not> list_all is_digit s \<or> 2 ^ 32 \<le> digits_val s then None
     else Some (digits_val s))"

lemma byte_digit_char: "d < 10 \<Longrightarrow> byte (digit_char d) = 48 + int d"
  by (simp add: digit_char_def)

lemma is_digit_digit_char: "d < 10 \<Longrightarrow> is_digit (digit_char d)"
  by (simp add: is_digit_def byte_digit_char)

lemma show_nat_digits: "list_all is_digit (show_nat n)"
proof (induction n rule: show_nat.induct)
  case (1 n)
  then show ?case
    by (subst show_nat.simps) (simp add: is_digit_digit_char)
qed

lemma show_nat_not_Nil [simp]: "show_nat n \<noteq> []"
  by (subst show_nat.simps) simp

lemma digits_val_append [simp]: "digits_val (s @ [c]) = digits_val s * 10 + (byte c - 48)"
  by (simp add: digits_val_def)

lemma digits_val_show_nat [simp]: "digits_val (show_nat n) = int n"
proof (induction n rule: show_nat.induct)
  case (1 n)
  show ?case
  proof (cases "n < 10")
    case True
    then show ?thesis by (subst show_nat.simps) (simp add: digits_val_def byte_digit_char)
  next
    case False
    with 1 have "digits_val (show_nat (n div 10)) = int (n div 10)" by simp
    moreover have "byte (digit_char (n mod 10)) - 48 = int (n mod 10)" by (simp add: byte_digit_char)
    moreover have "int n = int (n div 10) * 10 + int (n mod 10)" by presburger
    ultimately show ?thesis
      using False by (subst show_nat.simps) simp
  qed
qed

lemma show_nat_no_leading_zero: "1 < length (show_nat n) \<Longrightarrow> hd (show_nat n) \<noteq> CHR ''0''"
proof (induction n rule: show_nat.induct)
  case (1 n)
  show ?case
  proof (cases "n < 10")
    case True
    then show ?thesis using 1(2) by (simp add: show_nat.simps [of n])
  next
    case False
    have hd: "hd (show_nat n) = hd (show_nat (n div 10))"
      using False by (simp add: show_nat.simps [of n] hd_append)
    show ?thesis
    proof (cases "1 < length (show_nat (n div 10))")
      case True
      then show ?thesis using 1(1) False hd by simp
    next
      case small: False
      then have d: "n div 10 < 10"
        by (cases "n div 10 < 10") (auto simp: show_nat.simps [of "n div 10"] Suc_lessI)
      have "digit_char (n div 10) \<noteq> CHR ''0''"
        using False d byte_digit_char [of "n div 10"] by auto
      then show ?thesis using hd d by (simp add: show_nat.simps [of "n div 10"])
    qed
  qed
qed

lemma foldl_digits_mono:
  "0 \<le> n \<Longrightarrow> list_all is_digit ds \<Longrightarrow> n \<le> foldl (\<lambda>n c. n * 10 + (byte c - 48)) n ds"
proof (induction ds arbitrary: n)
  case (Cons d ds)
  have "0 \<le> byte d - 48" using Cons.prems(2) by (simp add: is_digit_def)
  then have "n \<le> n * 10 + (byte d - 48)" "0 \<le> n * 10 + (byte d - 48)" using Cons.prems(1) by linarith+
  moreover have "list_all is_digit ds" using Cons.prems(2) by simp
  ultimately show ?case using Cons.IH [of "n * 10 + (byte d - 48)"] by simp
qed simp

lemma digits_val_nonneg: "list_all is_digit ds \<Longrightarrow> 0 \<le> digits_val ds"
  using foldl_digits_mono [of 0 ds] by (simp add: digits_val_def)

lemma parse_int64_digits:
  "list_all is_digit s \<Longrightarrow> parse_int64 s = (if s = [] \<or> 2 ^ 63 \<le> digits_val s then None else Some (digits_val s))"
  using digits_val_nonneg [of s] by (cases s) (auto simp: parse_int64_def Let_def is_digit_def)

text \<open>The definitions that evaluate the case functions and affixes on literals.\<close>

lemmas str_eval = to_lower_def lower_byte_def upper_byte_def is_upper_def is_lower_def has_suffix_def
  has_prefix_def trim_prefix_def trim_suffix_def char_of_def

end
