(* ===== verification/SpfMacro.thy ===== *)
theory SpfMacro
  imports GoStrings "HOL-Library.Word"
begin

section \<open>SPF macro strings (internal/spf/macro.go)\<close>

text \<open>
  The parser of macro-strings (RFC 7208 section 7.1) and the checks of the end of a domain-spec.  A
  token is the Go struct; a literal has the letter 0.  The errors are constructors, one per
  \<^verbatim>\<open>errors.New\<close> or \<^verbatim>\<open>fmt.Errorf\<close> of the source, with the byte the message shows.
\<close>

unbundle bit_operations_syntax

record macro_token =
  mt_literal :: string
  mt_letter :: char
  mt_url_escape :: bool
  mt_digits :: int
  mt_reverse :: bool
  mt_delims :: string

type_synonym macro_string = "macro_token list"

datatype macro_error = InvalidMacroChar char | DanglingPercent | UnterminatedMacro | InvalidEscape char
  | EmptyMacro | ExpOnlyLetter char | UnknownLetter char | ZeroDigits | InvalidDelimiter char

definition no_letter :: char where
  "no_letter = CHR 0x00"

definition literal_token :: "string \<Rightarrow> macro_token" where
  "literal_token s = \<lparr>mt_literal = s, mt_letter = no_letter, mt_url_escape = False, mt_digits = 0,
     mt_reverse = False, mt_delims = []\<rparr>"

definition has_macros :: "macro_string \<Rightarrow> bool" where
  "has_macros m \<longleftrightarrow> list_ex (\<lambda>t. mt_letter t \<noteq> no_letter) m"

subsection \<open>Parsing\<close>

definition macro_delims :: string where
  "macro_delims = ''.-+,/_=''"

definition macro_letters :: string where
  "macro_letters = ''slodiphv''"

definition exp_letters :: string where
  "exp_letters = ''crt''"

text \<open>The digits are added up until the sum exceeds 1000.\<close>

fun sum_digits :: "int \<Rightarrow> string \<Rightarrow> int" where
  "sum_digits n [] = n"
| "sum_digits n (d # ds) = (let n' = n * 10 + (byte d - 48) in if 1000 < n' then n' else sum_digits n' ds)"

definition parse_macro_expand :: "string \<Rightarrow> bool \<Rightarrow> macro_error + macro_token" where
  "parse_macro_expand body exp_expansion = (case body of
     [] \<Rightarrow> Inl EmptyMacro
   | c # rest \<Rightarrow>
      let letter = char_of (byte c OR 0x20) in
      if letter \<in> set exp_letters \<and> \<not> exp_expansion then Inl (ExpOnlyLetter c)
      else if letter \<notin> set macro_letters \<and> letter \<notin> set exp_letters then Inl (UnknownLetter c)
      else
        let ds = takeWhile is_digit rest; n = sum_digits 0 ds in
        if ds \<noteq> [] \<and> n = 0 then Inl ZeroDigits
        else
          let rest1 = drop (length ds) rest;
              rev_letter = (rest1 \<noteq> [] \<and> (hd rest1 = CHR ''r'' \<or> hd rest1 = CHR ''R''));
              rest2 = (if rev_letter then tl rest1 else rest1)
          in case find (\<lambda>d. d \<notin> set macro_delims) rest2 of
               Some d \<Rightarrow> Inl (InvalidDelimiter d)
             | None \<Rightarrow> Inr \<lparr>mt_literal = [], mt_letter = letter, mt_url_escape = is_upper c,
                 mt_digits = (if ds \<noteq> [] then n else 0), mt_reverse = rev_letter, mt_delims = rest2\<rparr>)"

definition flush_literal :: "string \<Rightarrow> macro_string \<Rightarrow> macro_string" where
  "flush_literal lit out = (if lit \<noteq> [] then out @ [literal_token lit] else out)"

text \<open>The loop of \<^verbatim>\<open>parseMacroString\<close>: the rest of the input, the literal being built and the output.\<close>

function macro_loop :: "bool \<Rightarrow> string \<Rightarrow> string \<Rightarrow> macro_string \<Rightarrow> macro_error + macro_string" where
  "macro_loop xp [] lit out = Inr (flush_literal lit out)"
| "macro_loop xp (c # s) lit out =
     (if c \<noteq> CHR ''%'' then
        if byte c < 0x21 \<or> 0x7e < byte c then Inl (InvalidMacroChar c)
        else macro_loop xp s (lit @ [c]) out
      else case s of
        [] \<Rightarrow> Inl DanglingPercent
      | d # rest \<Rightarrow>
          if d = CHR ''%'' then macro_loop xp rest (lit @ ''%'') out
          else if d = CHR ''_'' then macro_loop xp rest (lit @ '' '') out
          else if d = CHR ''-'' then macro_loop xp rest (lit @ ''%20'') out
          else if d = CHR ''{'' then
            (case index_byte rest (CHR ''}'') of
               None \<Rightarrow> Inl UnterminatedMacro
             | Some end' \<Rightarrow> (case parse_macro_expand (take end' rest) xp of
                 Inl e \<Rightarrow> Inl e
               | Inr tok \<Rightarrow> macro_loop xp (drop (Suc end') rest) [] (flush_literal lit out @ [tok])))
          else Inl (InvalidEscape d))"
  by pat_completeness auto
termination by (relation "measure (\<lambda>(xp, s, lit, out). length s)") auto

declare macro_loop.simps [simp del]

definition parse_macro_string :: "string \<Rightarrow> bool \<Rightarrow> macro_error + macro_string" where
  "parse_macro_string s exp_expansion = macro_loop exp_expansion s [] []"

definition valid_top_label :: "string \<Rightarrow> bool" where
  "valid_top_label s = (
     if s = [] \<or> 63 < length s then False
     else if list_ex (\<lambda>c. \<not> (is_alpha c \<or> is_digit c \<or> c = CHR ''-'')) s then False
     else if CHR ''-'' \<in> set s then hd s \<noteq> CHR ''-'' \<and> last s \<noteq> CHR ''-''
     else list_ex is_alpha s)"

definition valid_domain_end :: "macro_string \<Rightarrow> bool" where
  "valid_domain_end m = (
     if m = [] then False
     else if mt_letter (last m) \<noteq> no_letter then True
     else let s = trim_suffix (mt_literal (last m)) ''.'' in
       (case last_index_byte s (CHR ''.'') of
          None \<Rightarrow> False
        | Some i \<Rightarrow> if has_suffix (take i s) ''.'' then False else valid_top_label (drop (Suc i) s)))"

subsection \<open>Well-formed tokens\<close>

text \<open>What the parser produces: letters it knows, at most four digits, delimiters of the grammar.\<close>

definition macro_token_ok :: "bool \<Rightarrow> macro_token \<Rightarrow> bool" where
  "macro_token_ok xp t \<longleftrightarrow>
     (if mt_letter t = no_letter then
        mt_literal t \<noteq> [] \<and> list_all (\<lambda>c. 0x20 \<le> byte c \<and> byte c \<le> 0x7e) (mt_literal t)
        \<and> \<not> mt_url_escape t \<and> mt_digits t = 0 \<and> \<not> mt_reverse t \<and> mt_delims t = []
      else mt_literal t = []
        \<and> mt_letter t \<in> set macro_letters \<union> (if xp then set exp_letters else {})
        \<and> 0 \<le> mt_digits t \<and> mt_digits t \<le> 10009
        \<and> set (mt_delims t) \<subseteq> set macro_delims)"

lemma sum_digits_bound: "0 \<le> n \<Longrightarrow> n \<le> 1000 \<Longrightarrow> list_all is_digit ds \<Longrightarrow> sum_digits n ds \<le> 10009"
proof (induction ds arbitrary: n)
  case (Cons d ds)
  then show ?case by (auto simp: Let_def is_digit_def)
qed simp

lemma sum_digits_nonneg: "0 \<le> n \<Longrightarrow> list_all is_digit ds \<Longrightarrow> 0 \<le> sum_digits n ds"
proof (induction ds arbitrary: n)
  case (Cons d ds)
  then show ?case by (auto simp: Let_def is_digit_def)
qed simp

lemma takeWhile_digits: "list_all is_digit (takeWhile is_digit s)"
  by (auto simp: list_all_iff dest: set_takeWhileD)

lemma find_None_subset: "find (\<lambda>d. d \<notin> A) s = None \<longleftrightarrow> set s \<subseteq> A"
  by (auto simp: find_None_iff)

lemma macro_letters_not_none: "no_letter \<notin> set macro_letters" "no_letter \<notin> set exp_letters"
  by (simp_all add: no_letter_def macro_letters_def exp_letters_def)

lemma parse_macro_expand_ok:
  assumes "parse_macro_expand body xp = Inr t"
  shows "macro_token_ok xp t \<and> mt_letter t \<noteq> no_letter"
proof -
  obtain c rest where b: "body = c # rest"
    using assms by (cases body) (auto simp: parse_macro_expand_def)
  have "0 \<le> sum_digits 0 (takeWhile is_digit rest)" "sum_digits 0 (takeWhile is_digit rest) \<le> 10009"
    by (simp_all add: sum_digits_nonneg sum_digits_bound takeWhile_digits)
  then show ?thesis
    using assms macro_letters_not_none
    by (auto simp: b parse_macro_expand_def Let_def macro_token_ok_def find_None_subset split: if_splits option.splits)
qed

lemma flush_literal_ok:
  assumes "list_all (macro_token_ok xp) out" and "list_all (\<lambda>c. 0x20 \<le> byte c \<and> byte c \<le> 0x7e) lit"
  shows "list_all (macro_token_ok xp) (flush_literal lit out)"
  using assms by (simp add: flush_literal_def macro_token_ok_def literal_token_def)

lemma macro_loop_ok:
  "macro_loop xp s lit out = Inr m \<Longrightarrow> list_all (macro_token_ok xp) out \<Longrightarrow>
   list_all (\<lambda>c. 0x20 \<le> byte c \<and> byte c \<le> 0x7e) lit \<Longrightarrow> list_all (macro_token_ok xp) m"
proof (induction xp s lit out rule: macro_loop.induct)
  case (1 xp lit out)
  then show ?case by (auto simp: macro_loop.simps flush_literal_ok)
next
  case (2 xp c s lit out)
  show ?case
  proof (cases "c = CHR ''%''")
    case False
    then show ?thesis using 2(1) "2.prems" by (auto simp: macro_loop.simps(2) [of _ c] split: if_splits)
  next
    case True
    then obtain d rest where s: "s = d # rest"
      using "2.prems"(1) by (cases s) (auto simp: macro_loop.simps(2))
    show ?thesis
      using 2(2-5) [OF _ s] "2.prems" True parse_macro_expand_ok flush_literal_ok
      by (auto simp: s macro_loop.simps(2) split: if_splits option.splits sum.splits)
  qed
qed

lemma parse_macro_string_ok: "parse_macro_string s xp = Inr m \<Longrightarrow> list_all (macro_token_ok xp) m"
  unfolding parse_macro_string_def by (rule macro_loop_ok) auto

subsection \<open>Writing a macro string\<close>

text \<open>
  The textual form of a list of tokens (the program itself never writes one): a space is \<^verbatim>\<open>%_\<close>, a percent
  sign is \<^verbatim>\<open>%%\<close>, and a macro is its letter, in upper case for URL escaping, the digits, \<^verbatim>\<open>r\<close> and the
  delimiters in braces.
\<close>

definition show_literal_byte :: "char \<Rightarrow> string" where
  "show_literal_byte c = (if c = CHR '' '' then ''%_'' else if c = CHR ''%'' then ''%%'' else [c])"

definition show_expand_body :: "macro_token \<Rightarrow> string" where
  "show_expand_body t = (if mt_url_escape t then upper_byte (mt_letter t) else mt_letter t)
     # (if mt_digits t = 0 then [] else show_nat (nat (mt_digits t)))
     @ (if mt_reverse t then ''r'' else []) @ mt_delims t"

definition show_token :: "macro_token \<Rightarrow> string" where
  "show_token t = (if mt_letter t = no_letter then concat (map show_literal_byte (mt_literal t))
     else ''%{'' @ show_expand_body t @ ''}'')"

text \<open>A list the parser can produce: no two literals follow each other.\<close>

fun no_adjacent_literals :: "macro_string \<Rightarrow> bool" where
  "no_adjacent_literals (t # u # ts) \<longleftrightarrow>
     \<not> (mt_letter t = no_letter \<and> mt_letter u = no_letter) \<and> no_adjacent_literals (u # ts)"
| "no_adjacent_literals _ = True"

lemma sum_digits_append:
  "0 \<le> n \<Longrightarrow> list_all is_digit ds \<Longrightarrow> foldl (\<lambda>n c. n * 10 + (byte c - 48)) n ds \<le> 1000 \<Longrightarrow>
   sum_digits n ds = foldl (\<lambda>n c. n * 10 + (byte c - 48)) n ds"
proof (induction ds arbitrary: n)
  case (Cons d ds)
  let ?m = "n * 10 + (byte d - 48)"
  have m: "0 \<le> ?m" using Cons.prems by (auto simp: is_digit_def)
  have "?m \<le> foldl (\<lambda>n c. n * 10 + (byte c - 48)) ?m ds" using foldl_digits_mono [OF m, of ds] Cons.prems(2) by simp
  then have "?m \<le> 1000" using Cons.prems(3) unfolding foldl.simps by linarith
  then show ?case using Cons m by (simp add: Let_def)
qed simp

lemma sum_digits_show_nat:
  assumes "n \<le> 1000"
  shows "sum_digits 0 (show_nat n) = int n"
  using sum_digits_append [of 0 "show_nat n"] assms digits_val_show_nat [of n]
  by (simp add: show_nat_digits digits_val_def del: digits_val_show_nat)

definition macro_printable :: "bool \<Rightarrow> macro_token \<Rightarrow> bool" where
  "macro_printable xp t \<longleftrightarrow> macro_token_ok xp t \<and> mt_digits t \<le> 1000"

lemma lower_upper_letters:
  "list_all (\<lambda>c. char_of (byte c OR 32) = c \<and> char_of (byte (upper_byte c) OR 32) = c
     \<and> \<not> is_upper c \<and> is_upper (upper_byte c)) (macro_letters @ exp_letters)"
  by (simp add: macro_letters_def exp_letters_def str_eval)

lemma letters_disjoint: "set macro_letters \<inter> set exp_letters = {}"
  by (simp add: macro_letters_def exp_letters_def)

lemma delims_no_digit:
  "list_all (\<lambda>c. \<not> is_digit c \<and> c \<noteq> CHR ''r'' \<and> c \<noteq> CHR ''R'' \<and> c \<noteq> CHR ''}'') macro_delims"
  by (simp add: macro_delims_def is_digit_def)

lemma takeWhile_show_nat:
  "rest = [] \<or> \<not> is_digit (hd rest) \<Longrightarrow> takeWhile is_digit (show_nat n @ rest) = show_nat n"
  using show_nat_digits [of n] by (cases rest) (auto simp: list_all_iff takeWhile_append2)

lemma parse_show_expand:
  assumes ok: "macro_printable xp t" and m: "mt_letter t \<noteq> no_letter"
  shows "parse_macro_expand (show_expand_body t) xp = Inr t"
proof -
  let ?l = "mt_letter t"
  have l: "?l \<in> set macro_letters \<union> (if xp then set exp_letters else {})"
    and d: "0 \<le> mt_digits t" "mt_digits t \<le> 1000" and del: "set (mt_delims t) \<subseteq> set macro_delims"
    and lit: "mt_literal t = []"
    using ok m by (auto simp: macro_printable_def macro_token_ok_def)
  then have "?l \<in> set (macro_letters @ exp_letters)" by (auto split: if_splits)
  then have c: "char_of (byte ?l OR 32) = ?l" "char_of (byte (upper_byte ?l) OR 32) = ?l"
    "\<not> is_upper ?l" "is_upper (upper_byte ?l)"
    using lower_upper_letters by (auto simp only: list_all_iff)
  let ?ds = "if mt_digits t = 0 then [] else show_nat (nat (mt_digits t))"
  let ?rest = "(if mt_reverse t then ''r'' else []) @ mt_delims t"
  have hd: "?rest = [] \<or> \<not> is_digit (hd ?rest)" "mt_delims t \<noteq> [] \<longrightarrow> hd (mt_delims t) \<notin> {CHR ''r'', CHR ''R''}"
    using delims_no_digit del by (cases "mt_delims t"; auto simp: list_all_iff is_digit_def)+
  have tw: "takeWhile is_digit (?ds @ ?rest) = ?ds"
    using takeWhile_show_nat [OF hd(1)] hd(1) by (cases ?rest) auto
  have n: "sum_digits 0 ?ds = mt_digits t"
    using d sum_digits_show_nat [of "nat (mt_digits t)"] by simp
  have dr: "drop (length ?ds) (?ds @ ?rest) = ?rest" by simp
  have fd: "find (\<lambda>d. d \<notin> set macro_delims) (mt_delims t) = None"
    using del by (auto simp: find_None_iff)
  let ?c = "if mt_url_escape t then upper_byte ?l else ?l"
  have c': "char_of (byte ?c OR 32) = ?l" "is_upper ?c = mt_url_escape t"
    using c by auto
  have body: "show_expand_body t = ?c # ?ds @ ?rest" by (simp add: show_expand_body_def)
  have lx: "\<not> (?l \<in> set exp_letters \<and> \<not> xp)" "\<not> (?l \<notin> set macro_letters \<and> ?l \<notin> set exp_letters)"
    using l letters_disjoint by (auto split: if_splits)
  have z: "\<not> (?ds \<noteq> [] \<and> mt_digits t = 0)" by simp
  have rl: "(?rest \<noteq> [] \<and> (hd ?rest = CHR ''r'' \<or> hd ?rest = CHR ''R'')) = mt_reverse t"
    using hd(2) by auto
  have r2: "(if mt_reverse t then tl ?rest else ?rest) = mt_delims t" by simp
  show ?thesis
    unfolding body parse_macro_expand_def list.case Let_def c' tw n dr rl r2 fd option.case
    using lx z lit by simp
qed

lemma macro_loop_literal_byte:
  assumes "0x20 \<le> byte c" and "byte c \<le> 0x7e"
  shows "macro_loop xp (show_literal_byte c @ s) lit out = macro_loop xp s (lit @ [c]) out"
proof -
  consider "c = CHR '' ''" | "c = CHR ''%''" | "c \<noteq> CHR '' ''" "c \<noteq> CHR ''%''" by blast
  then show ?thesis
  proof cases
    case 3
    have "byte c \<noteq> 0x20"
      using byte_inject [of c "CHR '' ''"] 3(1) by simp
    then show ?thesis using assms 3 by (simp add: show_literal_byte_def macro_loop.simps(2) [of xp c])
  qed (simp_all add: show_literal_byte_def macro_loop.simps(2))
qed

lemma macro_loop_literal:
  "list_all (\<lambda>c. 0x20 \<le> byte c \<and> byte c \<le> 0x7e) l \<Longrightarrow>
     macro_loop xp (concat (map show_literal_byte l) @ s) lit out = macro_loop xp s (lit @ l) out"
  by (induction l arbitrary: lit) (simp_all add: macro_loop_literal_byte)

lemma no_brace:
  "list_all (\<lambda>c. c \<noteq> CHR ''}'' \<and> upper_byte c \<noteq> CHR ''}'') (macro_letters @ exp_letters)"
  by (simp add: macro_letters_def exp_letters_def str_eval)

lemma show_nat_no_brace: "CHR ''}'' \<notin> set (show_nat n)"
proof
  assume "CHR ''}'' \<in> set (show_nat n)"
  then have "is_digit CHR ''}''" using show_nat_digits [of n] unfolding list_all_iff by blast
  then show False by (simp add: is_digit_def)
qed

lemma show_expand_no_brace:
  assumes "macro_printable xp t" and "mt_letter t \<noteq> no_letter"
  shows "CHR ''}'' \<notin> set (show_expand_body t)"
proof -
  have l: "mt_letter t \<in> set (macro_letters @ exp_letters)" and d: "set (mt_delims t) \<subseteq> set macro_delims"
    using assms by (auto simp: macro_printable_def macro_token_ok_def split: if_splits)
  have "mt_letter t \<noteq> CHR ''}''" "upper_byte (mt_letter t) \<noteq> CHR ''}''"
    using l no_brace unfolding list_all_iff by blast+
  moreover have "CHR ''}'' \<notin> set (mt_delims t)"
    using d delims_no_digit unfolding list_all_iff by blast
  ultimately show ?thesis by (simp add: show_expand_body_def show_nat_no_brace)
qed

lemma macro_loop_expand:
  assumes "macro_printable xp t" and "mt_letter t \<noteq> no_letter"
  shows "macro_loop xp (show_token t @ s) lit out = macro_loop xp s [] (flush_literal lit out @ [t])"
  using assms show_expand_no_brace [OF assms] parse_show_expand [OF assms]
  by (simp add: show_token_def macro_loop.simps(2))

lemma literal_token_eq:
  "macro_token_ok xp t \<Longrightarrow> mt_letter t = no_letter \<Longrightarrow> t = literal_token (mt_literal t)"
  by (simp add: macro_token_ok_def literal_token_def)

lemma macro_loop_show:
  assumes "list_all (macro_printable xp) ts" and "no_adjacent_literals ts"
    and "lit \<noteq> [] \<longrightarrow> ts = [] \<or> mt_letter (hd ts) \<noteq> no_letter"
  shows "macro_loop xp (concat (map show_token ts)) lit out = Inr (flush_literal lit out @ ts)"
  using assms
proof (induction ts arbitrary: lit out)
  case Nil
  then show ?case by (simp add: macro_loop.simps)
next
  case (Cons t ts)
  have adj: "no_adjacent_literals ts" using Cons.prems(2) by (cases ts) auto
  show ?case
  proof (cases "mt_letter t = no_letter")
    case False
    then show ?thesis using Cons macro_loop_expand [of xp t] adj by (simp add: flush_literal_def)
  next
    case True
    have ok: "macro_token_ok xp t" using Cons.prems(1) by (simp add: macro_printable_def)
    then have l: "mt_literal t \<noteq> []" "list_all (\<lambda>c. 0x20 \<le> byte c \<and> byte c \<le> 0x7e) (mt_literal t)"
      using True by (auto simp: macro_token_ok_def)
    have "lit = []" using Cons.prems(3) True by auto
    moreover have "ts = [] \<or> mt_letter (hd ts) \<noteq> no_letter"
      using Cons.prems(2) True by (cases ts) auto
    moreover have "show_token t = concat (map show_literal_byte (mt_literal t))"
      using True by (simp add: show_token_def)
    ultimately have "macro_loop xp (concat (map show_token (t # ts))) lit out
        = Inr (flush_literal (mt_literal t) out @ ts)"
      using Cons.IH [of "mt_literal t" out] Cons.prems(1) adj True l
      by (simp add: macro_loop_literal)
    then show ?thesis using l \<open>lit = []\<close> literal_token_eq [OF ok True] by (simp add: flush_literal_def)
  qed
qed

subsection \<open>Properties\<close>

text \<open>
  Round trip of macro strings: the text of any well-formed list of tokens (the letters the
  context allows, up to 1000 kept parts, any delimiters, any printable literal) parses back to exactly
  that list.
\<close>

theorem parse_show_macro_string:
  assumes "list_all (macro_printable xp) ts" and "no_adjacent_literals ts"
  shows "parse_macro_string (concat (map show_token ts)) xp = Inr ts"
  using macro_loop_show [OF assms, of "[]" "[]"] by (simp add: parse_macro_string_def flush_literal_def)

definition sample_macro :: macro_string where
  "sample_macro = [literal_token ''50% of '',
     \<lparr>mt_literal = [], mt_letter = CHR ''l'', mt_url_escape = True, mt_digits = 12, mt_reverse = True, mt_delims = ''-+''\<rparr>,
     literal_token ''.example'']"

theorem parse_show_macro_string_witness:
  "parse_macro_string ''50%%%_of%_%{L12r-+}.example'' False = Inr sample_macro"
proof -
  have "concat (map show_token sample_macro) = ''50%%%_of%_%{L12r-+}.example''"
    by (simp add: sample_macro_def show_token_def literal_token_def no_letter_def show_literal_byte_def
        show_expand_body_def show_nat.simps digit_char_def str_eval)
  moreover have "list_all (macro_printable False) sample_macro" "no_adjacent_literals sample_macro"
    by (simp_all add: sample_macro_def macro_printable_def macro_token_ok_def literal_token_def no_letter_def
        macro_letters_def macro_delims_def)
  ultimately show ?thesis using parse_show_macro_string [of False sample_macro] by simp
qed

text \<open>
  A macro string that parses holds only well-formed tokens: literals of printable bytes,
  the letters \<^verbatim>\<open>c\<close>, \<^verbatim>\<open>r\<close> and \<^verbatim>\<open>t\<close> only in an explanation, a digit count of at most 10009 however long the
  digits are, and only the delimiters of the grammar.
\<close>

theorem parse_macro_string_tokens:
  "case parse_macro_string s xp of Inl e \<Rightarrow> True | Inr m \<Rightarrow> list_all (macro_token_ok xp) m"
  by (auto dest: parse_macro_string_ok split: sum.split)

end
