(* ===== verification/Netip.thy ===== *)
theory Netip
  imports GoStrings "HOL-Library.Word"
begin

unbundle bit_operations_syntax

section \<open>IP addresses and prefixes (Go's net/netip)\<close>

text \<open>
  The operations of the standard package \<^verbatim>\<open>net/netip\<close> that the program calls.  An address is
  the invalid zero value, a 32-bit word or a 128-bit word with a zone; a prefix is an address
  and a length, where the length \<open>-1\<close> is the invalid prefix.
\<close>

datatype addr = AddrZero | Addr4 "32 word" | Addr6 "128 word" string

datatype prefix = Prefix (pf_addr: addr) (pf_bits: int)

fun is4 :: "addr \<Rightarrow> bool" where
  "is4 (Addr4 _) = True"
| "is4 _ = False"

fun is6 :: "addr \<Rightarrow> bool" where
  "is6 (Addr6 _ _) = True"
| "is6 _ = False"

fun bit_len :: "addr \<Rightarrow> int" where
  "bit_len AddrZero = 0"
| "bit_len (Addr4 _) = 32"
| "bit_len (Addr6 _ _) = 128"

fun unmap :: "addr \<Rightarrow> addr" where
  "unmap (Addr6 w z) = (if drop_bit 32 w = 0xffff then Addr4 (ucast w) else Addr6 w z)"
| "unmap a = a"

fun without_zone :: "addr \<Rightarrow> addr" where
  "without_zone (Addr6 w _) = Addr6 w []"
| "without_zone a = a"

fun zone :: "addr \<Rightarrow> string" where
  "zone (Addr6 _ z) = z"
| "zone _ = []"

lemma unmap_idem [simp]: "unmap (unmap a) = unmap a"
  by (cases a) auto

lemma is4_not_is6: "is4 a \<Longrightarrow> \<not> is6 a"
  by (cases a) auto

subsection \<open>Prefixes\<close>

definition prefix_from :: "addr \<Rightarrow> int \<Rightarrow> prefix" where
  "prefix_from a b = Prefix (without_zone a) (if 0 \<le> b \<and> b \<le> bit_len a \<and> a \<noteq> AddrZero then b else -1)"

text \<open>Clearing the host bits, and the prefix of an address (\<open>Addr.Prefix\<close>).\<close>

fun mask_addr :: "addr \<Rightarrow> int \<Rightarrow> addr" where
  "mask_addr (Addr4 w) b = Addr4 (push_bit (nat (32 - b)) (drop_bit (nat (32 - b)) w))"
| "mask_addr (Addr6 w z) b = Addr6 (push_bit (nat (128 - b)) (drop_bit (nat (128 - b)) w)) []"
| "mask_addr AddrZero b = AddrZero"

definition masked :: "prefix \<Rightarrow> prefix" where
  "masked p = (if pf_bits p < 0 then Prefix AddrZero (-1) else Prefix (mask_addr (pf_addr p) (pf_bits p)) (pf_bits p))"

definition addr_prefix :: "addr \<Rightarrow> int \<Rightarrow> prefix option" where
  "addr_prefix a b =
     (if b < 0 then None
      else if a = AddrZero then Some (Prefix AddrZero (-1))
      else if bit_len a < b then None
      else Some (Prefix (mask_addr a b) b))"

fun prefix_contains :: "prefix \<Rightarrow> addr \<Rightarrow> bool" where
  "prefix_contains (Prefix (Addr4 p) b) (Addr4 w) = (0 \<le> b \<and> drop_bit (nat (32 - b)) (w XOR p) = 0)"
| "prefix_contains (Prefix (Addr6 p _) b) (Addr6 w z) = (0 \<le> b \<and> z = [] \<and> drop_bit (nat (128 - b)) (w XOR p) = 0)"
| "prefix_contains _ _ = False"

lemma word_xor_eq_0_iff [simp]:
  fixes a b :: "'a::len word"
  shows "a XOR b = 0 \<longleftrightarrow> a = b"
  by (auto simp: bit_eq_iff bit_xor_iff)

lemma drop_bit_xor_eq_0_iff:
  fixes a b :: "'a::len word"
  shows "drop_bit n (a XOR b) = 0 \<longleftrightarrow> drop_bit n a = drop_bit n b"
  by (simp add: drop_bit_xor)

lemma drop_push_drop_bit:
  fixes w :: "'a::len word"
  shows "drop_bit n (push_bit n (drop_bit n w)) = drop_bit n w"
  by (rule bit_word_eqI) (auto simp: bit_simps dest: bit_imp_le_length)

text \<open>A masked prefix contains exactly the addresses that agree with it on its network bits.\<close>

lemma prefix_contains_masked4:
  "0 \<le> b \<Longrightarrow> prefix_contains (masked (Prefix (Addr4 p) b)) (Addr4 w)
     \<longleftrightarrow> drop_bit (nat (32 - b)) w = drop_bit (nat (32 - b)) p"
  by (simp add: masked_def drop_bit_xor_eq_0_iff drop_push_drop_bit del: drop_bit_xor)

lemma prefix_contains_masked6:
  "0 \<le> b \<Longrightarrow> prefix_contains (masked (Prefix (Addr6 p y) b)) (Addr6 w [])
     \<longleftrightarrow> drop_bit (nat (128 - b)) w = drop_bit (nat (128 - b)) p"
  by (simp add: masked_def drop_bit_xor_eq_0_iff drop_push_drop_bit del: drop_bit_xor)

lemma prefix_contains_family:
  "prefix_contains p a \<Longrightarrow> is4 (pf_addr p) = is4 a \<and> is6 (pf_addr p) = is6 a"
  by (cases p; cases "pf_addr p"; cases a) auto

subsection \<open>Address classes\<close>

fun is_unspecified :: "addr \<Rightarrow> bool" where
  "is_unspecified (Addr4 w) = (w = 0)"
| "is_unspecified (Addr6 w z) = (w = 0 \<and> z = [])"
| "is_unspecified AddrZero = False"

fun is_loopback :: "addr \<Rightarrow> bool" where
  "is_loopback (Addr4 w) = (drop_bit 24 w = 127)"
| "is_loopback (Addr6 w z) = (if drop_bit 32 w = 0xffff then drop_bit 24 (ucast w :: 32 word) = 127 else w = 1)"
| "is_loopback AddrZero = False"

text \<open>
  The remaining predicates look at an IPv4-mapped address as IPv4 too; the program only calls
  them after \<open>unmap\<close>, so the 128-bit equations are those of a true IPv6 address.
\<close>

fun is_private :: "addr \<Rightarrow> bool" where
  "is_private (Addr4 w) = (drop_bit 24 w = 10 \<or> drop_bit 20 w = 0xac1 \<or> drop_bit 16 w = 0xc0a8)"
| "is_private (Addr6 w z) = (drop_bit 121 w = 0x7e)"
| "is_private AddrZero = False"

fun is_link_local_unicast :: "addr \<Rightarrow> bool" where
  "is_link_local_unicast (Addr4 w) = (drop_bit 16 w = 0xa9fe)"
| "is_link_local_unicast (Addr6 w z) = (drop_bit 118 w = 0x3fa)"
| "is_link_local_unicast AddrZero = False"

fun is_link_local_multicast :: "addr \<Rightarrow> bool" where
  "is_link_local_multicast (Addr4 w) = (drop_bit 8 w = 0xe00000)"
| "is_link_local_multicast (Addr6 w z) = ((drop_bit 112 w) AND 0xff0f = 0xff02)"
| "is_link_local_multicast AddrZero = False"

fun is_multicast :: "addr \<Rightarrow> bool" where
  "is_multicast (Addr4 w) = (drop_bit 28 w = 0xe)"
| "is_multicast (Addr6 w z) = (drop_bit 120 w = 0xff)"
| "is_multicast AddrZero = False"

fun is_interface_local_multicast :: "addr \<Rightarrow> bool" where
  "is_interface_local_multicast (Addr6 w z) = ((drop_bit 112 w) AND 0xff0f = 0xff01)"
| "is_interface_local_multicast _ = False"

subsection \<open>Bytes of an address\<close>

definition byte4 :: "32 word \<Rightarrow> nat \<Rightarrow> 8 word" where
  "byte4 w i = ucast (drop_bit (8 * (3 - i)) w)"

definition byte16 :: "128 word \<Rightarrow> nat \<Rightarrow> 8 word" where
  "byte16 w i = ucast (drop_bit (8 * (15 - i)) w)"

definition addr_from4 :: "8 word \<Rightarrow> 8 word \<Rightarrow> 8 word \<Rightarrow> 8 word \<Rightarrow> addr" where
  "addr_from4 a b c d = Addr4 (push_bit 24 (ucast a) OR push_bit 16 (ucast b) OR push_bit 8 (ucast c) OR ucast d)"

lemma addr_from4_bytes:
  fixes w :: "128 word"
  shows "addr_from4 (ucast (drop_bit (k + 24) w)) (ucast (drop_bit (k + 16) w))
           (ucast (drop_bit (k + 8) w)) (ucast (drop_bit k w)) = Addr4 (ucast (drop_bit k w))"
proof -
  have "(push_bit 24 (ucast (ucast (drop_bit (k + 24) w) :: 8 word)) OR
      push_bit 16 (ucast (ucast (drop_bit (k + 16) w) :: 8 word)) OR
      push_bit 8 (ucast (ucast (drop_bit (k + 8) w) :: 8 word)) OR
      ucast (ucast (drop_bit k w) :: 8 word) :: 32 word) = ucast (drop_bit k w)" (is "?l = ?r")
  proof (rule bit_word_eqI)
    fix n assume "n < LENGTH(32)"
    then have n: "n < 32" by simp
    consider "n < 8" | "8 \<le> n" "n < 16" | "16 \<le> n" "n < 24" | "24 \<le> n" by linarith
    then show "bit ?l n \<longleftrightarrow> bit ?r n"
      using n by cases (auto simp add: bit_simps ac_simps)
  qed
  then show ?thesis by (simp add: addr_from4_def)
qed

subsection \<open>Printing\<close>

definition show_ip4 :: "32 word \<Rightarrow> string" where
  "show_ip4 w = show_nat (unat (byte4 w 0)) @ ''.'' @ show_nat (unat (byte4 w 1)) @ ''.''
     @ show_nat (unat (byte4 w 2)) @ ''.'' @ show_nat (unat (byte4 w 3))"

definition hex_digit :: "int \<Rightarrow> char" where
  "hex_digit d = (if d < 10 then char_of (48 + d) else char_of (87 + d))"

fun show_hex :: "int \<Rightarrow> string" where
  "show_hex n = (if n < 16 then [hex_digit n] else show_hex (n div 16) @ [hex_digit (n mod 16)])"

declare show_hex.simps [simp del]

definition group6 :: "128 word \<Rightarrow> nat \<Rightarrow> int" where
  "group6 w i = uint (take_bit 16 (drop_bit (16 * (7 - i)) w))"

text \<open>The longest run of at least two zero groups, the first one when several are longest.\<close>

fun zero_run :: "int list \<Rightarrow> nat" where
  "zero_run [] = 0"
| "zero_run (g # gs) = (if g = 0 then Suc (zero_run gs) else 0)"

fun best_run :: "nat \<Rightarrow> int list \<Rightarrow> (nat \<times> nat) \<Rightarrow> (nat \<times> nat)" where
  "best_run i [] b = b"
| "best_run i (g # gs) (s, l) =
     (let r = zero_run (g # gs) in best_run (Suc i) gs (if 2 \<le> r \<and> l < r then (i, r) else (s, l)))"

fun show_groups :: "nat \<Rightarrow> int list \<Rightarrow> (nat \<times> nat) \<Rightarrow> string" where
  "show_groups i [] b = []"
| "show_groups i (g # gs) (s, l) =
     (if 0 < l \<and> i = s then ''::'' @ show_groups (i + 1) gs (s, l)
      else if 0 < l \<and> s < i \<and> i < s + l then show_groups (i + 1) gs (s, l)
      else (if i = 0 \<or> 0 < l \<and> i = s + l then [] else '':'') @ show_hex g @ show_groups (i + 1) gs (s, l))"

definition show_ip6 :: "128 word \<Rightarrow> string" where
  "show_ip6 w = (let gs = map (group6 w) [0..<8] in show_groups 0 gs (best_run 0 gs (0, 0)))"

fun addr_string :: "addr \<Rightarrow> string" where
  "addr_string AddrZero = ''invalid IP''"
| "addr_string (Addr4 w) = show_ip4 w"
| "addr_string (Addr6 w z) =
     (if drop_bit 32 w = 0xffff then ''::ffff:'' @ show_ip4 (ucast w) else show_ip6 w)
     @ (if z = [] then [] else CHR ''%'' # z)"

subsection \<open>Parsing\<close>

text \<open>
  \<open>parseIPv4Fields\<close>: four decimal fields without leading zeros.  The state is the value and
  the number of digits of the current field and the finished fields.
\<close>

fun ip4_fields :: "string \<Rightarrow> int \<Rightarrow> nat \<Rightarrow> int list \<Rightarrow> int list option" where
  "ip4_fields [] val dig fs = (if length fs = 3 \<and> 0 < dig then Some (fs @ [val]) else None)"
| "ip4_fields (c # cs) val dig fs =
     (if is_digit c then
        (if dig = 1 \<and> val = 0 then None
         else let v = val * 10 + (byte c - 48)
              in if 255 < v then None else ip4_fields cs v (Suc dig) fs)
      else if c = CHR ''.'' then
        (if dig = 0 \<or> cs = [] \<or> length fs = 3 then None else ip4_fields cs 0 0 (fs @ [val]))
      else None)"

definition ip4_of_fields :: "int list \<Rightarrow> 32 word" where
  "ip4_of_fields fs = of_int (foldl (\<lambda>n f. n * 256 + f) 0 fs)"

definition parse_ip4 :: "string \<Rightarrow> addr option" where
  "parse_ip4 s = map_option (\<lambda>fs. Addr4 (ip4_of_fields fs)) (ip4_fields s 0 0 [])"

definition hex_val :: "char \<Rightarrow> int option" where
  "hex_val c = (if is_digit c then Some (byte c - 48)
     else if 97 \<le> byte c \<and> byte c \<le> 102 then Some (byte c - 87)
     else if 65 \<le> byte c \<and> byte c \<le> 70 then Some (byte c - 55) else None)"

text \<open>The hexadecimal run at the start of a group: its value, its length, the rest.\<close>

fun hex_run :: "string \<Rightarrow> int \<Rightarrow> nat \<Rightarrow> int \<times> nat \<times> string" where
  "hex_run [] acc k = (acc, k, [])"
| "hex_run (c # cs) acc k = (case hex_val c of
     None \<Rightarrow> (acc, k, c # cs) | Some v \<Rightarrow> hex_run cs (acc * 16 + v) (Suc k))"

text \<open>
  The group loop of \<open>parseIPv6\<close>: the groups so far (16-bit values), the position of the
  ellipsis (in groups) and the rest of the input.  A dotted quad adds two groups.
\<close>

fun ip6_groups :: "nat \<Rightarrow> string \<Rightarrow> int list \<Rightarrow> nat option \<Rightarrow> (int list \<times> nat option) option" where
  "ip6_groups 0 s gs el = (if s = [] then Some (gs, el) else None)"
| "ip6_groups (Suc n) s gs el =
     (let (acc, k, rest) = hex_run s 0 0 in
      if k = 0 \<or> 4 < k then None
      else (case rest of
        [] \<Rightarrow> Some (gs @ [acc], el)
      | c # cs \<Rightarrow>
          if c = CHR ''.'' then
            (if el = None \<and> length gs \<noteq> 6 \<or> 6 < length gs then None
             else (case ip4_fields s 0 0 [] of
               Some [a, b, c', d] \<Rightarrow> Some (gs @ [a * 256 + b, c' * 256 + d], el) | _ \<Rightarrow> None))
          else if c \<noteq> CHR '':'' \<or> cs = [] then None
          else if hd cs = CHR '':'' then
            (if el \<noteq> None then None
             else if tl cs = [] then Some (gs @ [acc], Some (Suc (length gs)))
             else ip6_groups n (tl cs) (gs @ [acc]) (Some (Suc (length gs))))
          else ip6_groups n cs (gs @ [acc]) el))"

definition ip6_of_groups :: "int list \<Rightarrow> 128 word" where
  "ip6_of_groups gs = of_int (foldl (\<lambda>n g. n * 65536 + g) 0 gs)"

definition ip6_finish :: "int list \<Rightarrow> nat option \<Rightarrow> 128 word option" where
  "ip6_finish gs el = (case el of
     None \<Rightarrow> if length gs = 8 then Some (ip6_of_groups gs) else None
   | Some e \<Rightarrow> if length gs < 8
       then Some (ip6_of_groups (take e gs @ replicate (8 - length gs) 0 @ drop e gs)) else None)"

definition parse_ip6 :: "string \<Rightarrow> addr option" where
  "parse_ip6 inp =
    (let (s, z, has_zone) = cut inp (CHR ''%'') in
     if has_zone \<and> z = [] then None
     else if take 2 s = ''::'' then
       (if drop 2 s = [] then Some (Addr6 0 z)
        else (case ip6_groups 8 (drop 2 s) [] (Some 0) of
          None \<Rightarrow> None | Some (gs, el) \<Rightarrow> map_option (\<lambda>w. Addr6 w z) (ip6_finish gs el)))
     else (case ip6_groups 8 s [] None of
          None \<Rightarrow> None | Some (gs, el) \<Rightarrow> map_option (\<lambda>w. Addr6 w z) (ip6_finish gs el)))"

text \<open>\<open>netip.ParseAddr\<close> dispatches on the first of \<open>.\<close>, \<open>:\<close> and \<open>%\<close>.\<close>

definition parse_addr :: "string \<Rightarrow> addr option" where
  "parse_addr s = (case index_any s ''.:%'' of
     None \<Rightarrow> None
   | Some i \<Rightarrow> if s ! i = CHR ''.'' then parse_ip4 s else if s ! i = CHR '':'' then parse_ip6 s else None)"

end
