(* ===== verification/SpfRecord.thy ===== *)
theory SpfRecord
  imports SpfMacro Netip
begin

section \<open>SPF records (internal/spf/record.go)\<close>

text \<open>
  Terms, records and their parser.  A term is the Go struct; its name stays a string, as in the code,
  where the evaluator switches on it.  A syntax error is a constructor for each message of the source.
  \<open>parse_record\<close> returns the record, if there is one, and the list of term errors; the empty list is Go's nil
  error.
\<close>

subsection \<open>Qualifiers, results and names\<close>

type_synonym qualifier = char

abbreviation qualifier_pass :: qualifier where "qualifier_pass \<equiv> CHR ''+''"
abbreviation qualifier_fail :: qualifier where "qualifier_fail \<equiv> CHR ''-''"
abbreviation qualifier_soft_fail :: qualifier where "qualifier_soft_fail \<equiv> CHR 0x7E"
abbreviation qualifier_neutral :: qualifier where "qualifier_neutral \<equiv> CHR 0x3F"
abbreviation no_qualifier :: qualifier where "no_qualifier \<equiv> CHR 0x00"

datatype spf_result = ResultNone | ResultNeutral | ResultPass | ResultFail | ResultSoftFail
  | ResultTempError | ResultPermError

definition qualifier_result :: "qualifier \<Rightarrow> spf_result" where
  "qualifier_result q = (
     if q = qualifier_fail then ResultFail
     else if q = qualifier_soft_fail then ResultSoftFail
     else if q = qualifier_neutral then ResultNeutral
     else ResultPass)"

abbreviation mech_all :: string where "mech_all \<equiv> ''all''"
abbreviation mech_include :: string where "mech_include \<equiv> ''include''"
abbreviation mech_a :: string where "mech_a \<equiv> ''a''"
abbreviation mech_mx :: string where "mech_mx \<equiv> ''mx''"
abbreviation mech_ptr :: string where "mech_ptr \<equiv> ''ptr''"
abbreviation mech_ip4 :: string where "mech_ip4 \<equiv> ''ip4''"
abbreviation mech_ip6 :: string where "mech_ip6 \<equiv> ''ip6''"
abbreviation mech_exists :: string where "mech_exists \<equiv> ''exists''"
abbreviation mod_redirect :: string where "mod_redirect \<equiv> ''redirect''"
abbreviation mod_exp :: string where "mod_exp \<equiv> ''exp''"

subsection \<open>Terms and records\<close>

record spf_term =
  tm_raw :: string
  tm_modifier :: bool
  tm_name :: string
  tm_qualifier :: qualifier
  tm_domain :: string
  tm_network :: prefix
  tm_cidr4 :: int
  tm_cidr6 :: int
  tm_value :: string
  tm_macro :: macro_string

definition term_has_macros :: "spf_term \<Rightarrow> bool" where
  "term_has_macros t = has_macros (tm_macro t)"

definition counts_lookup :: "spf_term \<Rightarrow> bool" where
  "counts_lookup t = (if tm_modifier t then tm_name t = mod_redirect
     else tm_name t \<in> {mech_include, mech_a, mech_mx, mech_ptr, mech_exists})"

record spf_record =
  rec_raw :: string
  rec_terms :: "spf_term list"
  rec_redirect :: "spf_term option"
  rec_exp :: "spf_term option"

definition directives :: "spf_record \<Rightarrow> spf_term list" where
  "directives r = filter (\<lambda>t. \<not> tm_modifier t) (rec_terms r)"

definition record_all :: "spf_record \<Rightarrow> spf_term option" where
  "record_all r = find (\<lambda>t. \<not> tm_modifier t \<and> tm_name t = mech_all) (rec_terms r)"

datatype term_msg = MsgNotSpf | MsgInvalidChar char | MsgAllArgs | MsgNeedsDomain string | MsgPtrArg
  | MsgNeedsNetwork string | MsgMissingName | MsgUnknownMechanism string | MsgModifierName string
  | MsgMacro macro_error | MsgInvalidDomain string | MsgUnexpectedAfter string string | MsgUnexpected string
  | MsgIp6Cidr string | MsgIp4Cidr string | MsgEmptyDomain string | MsgAddress string string
  | MsgNotIPv4 string | MsgNotIPv6 string | MsgPrefixLength string | MsgDuplicate string

record term_error =
  te_term :: string
  te_msg :: term_msg

subsection \<open>Parsing a term\<close>

definition set_domain :: "spf_term \<Rightarrow> string \<Rightarrow> term_msg + spf_term" where
  "set_domain t spec = (case parse_macro_string spec False of
     Inl e \<Rightarrow> Inl (MsgMacro e)
   | Inr m \<Rightarrow> if \<not> valid_domain_end m then Inl (MsgInvalidDomain spec)
            else Inr (t\<lparr>tm_domain := spec, tm_macro := m\<rparr>))"

definition parse_cidr :: "string \<Rightarrow> int \<Rightarrow> int option" where
  "parse_cidr s max_bits = (
     if s = [] \<or> (1 < length s \<and> hd s = CHR ''0'') then None
     else if list_ex (\<lambda>c. \<not> is_digit c) s then None
     else (case parse_int64 s of
        None \<Rightarrow> None
      | Some n \<Rightarrow> if max_bits < n then None else Some n))"

text \<open>
  \<open>parse_domain_and_cidr\<close> first removes the IPv6 length, then the IPv4 length, from the end of the term, and
  takes what is left as the domain-spec.
\<close>

definition split_cidr6 :: "nat \<Rightarrow> string \<Rightarrow> spf_term \<Rightarrow> term_msg + string \<times> spf_term" where
  "split_cidr6 base spec t = (case index_sub (drop base spec) ''//'' of
     None \<Rightarrow> Inr (spec, t)
   | Some j \<Rightarrow> let i = j + base in (case parse_cidr (drop (i + 2) spec) 128 of
       None \<Rightarrow> Inl (MsgIp6Cidr (drop (i + 2) spec))
     | Some v6 \<Rightarrow> Inr (take i spec, t\<lparr>tm_cidr6 := v6\<rparr>)))"

definition split_cidr4 :: "nat \<Rightarrow> string \<Rightarrow> spf_term \<Rightarrow> term_msg + string \<times> spf_term" where
  "split_cidr4 base spec t = (case last_index_byte spec (CHR ''/'') of
     None \<Rightarrow> Inr (spec, t)
   | Some i \<Rightarrow> if base \<le> i then (case parse_cidr (drop (Suc i) spec) 32 of
         None \<Rightarrow> Inl (MsgIp4Cidr (drop (Suc i) spec))
       | Some v4 \<Rightarrow> Inr (take i spec, t\<lparr>tm_cidr4 := v4\<rparr>))
     else Inr (spec, t))"

definition parse_domain_and_cidr :: "spf_term \<Rightarrow> string \<Rightarrow> term_msg + spf_term" where
  "parse_domain_and_cidr t arg = (
     if arg = [] then Inr t
     else if hd arg \<noteq> CHR '':'' \<and> hd arg \<noteq> CHR ''/'' then Inl (MsgUnexpectedAfter arg (tm_name t))
     else
       let spec = (if hd arg = CHR '':'' then tl arg else arg);
           base = (case last_index_byte spec (CHR ''}'') of None \<Rightarrow> 0 | Some i \<Rightarrow> Suc i)
       in case split_cidr6 base spec t of
            Inl e \<Rightarrow> Inl e
          | Inr (spec, t) \<Rightarrow> (case split_cidr4 base spec t of
              Inl e \<Rightarrow> Inl e
            | Inr (spec, t) \<Rightarrow>
                if hd arg = CHR '':'' then
                  if spec = [] then Inl (MsgEmptyDomain (tm_name t)) else set_domain t spec
                else if spec \<noteq> [] then Inl (MsgUnexpected spec)
                else Inr t))"

definition parse_network :: "spf_term \<Rightarrow> string \<Rightarrow> term_msg + spf_term" where
  "parse_network t s = (case cut s (CHR ''/'') of (addr_part, bits_part, has_bits) \<Rightarrow>
     (case parse_addr addr_part of
        None \<Rightarrow> Inl (MsgAddress (tm_name t) addr_part)
      | Some a \<Rightarrow>
          if zone a \<noteq> [] then Inl (MsgAddress (tm_name t) addr_part)
          else if tm_name t = mech_ip4 \<and> \<not> is4 a then Inl (MsgNotIPv4 addr_part)
          else if tm_name t \<noteq> mech_ip4 \<and> \<not> is6 a then Inl (MsgNotIPv6 addr_part)
          else let max_bits = (if tm_name t = mech_ip4 then 32 else 128) in
            (case (if has_bits then parse_cidr bits_part max_bits else Some max_bits) of
               None \<Rightarrow> Inl (MsgPrefixLength bits_part)
             | Some bits \<Rightarrow> Inr (t\<lparr>tm_network := masked (prefix_from a bits)\<rparr>))))"

definition valid_modifier_name :: "string \<Rightarrow> bool" where
  "valid_modifier_name s = (
     if s = [] \<or> \<not> is_alpha (hd s) then False
     else \<not> list_ex (\<lambda>c. \<not> is_alpha c \<and> \<not> is_digit c \<and> c \<noteq> CHR ''-'' \<and> c \<noteq> CHR ''_'' \<and> c \<noteq> CHR ''.'') (tl s))"

definition parse_modifier :: "spf_term \<Rightarrow> string \<Rightarrow> string \<Rightarrow> term_msg + spf_term" where
  "parse_modifier t0 name val = (let t = t0\<lparr>tm_modifier := True, tm_name := to_lower name\<rparr> in
     if \<not> valid_modifier_name name then Inl (MsgModifierName name)
     else if tm_name t = mod_redirect \<or> tm_name t = mod_exp then
       if val = [] then Inl (MsgNeedsDomain (tm_name t)) else set_domain t val
     else (case parse_macro_string val True of
        Inl e \<Rightarrow> Inl (MsgMacro e)
      | Inr m \<Rightarrow> Inr (t\<lparr>tm_value := val, tm_macro := m\<rparr>)))"

definition new_term :: "string \<Rightarrow> spf_term" where
  "new_term raw = \<lparr>tm_raw = raw, tm_modifier = False, tm_name = [], tm_qualifier = no_qualifier, tm_domain = [],
     tm_network = Prefix AddrZero 0, tm_cidr4 = -1, tm_cidr6 = -1, tm_value = [], tm_macro = []\<rparr>"

text \<open>The switch on the mechanism's name; \<open>arg\<close> starts with the separator when there is one.\<close>

definition parse_mechanism :: "spf_term \<Rightarrow> string \<Rightarrow> string \<Rightarrow> bool \<Rightarrow> term_msg + spf_term" where
  "parse_mechanism t name arg has_arg = (
     if tm_name t = mech_all then if has_arg then Inl MsgAllArgs else Inr t
     else if tm_name t = mech_include \<or> tm_name t = mech_exists then
       if \<not> has_prefix arg '':'' \<or> length arg < 2 then Inl (MsgNeedsDomain (tm_name t)) else set_domain t (tl arg)
     else if tm_name t = mech_a \<or> tm_name t = mech_mx then parse_domain_and_cidr t arg
     else if tm_name t = mech_ptr then
       if has_arg then
         if \<not> has_prefix arg '':'' \<or> length arg < 2 then Inl MsgPtrArg else set_domain t (tl arg)
       else Inr t
     else if tm_name t = mech_ip4 \<or> tm_name t = mech_ip6 then
       if \<not> has_prefix arg '':'' \<or> length arg < 2 then Inl (MsgNeedsNetwork (tm_name t)) else parse_network t (tl arg)
     else if tm_name t = [] then Inl MsgMissingName
     else Inl (MsgUnknownMechanism name))"

definition parse_directive :: "spf_term \<Rightarrow> string \<Rightarrow> term_msg + spf_term" where
  "parse_directive t0 raw = (
     let q = hd raw;
         has_q = (q \<in> {qualifier_pass, qualifier_fail, qualifier_soft_fail, qualifier_neutral});
         t = t0\<lparr>tm_qualifier := (if has_q then q else qualifier_pass)\<rparr>;
         body = (if has_q then tl raw else raw)
     in case index_any body '':/'' of
          Some i \<Rightarrow> parse_mechanism (t\<lparr>tm_name := to_lower (take i body)\<rparr>) (take i body) (drop i body) True
        | None \<Rightarrow> parse_mechanism (t\<lparr>tm_name := to_lower body\<rparr>) body [] False)"

text \<open>\<open>parse_term\<close> is only called on a word that is not empty; Go indexes its first byte.\<close>

definition parse_term :: "string \<Rightarrow> term_msg + spf_term" where
  "parse_term raw = (case find (\<lambda>c. byte c < 0x21 \<or> 0x7e < byte c) raw of
     Some c \<Rightarrow> Inl (MsgInvalidChar c)
   | None \<Rightarrow> (case index_any raw '':/='' of
        Some i \<Rightarrow> if raw ! i = CHR ''='' then parse_modifier (new_term raw) (take i raw) (drop (Suc i) raw)
                 else parse_directive (new_term raw) raw
      | None \<Rightarrow> parse_directive (new_term raw) raw))"

subsection \<open>Parsing a record\<close>

definition version_tag :: string where
  "version_tag = ''v=spf1''"

definition is_spf :: "string \<Rightarrow> bool" where
  "is_spf txt = (
     if length txt < length version_tag \<or> \<not> equal_fold (take (length version_tag) txt) version_tag then False
     else length txt = length version_tag \<or> txt ! length version_tag = CHR '' '')"

definition parse_word :: "string \<Rightarrow> spf_record \<times> term_error list \<Rightarrow> spf_record \<times> term_error list" where
  "parse_word raw acc = (case acc of (rec, errs) \<Rightarrow>
     if raw = [] then (rec, errs)
     else (case parse_term raw of
       Inl e \<Rightarrow> (rec, errs @ [\<lparr>te_term = raw, te_msg = e\<rparr>])
     | Inr t \<Rightarrow>
        let dup = (tm_name t = mod_redirect \<and> rec_redirect rec \<noteq> None) \<or> (tm_name t = mod_exp \<and> rec_exp rec \<noteq> None)
        in if tm_modifier t \<and> (tm_name t = mod_redirect \<or> tm_name t = mod_exp) \<and> dup
           then (rec, errs @ [\<lparr>te_term = raw, te_msg = MsgDuplicate (tm_name t)\<rparr>])
           else (rec\<lparr>rec_terms := rec_terms rec @ [t],
                     rec_redirect := (if tm_modifier t \<and> tm_name t = mod_redirect then Some t else rec_redirect rec),
                     rec_exp := (if tm_modifier t \<and> tm_name t = mod_exp then Some t else rec_exp rec)\<rparr>, errs)))"

text \<open>The last loop points the modifiers into the final slice.\<close>

definition point_modifiers :: "spf_record \<Rightarrow> spf_record" where
  "point_modifiers rec = fold (\<lambda>t r. r\<lparr>
       rec_redirect := (if tm_modifier t \<and> tm_name t = mod_redirect then Some t else rec_redirect r),
       rec_exp := (if tm_modifier t \<and> tm_name t = mod_exp then Some t else rec_exp r)\<rparr>) (rec_terms rec) rec"

definition parse_record :: "string \<Rightarrow> spf_record option \<times> term_error list" where
  "parse_record txt = (
     if \<not> is_spf txt then (None, [\<lparr>te_term = [], te_msg = MsgNotSpf\<rparr>])
     else case fold parse_word (split_byte (CHR '' '') (drop (length version_tag) txt))
                 (\<lparr>rec_raw = txt, rec_terms = [], rec_redirect = None, rec_exp = None\<rparr>, []) of
       (rec, errs) \<Rightarrow> (Some (point_modifiers rec), errs))"

subsection \<open>What a term is\<close>

text \<open>The well-formedness of a term, which the evaluator relies on.\<close>

definition domain_spec_ok :: "spf_term \<Rightarrow> bool" where
  "domain_spec_ok t \<longleftrightarrow> parse_macro_string (tm_domain t) False = Inr (tm_macro t) \<and> valid_domain_end (tm_macro t)"

definition network_ok :: "spf_term \<Rightarrow> bool" where
  "network_ok t \<longleftrightarrow> (\<exists>a b. tm_network t = masked (Prefix a b) \<and> 0 \<le> b \<and>
     (if tm_name t = mech_ip4 then is4 a \<and> b \<le> 32 else is6 a \<and> zone a = [] \<and> b \<le> 128))"

definition cidr_ok :: "spf_term \<Rightarrow> bool" where
  "cidr_ok t \<longleftrightarrow> -1 \<le> tm_cidr4 t \<and> tm_cidr4 t \<le> 32 \<and> -1 \<le> tm_cidr6 t \<and> tm_cidr6 t \<le> 128"

definition mechanism_ok :: "spf_term \<Rightarrow> bool" where
  "mechanism_ok t \<longleftrightarrow>
     tm_qualifier t \<in> {qualifier_pass, qualifier_fail, qualifier_soft_fail, qualifier_neutral} \<and>
     (tm_name t = mech_all
      \<or> tm_name t \<in> {mech_include, mech_exists} \<and> tm_domain t \<noteq> [] \<and> domain_spec_ok t
      \<or> tm_name t \<in> {mech_a, mech_mx, mech_ptr} \<and> (tm_domain t = [] \<or> domain_spec_ok t)
      \<or> tm_name t \<in> {mech_ip4, mech_ip6} \<and> network_ok t)"

definition modifier_ok :: "spf_term \<Rightarrow> bool" where
  "modifier_ok t \<longleftrightarrow>
     (if tm_name t \<in> {mod_redirect, mod_exp} then tm_domain t \<noteq> [] \<and> domain_spec_ok t
      else parse_macro_string (tm_value t) True = Inr (tm_macro t))"

definition term_ok :: "spf_term \<Rightarrow> bool" where
  "term_ok t \<longleftrightarrow> cidr_ok t \<and> (if tm_modifier t then modifier_ok t else mechanism_ok t)"

lemma parse_cidr_bounds: "parse_cidr s m = Some n \<Longrightarrow> 0 \<le> n \<and> n \<le> m"
  using digits_val_nonneg [of s]
  by (auto simp: parse_cidr_def parse_int64_digits list_ex_iff list_all_iff split: if_splits option.splits)

lemma set_domain_InrD:
  "set_domain t spec = Inr t' \<Longrightarrow>
     domain_spec_ok t' \<and> tm_domain t' = spec \<and> tm_cidr4 t' = tm_cidr4 t \<and> tm_cidr6 t' = tm_cidr6 t
     \<and> tm_name t' = tm_name t \<and> tm_modifier t' = tm_modifier t \<and> tm_qualifier t' = tm_qualifier t
     \<and> tm_raw t' = tm_raw t"
  by (auto simp: set_domain_def domain_spec_ok_def split: sum.splits if_splits)

lemma split_cidr6_InrD:
  "split_cidr6 base spec t = Inr (spec', t') \<Longrightarrow> cidr_ok t \<Longrightarrow> cidr_ok t' \<and> (\<exists>v. t' = t\<lparr>tm_cidr6 := v\<rparr>)"
  by (cases t) (force simp: split_cidr6_def Let_def cidr_ok_def dest: parse_cidr_bounds split: option.splits)

lemma split_cidr4_InrD:
  "split_cidr4 base spec t = Inr (spec', t') \<Longrightarrow> cidr_ok t \<Longrightarrow> cidr_ok t' \<and> (\<exists>v. t' = t\<lparr>tm_cidr4 := v\<rparr>)"
  by (cases t) (force simp: split_cidr4_def Let_def cidr_ok_def dest: parse_cidr_bounds split: option.splits if_splits)

lemma parse_domain_and_cidr_InrD:
  assumes "parse_domain_and_cidr t arg = Inr t'" and "cidr_ok t" and "tm_domain t = []"
  shows "cidr_ok t' \<and> (tm_domain t' = [] \<or> domain_spec_ok t') \<and> tm_name t' = tm_name t
    \<and> tm_modifier t' = tm_modifier t \<and> tm_qualifier t' = tm_qualifier t \<and> tm_raw t' = tm_raw t"
proof (cases "arg = []")
  case True
  then show ?thesis using assms by (auto simp: parse_domain_and_cidr_def)
next
  case False
  let ?spec = "if hd arg = CHR '':'' then tl arg else arg"
  let ?base = "case last_index_byte ?spec (CHR ''}'') of None \<Rightarrow> 0 | Some i \<Rightarrow> Suc i"
  obtain s6 t6 where 6: "split_cidr6 ?base ?spec t = Inr (s6, t6)"
    using assms(1) False by (auto simp: parse_domain_and_cidr_def Let_def split: if_splits sum.splits)
  obtain s4 t4 where 4: "split_cidr4 ?base s6 t6 = Inr (s4, t4)"
    using assms(1) False 6 by (auto simp: parse_domain_and_cidr_def Let_def split: if_splits sum.splits)
  have "t' = t4 \<or> set_domain t4 s4 = Inr t'"
    using assms(1) False 6 4 by (auto simp: parse_domain_and_cidr_def Let_def split: if_splits)
  then show ?thesis
    using split_cidr6_InrD [OF 6 assms(2)] split_cidr4_InrD [OF 4] assms(3)
    by (auto dest!: set_domain_InrD simp: cidr_ok_def)
qed

lemma parse_network_InrD:
  assumes "parse_network t s = Inr t'"
  shows "network_ok t' \<and> (\<exists>n. t' = t\<lparr>tm_network := n\<rparr>)"
proof -
  obtain ap bp hb where c: "cut s (CHR ''/'') = (ap, bp, hb)" by (metis prod_cases3)
  obtain a where a: "parse_addr ap = Some a" "zone a = []"
    "if tm_name t = mech_ip4 then is4 a else is6 a"
    using assms c by (auto simp: parse_network_def Let_def split: option.splits if_splits)
  define mx where "mx = (if tm_name t = mech_ip4 then 32 else 128 :: int)"
  obtain bits where bits: "(if hb then parse_cidr bp mx else Some mx) = Some bits"
    and t': "t' = t\<lparr>tm_network := masked (prefix_from a bits)\<rparr>"
    using assms c a by (auto simp: parse_network_def Let_def mx_def split: option.splits if_splits)
  have b: "0 \<le> bits" "bits \<le> mx"
    using bits by (auto simp: mx_def dest: parse_cidr_bounds split: if_splits)
  have "prefix_from a bits = Prefix a bits"
    using a b(1,2) by (cases a) (auto simp: prefix_from_def mx_def split: if_splits)
  then show ?thesis
    using a b t' by (auto simp: network_ok_def mx_def intro!: exI [of _ a] exI [of _ bits] split: if_splits)
qed

lemma domain_spec_ok_qualifier [simp]:
  "domain_spec_ok (t\<lparr>tm_cidr4 := v\<rparr>) = domain_spec_ok t"
  by (simp add: domain_spec_ok_def)

lemma parse_mechanism_InrD:
  assumes p: "parse_mechanism t name arg has_arg = Inr t'"
    and t: "cidr_ok t" "tm_domain t = []" "\<not> tm_modifier t"
      "tm_qualifier t \<in> {qualifier_pass, qualifier_fail, qualifier_soft_fail, qualifier_neutral}"
  shows "term_ok t' \<and> \<not> tm_modifier t' \<and> tm_raw t' = tm_raw t \<and> tm_name t' = tm_name t"
proof -
  consider (all) "tm_name t = mech_all" "t' = t"
    | (dom) "tm_name t \<in> {mech_include, mech_exists}" "set_domain t (tl arg) = Inr t'" "tl arg \<noteq> []"
    | (amx) "tm_name t \<in> {mech_a, mech_mx}" "parse_domain_and_cidr t arg = Inr t'"
    | (ptr) "tm_name t = mech_ptr" "t' = t \<or> set_domain t (tl arg) = Inr t'"
    | (net) "tm_name t \<in> {mech_ip4, mech_ip6}" "parse_network t (tl arg) = Inr t'"
    using p by (cases arg) (auto simp: parse_mechanism_def split: if_splits)
  then show ?thesis
  proof cases
    case all
    then show ?thesis using t by (simp add: term_ok_def mechanism_ok_def)
  next
    case dom
    then show ?thesis using t set_domain_InrD [OF dom(2)] by (auto simp: term_ok_def mechanism_ok_def cidr_ok_def)
  next
    case amx
    then show ?thesis using t parse_domain_and_cidr_InrD [OF amx(2)] by (auto simp: term_ok_def mechanism_ok_def)
  next
    case ptr
    then show ?thesis using t by (auto simp: term_ok_def mechanism_ok_def cidr_ok_def dest: set_domain_InrD)
  next
    case net
    then show ?thesis using t parse_network_InrD [OF net(2)] by (auto simp: term_ok_def mechanism_ok_def cidr_ok_def)
  qed
qed

lemma parse_modifier_InrD:
  assumes p: "parse_modifier t name val = Inr t'" and t: "cidr_ok t"
  shows "term_ok t' \<and> tm_modifier t' \<and> tm_raw t' = tm_raw t \<and> tm_name t' = to_lower name"
  using p t
  by (auto simp: parse_modifier_def Let_def term_ok_def modifier_ok_def cidr_ok_def
      dest!: set_domain_InrD split: if_splits sum.splits)

lemma new_term_ok: "cidr_ok (new_term raw)"
  by (simp add: new_term_def cidr_ok_def)

lemma new_term_raw [simp]: "tm_raw (new_term raw) = raw"
  by (simp add: new_term_def)

lemma parse_directive_InrD:
  assumes "parse_directive (new_term raw) raw = Inr t"
  shows "term_ok t \<and> \<not> tm_modifier t \<and> tm_raw t = raw"
  using assms new_term_ok [of raw]
  by (auto simp: parse_directive_def Let_def new_term_def cidr_ok_def dest!: parse_mechanism_InrD split: option.splits if_splits)

lemma parse_term_InrD: "parse_term raw = Inr t \<Longrightarrow> term_ok t \<and> tm_raw t = raw"
  using new_term_ok [of raw]
  by (auto simp: parse_term_def dest: parse_directive_InrD parse_modifier_InrD split: option.splits if_splits)

subsection \<open>The words of a record\<close>

definition is_redirect :: "spf_term \<Rightarrow> bool" where
  "is_redirect t \<longleftrightarrow> tm_modifier t \<and> tm_name t = mod_redirect"

definition is_exp :: "spf_term \<Rightarrow> bool" where
  "is_exp t \<longleftrightarrow> tm_modifier t \<and> tm_name t = mod_exp"

lemma snoc_in_shuffles:
  "zs \<in> shuffles xs ys \<Longrightarrow> zs @ [z] \<in> shuffles (xs @ [z]) ys \<and> zs @ [z] \<in> shuffles xs (ys @ [z])"
proof (induction zs arbitrary: xs ys)
  case Nil
  then show ?case by simp
next
  case (Cons a zs)
  then show ?case by (auto simp: Cons_in_shuffles_iff)
qed

text \<open>
  The words \<open>ws\<close> (none empty) have been read into the record and the errors: each is the text of a term
  or of an error, in their order, the terms are those \<open>parse_term\<close> gives, and the two pointers are
  the only redirect and the only exp.
\<close>

definition record_inv :: "string list \<Rightarrow> spf_record \<times> term_error list \<Rightarrow> bool" where
  "record_inv ws acc \<longleftrightarrow> (case acc of (rec, errs) \<Rightarrow>
     ws \<in> shuffles (map tm_raw (rec_terms rec)) (map te_term errs)
     \<and> list_all (\<lambda>t. parse_term (tm_raw t) = Inr t) (rec_terms rec)
     \<and> filter is_redirect (rec_terms rec) = (case rec_redirect rec of None \<Rightarrow> [] | Some t \<Rightarrow> [t])
     \<and> filter is_exp (rec_terms rec) = (case rec_exp rec of None \<Rightarrow> [] | Some t \<Rightarrow> [t]))"

lemma redirect_not_exp: "is_redirect t \<Longrightarrow> \<not> is_exp t"
  by (simp add: is_redirect_def is_exp_def)

lemma parse_word_inv:
  assumes "record_inv ws acc"
  shows "record_inv (if w = [] then ws else ws @ [w]) (parse_word w acc)"
proof -
  obtain rec errs where acc: "acc = (rec, errs)" by force
  consider (skip) "w = []"
    | (err) e where "w \<noteq> []" "parse_word w acc = (rec, errs @ [e])" "te_term e = w"
    | (kept) t where "w \<noteq> []" "parse_term w = Inr t" "is_redirect t \<longrightarrow> rec_redirect rec = None"
        "is_exp t \<longrightarrow> rec_exp rec = None"
        "parse_word w acc = (rec\<lparr>rec_terms := rec_terms rec @ [t],
                     rec_redirect := (if is_redirect t then Some t else rec_redirect rec),
                     rec_exp := (if is_exp t then Some t else rec_exp rec)\<rparr>, errs)"
  proof (cases "w = []")
    case False
    show ?thesis
    proof (cases "parse_term w")
      case (Inl e)
      then show ?thesis using False by (intro err) (auto simp: acc parse_word_def)
    next
      case (Inr t)
      show ?thesis
      proof (cases "is_redirect t \<and> rec_redirect rec \<noteq> None \<or> is_exp t \<and> rec_exp rec \<noteq> None")
        case True
        then show ?thesis using False Inr
          by (intro err [of "\<lparr>te_term = w, te_msg = MsgDuplicate (tm_name t)\<rparr>"])
            (auto simp: acc parse_word_def is_redirect_def is_exp_def)
      next
        case noDup: False
        then show ?thesis using False Inr
          by (intro kept [of t]) (auto simp: acc parse_word_def is_redirect_def is_exp_def)
      qed
    qed
  qed (rule skip)
  then show ?thesis
  proof cases
    case skip
    then show ?thesis using assms by (simp add: acc parse_word_def)
  next
    case err
    then show ?thesis using assms by (auto simp: acc record_inv_def snoc_in_shuffles)
  next
    case (kept t)
    have "tm_raw t = w" using parse_term_InrD [OF kept(2)] by simp
    then show ?thesis using assms kept redirect_not_exp [of t]
      by (auto simp: acc record_inv_def snoc_in_shuffles)
  qed
qed

lemma parse_words_inv:
  "record_inv ws acc \<Longrightarrow> record_inv (ws @ filter (\<lambda>w. w \<noteq> []) us) (fold parse_word us acc)"
proof (induction us arbitrary: ws acc)
  case (Cons u us)
  from Cons.IH [OF parse_word_inv [OF Cons.prems, of u]] show ?case by (auto split: if_splits)
qed simp

lemma fold_point_modifiers:
  "fold (\<lambda>t r. r\<lparr>
       rec_redirect := (if tm_modifier t \<and> tm_name t = mod_redirect then Some t else rec_redirect r),
       rec_exp := (if tm_modifier t \<and> tm_name t = mod_exp then Some t else rec_exp r)\<rparr>) ts r
   = r\<lparr>rec_redirect := (if filter is_redirect ts = [] then rec_redirect r else Some (last (filter is_redirect ts))),
       rec_exp := (if filter is_exp ts = [] then rec_exp r else Some (last (filter is_exp ts)))\<rparr>"
  by (induction ts arbitrary: r) (auto simp: is_redirect_def is_exp_def)

lemma point_modifiers_id:
  assumes "record_inv ws (rec, errs)"
  shows "point_modifiers rec = rec"
  using assms unfolding point_modifiers_def fold_point_modifiers
  by (cases rec) (auto simp: record_inv_def split: option.splits)

definition record_words :: "string \<Rightarrow> string list" where
  "record_words txt = filter (\<lambda>w. w \<noteq> []) (split_byte (CHR '' '') (drop (length version_tag) txt))"

lemma parse_words_raw: "rec_raw (fst (fold parse_word us acc)) = rec_raw (fst acc)"
proof (induction us arbitrary: acc)
  case (Cons u us)
  then show ?case by (auto simp: parse_word_def Let_def split: prod.split sum.split)
qed simp

lemma parse_record_inv:
  assumes "parse_record txt = (Some rec, errs)"
  shows "record_inv (record_words txt) (rec, errs) \<and> is_spf txt \<and> rec_raw rec = txt"
proof -
  let ?start = "(\<lparr>rec_raw = txt, rec_terms = [], rec_redirect = None, rec_exp = None\<rparr>, [])"
  obtain r where r: "fold parse_word (split_byte (CHR '' '') (drop (length version_tag) txt)) ?start = (r, errs)"
    "rec = point_modifiers r" "is_spf txt"
    using assms by (auto simp: parse_record_def split: if_splits prod.splits)
  have "record_inv [] ?start" by (simp add: record_inv_def)
  from parse_words_inv [OF this, of "split_byte (CHR '' '') (drop (length version_tag) txt)"]
  have inv: "record_inv (record_words txt) (r, errs)" by (simp add: r(1) record_words_def)
  moreover have "rec_raw r = txt"
    using parse_words_raw [of "split_byte (CHR '' '') (drop (length version_tag) txt)" ?start] by (simp add: r(1))
  ultimately show ?thesis using r point_modifiers_id [OF inv] by simp
qed

lemma parse_record_terms_ok:
  "parse_record txt = (Some rec, errs) \<Longrightarrow> list_all term_ok (rec_terms rec)"
  by (auto simp: record_inv_def list_all_iff dest!: parse_record_inv parse_term_InrD)

lemma parse_term_bytes:
  assumes "parse_term raw = Inr t"
  shows "CHR '' '' \<notin> set raw"
proof
  assume "CHR '' '' \<in> set raw"
  moreover have "byte (CHR '' '') < 0x21" by simp
  ultimately have "find (\<lambda>c. byte c < 0x21 \<or> 0x7e < byte c) raw \<noteq> None" unfolding find_None_iff by blast
  then show False using assms by (auto simp: parse_term_def)
qed

lemma parse_term_not_Nil: "parse_term [] = Inl MsgMissingName"
  by (simp add: parse_term_def parse_directive_def parse_mechanism_def Let_def index_any_def hd_def new_term_def)

lemma fold_parse_terms:
  assumes "list_all (\<lambda>t. parse_term (tm_raw t) = Inr t \<and> tm_raw t \<noteq> []) ts"
    and "length (filter is_redirect (rec_terms rec @ ts)) \<le> 1" and "length (filter is_exp (rec_terms rec @ ts)) \<le> 1"
    and "filter is_redirect (rec_terms rec) = (case rec_redirect rec of None \<Rightarrow> [] | Some t \<Rightarrow> [t])"
    and "filter is_exp (rec_terms rec) = (case rec_exp rec of None \<Rightarrow> [] | Some t \<Rightarrow> [t])"
  shows "fold parse_word (map tm_raw ts) (rec, errs)
    = (point_modifiers (rec\<lparr>rec_terms := rec_terms rec @ ts\<rparr>), errs)"
  using assms
proof (induction ts arbitrary: rec)
  case Nil
  then show ?case
    unfolding point_modifiers_def fold_point_modifiers by (cases rec) (auto split: option.splits)
next
  case (Cons t ts)
  let ?rec = "rec\<lparr>rec_terms := rec_terms rec @ [t],
       rec_redirect := (if is_redirect t then Some t else rec_redirect rec),
       rec_exp := (if is_exp t then Some t else rec_exp rec)\<rparr>"
  have t: "parse_term (tm_raw t) = Inr t" "tm_raw t \<noteq> []" using Cons.prems(1) by auto
  have none: "is_redirect t \<Longrightarrow> rec_redirect rec = None" "is_exp t \<Longrightarrow> rec_exp rec = None"
    using Cons.prems(2-5) by (auto split: option.splits)
  then have "parse_word (tm_raw t) (rec, errs) = (?rec, errs)"
    using t by (auto simp: parse_word_def is_redirect_def is_exp_def Let_def)
  moreover have "fold parse_word (map tm_raw ts) (?rec, errs)
      = (point_modifiers (?rec\<lparr>rec_terms := rec_terms ?rec @ ts\<rparr>), errs)"
    using Cons.prems none redirect_not_exp [of t] by (intro Cons.IH) auto
  moreover have "point_modifiers (?rec\<lparr>rec_terms := rec_terms ?rec @ ts\<rparr>)
      = point_modifiers (rec\<lparr>rec_terms := rec_terms rec @ t # ts\<rparr>)"
    unfolding point_modifiers_def fold_point_modifiers by (cases rec) auto
  ultimately show ?case by simp
qed

lemma reparse_record:
  assumes "parse_record s = (Some rec, errs)" and "rec_terms rec \<noteq> []"
  shows "parse_record (''v=spf1 '' @ join '' '' (map tm_raw (rec_terms rec)))
    = (Some (rec\<lparr>rec_raw := ''v=spf1 '' @ join '' '' (map tm_raw (rec_terms rec))\<rparr>), [])"
proof -
  let ?ts = "rec_terms rec"
  let ?txt = "''v=spf1 '' @ join '' '' (map tm_raw ?ts)"
  let ?start = "\<lparr>rec_raw = ?txt, rec_terms = [], rec_redirect = None, rec_exp = None\<rparr>"
  note inv = parse_record_inv [OF assms(1)]
  have ok: "list_all (\<lambda>t. parse_term (tm_raw t) = Inr t \<and> tm_raw t \<noteq> []) ?ts"
    using inv parse_term_not_Nil by (auto simp: record_inv_def list_all_iff)
  have "is_spf ?txt" by (simp add: is_spf_def version_tag_def)
  moreover have "split_byte (CHR '' '') (drop (length version_tag) ?txt) = [] # map tm_raw ?ts"
  proof -
    have "split_byte (CHR '' '') (join '' '' (map tm_raw ?ts)) = map tm_raw ?ts"
      using ok assms(2) parse_term_bytes by (intro split_byte_join) (auto simp: list_all_iff)
    then show ?thesis using split_byte_append [of "CHR '' ''" "[]"] by (simp add: version_tag_def)
  qed
  moreover have "fold parse_word (map tm_raw ?ts) (?start, []) = (point_modifiers (?start\<lparr>rec_terms := ?ts\<rparr>), [])"
    using fold_parse_terms [of ?ts ?start "[]"] ok inv by (auto simp: record_inv_def split: option.splits)
  moreover have "point_modifiers (point_modifiers (?start\<lparr>rec_terms := ?ts\<rparr>)) = rec\<lparr>rec_raw := ?txt\<rparr>"
    using inv unfolding point_modifiers_def fold_point_modifiers
    by (cases rec) (auto simp: record_inv_def split: option.splits)
  ultimately show ?thesis by (simp add: parse_record_def parse_word_def)
qed

subsection \<open>Properties\<close>

text \<open>
  \<open>IsSPF\<close> selects exactly the texts that begin with the version tag, in any case, followed by
  a space or the end.
\<close>

theorem is_spf_iff:
  "is_spf s \<longleftrightarrow> (\<exists>v rest. s = v @ rest \<and> equal_fold v version_tag \<and> (rest = [] \<or> hd rest = CHR '' ''))"
proof
  assume s: "is_spf s"
  have "s = take (length version_tag) s @ drop (length version_tag) s" by simp
  moreover have "equal_fold (take (length version_tag) s) version_tag"
    "drop (length version_tag) s = [] \<or> hd (drop (length version_tag) s) = CHR '' ''"
    using s by (cases "length s = length version_tag"; auto simp: is_spf_def hd_drop_conv_nth split: if_splits)+
  ultimately show "\<exists>v rest. s = v @ rest \<and> equal_fold v version_tag \<and> (rest = [] \<or> hd rest = CHR '' '')"
    by blast
next
  assume "\<exists>v rest. s = v @ rest \<and> equal_fold v version_tag \<and> (rest = [] \<or> hd rest = CHR '' '')"
  then obtain v rest where s: "s = v @ rest" "equal_fold v version_tag" "rest = [] \<or> hd rest = CHR '' ''"
    by blast
  then show "is_spf s" using equal_fold_length [OF s(2)]
    by (cases rest) (auto simp: is_spf_def nth_append)
qed

text \<open>
  Claim C16. No word of an SPF record is lost: every word between spaces is the text of exactly one term
  or of exactly one syntax error, in the order of the record, and each term is the one its word parses
  to; a text that is not an SPF record gives no record and one error.
\<close>

theorem parse_record_accounts_for_words:
  "case parse_record s of
     (None, errs) \<Rightarrow> \<not> is_spf s \<and> length errs = 1
   | (Some rec, errs) \<Rightarrow> is_spf s \<and> rec_raw rec = s
       \<and> record_words s \<in> shuffles (map tm_raw (rec_terms rec)) (map te_term errs)
       \<and> list_all (\<lambda>t. parse_term (tm_raw t) = Inr t) (rec_terms rec)"
proof (cases "parse_record s")
  case (Pair a errs)
  show ?thesis
  proof (cases a)
    case None
    then show ?thesis using Pair by (auto simp: parse_record_def split: if_splits prod.splits)
  next
    case (Some rec)
    then show ?thesis using Pair parse_record_inv [of s rec errs] by (auto simp: record_inv_def)
  qed
qed

text \<open>
  Claim C17. Every term of a parsed record is well-formed, whether or not other words had errors: a
  qualifier and a known mechanism with its argument (a domain-spec that parses and has a valid end, a
  masked network of the right family, prefix lengths in range or -1) or a modifier whose value
  is a macro string; and the record has at most one redirect and one exp, which are the ones it points to.
\<close>

theorem parse_record_well_formed:
  "case fst (parse_record s) of None \<Rightarrow> True | Some rec \<Rightarrow> list_all term_ok (rec_terms rec)
     \<and> filter is_redirect (rec_terms rec) = (case rec_redirect rec of None \<Rightarrow> [] | Some t \<Rightarrow> [t])
     \<and> filter is_exp (rec_terms rec) = (case rec_exp rec of None \<Rightarrow> [] | Some t \<Rightarrow> [t])"
proof (cases "parse_record s")
  case (Pair a errs)
  show ?thesis
  proof (cases a)
    case (Some rec)
    then show ?thesis
      using Pair parse_record_terms_ok [of s rec errs] parse_record_inv [of s rec errs]
      by (auto simp: record_inv_def)
  qed (simp add: Pair)
qed

text \<open>
  Claim C18. Round trip of records: writing the terms of a parsed record after the version tag gives a
  record that parses without an error to the same terms, redirect and exp.
\<close>

theorem parse_record_roundtrip:
  "case parse_record s of (None, _) \<Rightarrow> True
   | (Some rec, _) \<Rightarrow>
       parse_record (''v=spf1 '' @ join '' '' (map tm_raw (rec_terms rec)))
         = (Some (rec\<lparr>rec_raw := ''v=spf1 '' @ join '' '' (map tm_raw (rec_terms rec))\<rparr>), [])"
proof (cases "parse_record s")
  case (Pair a errs)
  show ?thesis
  proof (cases a)
    case (Some rec)
    show ?thesis
    proof (cases "rec_terms rec = []")
      case True
      have "filter is_redirect (rec_terms rec) = (case rec_redirect rec of None \<Rightarrow> [] | Some t \<Rightarrow> [t])"
        "filter is_exp (rec_terms rec) = (case rec_exp rec of None \<Rightarrow> [] | Some t \<Rightarrow> [t])"
        using Pair Some parse_record_inv [of s rec errs] by (auto simp: record_inv_def)
      then have "rec_redirect rec = None" "rec_exp rec = None"
        using True by (auto split: option.splits)
      then have "rec\<lparr>rec_raw := ''v=spf1 ''\<rparr> = \<lparr>rec_raw = ''v=spf1 '', rec_terms = [], rec_redirect = None, rec_exp = None\<rparr>"
        using True by (cases rec) simp
      then show ?thesis
        using Pair Some True
        by (simp add: parse_record_def is_spf_def version_tag_def parse_word_def point_modifiers_def)
    next
      case False
      then show ?thesis using Pair Some reparse_record [of s rec errs] by simp
    qed
  qed (simp add: Pair)
qed

lemma parse_cidr_show: "int n \<le> m \<Longrightarrow> m \<le> 128 \<Longrightarrow> parse_cidr (show_nat n) m = Some (int n)"
proof -
  assume n: "int n \<le> m" "m \<le> 128"
  have "\<not> (1 < length (show_nat n) \<and> hd (show_nat n) = CHR ''0'')"
    using show_nat_no_leading_zero [of n] by blast
  moreover have "\<not> list_ex (\<lambda>c. \<not> is_digit c) (show_nat n)"
    using show_nat_digits [of n] by (simp add: list_ex_iff list_all_iff)
  ultimately show ?thesis
    using n by (simp add: parse_cidr_def parse_int64_digits show_nat_digits)
qed


lemma index_sub_skip:
  "CHR ''/'' \<notin> set a \<Longrightarrow> index_sub (a @ s) ''//'' = map_option ((+) (length a)) (index_sub s ''//'')"
proof (induction a)
  case Nil
  then show ?case by (simp add: option.map_id0 [unfolded id_def] cong: option.map_cong)
next
  case (Cons c a)
  then have "\<not> has_prefix (c # a @ s) ''//''" by (auto simp: has_prefix_def)
  then show ?case using Cons by (simp add: index_sub.simps [of "c # a @ s"] option.map_comp o_def)
qed

lemma show_nat_chars: "CHR ''/'' \<notin> set (show_nat n)" "CHR ''}'' \<notin> set (show_nat n)"
proof -
  have "\<not> is_digit (CHR ''/'')" "\<not> is_digit (CHR ''}'')" by (simp_all add: is_digit_def)
  then show "CHR ''/'' \<notin> set (show_nat n)" "CHR ''}'' \<notin> set (show_nat n)"
    using show_nat_digits [of n] unfolding list_all_iff by blast+
qed

lemma after_last_brace:
  assumes "p = [] \<or> last p = CHR ''}''" and "CHR ''}'' \<notin> set rest"
  shows "(case last_index_byte (p @ rest) (CHR ''}'') of None \<Rightarrow> 0 | Some i \<Rightarrow> Suc i) = length p"
proof (cases "p = []")
  case True
  then have "last_index_byte (p @ rest) (CHR ''}'') = None"
    using assms(2) unfolding last_index_byte_None_iff by simp
  then show ?thesis unfolding True by (simp only: option.case list.size)
next
  case False
  then have p: "p = butlast p @ [CHR ''}'']" using assms(1) append_butlast_last_id by metis
  then have "p @ rest = butlast p @ CHR ''}'' # rest"
    by (metis append.assoc append_Cons append_Nil)
  then have "last_index_byte (p @ rest) (CHR ''}'') = Some (length (butlast p))"
    using last_index_byte_append [OF assms(2)] by metis
  then show ?thesis using False by simp
qed

lemma index_double_slash:
  "index_sub (CHR ''/'' # show_nat n @ ''//'' @ show_nat m) ''//'' = Some (Suc (length (show_nat n)))"
proof -
  have "\<not> has_prefix (CHR ''/'' # show_nat n @ ''//'' @ show_nat m) ''//''"
    using show_nat_chars(1) [of n] by (cases "show_nat n") (auto simp: has_prefix_def)
  moreover have "index_sub (''//'' @ show_nat m) ''//'' = Some 0"
    by (subst index_sub.simps) (simp add: has_prefix_def)
  ultimately show ?thesis
    using index_sub_skip [OF show_nat_chars(1), of n "''//'' @ show_nat m"]
    by (subst index_sub.simps) simp
qed

lemma split_cidr6_dual:
  assumes "CHR ''/'' \<notin> set q" and "m \<le> 128"
  shows "split_cidr6 (length p) (p @ q @ CHR ''/'' # show_nat n @ ''//'' @ show_nat m) t
    = Inr (p @ q @ CHR ''/'' # show_nat n, t\<lparr>tm_cidr6 := int m\<rparr>)"
proof -
  define A where "A = p @ q @ CHR ''/'' # show_nat n"
  let ?spec = "p @ q @ CHR ''/'' # show_nat n @ ''//'' @ show_nat m"
  have spec: "?spec = A @ ''//'' @ show_nat m" by (simp add: A_def)
  have 6: "index_sub (drop (length p) ?spec) ''//'' = Some (length q + Suc (length (show_nat n)))"
    using index_sub_skip [OF assms(1), of "CHR ''/'' # show_nat n @ ''//'' @ show_nat m"] by (simp add: index_double_slash [simplified])
  have len: "length q + Suc (length (show_nat n)) + length p = length A" by (simp add: A_def)
  have dr: "drop (length A + 2) (A @ ''//'' @ show_nat m) = show_nat m"
    and tk: "take (length A) (A @ ''//'' @ show_nat m) = A" by simp_all
  have "split_cidr6 (length p) (A @ ''//'' @ show_nat m) t = Inr (A, t\<lparr>tm_cidr6 := int m\<rparr>)"
    using 6 parse_cidr_show [of m 128] assms(2)
    unfolding split_cidr6_def spec by (simp only: option.case Let_def len dr tk)
  then show ?thesis unfolding spec by (simp only: A_def)
qed

lemma split_cidr4_dual:
  "n \<le> 32 \<Longrightarrow> split_cidr4 (length p) (p @ q @ CHR ''/'' # show_nat n) t = Inr (p @ q, t\<lparr>tm_cidr4 := int n\<rparr>)"
  using last_index_byte_append [OF show_nat_chars(1) [of n], of "p @ q"] parse_cidr_show [of n 32]
  by (simp add: split_cidr4_def)

text \<open>
  The dual prefix lengths of \<^verbatim>\<open>a\<close> and \<^verbatim>\<open>mx\<close>: after a domain-spec whose part behind the last macro has
  no slash, \<^verbatim>\<open>/n//m\<close> sets exactly the IPv4 length to \<open>n\<close> and the IPv6 length to \<open>m\<close>, also when a macro of the
  domain-spec has the slash among its delimiters.
\<close>

theorem dual_cidr_lengths:
  assumes "p = [] \<or> last p = CHR ''}''" and "CHR ''}'' \<notin> set q" and "CHR ''/'' \<notin> set q" and "p @ q \<noteq> []"
    and "n \<le> 32" and "m \<le> 128"
  shows "parse_domain_and_cidr t (CHR '':'' # p @ q @ CHR ''/'' # show_nat n @ ''//'' @ show_nat m)
    = set_domain (t\<lparr>tm_cidr4 := int n, tm_cidr6 := int m\<rparr>) (p @ q)"
proof -
  let ?rest = "q @ CHR ''/'' # show_nat n @ ''//'' @ show_nat m"
  have "CHR ''}'' \<notin> set ?rest" using assms(2) by (simp add: show_nat_chars)
  note base = after_last_brace [OF assms(1) this]
  have "t\<lparr>tm_cidr6 := int m, tm_cidr4 := int n\<rparr> = t\<lparr>tm_cidr4 := int n, tm_cidr6 := int m\<rparr>" by simp
  then show ?thesis
    using assms(4) unfolding parse_domain_and_cidr_def Let_def
    by (simp only: list.sel list.distinct if_True if_False simp_thms base split_cidr6_dual [OF assms(3,6)]
        split_cidr4_dual [OF assms(5)] sum.case prod.case)
qed

theorem dual_cidr_lengths_witness:
  "parse_domain_and_cidr (new_term ''a'') '':%{l/}.a.example/24//64''
    = set_domain ((new_term ''a'')\<lparr>tm_cidr4 := 24, tm_cidr6 := 64\<rparr>) ''%{l/}.a.example''"
  using dual_cidr_lengths [of "''%{l/}''" "''.a.example''" 24 64 "new_term ''a''"]
  by (simp add: show_nat.simps digit_char_def char_of_def)

end
