(* ===== verification/Dns.thy ===== *)
theory Dns
  imports Netip
begin

section \<open>The DNS access layer (internal/dnsresolver)\<close>

text \<open>
  The model of \<^verbatim>\<open>resolver.go\<close> and \<^verbatim>\<open>names.go\<close>.  A \<^verbatim>\<open>Resolver\<close> is a record of six lookup
  operations, one per method of the Go interface.  A lookup may change the resolver (a cache, a
  query budget, the network), so each operation takes the resolver's state and returns the new one
  beside its answer.  A Go pair of a value and an error is a sum: \<open>Inl\<close> is a non-nil error, with
  which every implementation returns the zero value.
\<close>

subsection \<open>Errors\<close>

datatype dns_kind = KindNXDomain | KindTemporary | KindRefused | KindMalformed | KindTooLarge
  | KindBudget | KindInvalidName

text \<open>
  A lookup error is an \<^verbatim>\<open>*Error\<close> with its kind, name and type, or some other error (a cancelled
  context, for example).  The server and the wrapped cause are not looked at by the callers.
\<close>

datatype dns_error = DnsError (err_kind: dns_kind) (err_name: string) (err_type: string) | OtherError string

fun kind_string :: "dns_kind \<Rightarrow> string" where
  "kind_string KindNXDomain = ''nxdomain''"
| "kind_string KindTemporary = ''temporary failure''"
| "kind_string KindRefused = ''refused''"
| "kind_string KindMalformed = ''malformed response''"
| "kind_string KindTooLarge = ''response too large''"
| "kind_string KindBudget = ''query budget exhausted''"
| "kind_string KindInvalidName = ''invalid name''"

text \<open>\<open>KindOf\<close>: \<open>None\<close> is Go's kind 0.\<close>

fun kind_of :: "dns_error \<Rightarrow> dns_kind option" where
  "kind_of (DnsError k _ _) = Some k"
| "kind_of (OtherError _) = None"

definition is_nxdomain :: "dns_error \<Rightarrow> bool" where
  "is_nxdomain e \<longleftrightarrow> kind_of e = Some KindNXDomain"

definition is_temporary :: "dns_error \<Rightarrow> bool" where
  "is_temporary e = (case kind_of e of
     Some KindNXDomain \<Rightarrow> False | Some KindInvalidName \<Rightarrow> False
   | Some KindTemporary \<Rightarrow> True | Some KindRefused \<Rightarrow> True | Some KindMalformed \<Rightarrow> True
   | Some KindTooLarge \<Rightarrow> True | Some KindBudget \<Rightarrow> True
   | None \<Rightarrow> True)"

definition is_infrastructure :: "dns_error \<Rightarrow> bool" where
  "is_infrastructure e = (case kind_of e of
     Some KindTemporary \<Rightarrow> True | Some KindRefused \<Rightarrow> True | Some KindMalformed \<Rightarrow> True
   | Some KindTooLarge \<Rightarrow> True
   | None \<Rightarrow> True
   | _ \<Rightarrow> False)"

lemma is_temporary_iff:
  "is_temporary e \<longleftrightarrow> kind_of e \<noteq> Some KindNXDomain \<and> kind_of e \<noteq> Some KindInvalidName"
  by (auto simp: is_temporary_def split: option.splits dns_kind.splits)

lemma infrastructure_is_temporary: "is_infrastructure e \<Longrightarrow> is_temporary e"
  by (auto simp: is_infrastructure_def is_temporary_iff split: option.splits dns_kind.splits)

subsection \<open>The Resolver interface\<close>

record mx_record =
  mx_host :: string
  mx_pref :: "16 word"

type_synonym 'a answer = "dns_error + 'a"

record 's resolver =
  lookup_txt :: "'s \<Rightarrow> string \<Rightarrow> string list answer \<times> 's"
  lookup_mx :: "'s \<Rightarrow> string \<Rightarrow> mx_record list answer \<times> 's"
  lookup_a :: "'s \<Rightarrow> string \<Rightarrow> addr list answer \<times> 's"
  lookup_aaaa :: "'s \<Rightarrow> string \<Rightarrow> addr list answer \<times> 's"
  lookup_cname :: "'s \<Rightarrow> string \<Rightarrow> string answer \<times> 's"
  lookup_ptr :: "'s \<Rightarrow> addr \<Rightarrow> string list answer \<times> 's"

subsection \<open>Names\<close>

definition fqdn :: "string \<Rightarrow> string" where
  "fqdn name0 = (let name = to_lower name0 in if \<not> has_suffix name ''.'' then name @ ''.'' else name)"

definition trim_name :: "string \<Rightarrow> string" where
  "trim_name name = (if name = ''.'' then name else to_lower (trim_suffix name ''.''))"

definition domain_label :: "string \<Rightarrow> bool" where
  "domain_label l \<longleftrightarrow> l \<noteq> [] \<and> length l \<le> 63 \<and> list_all (\<lambda>c. \<not> (byte c \<le> 32 \<or> 127 \<le> byte c)) l"

definition valid_domain :: "string \<Rightarrow> bool" where
  "valid_domain name0 = (let name = trim_suffix name0 ''.'' in
     if name = [] \<or> 253 < length name then False
     else list_all domain_label (split_byte (CHR ''.'') name))"

fun itoa_loop :: "nat \<Rightarrow> int \<Rightarrow> string \<Rightarrow> string" where
  "itoa_loop 0 n buf = buf"
| "itoa_loop (Suc k) n buf = (if 0 < n then itoa_loop k (n div 10) (char_of (48 + n mod 10) # buf) else buf)"

text \<open>Go's buffer has three bytes; the callers pass bytes, for which three digits are enough.\<close>

definition itoa :: "int \<Rightarrow> string" where
  "itoa n = (if n = 0 then ''0'' else itoa_loop 3 n [])"

definition nibble_hi :: "8 word \<Rightarrow> char" where
  "nibble_hi b = hex_digit (uint (drop_bit 4 b))"

definition nibble_lo :: "8 word \<Rightarrow> char" where
  "nibble_lo b = hex_digit (uint (b AND 0xf))"

fun reverse_name :: "addr \<Rightarrow> string" where
  "reverse_name a = (case unmap a of
     Addr4 w \<Rightarrow> concat (map (\<lambda>i. itoa (uint (byte4 w i)) @ ''.'') [3, 2, 1, 0]) @ ''in-addr.arpa.''
   | Addr6 w z \<Rightarrow> concat (map (\<lambda>i. [nibble_lo (byte16 w i), CHR ''.'', nibble_hi (byte16 w i), CHR ''.'']) (rev [0..<16]))
       @ ''ip6.arpa.''
   | AddrZero \<Rightarrow> concat (map (\<lambda>i. [nibble_lo 0, CHR ''.'', nibble_hi 0, CHR ''.'']) (rev [0..<16])) @ ''ip6.arpa.'')"

declare reverse_name.simps [simp del]

lemma fqdn_idem: "fqdn (fqdn n) = fqdn n"
proof -
  have "to_lower ''.'' = ''.''" by (simp add: to_lower_def lower_byte_def is_upper_def)
  then show ?thesis by (auto simp: fqdn_def Let_def to_lower_append has_suffix_append)
qed

lemma trim_name_lower [simp]: "to_lower (trim_name n) = trim_name n"
  by (simp add: trim_name_def to_lower_def lower_byte_def is_upper_def)

lemma valid_domain_length: "valid_domain n \<Longrightarrow> length n \<le> 254"
  by (cases rule: trim_suffix_cases [of n "''.''"])
    (auto simp: valid_domain_def Let_def split: if_splits)

lemma valid_domain_ascii:
  assumes "valid_domain n" and "c \<in> set n"
  shows "32 < byte c \<and> byte c < 127"
proof (cases "c = CHR ''.''")
  case True
  then show ?thesis by simp
next
  case False
  let ?t = "trim_suffix n ''.''"
  have "c \<in> set ?t"
    using assms(2) False by (cases rule: trim_suffix_cases [of n "''.''"]) auto
  then have "c \<in> set (join ''.'' (split_byte (CHR ''.'') ?t))"
    by (simp add: join_split_byte)
  moreover have "c \<in> set (join ''.'' ls) \<Longrightarrow> c = CHR ''.'' \<or> (\<exists>l\<in>set ls. c \<in> set l)" for ls
    by (induction ls rule: induct_list012) auto
  ultimately obtain l where "l \<in> set (split_byte (CHR ''.'') ?t)" "c \<in> set l"
    using False by blast
  with assms(1) show ?thesis
    by (force simp: valid_domain_def Let_def domain_label_def list_all_iff not_le split: if_splits)
qed

end
