(* ===== verification/DnsBudget.thy ===== *)
theory DnsBudget
  imports Dns
begin

section \<open>Programs that ask the DNS, the query budget and the cache\<close>

text \<open>
  A check of the program that takes a \<^verbatim>\<open>Resolver\<close> is modelled as a tree of the questions it asks:
  each node is one call of a method of the interface, with the continuation that receives the
  answer.  \<open>run\<close> executes such a tree on a resolver.  What holds for every tree is proved here once,
  inside two locales that state what a resolver promises, and the locales are interpreted on the
  two resolvers of \<^verbatim>\<open>budget.go\<close>, \<^verbatim>\<open>Budget\<close> and \<^verbatim>\<open>Cache\<close>.

  \<open>ends P m j\<close> says that, having asked \<open>j\<close> questions before, \<open>m\<close> ends with a value \<open>x\<close> after \<open>i\<close>
  questions in all with \<open>P i x\<close>, whatever the DNS answers; \<open>on_every_answer P m\<close> forgets the number of
  questions and \<open>asks_at_most n m\<close> the value.
\<close>

subsection \<open>Client programs\<close>

datatype 'a dns = Ret 'a
  | AskTXT string "string list answer \<Rightarrow> 'a dns"
  | AskMX string "mx_record list answer \<Rightarrow> 'a dns"
  | AskA string "addr list answer \<Rightarrow> 'a dns"
  | AskAAAA string "addr list answer \<Rightarrow> 'a dns"
  | AskCNAME string "string answer \<Rightarrow> 'a dns"
  | AskPTR addr "string list answer \<Rightarrow> 'a dns"

primrec and_then :: "'a dns \<Rightarrow> ('a \<Rightarrow> 'b dns) \<Rightarrow> 'b dns" where
  "and_then (Ret x) f = f x"
| "and_then (AskTXT n k) f = AskTXT n (\<lambda>a. and_then (k a) f)"
| "and_then (AskMX n k) f = AskMX n (\<lambda>a. and_then (k a) f)"
| "and_then (AskA n k) f = AskA n (\<lambda>a. and_then (k a) f)"
| "and_then (AskAAAA n k) f = AskAAAA n (\<lambda>a. and_then (k a) f)"
| "and_then (AskCNAME n k) f = AskCNAME n (\<lambda>a. and_then (k a) f)"
| "and_then (AskPTR n k) f = AskPTR n (\<lambda>a. and_then (k a) f)"

primrec run :: "'a dns \<Rightarrow> 's resolver \<Rightarrow> 's \<Rightarrow> 'a \<times> 's" where
  "run (Ret x) r s = (x, s)"
| "run (AskTXT n k) r s = (case lookup_txt r s n of (a, s') \<Rightarrow> run (k a) r s')"
| "run (AskMX n k) r s = (case lookup_mx r s n of (a, s') \<Rightarrow> run (k a) r s')"
| "run (AskA n k) r s = (case lookup_a r s n of (a, s') \<Rightarrow> run (k a) r s')"
| "run (AskAAAA n k) r s = (case lookup_aaaa r s n of (a, s') \<Rightarrow> run (k a) r s')"
| "run (AskCNAME n k) r s = (case lookup_cname r s n of (a, s') \<Rightarrow> run (k a) r s')"
| "run (AskPTR n k) r s = (case lookup_ptr r s n of (a, s') \<Rightarrow> run (k a) r s')"

primrec ends :: "(nat \<Rightarrow> 'a \<Rightarrow> bool) \<Rightarrow> 'a dns \<Rightarrow> nat \<Rightarrow> bool" where
  "ends P (Ret x) j = P j x"
| "ends P (AskTXT n k) j = (\<forall>a. ends P (k a) (Suc j))"
| "ends P (AskMX n k) j = (\<forall>a. ends P (k a) (Suc j))"
| "ends P (AskA n k) j = (\<forall>a. ends P (k a) (Suc j))"
| "ends P (AskAAAA n k) j = (\<forall>a. ends P (k a) (Suc j))"
| "ends P (AskCNAME n k) j = (\<forall>a. ends P (k a) (Suc j))"
| "ends P (AskPTR n k) j = (\<forall>a. ends P (k a) (Suc j))"

abbreviation on_every_answer :: "('a \<Rightarrow> bool) \<Rightarrow> 'a dns \<Rightarrow> bool" where
  "on_every_answer P m \<equiv> ends (\<lambda>_. P) m 0"

abbreviation asks_at_most :: "nat \<Rightarrow> 'a dns \<Rightarrow> bool" where
  "asks_at_most n m \<equiv> ends (\<lambda>j _. j \<le> n) m 0"

lemma and_then_cong [fundef_cong]:
  assumes "m = m'" and "\<And>x. f x = f' x"
  shows "and_then m f = and_then m' f'"
proof -
  have "f = f'" by (rule ext) (rule assms(2))
  then show ?thesis by (simp add: assms(1))
qed

lemma and_then_Ret [simp]: "and_then m Ret = m"
  by (induction m) auto

lemma and_then_assoc: "and_then (and_then m f) g = and_then m (\<lambda>x. and_then (f x) g)"
  by (induction m) auto

lemma run_and_then: "run (and_then m f) r s = (case run m r s of (x, s') \<Rightarrow> run (f x) r s')"
  by (induction m arbitrary: s) (auto split: prod.splits)

lemma ends_and_then: "ends P (and_then m f) j = ends (\<lambda>i x. ends P (f x) i) m j"
  by (induction m arbitrary: j) auto

lemma ends_mono: "ends P m j \<Longrightarrow> (\<And>i x. j \<le> i \<Longrightarrow> P i x \<Longrightarrow> Q i x) \<Longrightarrow> ends Q m j"
proof (induction m arbitrary: j)
  case (Ret x)
  then show ?case by simp
qed (fastforce dest: Suc_leD)+

lemma ends_bindI:
  "ends Q m j \<Longrightarrow> (\<And>i x. j \<le> i \<Longrightarrow> Q i x \<Longrightarrow> ends P (f x) i) \<Longrightarrow> ends P (and_then m f) j"
  by (auto simp: ends_and_then elim: ends_mono)

lemma ends_trivial [simp]: "ends (\<lambda>_ _. True) m j"
  by (induction m arbitrary: j) auto

lemma ends_conj: "ends (\<lambda>i x. P i x \<and> Q i x) m j = (ends P m j \<and> ends Q m j)"
  by (induction m arbitrary: j) auto

lemma ends_shift: "ends P m (j + d) = ends (\<lambda>i. P (i + d)) m j"
proof (induction m arbitrary: j)
  case (Ret x)
  then show ?case by simp
qed (simp flip: add_Suc)+

subsection \<open>Counting the calls of a resolver\<close>

inductive lookup_step :: "'s resolver \<Rightarrow> 's \<Rightarrow> 's \<Rightarrow> bool" for r where
  step_txt: "lookup_step r s (snd (lookup_txt r s n))"
| step_mx: "lookup_step r s (snd (lookup_mx r s n))"
| step_a: "lookup_step r s (snd (lookup_a r s n))"
| step_aaaa: "lookup_step r s (snd (lookup_aaaa r s n))"
| step_cname: "lookup_step r s (snd (lookup_cname r s n))"
| step_ptr: "lookup_step r s (snd (lookup_ptr r s a))"

inductive calls :: "'s resolver \<Rightarrow> nat \<Rightarrow> 's \<Rightarrow> 's \<Rightarrow> bool" for r where
  calls_none: "calls r 0 s s"
| calls_more: "lookup_step r s s' \<Longrightarrow> calls r n s' s'' \<Longrightarrow> calls r (Suc n) s s''"

inductive_cases calls_0E: "calls r 0 s s'"
inductive_cases calls_SucE: "calls r (Suc n) s s'"

lemma calls_0_iff [simp]: "calls r 0 s s' \<longleftrightarrow> s' = s"
  by (auto intro: calls_none elim: calls_0E)

lemma calls_one: "lookup_step r s s' \<Longrightarrow> calls r 1 s s'"
  unfolding One_nat_def by (rule calls_more) auto

lemma calls_add: "calls r n s s' \<Longrightarrow> calls r n' s' s'' \<Longrightarrow> calls r (n + n') s s''"
  by (induction rule: calls.induct) (auto intro: calls_more)

lemma lookup_stepI:
  "lookup_txt r s n = (a1, s') \<Longrightarrow> lookup_step r s s'"
  "lookup_mx r s n = (a2, s') \<Longrightarrow> lookup_step r s s'"
  "lookup_a r s n = (a3, s') \<Longrightarrow> lookup_step r s s'"
  "lookup_aaaa r s n = (a3, s') \<Longrightarrow> lookup_step r s s'"
  "lookup_cname r s n = (a4, s') \<Longrightarrow> lookup_step r s s'"
  "lookup_ptr r s d = (a1, s') \<Longrightarrow> lookup_step r s s'"
  by (metis snd_conv lookup_step.intros)+

lemma calls_more_ex:
  "lookup_step r s s' \<Longrightarrow> \<exists>i. calls r i s' t \<and> P (Suc j + i) \<Longrightarrow> \<exists>i. calls r i s t \<and> P (j + i)"
  by (elim exE conjE, rule_tac x = "Suc i" in exI) (auto intro: calls_more)

text \<open>
  What every path of a program guarantees holds of its run on any resolver, and the number of
  questions is the number of calls of the resolver.
\<close>

lemma ends_run:
  "ends P m j \<Longrightarrow> \<exists>i. calls r i s (snd (run m r s)) \<and> P (j + i) (fst (run m r s))"
proof (induction m arbitrary: j s)
  case (Ret x)
  then show ?case by (auto intro: exI [of _ 0])
qed (simp split: prod.split, intro allI impI, rule calls_more_ex, erule lookup_stepI, blast)+

lemma on_every_answer_run: "on_every_answer P m \<Longrightarrow> P (fst (run m r s))"
  using ends_run [of "\<lambda>_. P" m 0 r s] by auto

lemma asks_at_most_run: "asks_at_most n m \<Longrightarrow> \<exists>i\<le>n. calls r i s (snd (run m r s))"
  using ends_run [of "\<lambda>i _. i \<le> n" m 0 r s] by auto

subsection \<open>What a client relies on\<close>

text \<open>
  \<open>resolver_rel r R\<close>: every lookup of \<open>r\<close> relates the state before to the state after by the
  reflexive and transitive \<open>R\<close>.  Then so does every client.
\<close>

locale resolver_rel =
  fixes r :: "'s resolver" and R :: "'s \<Rightarrow> 's \<Rightarrow> bool"
  assumes R_refl: "R s s"
    and R_trans: "R s s' \<Longrightarrow> R s' s'' \<Longrightarrow> R s s''"
    and R_step: "lookup_step r s s' \<Longrightarrow> R s s'"
begin

lemma R_run: "R s (snd (run m r s))"
proof (induction m arbitrary: s)
  case (Ret x)
  then show ?case by (simp add: R_refl)
qed (auto split: prod.split intro: R_trans dest!: lookup_stepI R_step)

end

text \<open>
  \<open>resolver_sim r1 r2 S\<close>: in states related by \<open>S\<close> the two resolvers give the same answers and
  stay related.  Then no client can tell them apart.
\<close>

locale resolver_sim =
  fixes r1 :: "'s resolver" and r2 :: "'t resolver" and S :: "'s \<Rightarrow> 't \<Rightarrow> bool"
  assumes sim_txt: "S s t \<Longrightarrow> rel_prod (=) S (lookup_txt r1 s n) (lookup_txt r2 t n)"
    and sim_mx: "S s t \<Longrightarrow> rel_prod (=) S (lookup_mx r1 s n) (lookup_mx r2 t n)"
    and sim_a: "S s t \<Longrightarrow> rel_prod (=) S (lookup_a r1 s n) (lookup_a r2 t n)"
    and sim_aaaa: "S s t \<Longrightarrow> rel_prod (=) S (lookup_aaaa r1 s n) (lookup_aaaa r2 t n)"
    and sim_cname: "S s t \<Longrightarrow> rel_prod (=) S (lookup_cname r1 s n) (lookup_cname r2 t n)"
    and sim_ptr: "S s t \<Longrightarrow> rel_prod (=) S (lookup_ptr r1 s a) (lookup_ptr r2 t a)"
begin

lemma rel_prod_case:
  "rel_prod (=) S p q \<Longrightarrow> (\<And>a s t. S s t \<Longrightarrow> P (f a s) (g a t)) \<Longrightarrow>
     P (case p of (a, s) \<Rightarrow> f a s) (case q of (a, t) \<Rightarrow> g a t)"
  by (cases p; cases q) simp

lemmas sims = sim_txt sim_mx sim_a sim_aaaa sim_cname sim_ptr

lemma sim_run: "S s t \<Longrightarrow> rel_prod (=) S (run m r1 s) (run m r2 t)"
proof (induction m arbitrary: s t)
  case (Ret x)
  then show ?case by simp
qed (simp, rule rel_prod_case, erule sims, simp)+

end

interpretation counted: resolver_rel r "\<lambda>s s'. \<exists>n. calls r n s s'" for r
proof
  show "\<exists>n. calls r n s s" for s by (auto intro: exI [of _ 0])
  show "\<exists>n. calls r n s s' \<Longrightarrow> \<exists>n. calls r n s' s'' \<Longrightarrow> \<exists>n. calls r n s s''" for s s' s''
    by (auto intro: calls_add)
  show "lookup_step r s s' \<Longrightarrow> \<exists>n. calls r n s s'" for s s'
    by (auto intro: calls_one)
qed

subsection \<open>Budget\<close>

text \<open>
  The counter is an \<^verbatim>\<open>atomic.Int64\<close> that grows by one for each lookup of a scan; it is an unbounded
  integer here (\<open>2 ^ 63\<close> lookups are out of reach).
\<close>

record 's budget =
  bg_next :: 's
  bg_used :: int

definition with_budget :: "'s \<Rightarrow> 's budget" where
  "with_budget s = \<lparr>bg_next = s, bg_used = 0\<rparr>"

definition used :: "'s budget \<Rightarrow> int" where
  "used b = bg_used b"

definition sent :: "int \<Rightarrow> 's budget \<Rightarrow> int" where
  "sent limit b = min (bg_used b) limit"

definition exhausted :: "int \<Rightarrow> 's budget \<Rightarrow> bool" where
  "exhausted limit b \<longleftrightarrow> limit < bg_used b"

definition budget_take :: "int \<Rightarrow> string \<Rightarrow> string \<Rightarrow> 's budget \<Rightarrow> dns_error option \<times> 's budget" where
  "budget_take limit name typ b = (let b' = b\<lparr>bg_used := bg_used b + 1\<rparr> in
     (if limit < bg_used b' then Some (DnsError KindBudget (trim_name name) typ) else None, b'))"

definition budget_guard ::
  "int \<Rightarrow> string \<Rightarrow> string \<Rightarrow> ('s \<Rightarrow> 'a answer \<times> 's) \<Rightarrow> 's budget \<Rightarrow> 'a answer \<times> 's budget" where
  "budget_guard limit name typ next_lookup b = (case budget_take limit name typ b of
     (Some e, b') \<Rightarrow> (Inl e, b')
   | (None, b') \<Rightarrow> (case next_lookup (bg_next b') of (v, s) \<Rightarrow> (v, b'\<lparr>bg_next := s\<rparr>)))"

definition budget_resolver :: "'s resolver \<Rightarrow> int \<Rightarrow> 's budget resolver" where
  "budget_resolver nxt limit = \<lparr>
     lookup_txt = \<lambda>b name. budget_guard limit name ''TXT'' (\<lambda>s. lookup_txt nxt s name) b,
     lookup_mx = \<lambda>b name. budget_guard limit name ''MX'' (\<lambda>s. lookup_mx nxt s name) b,
     lookup_a = \<lambda>b name. budget_guard limit name ''A'' (\<lambda>s. lookup_a nxt s name) b,
     lookup_aaaa = \<lambda>b name. budget_guard limit name ''AAAA'' (\<lambda>s. lookup_aaaa nxt s name) b,
     lookup_cname = \<lambda>b name. budget_guard limit name ''CNAME'' (\<lambda>s. lookup_cname nxt s name) b,
     lookup_ptr = \<lambda>b a. budget_guard limit (reverse_name a) ''PTR'' (\<lambda>s. lookup_ptr nxt s a) b\<rparr>"

lemmas budget_defs = budget_guard_def budget_take_def Let_def

text \<open>
  What the budget keeps: the counter only grows, and the lookups passed on to the resolver below
  are exactly those that \<open>sent\<close> counts.
\<close>

definition budget_rel :: "'s resolver \<Rightarrow> int \<Rightarrow> 's budget \<Rightarrow> 's budget \<Rightarrow> bool" where
  "budget_rel nxt limit b b' \<longleftrightarrow> bg_used b \<le> bg_used b'
     \<and> calls nxt (nat (sent limit b' - sent limit b)) (bg_next b) (bg_next b')"

lemma sent_mono: "bg_used b \<le> bg_used b' \<Longrightarrow> sent limit b \<le> sent limit b'"
  by (simp add: sent_def)

lemma budget_rel_guard:
  assumes "\<And>s. lookup_step nxt s (snd (f s))"
  shows "budget_rel nxt limit b (snd (budget_guard limit name typ f b))"
proof (cases "limit < bg_used b + 1")
  case True
  then show ?thesis by (simp add: budget_defs budget_rel_def sent_def)
next
  case False
  then have "sent limit (snd (budget_guard limit name typ f b)) - sent limit b = 1"
    by (simp add: budget_defs sent_def split: prod.split)
  then show ?thesis
    using False calls_one [OF assms [of "bg_next b"]]
    by (simp add: budget_defs budget_rel_def split: prod.splits)
qed

lemma budget_rel_trans:
  "budget_rel nxt limit b b' \<Longrightarrow> budget_rel nxt limit b' b'' \<Longrightarrow> budget_rel nxt limit b b''"
  using sent_mono [of b b' limit] sent_mono [of b' b'' limit]
  by (auto simp: budget_rel_def nat_add_distrib [symmetric] dest: calls_add)

interpretation budget: resolver_rel "budget_resolver nxt limit" "budget_rel nxt limit" for nxt limit
proof
  show "budget_rel nxt limit b b" for b by (simp add: budget_rel_def)
  show "budget_rel nxt limit b b' \<Longrightarrow> budget_rel nxt limit b' b'' \<Longrightarrow> budget_rel nxt limit b b''" for b b' b''
    by (rule budget_rel_trans)
  show "lookup_step (budget_resolver nxt limit) b b' \<Longrightarrow> budget_rel nxt limit b b'" for b b'
    by (erule lookup_step.cases)
      (auto simp: budget_resolver_def intro!: budget_rel_guard intro: lookup_step.intros)
qed

subsection \<open>Cache\<close>

text \<open>
  The values of the cache have type \<^verbatim>\<open>any\<close>; a datatype with one constructor per type that is stored
  stands for it, and the type assertion of \<^verbatim>\<open>cached\<close> is a function that yields the zero value on
  the other constructors.  The lookups of one scan are executed one after the other here, so the
  entry is complete when another lookup finds it.
\<close>

datatype cached_value = CStrings "string list" | CMX "mx_record list" | CAddrs "addr list" | CString string

fun as_strings :: "cached_value \<Rightarrow> string list" where
  "as_strings (CStrings v) = v" | "as_strings _ = []"

fun as_mx :: "cached_value \<Rightarrow> mx_record list" where
  "as_mx (CMX v) = v" | "as_mx _ = []"

fun as_addrs :: "cached_value \<Rightarrow> addr list" where
  "as_addrs (CAddrs v) = v" | "as_addrs _ = []"

fun as_string :: "cached_value \<Rightarrow> string" where
  "as_string (CString v) = v" | "as_string _ = []"

record 's cache =
  ch_next :: 's
  ch_m :: "string \<Rightarrow> cached_value answer option"

definition new_cache :: "'s \<Rightarrow> 's cache" where
  "new_cache s = \<lparr>ch_next = s, ch_m = Map.empty\<rparr>"

definition not_kept :: "dns_error \<Rightarrow> bool" where
  "not_kept e \<longleftrightarrow> is_temporary e \<and> kind_of e \<noteq> Some KindBudget"

definition cached ::
  "('a \<Rightarrow> cached_value) \<Rightarrow> (cached_value \<Rightarrow> 'a) \<Rightarrow> string \<Rightarrow> ('s \<Rightarrow> 'a answer \<times> 's)
     \<Rightarrow> 's cache \<Rightarrow> 'a answer \<times> 's cache" where
  "cached mk as_T key fetch c = (case ch_m c key of
     Some (Inl e) \<Rightarrow> (Inl e, c)
   | Some (Inr v) \<Rightarrow> (Inr (as_T v), c)
   | None \<Rightarrow> (case fetch (ch_next c) of
       (Inr v, s) \<Rightarrow> (Inr v, c\<lparr>ch_next := s, ch_m := (ch_m c)(key \<mapsto> Inr (mk v))\<rparr>)
     | (Inl e, s) \<Rightarrow> (if not_kept e then (Inl e, c\<lparr>ch_next := s\<rparr>)
                    else (Inl e, c\<lparr>ch_next := s, ch_m := (ch_m c)(key \<mapsto> Inl e)\<rparr>))))"

definition cache_resolver :: "'s resolver \<Rightarrow> 's cache resolver" where
  "cache_resolver nxt = \<lparr>
     lookup_txt = \<lambda>c name. cached CStrings as_strings (''TXT '' @ fqdn name) (\<lambda>s. lookup_txt nxt s name) c,
     lookup_mx = \<lambda>c name. cached CMX as_mx (''MX '' @ fqdn name) (\<lambda>s. lookup_mx nxt s name) c,
     lookup_a = \<lambda>c name. cached CAddrs as_addrs (''A '' @ fqdn name) (\<lambda>s. lookup_a nxt s name) c,
     lookup_aaaa = \<lambda>c name. cached CAddrs as_addrs (''AAAA '' @ fqdn name) (\<lambda>s. lookup_aaaa nxt s name) c,
     lookup_cname = \<lambda>c name. cached CString as_string (''CNAME '' @ fqdn name) (\<lambda>s. lookup_cname nxt s name) c,
     lookup_ptr = \<lambda>c a. cached CStrings as_strings (''PTR '' @ addr_string a) (\<lambda>s. lookup_ptr nxt s a) c\<rparr>"

definition cache_rel :: "('s \<Rightarrow> 's \<Rightarrow> bool) \<Rightarrow> 's cache \<Rightarrow> 's cache \<Rightarrow> bool" where
  "cache_rel R c c' \<longleftrightarrow> R (ch_next c) (ch_next c') \<and> ch_m c \<subseteq>\<^sub>m ch_m c'"

lemma cache_rel_cached:
  assumes "\<And>s. R s s" and "\<And>s. R s (snd (fetch s))"
  shows "cache_rel R c (snd (cached mk as_T key fetch c))"
  using assms(1) assms(2) [of "ch_next c"]
  by (auto simp: cached_def cache_rel_def map_le_def split: option.split sum.split prod.split)

text \<open>Whatever relation the resolver below keeps, the cache above it keeps too.\<close>

lemma cache_resolver_rel:
  assumes "resolver_rel nxt R"
  shows "resolver_rel (cache_resolver nxt) (cache_rel R)"
proof
  fix c c' c'' :: "'a cache"
  show "cache_rel R c c"
    by (simp add: cache_rel_def resolver_rel.R_refl [OF assms])
  show "cache_rel R c c' \<Longrightarrow> cache_rel R c' c'' \<Longrightarrow> cache_rel R c c''"
    by (auto simp: cache_rel_def intro: resolver_rel.R_trans [OF assms] map_le_trans)
  show "lookup_step (cache_resolver nxt) c c' \<Longrightarrow> cache_rel R c c'"
    by (erule lookup_step.cases)
      (auto simp: cache_resolver_def intro!: cache_rel_cached resolver_rel.R_refl [OF assms]
        resolver_rel.R_step [OF assms] intro: lookup_step.intros)
qed

text \<open>The resolver of a scan: the cache over the budget over the client's resolver.\<close>

definition session_resolver :: "'s resolver \<Rightarrow> int \<Rightarrow> 's budget cache resolver" where
  "session_resolver nxt limit = cache_resolver (budget_resolver nxt limit)"

definition new_session :: "'s \<Rightarrow> 's budget cache" where
  "new_session s = new_cache (with_budget s)"

interpretation session: resolver_rel "session_resolver nxt limit" "cache_rel (budget_rel nxt limit)"
  for nxt limit
  unfolding session_resolver_def
  by (rule cache_resolver_rel) (rule budget.resolver_rel_axioms)

lemma session_run_rel:
  "cache_rel (budget_rel nxt limit) c (snd (run m (session_resolver nxt limit) c))"
  by (rule session.R_run)

subsection \<open>The cache over a fixed DNS\<close>

text \<open>
  A DNS whose answers do not change during the scan is a function of the question.  Its answers
  depend on the name only up to the case of its letters and a final dot, which is what \<^verbatim>\<open>Fqdn\<close>
  removes, and on an address only up to its text.
\<close>

record zone =
  z_txt :: "string \<Rightarrow> string list answer"
  z_mx :: "string \<Rightarrow> mx_record list answer"
  z_a :: "string \<Rightarrow> addr list answer"
  z_aaaa :: "string \<Rightarrow> addr list answer"
  z_cname :: "string \<Rightarrow> string answer"
  z_ptr :: "addr \<Rightarrow> string list answer"

definition zone_resolver :: "zone \<Rightarrow> unit resolver" where
  "zone_resolver z = \<lparr>
     lookup_txt = \<lambda>s n. (z_txt z n, s), lookup_mx = \<lambda>s n. (z_mx z n, s),
     lookup_a = \<lambda>s n. (z_a z n, s), lookup_aaaa = \<lambda>s n. (z_aaaa z n, s),
     lookup_cname = \<lambda>s n. (z_cname z n, s), lookup_ptr = \<lambda>s a. (z_ptr z a, s)\<rparr>"

definition zone_by_key :: "zone \<Rightarrow> bool" where
  "zone_by_key z \<longleftrightarrow> (\<forall>n n'. fqdn n = fqdn n' \<longrightarrow> z_txt z n = z_txt z n' \<and> z_mx z n = z_mx z n'
       \<and> z_a z n = z_a z n' \<and> z_aaaa z n = z_aaaa z n' \<and> z_cname z n = z_cname z n')
     \<and> (\<forall>a a'. addr_string a = addr_string a' \<longrightarrow> z_ptr z a = z_ptr z a')"

text \<open>What a cache may hold over the zone \<open>z\<close>: under each key, an answer of \<open>z\<close> to a question with that key.\<close>

inductive zone_entry :: "zone \<Rightarrow> string \<Rightarrow> cached_value answer \<Rightarrow> bool" for z where
  "zone_entry z (''TXT '' @ fqdn n) (map_sum id CStrings (z_txt z n))"
| "zone_entry z (''MX '' @ fqdn n) (map_sum id CMX (z_mx z n))"
| "zone_entry z (''A '' @ fqdn n) (map_sum id CAddrs (z_a z n))"
| "zone_entry z (''AAAA '' @ fqdn n) (map_sum id CAddrs (z_aaaa z n))"
| "zone_entry z (''CNAME '' @ fqdn n) (map_sum id CString (z_cname z n))"
| "zone_entry z (''PTR '' @ addr_string a) (map_sum id CStrings (z_ptr z a))"

inductive_cases zone_entry_txtE: "zone_entry z (''TXT '' @ k) w"
inductive_cases zone_entry_mxE: "zone_entry z (''MX '' @ k) w"
inductive_cases zone_entry_aE: "zone_entry z (''A '' @ k) w"
inductive_cases zone_entry_aaaaE: "zone_entry z (''AAAA '' @ k) w"
inductive_cases zone_entry_cnameE: "zone_entry z (''CNAME '' @ k) w"
inductive_cases zone_entry_ptrE: "zone_entry z (''PTR '' @ k) w"

lemma zone_by_keyD:
  assumes "zone_by_key z"
  shows "fqdn n = fqdn n' \<Longrightarrow> z_txt z n = z_txt z n'" "fqdn n = fqdn n' \<Longrightarrow> z_mx z n = z_mx z n'"
    "fqdn n = fqdn n' \<Longrightarrow> z_a z n = z_a z n'" "fqdn n = fqdn n' \<Longrightarrow> z_aaaa z n = z_aaaa z n'"
    "fqdn n = fqdn n' \<Longrightarrow> z_cname z n = z_cname z n'"
    "addr_string a = addr_string a' \<Longrightarrow> z_ptr z a = z_ptr z a'"
  using assms unfolding zone_by_key_def by blast+

lemma zone_entry_unique:
  assumes "zone_by_key z"
  shows "zone_entry z (''TXT '' @ fqdn n) w \<Longrightarrow> w = map_sum id CStrings (z_txt z n)"
    and "zone_entry z (''MX '' @ fqdn n) w \<Longrightarrow> w = map_sum id CMX (z_mx z n)"
    and "zone_entry z (''A '' @ fqdn n) w \<Longrightarrow> w = map_sum id CAddrs (z_a z n)"
    and "zone_entry z (''AAAA '' @ fqdn n) w \<Longrightarrow> w = map_sum id CAddrs (z_aaaa z n)"
    and "zone_entry z (''CNAME '' @ fqdn n) w \<Longrightarrow> w = map_sum id CString (z_cname z n)"
    and "zone_entry z (''PTR '' @ addr_string a) w \<Longrightarrow> w = map_sum id CStrings (z_ptr z a)"
       apply (erule zone_entry_txtE; simp; metis zone_by_keyD(1) [OF assms])
      apply (erule zone_entry_mxE; simp; metis zone_by_keyD(2) [OF assms])
     apply (erule zone_entry_aE; simp; metis zone_by_keyD(3) [OF assms])
    apply (erule zone_entry_aaaaE; simp; metis zone_by_keyD(4) [OF assms])
   apply (erule zone_entry_cnameE; simp; metis zone_by_keyD(5) [OF assms])
  apply (erule zone_entry_ptrE; simp; metis zone_by_keyD(6) [OF assms])
  done

definition cache_sim :: "zone \<Rightarrow> unit cache \<Rightarrow> unit \<Rightarrow> bool" where
  "cache_sim z c t \<longleftrightarrow> zone_by_key z \<and> (\<forall>key w. ch_m c key = Some w \<longrightarrow> zone_entry z key w)"

lemma cache_sim_cached:
  assumes sim: "cache_sim z c t" and as: "\<And>x. as_T (mk x) = x"
    and entry: "zone_entry z key (map_sum id mk v)"
    and uniq: "\<And>w. zone_by_key z \<Longrightarrow> zone_entry z key w \<Longrightarrow> w = map_sum id mk v"
  shows "rel_prod (=) (cache_sim z) (cached mk as_T key (\<lambda>s. (v, s)) c) (v, t)"
proof (cases "ch_m c key")
  case None
  then show ?thesis using sim entry
    by (auto simp: cached_def cache_sim_def split: sum.splits)
next
  case (Some w)
  then have "w = map_sum id mk v" using sim uniq by (auto simp: cache_sim_def)
  then show ?thesis using sim Some as by (cases v) (auto simp: cached_def)
qed

interpretation cache_zone: resolver_sim "cache_resolver (zone_resolver z)" "zone_resolver z" "cache_sim z" for z
  by unfold_locales
    (simp_all only: cache_resolver_def zone_resolver_def resolver.simps,
      (rule cache_sim_cached, assumption, simp, rule zone_entry.intros, erule (1) zone_entry_unique)+)

subsection \<open>Properties\<close>

text \<open>
  Claim C11. The query budget of a scan holds: whatever a check asks, and whatever the resolver of the
  client answers, a run through a fresh session (the cache over the budget) passes exactly as many
  lookups on to the client's resolver as \<open>sent\<close> counts, and never more than the limit.
\<close>

theorem session_query_bound:
  "let b = ch_next (snd (run m (session_resolver nxt limit) (new_session s)))
   in calls nxt (nat (sent limit b - sent limit (with_budget s))) s (bg_next b)
      \<and> sent limit b \<le> limit \<and> sent limit b - sent limit (with_budget s) \<le> max 0 limit"
  using session_run_rel [of nxt limit "new_session s" m]
  by (auto simp: Let_def cache_rel_def budget_rel_def new_session_def new_cache_def with_budget_def sent_def)

lemma cached_after_run:
  assumes "lookup_txt (session_resolver nxt limit) c name = (a, c')"
    and "\<forall>e. a = Inl e \<longrightarrow> \<not> not_kept e"
    and "ch_m c (''TXT '' @ fqdn name) = None"
  shows "ch_m c' (''TXT '' @ fqdn name) = Some (map_sum id CStrings a)"
  using assms
  by (auto simp: session_resolver_def cache_resolver_def cached_def split: prod.splits sum.splits if_splits)

text \<open>
  Every check of one scan sees the same answer: once a TXT lookup has been answered, by the
  records, by an error that is not temporary or by the exhausted budget, any later lookup of the same
  name, in whatever case and with or without the final dot, gets that answer and does not ask the
  resolver below, whatever was looked up in between.
\<close>

theorem cache_answers_again:
  assumes "lookup_txt (session_resolver nxt limit) c name = (a, c')"
    and "\<forall>e. a = Inl e \<longrightarrow> \<not> not_kept e"
    and "ch_m c (''TXT '' @ fqdn name) = None"
    and "fqdn name' = fqdn name"
  shows "lookup_txt (session_resolver nxt limit) (snd (run m (session_resolver nxt limit) c')) name'
           = (a, snd (run m (session_resolver nxt limit) c'))"
proof -
  have "ch_m (snd (run m (session_resolver nxt limit) c')) (''TXT '' @ fqdn name') = Some (map_sum id CStrings a)"
    using cached_after_run [OF assms(1-3)] session_run_rel [of nxt limit c' m] assms(4)
    by (simp add: cache_rel_def map_le_def dom_def)
  then show ?thesis
    by (cases a) (simp_all add: session_resolver_def cache_resolver_def cached_def)
qed

definition sample_zone :: zone where
  "sample_zone = \<lparr>z_txt = \<lambda>n. if fqdn n = ''a.example.'' then Inr [''v=spf1 -all''] else Inl (DnsError KindNXDomain (trim_name (fqdn n)) ''TXT''),
     z_mx = \<lambda>_. Inr [], z_a = \<lambda>_. Inr [], z_aaaa = \<lambda>_. Inr [], z_cname = \<lambda>_. Inr [], z_ptr = \<lambda>_. Inr []\<rparr>"

lemma sample_zone_by_key: "zone_by_key sample_zone"
  by (simp add: zone_by_key_def sample_zone_def)

theorem cache_answers_again_witness:
  "lookup_txt (session_resolver (zone_resolver sample_zone) 1)
     (snd (run (AskMX ''b.example'' Ret) (session_resolver (zone_resolver sample_zone) 1)
       (snd (lookup_txt (session_resolver (zone_resolver sample_zone) 1) (new_session ()) ''a.example'')))) ''A.example.''
   = (Inr [''v=spf1 -all''],
      snd (run (AskMX ''b.example'' Ret) (session_resolver (zone_resolver sample_zone) 1)
       (snd (lookup_txt (session_resolver (zone_resolver sample_zone) 1) (new_session ()) ''a.example''))))"
proof (rule cache_answers_again [where c = "new_session ()" and name = "''a.example''"])
  show "lookup_txt (session_resolver (zone_resolver sample_zone) 1) (new_session ()) ''a.example''
    = (Inr [''v=spf1 -all''], snd (lookup_txt (session_resolver (zone_resolver sample_zone) 1) (new_session ()) ''a.example''))"
    by (simp add: session_resolver_def cache_resolver_def budget_resolver_def zone_resolver_def new_session_def
        new_cache_def with_budget_def cached_def budget_defs sample_zone_def fqdn_def str_eval)
qed (simp_all add: new_session_def new_cache_def fqdn_def str_eval)

text \<open>
  Claim C15. The cache is transparent: over a DNS whose answers do not change during the scan (and
  depend on a name only up to case and the final dot), a check that runs through the cache ends with
  exactly the result it has when every question goes to the DNS.
\<close>

theorem cache_transparent:
  assumes "zone_by_key z"
  shows "fst (run m (cache_resolver (zone_resolver z)) (new_cache ())) = fst (run m (zone_resolver z) ())"
proof -
  have "cache_sim z (new_cache ()) ()"
    using assms by (simp add: cache_sim_def new_cache_def)
  from cache_zone.sim_run [OF this, of m] show ?thesis by (auto elim: rel_prod.cases)
qed

theorem cache_transparent_witness:
  "fst (run (AskTXT ''A.example'' (\<lambda>x. AskTXT ''a.example.'' (\<lambda>y. Ret (x, y))))
     (cache_resolver (zone_resolver sample_zone)) (new_cache ()))
   = (Inr [''v=spf1 -all''], Inr [''v=spf1 -all''])"
  unfolding cache_transparent [OF sample_zone_by_key]
  by (simp add: zone_resolver_def sample_zone_def fqdn_def str_eval)

end
