(* ===== verification/SpfExpand.thy ===== *)
theory SpfExpand
  imports SpfRecord DnsBudget
begin

section \<open>Macro expansion (internal/spf/expand.go)\<close>

text \<open>
  The expansion of macro strings.  The field \<^verbatim>\<open>ptr\<close> of the context is a function that asks the DNS and may
  change the state of its evaluator (the cache of the \<^verbatim>\<open>p\<close> macro), so the expansion is a program that passes
  a state of type \<open>'x\<close> along.  Times are seconds since the epoch.
\<close>

record 'x macro_context =
  mc_ip :: addr
  mc_sender :: string
  mc_domain :: string
  mc_helo :: string
  mc_receiver :: string
  mc_now :: int
  mc_ptr :: "('x \<Rightarrow> (string \<times> 'x) dns) option"

definition max_expansion :: nat where
  "max_expansion = 4096"

definition split_sender :: "string \<Rightarrow> string \<times> string" where
  "split_sender sender = (case last_index_byte sender (CHR ''@'') of
     None \<Rightarrow> (''postmaster'', sender)
   | Some i \<Rightarrow> (if take i sender = [] then ''postmaster'' else take i sender, drop (Suc i) sender))"

definition as16 :: "addr \<Rightarrow> 128 word" where
  "as16 a = (case a of Addr4 w \<Rightarrow> 0xffff00000000 OR ucast w | Addr6 w z \<Rightarrow> w | AddrZero \<Rightarrow> 0)"

definition dotted_ip :: "addr \<Rightarrow> string" where
  "dotted_ip ip0 = (let ip = unmap ip0 in
     if is4 ip then addr_string ip
     else join ''.'' (concat (map (\<lambda>i. [[nibble_hi (byte16 (as16 ip) i)], [nibble_lo (byte16 (as16 ip) i)]]) [0..<16])))"

fun split_any :: "string \<Rightarrow> string \<Rightarrow> string \<Rightarrow> string list" where
  "split_any delims [] cur = [cur]"
| "split_any delims (c # s) cur =
     (if c \<in> set delims then cur # split_any delims s [] else split_any delims s (cur @ [c]))"

definition transform :: "string \<Rightarrow> macro_token \<Rightarrow> string" where
  "transform v tok = (
     if mt_digits tok = 0 \<and> \<not> mt_reverse tok \<and> mt_delims tok = [] then v
     else
       let delims = (if mt_delims tok = [] then ''.'' else mt_delims tok);
           parts0 = (if trim_set v delims \<noteq> v then split_any delims v [] else fields_func (\<lambda>c. c \<in> set delims) v []);
           parts1 = (if mt_reverse tok then rev parts0 else parts0);
           parts2 = (if 0 < mt_digits tok \<and> mt_digits tok < int (length parts1)
                     then drop (length parts1 - nat (mt_digits tok)) parts1 else parts1)
       in join ''.'' parts2)"

definition upper_hex :: "int \<Rightarrow> char" where
  "upper_hex n = upper_byte (hex_digit n)"

definition url_escape :: "string \<Rightarrow> string" where
  "url_escape s = concat (map (\<lambda>c.
     if is_alpha c \<or> is_digit c \<or> c \<in> {CHR ''-'', CHR ''.'', CHR ''_'', CHR 0x7E} then [c]
     else [CHR ''%'', upper_hex (byte c div 16), upper_hex (byte c mod 16)]) s)"

definition macro_value :: "'x macro_context \<Rightarrow> char \<Rightarrow> 'x \<Rightarrow> (string \<times> 'x) dns" where
  "macro_value mc letter x = (
     if letter = CHR ''s'' then Ret (mc_sender mc, x)
     else if letter = CHR ''l'' then Ret (fst (split_sender (mc_sender mc)), x)
     else if letter = CHR ''o'' then Ret (snd (split_sender (mc_sender mc)), x)
     else if letter = CHR ''d'' then Ret (mc_domain mc, x)
     else if letter = CHR ''i'' then Ret (dotted_ip (mc_ip mc), x)
     else if letter = CHR ''p'' then (case mc_ptr mc of None \<Rightarrow> Ret (''unknown'', x) | Some ptr \<Rightarrow> ptr x)
     else if letter = CHR ''v'' then Ret (if is4 (unmap (mc_ip mc)) then ''in-addr'' else ''ip6'', x)
     else if letter = CHR ''h'' then Ret (mc_helo mc, x)
     else if letter = CHR ''c'' then Ret (addr_string (unmap (mc_ip mc)), x)
     else if letter = CHR ''r'' then Ret (if mc_receiver mc = [] then ''unknown'' else mc_receiver mc, x)
     else if letter = CHR ''t'' then Ret (show_int (mc_now mc), x)
     else Ret ([], x))"

text \<open>The loop of \<open>expand\<close>: what has been written so far is \<open>b\<close>.\<close>

fun expand_loop :: "'x macro_context \<Rightarrow> macro_string \<Rightarrow> string \<Rightarrow> 'x \<Rightarrow> (string \<times> 'x) dns" where
  "expand_loop mc [] b x = Ret (b, x)"
| "expand_loop mc (tok # m) b x =
     and_then (if mt_letter tok = no_letter then Ret (mt_literal tok, x)
               else and_then (macro_value mc (mt_letter tok) x) (\<lambda>(v0, x).
                 let v = transform v0 tok in Ret (if mt_url_escape tok then url_escape v else v, x)))
       (\<lambda>(v, x). if max_expansion < length (b @ v) then Ret ([], x) else expand_loop mc m (b @ v) x)"

definition expand :: "macro_string \<Rightarrow> 'x macro_context \<Rightarrow> 'x \<Rightarrow> (string \<times> 'x) dns" where
  "expand m mc x = expand_loop mc m [] x"

function truncate_loop :: "string \<Rightarrow> string" where
  "truncate_loop d = (if length d \<le> 253 then d
     else case index_byte d (CHR ''.'') of None \<Rightarrow> [] | Some i \<Rightarrow> truncate_loop (drop (Suc i) d))"
  by auto
termination by (relation "measure length") auto

declare truncate_loop.simps [simp del]

definition truncate_domain :: "string \<Rightarrow> string" where
  "truncate_domain d = truncate_loop (trim_suffix d ''.'')"

definition expand_domain :: "spf_term \<Rightarrow> 'x macro_context \<Rightarrow> 'x \<Rightarrow> (string \<times> 'x) dns" where
  "expand_domain t mc x = (if tm_domain t = [] then Ret (mc_domain mc, x)
     else and_then (expand (tm_macro t) mc x) (\<lambda>(s, x). Ret (truncate_domain s, x)))"

subsection \<open>Lemmas\<close>

lemma expand_loop_bound:
  "length b \<le> max_expansion \<Longrightarrow> ends (\<lambda>_ r. length (fst r) \<le> max_expansion) (expand_loop mc m b x) j"
proof (induction m arbitrary: b x j)
  case (Cons tok m)
  show ?case
    by (auto simp: not_less intro!: ends_bindI [OF ends_trivial] Cons.IH)
qed simp

text \<open>What the \<^verbatim>\<open>p\<close> macro does to the state and the number of questions is all an expansion does.\<close>

lemma expand_loop_ends:
  assumes p: "\<And>x i ptr. Q i x \<Longrightarrow> mc_ptr mc = Some ptr \<Longrightarrow> ends (\<lambda>i r. Q i (snd r)) (ptr x) i"
  shows "Q j x \<Longrightarrow> ends (\<lambda>i r. Q i (snd r)) (expand_loop mc m b x) j"
proof (induction m arbitrary: b x j)
  case (Cons tok m)
  have v: "ends (\<lambda>i r. Q i (snd r)) (macro_value mc (mt_letter tok) x) j"
    using Cons.prems p by (auto simp: macro_value_def split: option.split)
  then have "ends (\<lambda>i r. Q i (snd r)) (if mt_letter tok = no_letter then Ret (mt_literal tok, x)
               else and_then (macro_value mc (mt_letter tok) x) (\<lambda>(v0, x).
                 let v = transform v0 tok in Ret (if mt_url_escape tok then url_escape v else v, x))) j"
    using Cons.prems by (auto simp: Let_def ends_and_then split_def)
  then show ?case
    unfolding expand_loop.simps by (rule ends_bindI) (auto intro: Cons.IH)
qed simp

lemma expand_domain_ends:
  assumes "\<And>x i ptr. Q i x \<Longrightarrow> mc_ptr mc = Some ptr \<Longrightarrow> ends (\<lambda>i r. Q i (snd r)) (ptr x) i" and "Q j x"
  shows "ends (\<lambda>i r. Q i (snd r)) (expand_domain t mc x) j"
proof -
  have "ends (\<lambda>i r. Q i (snd r)) (expand_loop mc (tm_macro t) [] x) j"
    by (rule expand_loop_ends) (use assms in auto)
  then show ?thesis using assms(2) by (auto simp: expand_domain_def expand_def ends_and_then split_def)
qed

lemma truncate_loop_length: "length (truncate_loop d) \<le> 253"
proof (induction d rule: truncate_loop.induct)
  case (1 d)
  then show ?case by (subst truncate_loop.simps) (auto split: option.split)
qed

text \<open>The truncated domain is what is left when whole labels are removed on the left.\<close>

lemma truncate_loop_suffix:
  "truncate_loop d = [] \<or> (\<exists>p. d = p @ truncate_loop d \<and> (p = [] \<or> last p = CHR ''.''))"
proof (induction d rule: truncate_loop.induct)
  case (1 d)
  show ?case
  proof (cases "length d \<le> 253")
    case True
    then show ?thesis by (simp add: truncate_loop.simps [of d])
  next
    case False
    show ?thesis
    proof (cases "index_byte d (CHR ''.'')")
      case None
      then show ?thesis using False by (simp add: truncate_loop.simps [of d] del: index_byte_None_iff)
    next
      case (Some i)
      have d: "d = take i d @ CHR ''.'' # drop (Suc i) d"
        using index_byte_SomeD [OF Some] by (auto simp: id_take_nth_drop)
      have "truncate_loop d = truncate_loop (drop (Suc i) d)"
        using False Some by (simp add: truncate_loop.simps [of d])
      then consider "truncate_loop d = []" | p where "drop (Suc i) d = p @ truncate_loop d" "p = [] \<or> last p = CHR ''.''"
        using 1 [OF _ Some] False by auto
      then show ?thesis
      proof cases
        case (2 p)
        have "d = (take i d @ CHR ''.'' # p) @ truncate_loop d"
          using d 2(1) by (metis append.assoc append_Cons)
        moreover have "last (take i d @ CHR ''.'' # p) = CHR ''.''" using 2(2) by auto
        ultimately show ?thesis by blast
      qed simp
    qed
  qed
qed

lemma fields_func_word:
  "list_all (\<lambda>c. \<not> D c) w \<Longrightarrow> fields_func D (w @ s) cur = fields_func D s (cur @ w)"
  by (induction w arbitrary: cur) auto

lemma fields_func_join:
  assumes "list_all (\<lambda>w. w \<noteq> [] \<and> CHR ''.'' \<notin> set w) (w # ws)"
  shows "fields_func (\<lambda>c. c \<in> set ''.'') (join ''.'' (w # ws)) [] = w # ws"
  using assms
proof (induction ws arbitrary: w)
  case Nil
  then show ?case using fields_func_word [of "\<lambda>c. c \<in> set ''.''" w "[]" "[]"] by (auto simp: list_all_iff)
next
  case (Cons u ws)
  have "list_all (\<lambda>c. \<not> c \<in> set ''.'') w" using Cons.prems by (auto simp: list_all_iff)
  from fields_func_word [OF this, of "''.'' @ join ''.'' (u # ws)" "[]"]
  show ?case using Cons.prems Cons.IH [of u] by simp
qed

lemma trim_set_labels:
  assumes "list_all (\<lambda>w. w \<noteq> [] \<and> CHR ''.'' \<notin> set w) ws"
  shows "trim_set (join ''.'' ws) ''.'' = join ''.'' ws"
proof (cases ws)
  case (Cons w us)
  have hd: "hd (join ''.'' ws) = hd w"
    using assms Cons by (cases us) (auto simp: hd_append)
  have last: "last (join ''.'' ws) = last (last ws)" "join ''.'' ws \<noteq> []"
    using assms unfolding Cons by (induction us arbitrary: w) (auto simp: last_append)
  have nd: "u \<noteq> [] \<and> CHR ''.'' \<notin> set u" if "u \<in> set ws" for u
    using assms that unfolding list_all_iff by blast
  have "w \<in> set ws" "last ws \<in> set ws" using Cons by simp_all
  then have "hd w \<noteq> CHR ''.''" "last (last ws) \<noteq> CHR ''.''"
    using nd hd_in_set last_in_set by metis+
  then show ?thesis using hd last(1) by (intro trim_set_id) simp
qed (simp add: trim_set_Nil)

subsection \<open>Properties\<close>

text \<open>
  Expansion is bounded whatever the record, the request and the DNS answers: no expansion is
  longer than 4096 bytes, and the domain that a term asks about after expanding its domain-spec has at
  most 253 bytes.
\<close>

theorem expansion_bounded:
  "on_every_answer (\<lambda>r. length (fst r) \<le> max_expansion) (expand m mc x)
   \<and> (tm_domain t = [] \<or> on_every_answer (\<lambda>r. length (fst r) \<le> 253) (expand_domain t mc x))"
proof
  show "on_every_answer (\<lambda>r. length (fst r) \<le> max_expansion) (expand m mc x)"
    unfolding expand_def by (rule expand_loop_bound) simp
  show "tm_domain t = [] \<or> on_every_answer (\<lambda>r. length (fst r) \<le> 253) (expand_domain t mc x)"
    by (auto simp: expand_domain_def truncate_domain_def ends_and_then split_def truncate_loop_length
        intro: ends_mono [OF ends_trivial])
qed

text \<open>
  Truncation (RFC 7208 section 4.8) keeps the right-hand end: the result is empty or is the
  domain, without its final dot, from the start of one of its labels on.
\<close>

theorem truncate_domain_suffix:
  "truncate_domain d = [] \<or>
   (\<exists>p. trim_suffix d ''.'' = p @ truncate_domain d \<and> (p = [] \<or> last p = CHR ''.'') \<and> length (truncate_domain d) \<le> 253)"
  using truncate_loop_suffix [of "trim_suffix d ''.''"] truncate_loop_length [of "trim_suffix d ''.''"]
  by (auto simp: truncate_domain_def)

text \<open>
  The transformers of a macro: on a name with no empty label, \<^verbatim>\<open>r\<close> reverses the labels and a digit
  count \<open>n\<close> keeps the last \<open>n\<close> of them.
\<close>

theorem transform_labels:
  assumes "list_all (\<lambda>w. w \<noteq> [] \<and> CHR ''.'' \<notin> set w) ws" and "ws \<noteq> []"
    and "mt_delims tok = []" and "0 \<le> mt_digits tok"
  shows "transform (join ''.'' ws) tok =
    (let parts = (if mt_reverse tok then rev ws else ws) in
     join ''.'' (if mt_digits tok = 0 then parts else drop (length ws - nat (mt_digits tok)) parts))"
proof -
  obtain w us where ws: "ws = w # us" using assms(2) by (cases ws) auto
  have f: "fields_func (\<lambda>c. c \<in> set ''.'') (join ''.'' ws) [] = ws"
    using fields_func_join [of w us] assms(1) ws by simp
  have t: "trim_set (join ''.'' ws) ''.'' = join ''.'' ws" by (rule trim_set_labels [OF assms(1)])
  have small: "length ws - nat (mt_digits tok) = 0" if "\<not> (mt_digits tok < int (length ws))"
    using that by linarith
  show ?thesis
    unfolding transform_def Let_def assms(3) simp_thms if_True t f if_False
    using assms(4) small by (cases "mt_digits tok < int (length ws)") auto
qed

theorem transform_labels_witness:
  "transform ''a.b.example'' \<lparr>mt_literal = [], mt_letter = CHR ''d'', mt_url_escape = False, mt_digits = 2,
     mt_reverse = True, mt_delims = []\<rparr> = ''b.a''"
  using transform_labels [of "[''a'', ''b'', ''example'']"
      "\<lparr>mt_literal = [], mt_letter = CHR ''d'', mt_url_escape = False, mt_digits = 2, mt_reverse = True, mt_delims = []\<rparr>"]
  by simp

text \<open>
  An empty label inside a name is dropped by a transformer, unless the name also begins or ends
  with a delimiter; in that case all empty labels are kept.
\<close>

theorem transform_empty_labels:
  "transform ''a..b'' \<lparr>mt_literal = [], mt_letter = CHR ''d'', mt_url_escape = False, mt_digits = 0,
     mt_reverse = True, mt_delims = []\<rparr> = ''b.a''
   \<and> transform ''.a..b'' \<lparr>mt_literal = [], mt_letter = CHR ''d'', mt_url_escape = False, mt_digits = 0,
     mt_reverse = True, mt_delims = []\<rparr> = ''b..a.''"
  by (simp add: transform_def Let_def trim_defs)

end
