(* ===== verification/SpfEval.thy ===== *)
theory SpfEval
  imports SpfExpand
begin

section \<open>check_host (internal/spf/eval.go and ptrValidated of expand.go)\<close>

text \<open>
  The evaluator of SPF policies.  Its counters, trace, stack and macro cache are an explicit state; the
  limits and the request do not change and are a separate argument.  A Go error is always an
  \<^verbatim>\<open>*evalError\<close> here, so a function that returns a value and an error returns a sum.  Reasons and trace notes
  are constructors with the values their texts show.

  \<open>check_host\<close> calls itself through \<open>include\<close> and \<open>redirect\<close>; the functions between take the recursive call as the
  argument \<open>ck\<close>.  The depth guard makes it terminate: the nesting never passes the limit on the depth.
\<close>

subsection \<open>Requests, limits and evaluations\<close>

record limits =
  max_lookups :: int
  max_void_lookups :: int
  max_mx_names :: int
  max_ptr_names :: int
  max_depth :: int

definition zero_limits :: limits where
  "zero_limits = \<lparr>max_lookups = 0, max_void_lookups = 0, max_mx_names = 0, max_ptr_names = 0, max_depth = 0\<rparr>"

definition default_limits :: limits where
  "default_limits = \<lparr>max_lookups = 10, max_void_lookups = 2, max_mx_names = 10, max_ptr_names = 10, max_depth = 16\<rparr>"

text \<open>The time of a request is \<open>None\<close> for Go's zero time.\<close>

record request =
  rq_ip :: addr
  rq_sender :: string
  rq_helo :: string
  rq_domain :: string
  rq_receiver :: string
  rq_now :: "int option"

datatype eval_reason = NoReason | NotMultiLabel | NoRecordPublished string
  | TxtLookupFailed string dns_error | SeveralRecords string nat | NestingLoop "string list" | NestedTooDeep int
  | RecordSyntax string "term_error list" | IncludeTargetInvalid string | IncludeTargetNone string
  | IncludeReturned string spf_result | RedirectTargetInvalid string | RedirectTargetNone string
  | TooManyLookups int string | TooManyVoidLookups int string string
  | LookupFailed string string dns_error | MXHostLookupFailed string string dns_error
  | TooManyMXNames string nat int | UnsupportedMechanism string
  | MatchedBy addr string string | RedirectResult spf_result string | DefaultNeutral

datatype eval_error = EvalError (ee_result: spf_result) (ee_reason: eval_reason)

abbreviation perm_err :: "eval_reason \<Rightarrow> eval_error" where
  "perm_err \<equiv> EvalError ResultPermError"

abbreviation temp_err :: "eval_reason \<Rightarrow> eval_error" where
  "temp_err \<equiv> EvalError ResultTempError"

datatype trace_note = NoteNotMultiLabel | NoteLoop "string list" | NoteError eval_error | NoteNoRecord
  | NoteSyntax "term_error list" | NoteRecord string | NoteMatched spf_result | NoteNoMatch
  | NoteRedirect string | NotePtrFailed dns_error | NoteNeutral

record trace_step =
  st_depth :: int
  st_domain :: string
  st_term :: string
  st_note :: trace_note

text \<open>\<open>ev_result\<close> is \<open>None\<close> until \<open>CheckHost\<close> sets it.\<close>

record evaluation =
  ev_result :: "spf_result option"
  ev_reason :: eval_reason
  ev_domain :: string
  ev_matched_term :: string
  ev_matched_domain :: string
  ev_explanation :: string
  ev_lookups :: int
  ev_void_lookups :: int
  ev_trace :: "trace_step list"
  ev_loop_detected :: bool
  ev_limit_exceeded :: bool

definition new_evaluation :: "string \<Rightarrow> evaluation" where
  "new_evaluation domain = \<lparr>ev_result = None, ev_reason = NoReason, ev_domain = domain, ev_matched_term = [],
     ev_matched_domain = [], ev_explanation = [], ev_lookups = 0, ev_void_lookups = 0, ev_trace = [],
     ev_loop_detected = False, ev_limit_exceeded = False\<rparr>"

record evaluator =
  el_ev :: evaluation
  el_stack :: "string list"
  el_pcache :: "string \<Rightarrow> string option"

text \<open>The fields of the Go evaluator that do not change: its limits and its request.\<close>

record eval_env =
  en_limits :: limits
  en_req :: request

abbreviation env_ip :: "eval_env \<Rightarrow> addr" where
  "env_ip en \<equiv> rq_ip (en_req en)"

definition update_ev :: "(evaluation \<Rightarrow> evaluation) \<Rightarrow> evaluator \<Rightarrow> evaluator" where
  "update_ev f e = e\<lparr>el_ev := f (el_ev e)\<rparr>"

definition add_trace :: "int \<Rightarrow> string \<Rightarrow> string \<Rightarrow> trace_note \<Rightarrow> evaluator \<Rightarrow> evaluator" where
  "add_trace depth domain term note e = update_ev (\<lambda>v. v\<lparr>ev_trace := ev_trace v @
     [\<lparr>st_depth = depth, st_domain = domain, st_term = term, st_note = note\<rparr>]\<rparr>) e"

definition set_reason :: "eval_reason \<Rightarrow> evaluator \<Rightarrow> evaluator" where
  "set_reason r e = update_ev (\<lambda>v. v\<lparr>ev_reason := r\<rparr>) e"

definition set_limit_exceeded :: "evaluator \<Rightarrow> evaluator" where
  "set_limit_exceeded e = update_ev (\<lambda>v. v\<lparr>ev_limit_exceeded := True\<rparr>) e"

subsection \<open>Lookups\<close>

definition valid_initial_domain :: "string \<Rightarrow> bool" where
  "valid_initial_domain d \<longleftrightarrow> valid_domain d \<and> CHR ''.'' \<in> set (trim_suffix d ''.'')"

text \<open>\<open>fetch_record\<close>: \<open>Inr None\<close> is the result none without an error.\<close>

definition fetch_record :: "string \<Rightarrow> (eval_error + string option) dns" where
  "fetch_record domain = AskTXT domain (\<lambda>ans. Ret (case ans of
     Inl err \<Rightarrow> if is_nxdomain err then Inr None else Inl (temp_err (TxtLookupFailed domain err))
   | Inr txts \<Rightarrow> (let records = filter is_spf txts in
       case records of [] \<Rightarrow> Inr None
       | [r] \<Rightarrow> Inr (Some r)
       | _ \<Rightarrow> Inl (perm_err (SeveralRecords domain (length records))))))"

definition addr_type :: "addr \<Rightarrow> string" where
  "addr_type ip = (if is4 ip then ''A'' else ''AAAA'')"

definition lookup_addrs :: "string \<Rightarrow> addr \<Rightarrow> addr list answer dns" where
  "lookup_addrs name ip = (if is4 ip then AskA name Ret else AskAAAA name Ret)"

fun ptr_names :: "addr \<Rightarrow> string list \<Rightarrow> string list dns" where
  "ptr_names ip [] = Ret []"
| "ptr_names ip (n # ns) = and_then (lookup_addrs n ip) (\<lambda>ans. and_then (ptr_names ip ns) (\<lambda>out. Ret (
     case ans of Inl _ \<Rightarrow> out
     | Inr addrs \<Rightarrow> if unmap ip \<in> set addrs then to_lower n # out else out)))"

definition ptr_validated :: "addr \<Rightarrow> int \<Rightarrow> string list answer dns" where
  "ptr_validated ip max_names = AskPTR ip (\<lambda>ans. case ans of
     Inl err \<Rightarrow> Ret (Inl err)
   | Inr names \<Rightarrow>
       let names = (if max_names < int (length names) then take (nat max_names) names else names)
       in and_then (ptr_names ip names) (\<lambda>out. Ret (Inr out)))"

definition p_macro :: "eval_env \<Rightarrow> string \<Rightarrow> string dns" where
  "p_macro en domain0 = and_then (ptr_validated (env_ip en) (max_ptr_names (en_limits en))) (\<lambda>ans. Ret (
     case ans of Inl _ \<Rightarrow> ''unknown''
     | Inr [] \<Rightarrow> ''unknown''
     | Inr (n # ns) \<Rightarrow>
         let domain = to_lower domain0 in
         if domain \<in> set (n # ns) then domain
         else (case find (\<lambda>m. has_suffix m (''.'' @ domain)) (n # ns) of Some m \<Rightarrow> m | None \<Rightarrow> n)))"

text \<open>The closure \<open>mc.ptr\<close> of a record's domain, and the macro context of the domain.\<close>

definition ptr_closure :: "eval_env \<Rightarrow> string \<Rightarrow> evaluator \<Rightarrow> (string \<times> evaluator) dns" where
  "ptr_closure en domain e = (case el_pcache e domain of
     Some v \<Rightarrow> Ret (v, e)
   | None \<Rightarrow> and_then (p_macro en domain) (\<lambda>v. Ret (v, e\<lparr>el_pcache := (el_pcache e)(domain \<mapsto> v)\<rparr>)))"

definition eval_context :: "eval_env \<Rightarrow> string \<Rightarrow> evaluator macro_context" where
  "eval_context en domain = \<lparr>mc_ip = env_ip en, mc_sender = rq_sender (en_req en), mc_domain = domain,
     mc_helo = rq_helo (en_req en), mc_receiver = rq_receiver (en_req en),
     mc_now = (case rq_now (en_req en) of None \<Rightarrow> 0 | Some t \<Rightarrow> t), mc_ptr = Some (ptr_closure en domain)\<rparr>"

subsection \<open>Counters\<close>

definition count_lookup :: "eval_env \<Rightarrow> spf_term \<Rightarrow> evaluator \<Rightarrow> eval_error option \<times> evaluator" where
  "count_lookup en t e0 = (let e = update_ev (\<lambda>v. v\<lparr>ev_lookups := ev_lookups v + 1\<rparr>) e0 in
     if max_lookups (en_limits en) < ev_lookups (el_ev e)
     then (Some (perm_err (TooManyLookups (max_lookups (en_limits en)) (tm_raw t))), set_limit_exceeded e)
     else (None, e))"

definition count_void :: "eval_env \<Rightarrow> spf_term \<Rightarrow> string \<Rightarrow> evaluator \<Rightarrow> (eval_error + bool) \<times> evaluator" where
  "count_void en t target e0 = (let e = update_ev (\<lambda>v. v\<lparr>ev_void_lookups := ev_void_lookups v + 1\<rparr>) e0 in
     if max_void_lookups (en_limits en) < ev_void_lookups (el_ev e)
     then (Inl (perm_err (TooManyVoidLookups (max_void_lookups (en_limits en)) (tm_raw t) target)), set_limit_exceeded e)
     else (Inr False, e))"

subsection \<open>Matching one mechanism\<close>

fun match_addrs :: "addr list \<Rightarrow> addr \<Rightarrow> spf_term \<Rightarrow> bool" where
  "match_addrs [] ip t = False"
| "match_addrs (a0 # addrs) ip t = (let bits = (if is6 ip then tm_cidr6 t else tm_cidr4 t); a = unmap a0 in
     if is4 a \<noteq> is4 ip then match_addrs addrs ip t
     else if bits < 0 then if a = ip then True else match_addrs addrs ip t
     else (case addr_prefix a bits of
        Some p \<Rightarrow> if prefix_contains p ip then True else match_addrs addrs ip t
      | None \<Rightarrow> match_addrs addrs ip t))"

definition is_void_error :: "dns_error \<Rightarrow> bool" where
  "is_void_error err \<longleftrightarrow> is_nxdomain err \<or> kind_of err = Some KindInvalidName"

fun match_mx :: "addr \<Rightarrow> spf_term \<Rightarrow> mx_record list \<Rightarrow> (eval_error + bool) dns" where
  "match_mx ip t [] = Ret (Inr False)"
| "match_mx ip t (mx # mxs) =
     (if mx_host mx = ''.'' then match_mx ip t mxs
      else and_then (lookup_addrs (mx_host mx) ip) (\<lambda>ans. case ans of
         Inl err \<Rightarrow> if is_temporary err then Ret (Inl (temp_err (MXHostLookupFailed (addr_type ip) (mx_host mx) err)))
                   else match_mx ip t mxs
       | Inr addrs \<Rightarrow> if match_addrs addrs ip t then Ret (Inr True) else match_mx ip t mxs))"

type_synonym check = "string \<Rightarrow> evaluator \<Rightarrow> ((eval_error + spf_result) \<times> evaluator) dns"

definition match_include ::
  "eval_env \<Rightarrow> check \<Rightarrow> spf_term \<Rightarrow> evaluator macro_context \<Rightarrow> evaluator \<Rightarrow> ((eval_error + bool) \<times> evaluator) dns" where
  "match_include en ck t mc e = and_then (expand_domain t mc e) (\<lambda>(target, e).
     if \<not> valid_initial_domain target then Ret (Inl (perm_err (IncludeTargetInvalid target)), e)
     else and_then (ck target e) (\<lambda>(r, e). Ret (
       case r of Inl err \<Rightarrow> Inl err
       | Inr ResultPass \<Rightarrow> Inr True
       | Inr ResultFail \<Rightarrow> Inr False
       | Inr ResultSoftFail \<Rightarrow> Inr False
       | Inr ResultNeutral \<Rightarrow> Inr False
       | Inr ResultNone \<Rightarrow> Inl (perm_err (IncludeTargetNone target))
       | Inr res \<Rightarrow> Inl (perm_err (IncludeReturned target res)), e)))"

definition match_a ::
  "eval_env \<Rightarrow> spf_term \<Rightarrow> evaluator macro_context \<Rightarrow> evaluator \<Rightarrow> ((eval_error + bool) \<times> evaluator) dns" where
  "match_a en t mc e = and_then (expand_domain t mc e) (\<lambda>(target, e).
     and_then (lookup_addrs target (env_ip en)) (\<lambda>ans. Ret (case ans of
       Inl err \<Rightarrow> if is_void_error err then count_void en t target e
                 else (Inl (temp_err (LookupFailed (addr_type (env_ip en)) target err)), e)
     | Inr addrs \<Rightarrow> if addrs = [] then count_void en t target e else (Inr (match_addrs addrs (env_ip en) t), e))))"

definition match_mx_term ::
  "eval_env \<Rightarrow> spf_term \<Rightarrow> evaluator macro_context \<Rightarrow> evaluator \<Rightarrow> ((eval_error + bool) \<times> evaluator) dns" where
  "match_mx_term en t mc e = and_then (expand_domain t mc e) (\<lambda>(target, e). AskMX target (\<lambda>ans. case ans of
       Inl err \<Rightarrow> Ret (if is_void_error err then count_void en t target e
                 else (Inl (temp_err (LookupFailed ''MX'' target err)), e))
     | Inr mxs \<Rightarrow>
         if mxs = [] then Ret (count_void en t target e)
         else if max_mx_names (en_limits en) < int (length mxs)
         then Ret (Inl (perm_err (TooManyMXNames target (length mxs) (max_mx_names (en_limits en)))), set_limit_exceeded e)
         else and_then (match_mx (env_ip en) t mxs) (\<lambda>r. Ret (r, e))))"

definition match_ptr ::
  "eval_env \<Rightarrow> spf_term \<Rightarrow> evaluator macro_context \<Rightarrow> int \<Rightarrow> evaluator \<Rightarrow> ((eval_error + bool) \<times> evaluator) dns" where
  "match_ptr en t mc depth e = and_then (expand_domain t mc e) (\<lambda>(target0, e).
     let target = to_lower target0 in
     and_then (ptr_validated (env_ip en) (max_ptr_names (en_limits en))) (\<lambda>ans. Ret (case ans of
       Inl err \<Rightarrow> (Inr False, if is_temporary err then add_trace depth (mc_domain mc) (tm_raw t) (NotePtrFailed err) e else e)
     | Inr names \<Rightarrow> (Inr (list_ex (\<lambda>n. n = target \<or> has_suffix n (''.'' @ target)) names), e))))"

definition match_exists ::
  "eval_env \<Rightarrow> spf_term \<Rightarrow> evaluator macro_context \<Rightarrow> evaluator \<Rightarrow> ((eval_error + bool) \<times> evaluator) dns" where
  "match_exists en t mc e = and_then (expand_domain t mc e) (\<lambda>(target, e). AskA target (\<lambda>ans. Ret (case ans of
       Inl err \<Rightarrow> if is_void_error err then count_void en t target e
                 else (Inl (temp_err (LookupFailed ''A'' target err)), e)
     | Inr addrs \<Rightarrow> if addrs = [] then count_void en t target e else (Inr True, e))))"

definition match_term :: "eval_env \<Rightarrow> check \<Rightarrow> spf_term \<Rightarrow> evaluator macro_context \<Rightarrow> int \<Rightarrow> evaluator
    \<Rightarrow> ((eval_error + bool) \<times> evaluator) dns" where
  "match_term en ck t mc depth e = (
     if tm_name t = mech_all then Ret (Inr True, e)
     else if tm_name t = mech_ip4 then Ret (Inr (is4 (env_ip en) \<and> prefix_contains (tm_network t) (env_ip en)), e)
     else if tm_name t = mech_ip6 then Ret (Inr (is6 (env_ip en) \<and> prefix_contains (tm_network t) (env_ip en)), e)
     else if tm_name t = mech_include then match_include en ck t mc e
     else if tm_name t = mech_a then match_a en t mc e
     else if tm_name t = mech_mx then match_mx_term en t mc e
     else if tm_name t = mech_ptr then match_ptr en t mc depth e
     else if tm_name t = mech_exists then match_exists en t mc e
     else Ret (Inl (perm_err (UnsupportedMechanism (tm_name t))), e))"

subsection \<open>The terms of a record\<close>

definition max_explanation :: nat where
  "max_explanation = 512"

definition explanation :: "spf_term \<Rightarrow> evaluator macro_context \<Rightarrow> evaluator \<Rightarrow> (string \<times> evaluator) dns" where
  "explanation x mc e = and_then (expand_domain x mc e) (\<lambda>(target, e).
     if \<not> valid_initial_domain target then Ret ([], e)
     else AskTXT target (\<lambda>ans. case ans of
       Inr [txt] \<Rightarrow>
         (case parse_macro_string (concat (map (\<lambda>c. if c = CHR '' '' then ''%_'' else [c]) txt)) True of
            Inl _ \<Rightarrow> Ret ([], e)
          | Inr m \<Rightarrow> and_then (expand m mc e) (\<lambda>(s, e). Ret (take max_explanation s, e)))
     | _ \<Rightarrow> Ret ([], e)))"

definition on_match :: "eval_env \<Rightarrow> spf_record \<Rightarrow> spf_term \<Rightarrow> evaluator macro_context \<Rightarrow> int \<Rightarrow> evaluator
    \<Rightarrow> ((eval_error + spf_result) \<times> evaluator) dns" where
  "on_match en rec t mc depth e0 = (
     let result = qualifier_result (tm_qualifier t); domain = mc_domain mc;
         e = add_trace depth domain (tm_raw t) (NoteMatched result) e0
     in if depth = 0 then
          let e = update_ev (\<lambda>v. v\<lparr>ev_matched_term := tm_raw t, ev_matched_domain := domain,
                    ev_reason := MatchedBy (env_ip en) (tm_raw t) domain\<rparr>) e
          in (case rec_exp rec of
                Some x \<Rightarrow> if result = ResultFail
                  then and_then (explanation x mc e) (\<lambda>(s, e). Ret (Inr result, update_ev (\<lambda>v. v\<lparr>ev_explanation := s\<rparr>) e))
                  else Ret (Inr result, e)
              | None \<Rightarrow> Ret (Inr result, e))
        else Ret (Inr result, e))"

definition follow_redirect :: "check \<Rightarrow> spf_term \<Rightarrow> evaluator macro_context \<Rightarrow> int \<Rightarrow> evaluator
    \<Rightarrow> ((eval_error + spf_result) \<times> evaluator) dns" where
  "follow_redirect ck x mc depth e = and_then (expand_domain x mc e) (\<lambda>(target, e).
     let e = add_trace depth (mc_domain mc) (tm_raw x) (NoteRedirect target) e in
     if \<not> valid_initial_domain target then Ret (Inl (perm_err (RedirectTargetInvalid target)), e)
     else and_then (ck target e) (\<lambda>(r, e). Ret (case r of
       Inl err \<Rightarrow> (Inl err, e)
     | Inr res \<Rightarrow> if res = ResultNone then (Inl (perm_err (RedirectTargetNone target)), e)
         else (Inr res, if depth = 0 \<and> ev_reason (el_ev e) = NoReason then set_reason (RedirectResult res target) e else e))))"

definition eval_redirect :: "eval_env \<Rightarrow> check \<Rightarrow> spf_record \<Rightarrow> evaluator macro_context \<Rightarrow> int \<Rightarrow> evaluator
    \<Rightarrow> ((eval_error + spf_result) \<times> evaluator) dns" where
  "eval_redirect en ck rec mc depth e = (case rec_redirect rec of
     Some x \<Rightarrow> (case count_lookup en x e of
       (Some err, e) \<Rightarrow> Ret (Inl err, e)
     | (None, e) \<Rightarrow> follow_redirect ck x mc depth e)
   | None \<Rightarrow>
       let e = add_trace depth (mc_domain mc) [] NoteNeutral e in
       Ret (Inr ResultNeutral, if depth = 0 then set_reason DefaultNeutral e else e))"

fun eval_terms :: "eval_env \<Rightarrow> check \<Rightarrow> spf_record \<Rightarrow> evaluator macro_context \<Rightarrow> int \<Rightarrow> spf_term list \<Rightarrow> evaluator
    \<Rightarrow> ((eval_error + spf_result) \<times> evaluator) dns" where
  "eval_terms en ck rec mc depth [] e = eval_redirect en ck rec mc depth e"
| "eval_terms en ck rec mc depth (t # ts) e =
     (if tm_modifier t then eval_terms en ck rec mc depth ts e
      else case (if counts_lookup t then count_lookup en t e else (None, e)) of
        (Some err, e) \<Rightarrow> Ret (Inl err, add_trace depth (mc_domain mc) (tm_raw t) (NoteError err) e)
      | (None, e) \<Rightarrow> and_then (match_term en ck t mc depth e) (\<lambda>(r, e). case r of
          Inl err \<Rightarrow> Ret (Inl err, add_trace depth (mc_domain mc) (tm_raw t) (NoteError err) e)
        | Inr True \<Rightarrow> on_match en rec t mc depth e
        | Inr False \<Rightarrow> eval_terms en ck rec mc depth ts (add_trace depth (mc_domain mc) (tm_raw t) NoteNoMatch e)))"

text \<open>What \<open>checkHost\<close> does once the domain is on the stack.\<close>

definition check_record :: "eval_env \<Rightarrow> check \<Rightarrow> string \<Rightarrow> int \<Rightarrow> evaluator
    \<Rightarrow> ((eval_error + spf_result) \<times> evaluator) dns" where
  "check_record en ck domain depth e = and_then (fetch_record domain) (\<lambda>r. case r of
     Inl err \<Rightarrow> Ret (Inl err, add_trace depth domain [] (NoteError err) e)
   | Inr None \<Rightarrow>
       let e = add_trace depth domain [] NoteNoRecord e in
       Ret (Inr ResultNone, if depth = 0 then set_reason (NoRecordPublished domain) e else e)
   | Inr (Some txt) \<Rightarrow> (case parse_record txt of
       (Some rec, []) \<Rightarrow> eval_terms en ck rec (eval_context en domain) depth (rec_terms rec)
          (add_trace depth domain [] (NoteRecord txt) e)
     | (_, errs) \<Rightarrow> Ret (Inl (perm_err (RecordSyntax domain errs)), add_trace depth domain [] (NoteSyntax errs) e)))"

definition pop_stack :: "'a \<times> evaluator \<Rightarrow> ('a \<times> evaluator) dns" where
  "pop_stack re = (case re of (r, e) \<Rightarrow> Ret (r, e\<lparr>el_stack := butlast (el_stack e)\<rparr>))"

lemma check_record_cong [fundef_cong]:
  assumes "\<And>target e. ck target e = ck' target e"
  shows "check_record en ck domain depth e = check_record en ck' domain depth e"
proof -
  have "ck = ck'" by (intro ext) (rule assms)
  then show ?thesis by simp
qed

function check_host :: "eval_env \<Rightarrow> string \<Rightarrow> int \<Rightarrow> evaluator \<Rightarrow> ((eval_error + spf_result) \<times> evaluator) dns" where
  "check_host en domain depth e = (
     if \<not> valid_initial_domain domain then
       let e = add_trace depth domain [] NoteNotMultiLabel e in
       Ret (Inr ResultNone, if depth = 0 then set_reason NotMultiLabel e else e)
     else if list_ex (\<lambda>d. equal_fold d domain) (el_stack e) then
       let chain = el_stack e @ [domain];
           e = add_trace depth domain [] (NoteLoop chain) (update_ev (\<lambda>v. v\<lparr>ev_loop_detected := True\<rparr>) e)
       in Ret (Inl (perm_err (NestingLoop chain)), e)
     else if max_depth (en_limits en) < depth then Ret (Inl (perm_err (NestedTooDeep (max_depth (en_limits en)))), e)
     else and_then (check_record en (\<lambda>target e. check_host en target (depth + 1) e) domain depth
            (e\<lparr>el_stack := el_stack e @ [domain]\<rparr>)) pop_stack)"
  by auto
termination
  by (relation "measure (\<lambda>(en, domain, depth, e). nat (max_depth (en_limits en) + 1 - depth))") auto

declare check_host.simps [simp del]

subsection \<open>CheckHost\<close>

text \<open>The request that is evaluated; \<open>clock\<close> is the time of day, used when the request has none.\<close>

definition effective_request :: "request \<Rightarrow> int \<Rightarrow> request" where
  "effective_request rq clock = (
     let now = (case rq_now rq of None \<Rightarrow> clock | Some t \<Rightarrow> t);
         ip = unmap (rq_ip rq);
         sender =
           (if rq_sender rq = [] \<and> rq_helo rq \<noteq> [] then ''postmaster@'' @ rq_helo rq
            else if has_prefix (rq_sender rq) ''@'' \<or> (CHR ''@'' \<notin> set (rq_sender rq) \<and> rq_sender rq \<noteq> [])
            then (case split_sender (rq_sender rq) of (local, domain) \<Rightarrow> local @ ''@'' @ domain)
            else rq_sender rq);
         domain = (if rq_domain rq = [] then snd (split_sender sender) else rq_domain rq)
     in rq\<lparr>rq_now := Some now, rq_ip := ip, rq_sender := sender, rq_domain := trim_name domain\<rparr>)"

definition check_host_request :: "limits \<Rightarrow> request \<Rightarrow> int \<Rightarrow> evaluation dns" where
  "check_host_request limits0 rq0 clock = (
     let limits = (if limits0 = zero_limits then default_limits else limits0);
         rq = effective_request rq0 clock;
         e = \<lparr>el_ev = new_evaluation (rq_domain rq), el_stack = [], el_pcache = Map.empty\<rparr>
     in and_then (check_host \<lparr>en_limits = limits, en_req = rq\<rparr> (rq_domain rq) 0 e) (\<lambda>(r, e). Ret (case r of
          Inl (EvalError res reason) \<Rightarrow> (el_ev e)\<lparr>ev_result := Some res, ev_reason := reason\<rparr>
        | Inr res \<Rightarrow> (el_ev e)\<lparr>ev_result := Some res\<rparr>)))"

end
