(* ===== verification/SpfEvalSafe.thy ===== *)
theory SpfEvalSafe
  imports SpfEval
begin

section \<open>Limits and cost of an SPF evaluation\<close>

text \<open>
  The invariants of \<open>check_host\<close>, for every answer of the DNS: the counters never pass their limits by
  more than the one that stops the evaluation, a limit or a loop always ends in permerror, the stack is
  restored, and the number of DNS questions is bounded by the limits.  The potential argument behind the
  bound: a counted term pays for at most \<open>term_weight\<close> questions, and the \<^verbatim>\<open>p\<close> macro of a domain is paid for once.
\<close>

definition limits_ok :: "limits \<Rightarrow> bool" where
  "limits_ok l \<longleftrightarrow> 0 \<le> max_lookups l \<and> 0 \<le> max_void_lookups l \<and> 0 \<le> max_mx_names l \<and> 0 \<le> max_ptr_names l"

definition running :: "eval_env \<Rightarrow> evaluator \<Rightarrow> bool" where
  "running en e \<longleftrightarrow> ev_lookups (el_ev e) \<le> max_lookups (en_limits en)
     \<and> ev_void_lookups (el_ev e) \<le> max_void_lookups (en_limits en)
     \<and> \<not> ev_limit_exceeded (el_ev e) \<and> \<not> ev_loop_detected (el_ev e)"

definition stopped :: "eval_env \<Rightarrow> eval_error \<Rightarrow> evaluator \<Rightarrow> bool" where
  "stopped en err e \<longleftrightarrow> ev_lookups (el_ev e) \<le> max_lookups (en_limits en) + 1
     \<and> ev_void_lookups (el_ev e) \<le> max_void_lookups (en_limits en) + 1
     \<and> (max_lookups (en_limits en) < ev_lookups (el_ev e)
        \<or> max_void_lookups (en_limits en) < ev_void_lookups (el_ev e) \<longrightarrow> ev_limit_exceeded (el_ev e))
     \<and> (ev_limit_exceeded (el_ev e) \<or> ev_loop_detected (el_ev e) \<longrightarrow> ee_result err = ResultPermError)
     \<and> ee_result err \<in> {ResultPermError, ResultTempError}"

definition counted :: "eval_env \<Rightarrow> evaluator \<Rightarrow> int" where
  "counted en e = min (ev_lookups (el_ev e)) (max_lookups (en_limits en))"

definition term_weight :: "eval_env \<Rightarrow> int" where
  "term_weight en = max (1 + max_mx_names (en_limits en)) (2 + max_ptr_names (en_limits en))"

definition p_cost :: "eval_env \<Rightarrow> string \<Rightarrow> evaluator \<Rightarrow> int" where
  "p_cost en d e = (if el_pcache e d = None then 1 + max_ptr_names (en_limits en) else 0)"

definition keeps :: "eval_env \<Rightarrow> evaluator \<Rightarrow> eval_error + 'a \<Rightarrow> evaluator \<Rightarrow> bool" where
  "keeps en e r e' \<longleftrightarrow> el_stack e' = el_stack e \<and> ev_domain (el_ev e') = ev_domain (el_ev e) \<and> dom (el_pcache e) \<subseteq> dom (el_pcache e')
     \<and> ev_lookups (el_ev e) \<le> ev_lookups (el_ev e')
     \<and> (case r of Inl err \<Rightarrow> stopped en err e' | Inr _ \<Rightarrow> running en e')"

text \<open>The cost of a step in the record of the domain \<open>d\<close>, from \<open>j\<close> questions in \<open>e\<close> to \<open>i\<close> in \<open>e'\<close>, with \<open>c\<close> extra.\<close>

definition pays :: "eval_env \<Rightarrow> string \<Rightarrow> int \<Rightarrow> nat \<Rightarrow> evaluator \<Rightarrow> nat \<Rightarrow> evaluator \<Rightarrow> bool" where
  "pays en d c j e i e' \<longleftrightarrow>
     int i + p_cost en d e' \<le> int j + p_cost en d e + c + term_weight en * (counted en e' - counted en e)"

definition check_ok :: "eval_env \<Rightarrow> check \<Rightarrow> bool" where
  "check_ok en ck \<longleftrightarrow> (\<forall>target e j. running en e \<longrightarrow>
     ends (\<lambda>i re. keeps en e (fst re) (snd re)
        \<and> int i \<le> int j + (2 + max_ptr_names (en_limits en)) + term_weight en * (counted en (snd re) - counted en e))
       (ck target e) j)"

text \<open>Two states that differ in no counter, flag or stack; only the trace, the reasons and the macro cache may change.\<close>

definition same_counts :: "evaluator \<Rightarrow> evaluator \<Rightarrow> bool" where
  "same_counts e e' \<longleftrightarrow> el_stack e' = el_stack e \<and> ev_domain (el_ev e') = ev_domain (el_ev e) \<and> dom (el_pcache e) \<subseteq> dom (el_pcache e')
     \<and> ev_lookups (el_ev e') = ev_lookups (el_ev e) \<and> ev_void_lookups (el_ev e') = ev_void_lookups (el_ev e)
     \<and> ev_limit_exceeded (el_ev e') = ev_limit_exceeded (el_ev e) \<and> ev_loop_detected (el_ev e') = ev_loop_detected (el_ev e)"

lemma same_counts_refl [simp]: "same_counts e e"
  by (simp add: same_counts_def)

lemma same_counts_trans: "same_counts e e' \<Longrightarrow> same_counts e' e'' \<Longrightarrow> same_counts e e''"
  by (auto simp: same_counts_def)

lemma same_counts_update [simp]:
  "same_counts e (add_trace n d t note e)" "same_counts e (set_reason r e)"
  "same_counts e (update_ev (\<lambda>v. v\<lparr>ev_explanation := s\<rparr>) e)"
  "same_counts e (update_ev (\<lambda>v. v\<lparr>ev_matched_term := a, ev_matched_domain := b, ev_reason := r\<rparr>) e)"
  by (simp_all add: same_counts_def add_trace_def set_reason_def update_ev_def)

lemma pcache_update [simp]:
  "el_pcache (add_trace n d t note e) = el_pcache e" "el_pcache (set_reason r e) = el_pcache e"
  "el_pcache (update_ev f e) = el_pcache e" "el_pcache (set_limit_exceeded e) = el_pcache e"
  by (simp_all add: add_trace_def set_reason_def update_ev_def set_limit_exceeded_def)

lemma p_cost_update [simp]:
  "p_cost en x (add_trace n d t note e) = p_cost en x e" "p_cost en x (set_reason r e) = p_cost en x e"
  "p_cost en x (update_ev f e) = p_cost en x e" "p_cost en x (set_limit_exceeded e) = p_cost en x e"
  by (simp_all add: p_cost_def)

lemma counted_update [simp]:
  "counted en (add_trace n d t note e) = counted en e" "counted en (set_reason r e) = counted en e"
  by (simp_all add: counted_def add_trace_def set_reason_def update_ev_def)

lemma same_counts_running: "same_counts e e' \<Longrightarrow> running en e' = running en e"
  by (simp add: same_counts_def running_def)

lemma same_counts_counted: "same_counts e e' \<Longrightarrow> counted en e' = counted en e"
  by (simp add: same_counts_def counted_def)

lemma same_counts_keeps: "same_counts e e' \<Longrightarrow> running en e \<Longrightarrow> keeps en e (Inr x) e'"
  by (auto simp: keeps_def same_counts_running) (auto simp: same_counts_def)

lemma keeps_trans: "keeps en e (Inr x) e' \<Longrightarrow> keeps en e' r e'' \<Longrightarrow> keeps en e r e''"
  by (auto simp: keeps_def)

lemma same_counts_stopped: "same_counts e e' \<Longrightarrow> stopped en err e' = stopped en err e"
  by (simp add: same_counts_def stopped_def)

lemma keeps_same_counts:
  assumes "keeps en e r e'" and "same_counts e' e''"
  shows "keeps en e r e''"
proof -
  have "dom (el_pcache e) \<subseteq> dom (el_pcache e'')" "el_stack e'' = el_stack e" "ev_domain (el_ev e'') = ev_domain (el_ev e)"
    "ev_lookups (el_ev e) \<le> ev_lookups (el_ev e'')"
    using assms by (auto simp only: keeps_def same_counts_def)
  then show ?thesis
    using assms same_counts_running [OF assms(2), of en] same_counts_stopped [OF assms(2), of en]
    by (simp add: keeps_def split: sum.splits)
qed

lemma keeps_running: "keeps en e (Inr x) e' \<Longrightarrow> running en e'"
  by (simp add: keeps_def)

lemma running_stopped:
  "running en e \<Longrightarrow> ee_result err \<in> {ResultPermError, ResultTempError} \<Longrightarrow> stopped en err e"
  by (simp add: running_def stopped_def)

lemma keeps_stop:
  "keeps en e (Inr x) e' \<Longrightarrow> ee_result err \<in> {ResultPermError, ResultTempError} \<Longrightarrow> keeps en e (Inl err) e'"
  using running_stopped by (auto simp: keeps_def)

lemma counted_mono: "keeps en e r e' \<Longrightarrow> counted en e \<le> counted en e'"
  by (auto simp: keeps_def counted_def)

lemma p_cost_mono:
  assumes "limits_ok (en_limits en)" and "dom (el_pcache e) \<subseteq> dom (el_pcache e')"
  shows "p_cost en d e' \<le> p_cost en d e"
  using assms by (auto simp: p_cost_def limits_ok_def)

lemma p_cost_bounds:
  assumes "limits_ok (en_limits en)"
  shows "0 \<le> p_cost en d e" and "p_cost en d e \<le> 1 + max_ptr_names (en_limits en)"
  using assms by (auto simp: p_cost_def limits_ok_def)

lemma term_weight_bounds:
  assumes "limits_ok (en_limits en)"
  shows "1 + max_mx_names (en_limits en) \<le> term_weight en" "2 + max_ptr_names (en_limits en) \<le> term_weight en"
    "2 \<le> term_weight en"
  using assms by (auto simp: term_weight_def limits_ok_def)

subsection \<open>Questions of the helpers\<close>

lemma lookup_addrs_ends [simp]: "ends P (lookup_addrs n ip) j = (\<forall>a. P (Suc j) a)"
  by (simp add: lookup_addrs_def)

lemma ptr_names_ends: "ends (\<lambda>i _. i = j + length ns) (ptr_names ip ns) j"
proof (induction ns arbitrary: j)
  case (Cons n ns)
  show ?case using Cons.IH [of "Suc j"] by (simp add: ends_and_then)
qed simp

lemma ptr_validated_ends:
  assumes "0 \<le> mx"
  shows "ends (\<lambda>i _. int i \<le> int j + 1 + mx) (ptr_validated ip mx) j"
proof -
  have names: "ends (\<lambda>i _. int i \<le> int j + 1 + mx) (and_then (ptr_names ip ns) (\<lambda>out. Ret (Inr out))) (Suc j)"
    if "int (length ns) \<le> mx" for ns
    using that by (auto simp: ends_and_then intro!: ends_mono [OF ptr_names_ends [of "Suc j" ns ip]])
  show ?thesis using assms by (auto simp: ptr_validated_def Let_def intro!: names split: sum.split)
qed

lemma p_macro_ends:
  assumes "limits_ok (en_limits en)"
  shows "ends (\<lambda>i _. int i \<le> int j + 1 + max_ptr_names (en_limits en)) (p_macro en d) j"
  using ptr_validated_ends [of "max_ptr_names (en_limits en)" j "env_ip en"] assms
  by (auto simp: p_macro_def limits_ok_def ends_and_then elim!: ends_mono split: sum.split list.split)

lemma match_mx_ends:
  "ends (\<lambda>i r. i \<le> j + length mxs \<and> (\<forall>err. r = Inl err \<longrightarrow> ee_result err = ResultTempError)) (match_mx ip t mxs) j"
proof (induction mxs arbitrary: j)
  case (Cons mx mxs)
  have "ends (\<lambda>i r. i \<le> j + length (mx # mxs) \<and> (\<forall>err. r = Inl err \<longrightarrow> ee_result err = ResultTempError)) (match_mx ip t mxs) j'"
    if "j' \<le> Suc j" for j'
    using Cons.IH [of j'] that by (auto elim!: ends_mono)
  then show ?case by (auto simp: ends_and_then split: sum.split)
qed simp

text \<open>What an expansion may do: fill the macro cache of its domain, for the cost of that one entry.\<close>

definition expands :: "eval_env \<Rightarrow> string \<Rightarrow> nat \<Rightarrow> evaluator \<Rightarrow> nat \<Rightarrow> evaluator \<Rightarrow> bool" where
  "expands en d j e i e' \<longleftrightarrow> same_counts e e' \<and> int i + p_cost en d e' \<le> int j + p_cost en d e"

lemma ptr_closure_ends:
  assumes "limits_ok (en_limits en)" and "expands en d j e i x"
  shows "ends (\<lambda>i r. expands en d j e i (snd r)) (ptr_closure en d x) i"
proof (cases "el_pcache x d")
  case None
  then have "ends (\<lambda>i v. expands en d j e i (x\<lparr>el_pcache := (el_pcache x)(d \<mapsto> v)\<rparr>)) (p_macro en d) i"
    using assms(2) by (auto simp: expands_def same_counts_def p_cost_def intro!: ends_mono [OF p_macro_ends [OF assms(1)]])
  then show ?thesis using None by (simp add: ptr_closure_def ends_and_then)
next
  case (Some v)
  then show ?thesis using assms(2) by (simp add: ptr_closure_def)
qed

lemma eval_context_domain [simp]: "mc_domain (eval_context en d) = d"
  by (simp add: eval_context_def)

lemma expand_domain_expands:
  assumes "limits_ok (en_limits en)"
  shows "ends (\<lambda>i r. expands en d j e i (snd r)) (expand_domain t (eval_context en d) e) j"
  by (rule expand_domain_ends) (auto simp: eval_context_def expands_def ptr_closure_ends [OF assms, unfolded expands_def])

lemma expand_expands:
  assumes "limits_ok (en_limits en)" and "expands en d j e i x"
  shows "ends (\<lambda>i r. expands en d j e i (snd r)) (expand m (eval_context en d) x) i"
  unfolding expand_def
  by (rule expand_loop_ends) (use assms in \<open>auto simp: eval_context_def ptr_closure_ends\<close>)

subsection \<open>One mechanism\<close>

definition step_ok :: "eval_env \<Rightarrow> string \<Rightarrow> int \<Rightarrow> nat \<Rightarrow> evaluator \<Rightarrow> nat \<Rightarrow> (eval_error + 'a) \<times> evaluator \<Rightarrow> bool" where
  "step_ok en d c j e i re \<longleftrightarrow> keeps en e (fst re) (snd re) \<and> pays en d c j e i (snd re)"

lemma step_ok_same:
  assumes "running en e" and "same_counts e e'" and "p_cost en d e' = p_cost en d e" and "int i \<le> int j + c"
  shows "step_ok en d c j e i (Inr x, e')"
  using assms by (simp add: step_ok_def same_counts_keeps pays_def same_counts_counted)

lemma step_ok_fail:
  assumes "running en e" and "same_counts e e'" and "p_cost en d e' = p_cost en d e" and "int i \<le> int j + c"
    and "ee_result err \<in> {ResultPermError, ResultTempError}"
  shows "step_ok en d c j e i (Inl err, e')"
  using assms keeps_stop [OF same_counts_keeps [OF assms(2,1), of undefined] assms(5)]
  by (simp add: step_ok_def pays_def same_counts_counted)

lemma count_void_ok:
  assumes "running en e" and "int i \<le> int j + c"
  shows "step_ok en d c j e i (count_void en t target e)"
  using assms
  by (auto simp: count_void_def Let_def step_ok_def keeps_def pays_def running_def stopped_def counted_def
      set_limit_exceeded_def update_ev_def p_cost_def)

lemma limit_stop_ok:
  assumes "running en e" and "int i \<le> int j + c"
  shows "step_ok en d c j e i (Inl (perm_err reason), set_limit_exceeded e)"
  using assms
  by (auto simp: step_ok_def keeps_def pays_def running_def stopped_def counted_def set_limit_exceeded_def
      update_ev_def p_cost_def)

lemma step_ok_trans:
  assumes "step_ok en d c j e i (Inr x, e')" and "step_ok en d c' i e' i' re"
  shows "step_ok en d (c + c') j e i' re"
proof -
  have "keeps en e (fst re) (snd re)"
    using assms by (auto simp: step_ok_def intro: keeps_trans)
  then show ?thesis using assms
    by (simp add: step_ok_def pays_def right_diff_distrib)
qed

lemma step_ok_mono: "step_ok en d c j e i re \<Longrightarrow> c \<le> c' \<Longrightarrow> step_ok en d c' j e i re"
  by (auto simp: step_ok_def pays_def)

lemma step_ok_same_counts:
  "step_ok en d c j e i (r, e') \<Longrightarrow> same_counts e' e'' \<Longrightarrow> p_cost en d e'' = p_cost en d e' \<Longrightarrow>
     step_ok en d c j e i (r, e'')"
  by (auto simp: step_ok_def pays_def same_counts_counted intro: keeps_same_counts)

lemma step_after_expand:
  assumes lim: "limits_ok (en_limits en)" and run: "running en e"
    and K: "\<And>i target e1. running en e1 \<Longrightarrow> ends (step_ok en d c i e1) (K target e1) i"
  shows "ends (step_ok en d c j e) (and_then (expand_domain t (eval_context en d) e) (\<lambda>(target, e1). K target e1)) j"
proof (rule ends_bindI [OF expand_domain_expands [OF lim]])
  fix i and x :: "string \<times> evaluator"
  obtain target e1 where x: "x = (target, e1)" by force
  assume "expands en d j e i (snd x)"
  then have ex: "step_ok en d 0 j e i (Inr (), e1)" and run1: "running en e1"
    using run by (auto simp: x expands_def step_ok_def pays_def same_counts_keeps same_counts_counted same_counts_running)
  show "ends (step_ok en d c j e) (case x of (target, e1) \<Rightarrow> K target e1) i"
    using step_ok_trans [OF ex, of c] by (auto simp: x intro!: ends_mono [OF K [OF run1]])
qed

lemma match_a_ok:
  assumes "limits_ok (en_limits en)" and "running en e"
  shows "ends (step_ok en d 1 j e) (match_a en t (eval_context en d) e) j"
  unfolding match_a_def
  by (rule step_after_expand [OF assms])
    (auto simp: ends_and_then split: sum.split intro!: count_void_ok step_ok_same step_ok_fail)

lemma match_exists_ok:
  assumes "limits_ok (en_limits en)" and "running en e"
  shows "ends (step_ok en d 1 j e) (match_exists en t (eval_context en d) e) j"
  unfolding match_exists_def
  by (rule step_after_expand [OF assms])
    (auto split: sum.split intro!: count_void_ok step_ok_same step_ok_fail)

lemma match_ptr_ok:
  assumes "limits_ok (en_limits en)" and "running en e"
  shows "ends (step_ok en d (1 + max_ptr_names (en_limits en)) j e) (match_ptr en t (eval_context en d) depth e) j"
  unfolding match_ptr_def
proof (rule step_after_expand [OF assms], unfold Let_def, rule ends_bindI)
  show "ends (\<lambda>i' _. int i' \<le> int i + 1 + max_ptr_names (en_limits en))
     (ptr_validated (env_ip en) (max_ptr_names (en_limits en))) i" for i
    using assms(1) by (intro ptr_validated_ends) (simp add: limits_ok_def)
qed (auto split: sum.split intro!: step_ok_same)

lemma match_mx_term_ok:
  assumes "limits_ok (en_limits en)" and "running en e"
  shows "ends (step_ok en d (1 + max_mx_names (en_limits en)) j e) (match_mx_term en t (eval_context en d) e) j"
  unfolding match_mx_term_def
proof (rule step_after_expand [OF assms])
  fix i target e1
  let ?c = "1 + max_mx_names (en_limits en)"
  assume run: "running en e1"
  have mx: "0 \<le> max_mx_names (en_limits en)" using assms(1) by (simp add: limits_ok_def)
  have "ends (step_ok en d ?c i e1) (and_then (match_mx (env_ip en) t mxs) (\<lambda>r. Ret (r, e1))) (Suc i)"
    if "int (length mxs) \<le> max_mx_names (en_limits en)" for mxs
  proof (rule ends_bindI [OF match_mx_ends])
    fix i' and r :: "eval_error + bool"
    assume "i' \<le> Suc i + length mxs \<and> (\<forall>err. r = Inl err \<longrightarrow> ee_result err = ResultTempError)"
    then show "ends (step_ok en d ?c i e1) (Ret (r, e1)) i'"
      using that run by (cases r) (auto intro!: step_ok_same step_ok_fail)
  qed
  then show "ends (step_ok en d ?c i e1) (AskMX target (\<lambda>ans. case ans of
       Inl err \<Rightarrow> Ret (if is_void_error err then count_void en t target e1
                 else (Inl (temp_err (LookupFailed ''MX'' target err)), e1))
     | Inr mxs \<Rightarrow>
         if mxs = [] then Ret (count_void en t target e1)
         else if max_mx_names (en_limits en) < int (length mxs)
         then Ret (Inl (perm_err (TooManyMXNames target (length mxs) (max_mx_names (en_limits en)))), set_limit_exceeded e1)
         else and_then (match_mx (env_ip en) t mxs) (\<lambda>r. Ret (r, e1)))) i"
    using run mx by (auto split: sum.split intro!: count_void_ok step_ok_fail limit_stop_ok)
qed

lemma check_ok_step:
  assumes lim: "limits_ok (en_limits en)" and ck: "check_ok en ck" and run: "running en e"
  shows "ends (step_ok en d (2 + max_ptr_names (en_limits en)) j e) (ck target e) j"
proof (rule ends_mono)
  show "ends (\<lambda>i re. keeps en e (fst re) (snd re)
        \<and> int i \<le> int j + (2 + max_ptr_names (en_limits en)) + term_weight en * (counted en (snd re) - counted en e))
       (ck target e) j"
    using ck run by (simp add: check_ok_def)
  fix i and re :: "(eval_error + spf_result) \<times> evaluator"
  assume k: "keeps en e (fst re) (snd re)
        \<and> int i \<le> int j + (2 + max_ptr_names (en_limits en)) + term_weight en * (counted en (snd re) - counted en e)"
  have "p_cost en d (snd re) \<le> p_cost en d e"
    using k by (intro p_cost_mono [OF lim]) (simp add: keeps_def)
  then show "step_ok en d (2 + max_ptr_names (en_limits en)) j e i re"
    using k by (simp add: step_ok_def pays_def)
qed

lemma step_ok_result:
  assumes "step_ok en d c j e i (r, e')"
    and "case r of Inl err \<Rightarrow> r' = Inl err
      | Inr _ \<Rightarrow> (case r' of Inl err \<Rightarrow> ee_result err \<in> {ResultPermError, ResultTempError} | Inr _ \<Rightarrow> True)"
  shows "step_ok en d c j e i (r', e')"
  using assms
  by (auto simp: step_ok_def keeps_def intro!: running_stopped split: sum.splits)

lemma match_include_ok:
  assumes lim: "limits_ok (en_limits en)" and "running en e" and ck: "check_ok en ck"
  shows "ends (step_ok en d (2 + max_ptr_names (en_limits en)) j e) (match_include en ck t (eval_context en d) e) j"
  unfolding match_include_def
proof (rule step_after_expand [OF assms(1,2)])
  fix i target e1
  let ?c = "2 + max_ptr_names (en_limits en)"
  assume run: "running en e1"
  have c: "0 \<le> ?c" using lim by (simp add: limits_ok_def)
  have ck_step: "ends (step_ok en d ?c i e1) (ck target e1) i"
    by (rule check_ok_step [OF lim ck run])
  show "ends (step_ok en d ?c i e1) (if \<not> valid_initial_domain target then Ret (Inl (perm_err (IncludeTargetInvalid target)), e1)
     else and_then (ck target e1) (\<lambda>(r, e). Ret (
       case r of Inl err \<Rightarrow> Inl err
       | Inr ResultPass \<Rightarrow> Inr True
       | Inr ResultFail \<Rightarrow> Inr False
       | Inr ResultSoftFail \<Rightarrow> Inr False
       | Inr ResultNeutral \<Rightarrow> Inr False
       | Inr ResultNone \<Rightarrow> Inl (perm_err (IncludeTargetNone target))
       | Inr res \<Rightarrow> Inl (perm_err (IncludeReturned target res)), e))) i"
  proof (cases "valid_initial_domain target")
    case True
    have "ends (step_ok en d ?c i e1) (and_then (ck target e1) (\<lambda>(r, e). Ret (
       case r of Inl err \<Rightarrow> Inl err
       | Inr ResultPass \<Rightarrow> Inr True
       | Inr ResultFail \<Rightarrow> Inr False
       | Inr ResultSoftFail \<Rightarrow> Inr False
       | Inr ResultNeutral \<Rightarrow> Inr False
       | Inr ResultNone \<Rightarrow> Inl (perm_err (IncludeTargetNone target))
       | Inr res \<Rightarrow> Inl (perm_err (IncludeReturned target res)), e))) i"
      by (rule ends_bindI [OF ck_step])
        (auto elim!: step_ok_result split: sum.split spf_result.split)
    then show ?thesis using True by simp
  qed (use run c in \<open>auto intro!: step_ok_fail\<close>)
qed

lemma match_term_ok:
  assumes lim: "limits_ok (en_limits en)" and run: "running en e" and ck: "check_ok en ck" and t: "\<not> tm_modifier t"
  shows "ends (step_ok en d (if counts_lookup t then term_weight en else 0) j e)
    (match_term en ck t (eval_context en d) depth e) j"
proof -
  let ?m = "match_term en ck t (eval_context en d) depth e"
  note w = term_weight_bounds [OF lim]
  have up: "ends (step_ok en d c j e) m j \<Longrightarrow> c \<le> term_weight en \<Longrightarrow> ends (step_ok en d (term_weight en) j e) m j"
    for c and m :: "((eval_error + bool) \<times> evaluator) dns"
    by (auto intro: ends_mono step_ok_mono)
  consider (cheap) "\<not> counts_lookup t" | (counted) "counts_lookup t" by blast
  then show ?thesis
  proof cases
    case cheap
    then show ?thesis using run t
      by (auto simp: match_term_def counts_lookup_def intro!: step_ok_same step_ok_fail)
  next
    case counted
    then consider "tm_name t = mech_include" | "tm_name t = mech_a" | "tm_name t = mech_mx"
      | "tm_name t = mech_ptr" | "tm_name t = mech_exists"
      using t by (auto simp: counts_lookup_def)
    then show ?thesis
      using counted w up [OF match_include_ok [OF lim run ck]] up [OF match_a_ok [OF lim run]]
        up [OF match_mx_term_ok [OF lim run]] up [OF match_ptr_ok [OF lim run]] up [OF match_exists_ok [OF lim run]]
      by cases (simp_all add: match_term_def)
  qed
qed

subsection \<open>A record\<close>

lemma count_lookup_ok:
  assumes "running en e"
  shows "case count_lookup en t e of
      (Some err, e') \<Rightarrow> step_ok en d 0 j e j (Inl err :: eval_error + 'a, e')
    | (None, e') \<Rightarrow> step_ok en d (- term_weight en) j e j (Inr (), e') \<and> running en e'"
  using assms
  by (auto simp: count_lookup_def Let_def step_ok_def keeps_def pays_def running_def stopped_def counted_def
      set_limit_exceeded_def update_ev_def p_cost_def)

lemma explanation_ok:
  assumes lim: "limits_ok (en_limits en)"
  shows "ends (\<lambda>i r. expands en d (Suc j) e i (snd r)) (explanation x (eval_context en d) e) j"
  unfolding explanation_def
proof (rule ends_bindI [OF expand_domain_expands [OF lim]])
  fix i and r :: "string \<times> evaluator"
  obtain target e1 where r: "r = (target, e1)" by force
  assume "expands en d j e i (snd r)"
  then have ex: "expands en d (Suc j) e i e1" "expands en d (Suc j) e (Suc i) e1"
    by (auto simp: r expands_def)
  have "ends (\<lambda>i r. expands en d (Suc j) e i (snd r))
      (and_then (expand m (eval_context en d) e1) (\<lambda>(s, e). Ret (take max_explanation s, e))) (Suc i)" for m
    using expand_expands [OF lim ex(2)] by (auto simp: ends_and_then split_def)
  then show "ends (\<lambda>i r. expands en d (Suc j) e i (snd r)) (case r of (target, e) \<Rightarrow>
     if \<not> valid_initial_domain target then Ret ([], e)
     else AskTXT target (\<lambda>ans. case ans of
       Inr [txt] \<Rightarrow>
         (case parse_macro_string (concat (map (\<lambda>c. if c = CHR '' '' then ''%_'' else [c]) txt)) True of
            Inl _ \<Rightarrow> Ret ([], e)
          | Inr m \<Rightarrow> and_then (expand m (eval_context en d) e) (\<lambda>(s, e). Ret (take max_explanation s, e)))
     | _ \<Rightarrow> Ret ([], e))) i"
    using ex by (auto simp: r split: sum.split list.split)
qed

lemma on_match_ok:
  assumes lim: "limits_ok (en_limits en)" and run: "running en e"
  shows "ends (step_ok en d (if depth = 0 then 1 else 0) j e) (on_match en rec t (eval_context en d) depth e) j"
proof -
  let ?e1 = "add_trace depth d (tm_raw t) (NoteMatched (qualifier_result (tm_qualifier t))) e"
  let ?e2 = "update_ev (\<lambda>v. v\<lparr>ev_matched_term := tm_raw t, ev_matched_domain := d,
     ev_reason := MatchedBy (env_ip en) (tm_raw t) d\<rparr>) ?e1"
  have e2: "same_counts e ?e2" by (rule same_counts_trans) (rule same_counts_update)+
  have "ends (step_ok en d 1 j e) (and_then (explanation x (eval_context en d) ?e2)
      (\<lambda>(s, e). Ret (Inr res, update_ev (\<lambda>v. v\<lparr>ev_explanation := s\<rparr>) e))) j" for x res
  proof (rule ends_bindI [OF explanation_ok [OF lim]])
    fix i and r :: "string \<times> evaluator"
    obtain s e3 where r: "r = (s, e3)" by force
    assume "expands en d (Suc j) ?e2 i (snd r)"
    then have e3: "same_counts ?e2 e3" "int i + p_cost en d e3 \<le> int j + p_cost en d e + 1"
      by (auto simp: r expands_def)
    have "same_counts e (update_ev (\<lambda>v. v\<lparr>ev_explanation := s\<rparr>) e3)"
      using same_counts_trans [OF same_counts_trans [OF e2 e3(1)] same_counts_update(3)] .
    then show "ends (step_ok en d 1 j e) (case r of (s, e) \<Rightarrow>
        Ret (Inr res, update_ev (\<lambda>v. v\<lparr>ev_explanation := s\<rparr>) e)) i"
      using run e3(2) by (simp add: r step_ok_def pays_def same_counts_keeps same_counts_counted)
  qed
  then show ?thesis
    using run e2 by (auto simp: on_match_def Let_def split: option.split intro!: step_ok_same)
qed

lemma step_ok_start:
  assumes "running en e" and "same_counts e e'" and "p_cost en d e' = p_cost en d e"
    and "step_ok en d c j e' i re"
  shows "step_ok en d c j e i re"
  using step_ok_trans [OF step_ok_same [OF assms(1-3), of j j 0] assms(4)] by simp

lemma follow_redirect_ok:
  assumes lim: "limits_ok (en_limits en)" and run: "running en e" and ck: "check_ok en ck"
  shows "ends (step_ok en d (2 + max_ptr_names (en_limits en)) j e) (follow_redirect ck t (eval_context en d) depth e) j"
  unfolding follow_redirect_def
proof (rule step_after_expand [OF lim run], unfold Let_def eval_context_domain)
  fix i target e2
  let ?c = "2 + max_ptr_names (en_limits en)"
  let ?e2 = "add_trace depth d (tm_raw t) (NoteRedirect target) e2"
  assume run2: "running en e2"
  have c: "0 \<le> ?c" using lim by (simp add: limits_ok_def)
  have run3: "running en ?e2" using run2 same_counts_running [OF same_counts_update(1)] by blast
  have "ends (step_ok en d ?c i e2) (and_then (ck target ?e2) (\<lambda>(r, e). Ret (case r of
     Inl err \<Rightarrow> (Inl err, e)
   | Inr res \<Rightarrow> if res = ResultNone then (Inl (perm_err (RedirectTargetNone target)), e)
       else (Inr res, if depth = 0 \<and> ev_reason (el_ev e) = NoReason then set_reason (RedirectResult res target) e else e)))) i"
  proof (rule ends_bindI)
    show "ends (step_ok en d ?c i e2) (ck target ?e2) i"
      by (rule ends_mono [OF check_ok_step [OF lim ck run3]])
        (rule step_ok_start [OF run2 same_counts_update(1) p_cost_update(1)])
  next
    fix i' and re :: "(eval_error + spf_result) \<times> evaluator"
    obtain r e3 where re: "re = (r, e3)" by force
    assume s: "step_ok en d ?c i e2 i' re"
    show "ends (step_ok en d ?c i e2) (case re of (r, e) \<Rightarrow> Ret (case r of
       Inl err \<Rightarrow> (Inl err, e)
     | Inr res \<Rightarrow> if res = ResultNone then (Inl (perm_err (RedirectTargetNone target)), e)
         else (Inr res, if depth = 0 \<and> ev_reason (el_ev e) = NoReason then set_reason (RedirectResult res target) e else e))) i'"
    proof (cases r)
      case (Inr res)
      have "step_ok en d ?c i e2 i' (Inl (perm_err (RedirectTargetNone target)) :: eval_error + spf_result, e3)"
        using s unfolding re Inr by (rule step_ok_result) simp
      then show ?thesis using s Inr by (auto simp: re intro: step_ok_same_counts)
    qed (use s re in simp)
  qed
  then show "ends (step_ok en d ?c i e2)
     (if \<not> valid_initial_domain target then Ret (Inl (perm_err (RedirectTargetInvalid target)), ?e2)
     else and_then (ck target ?e2) (\<lambda>(r, e). Ret (case r of
       Inl err \<Rightarrow> (Inl err, e)
     | Inr res \<Rightarrow> if res = ResultNone then (Inl (perm_err (RedirectTargetNone target)), e)
         else (Inr res, if depth = 0 \<and> ev_reason (el_ev e) = NoReason then set_reason (RedirectResult res target) e else e)))) i"
    using run2 c by (auto intro!: step_ok_fail)
qed

lemma eval_redirect_ok:
  assumes lim: "limits_ok (en_limits en)" and run: "running en e" and ck: "check_ok en ck"
  shows "ends (step_ok en d 0 j e) (eval_redirect en ck rec (eval_context en d) depth e) j"
proof (cases "rec_redirect rec")
  case None
  have "same_counts e (set_reason r (add_trace depth d [] NoteNeutral e))" for r
    by (rule same_counts_trans) (rule same_counts_update)+
  then show ?thesis using None run by (auto simp: eval_redirect_def Let_def intro!: step_ok_same)
next
  case (Some x)
  obtain o' e1 where c: "count_lookup en x e = (o', e1)" by force
  show ?thesis
  proof (cases o')
    case (Some err)
    then show ?thesis using count_lookup_ok [OF run, where t = x and d = d and j = j] c \<open>rec_redirect rec = Some x\<close>
      by (simp add: eval_redirect_def)
  next
    case None
    have e1: "step_ok en d (- term_weight en) j e j (Inr (), e1)" "running en e1"
      using count_lookup_ok [OF run, where t = x and d = d and j = j] c None by auto
    have "ends (step_ok en d 0 j e) (follow_redirect ck x (eval_context en d) depth e1) j"
      by (rule ends_mono [OF follow_redirect_ok [OF lim e1(2) ck]])
        (use term_weight_bounds(2) [OF lim] in \<open>auto intro: step_ok_mono [OF step_ok_trans [OF e1(1)]]\<close>)
    then show ?thesis using \<open>rec_redirect rec = Some x\<close> c None by (simp add: eval_redirect_def)
  qed
qed

text \<open>What follows a mechanism; \<open>rest\<close> is the claim for the terms behind it.\<close>

lemma term_verdict_ok:
  fixes depth :: int and c :: int
  defines "c \<equiv> if depth = 0 then 1 else 0"
  assumes lim: "limits_ok (en_limits en)" and s2: "step_ok en d 0 j e i (r, e2)"
    and rest: "\<And>e j. running en e \<Longrightarrow> ends (step_ok en d c j e) (eval_terms en ck rec (eval_context en d) depth ts e) j"
  shows "ends (step_ok en d c j e) (case r of
      Inl err \<Rightarrow> Ret (Inl err, add_trace depth d (tm_raw t) (NoteError err) e2)
    | Inr True \<Rightarrow> on_match en rec t (eval_context en d) depth e2
    | Inr False \<Rightarrow> eval_terms en ck rec (eval_context en d) depth ts (add_trace depth d (tm_raw t) NoteNoMatch e2)) i"
proof -
  have run2: "running en e2" if "r = Inr b" for b
    using s2 that by (auto simp: step_ok_def dest: keeps_running)
  have tr: "running en (add_trace depth d (tm_raw t) n e2)" if "r = Inr b" for b n
    using run2 [OF that] same_counts_running [OF same_counts_update(1)] by blast
  have s3: "step_ok en d 0 j e i (r, add_trace depth d (tm_raw t) n e2)" for n
    using s2 by (rule step_ok_same_counts) simp_all
  have "step_ok en d c j e i (Inl err :: eval_error + spf_result, add_trace depth d (tm_raw t) (NoteError err) e2)" if "r = Inl err" for err
    by (rule step_ok_mono [where c = 0], rule step_ok_result [OF s3]) (simp_all add: that c_def)
  moreover have "ends (step_ok en d (0 + c) j e) (on_match en rec t (eval_context en d) depth e2) i" if "r = Inr True"
    unfolding c_def
    by (rule ends_mono [OF on_match_ok [OF lim run2 [OF that]]]) (rule step_ok_trans [OF s2 [unfolded that]])
  moreover have "ends (step_ok en d (0 + c) j e) (eval_terms en ck rec (eval_context en d) depth ts
      (add_trace depth d (tm_raw t) NoteNoMatch e2)) i" if "r = Inr False"
    by (rule ends_mono [OF rest [OF tr [OF that]]]) (rule step_ok_trans [OF s3 [unfolded that]])
  ultimately show ?thesis by (cases r) (auto split: bool.split)
qed

lemma eval_terms_ok:
  assumes lim: "limits_ok (en_limits en)" and ck: "check_ok en ck"
  shows "running en e \<Longrightarrow>
    ends (step_ok en d (if depth = 0 then 1 else 0) j e) (eval_terms en ck rec (eval_context en d) depth ts e) j"
proof (induction ts arbitrary: e j)
  case Nil
  then show ?case
    unfolding eval_terms.simps
    by (intro ends_mono [OF eval_redirect_ok [OF lim _ ck]]) (auto intro: step_ok_mono)
next
  case (Cons t ts)
  show ?case
  proof (cases "tm_modifier t")
    case True
    then show ?thesis using Cons by simp
  next
    case False
    obtain o' e1 where c: "(if counts_lookup t then count_lookup en t e else (None, e)) = (o', e1)" by force
    show ?thesis
    proof (cases o')
      case (Some err)
      then have "step_ok en d 0 j e j (Inl err :: eval_error + spf_result, e1)"
        using count_lookup_ok [OF Cons.prems, where t = t and d = d and j = j] c by (auto split: if_splits)
      then show ?thesis using False c Some
        by (auto intro: step_ok_mono [OF step_ok_same_counts])
    next
      case None
      let ?w = "if counts_lookup t then term_weight en else 0"
      have e1: "step_ok en d (- ?w) j e j (Inr (), e1)" "running en e1"
        using count_lookup_ok [OF Cons.prems, where t = t and d = d and j = j] c None Cons.prems
        by (auto split: if_splits intro: step_ok_same)
      let ?cont = "\<lambda>(r, e). case r of
            Inl err \<Rightarrow> Ret (Inl err, add_trace depth d (tm_raw t) (NoteError err) e)
          | Inr True \<Rightarrow> on_match en rec t (eval_context en d) depth e
          | Inr False \<Rightarrow> eval_terms en ck rec (eval_context en d) depth ts (add_trace depth d (tm_raw t) NoteNoMatch e)"
      have "ends (step_ok en d (if depth = 0 then 1 else 0) j e) (?cont re) i" if "step_ok en d ?w j e1 i re" for i re
      proof -
        obtain r e2 where re: "re = (r, e2)" by force
        have "step_ok en d 0 j e i (r, e2)"
          using step_ok_trans [OF e1(1) that] by (simp only: left_minus re)
        then show ?thesis unfolding re prod.case by (rule term_verdict_ok [OF lim _ Cons.IH])
      qed
      then have "ends (step_ok en d (if depth = 0 then 1 else 0) j e)
          (and_then (match_term en ck t (eval_context en d) depth e1) ?cont) j"
        by (rule ends_bindI [OF match_term_ok [OF lim e1(2) ck False]])
      then show ?thesis
        by (simp only: eval_terms.simps False c None if_False prod.case option.case eval_context_domain)
    qed
  qed
qed

subsection \<open>check_host\<close>

lemma fetch_record_ends:
  "ends (\<lambda>i r. i = Suc j \<and> (\<forall>err. r = Inl err \<longrightarrow> ee_result err \<in> {ResultPermError, ResultTempError})) (fetch_record d) j"
  by (auto simp: fetch_record_def Let_def split: sum.splits list.splits if_splits)

definition top_cost :: "int \<Rightarrow> int" where
  "top_cost depth = (if depth = 0 then 1 else 0)"

lemma check_record_ok:
  assumes lim: "limits_ok (en_limits en)" and ck: "check_ok en ck" and run: "running en e"
  shows "ends (step_ok en d (1 + top_cost depth) j e) (check_record en ck d depth e) j"
  unfolding check_record_def
proof (rule ends_bindI [OF fetch_record_ends])
  fix i and r :: "eval_error + string option"
  let ?c = "1 + top_cost depth"
  have c: "1 \<le> ?c" by (simp add: top_cost_def)
  assume r: "i = Suc j \<and> (\<forall>err. r = Inl err \<longrightarrow> ee_result err \<in> {ResultPermError, ResultTempError})"
  have fail: "step_ok en d ?c j e i (Inl err :: eval_error + spf_result, add_trace depth d [] n e)"
    if "ee_result err \<in> {ResultPermError, ResultTempError}" for err n
    using that r c by (intro step_ok_fail run) auto
  have two: "same_counts e (set_reason rs (add_trace depth d [] n e))" for rs n
    by (rule same_counts_trans) (rule same_counts_update)+
  show "ends (step_ok en d ?c j e) (case r of
     Inl err \<Rightarrow> Ret (Inl err, add_trace depth d [] (NoteError err) e)
   | Inr None \<Rightarrow>
       let e = add_trace depth d [] NoteNoRecord e in
       Ret (Inr ResultNone, if depth = 0 then set_reason (NoRecordPublished d) e else e)
   | Inr (Some txt) \<Rightarrow> (case parse_record txt of
       (Some rec, []) \<Rightarrow> eval_terms en ck rec (eval_context en d) depth (rec_terms rec)
          (add_trace depth d [] (NoteRecord txt) e)
     | (_, errs) \<Rightarrow> Ret (Inl (perm_err (RecordSyntax d errs)), add_trace depth d [] (NoteSyntax errs) e))) i"
  proof (cases r)
    case (Inl err)
    then show ?thesis using r fail by simp
  next
    case (Inr o')
    show ?thesis
    proof (cases o')
      case None
      then show ?thesis using Inr two run r c by (auto simp: Let_def intro!: step_ok_same)
    next
      case (Some s)
      let ?e1 = "add_trace depth d [] (NoteRecord s) e"
      have run1: "running en ?e1" using run same_counts_running [OF same_counts_update(1)] by blast
      have start: "step_ok en d 1 j e i (Inr (), ?e1)" using run r by (intro step_ok_same) auto
      have "ends (step_ok en d ?c j e) (eval_terms en ck rec (eval_context en d) depth ts ?e1) i" for rec ts
        unfolding top_cost_def
        by (rule ends_mono [OF eval_terms_ok [OF lim ck run1]]) (rule step_ok_trans [OF start])
      then show ?thesis using Inr Some fail by (auto split: prod.split option.split list.split)
    qed
  qed
qed

definition check_cost :: "eval_env \<Rightarrow> int \<Rightarrow> int" where
  "check_cost en depth = 2 + max_ptr_names (en_limits en) + top_cost depth"

lemma keeps_stack:
  "keeps en (e\<lparr>el_stack := el_stack e @ [d]\<rparr>) r e' \<Longrightarrow> keeps en e r (e'\<lparr>el_stack := butlast (el_stack e')\<rparr>)"
  by (auto simp: keeps_def running_def stopped_def split: sum.splits)

text \<open>What an evaluation of one domain keeps and costs.\<close>

definition host_ok :: "eval_env \<Rightarrow> int \<Rightarrow> evaluator \<Rightarrow> nat \<Rightarrow> nat \<Rightarrow> (eval_error + spf_result) \<times> evaluator \<Rightarrow> bool" where
  "host_ok en depth e j i re \<longleftrightarrow> keeps en e (fst re) (snd re)
     \<and> int i \<le> int j + check_cost en depth + term_weight en * (counted en (snd re) - counted en e)"

lemma check_cost_nonneg: "limits_ok (en_limits en) \<Longrightarrow> 0 \<le> check_cost en depth"
  by (simp add: check_cost_def top_cost_def limits_ok_def)

lemma check_host_refused:
  assumes run: "running en e" and lim: "limits_ok (en_limits en)"
    and refused: "\<not> valid_initial_domain d \<or> list_ex (\<lambda>x. equal_fold x d) (el_stack e) \<or> max_depth (en_limits en) < depth"
  shows "ends (host_ok en depth e j) (check_host en d depth e) j"
proof -
  have same: "same_counts e (set_reason rs (add_trace depth d [] n e))" for rs n
    by (rule same_counts_trans) (rule same_counts_update)+
  have "keeps en e (Inl (perm_err R) :: eval_error + spf_result) e" for R
    by (rule keeps_stop [OF same_counts_keeps [OF same_counts_refl run]]) simp
  then show ?thesis
    using refused run check_cost_nonneg [OF lim] same
    by (auto simp: host_ok_def check_host.simps [of en d] Let_def keeps_def running_def stopped_def counted_def add_trace_def
        update_ev_def set_reason_def)
qed

lemma check_host_go:
  assumes run: "running en e" and lim: "limits_ok (en_limits en)" and ck: "check_ok en ck"
  shows "ends (host_ok en depth e j) (and_then (check_record en ck d depth (e\<lparr>el_stack := el_stack e @ [d]\<rparr>)) pop_stack) j"
proof -
  let ?e = "e\<lparr>el_stack := el_stack e @ [d]\<rparr>"
  have run1: "running en ?e" using run by (simp add: running_def)
  show ?thesis
  proof (rule ends_bindI [OF check_record_ok [OF lim ck run1]])
    fix i and re :: "(eval_error + spf_result) \<times> evaluator"
    obtain r e2 where re: "re = (r, e2)" by force
    let ?e3 = "e2\<lparr>el_stack := butlast (el_stack e2)\<rparr>"
    assume s: "step_ok en d (1 + top_cost depth) j ?e i re"
    have "keeps en e r ?e3" using s by (auto simp: step_ok_def re intro: keeps_stack)
    moreover have "counted en ?e3 = counted en e2" "counted en ?e = counted en e" by (simp_all add: counted_def)
    ultimately show "ends (host_ok en depth e j) (pop_stack re) i"
      using s p_cost_bounds [OF lim, of d e2] p_cost_bounds [OF lim, of d ?e]
      by (simp add: host_ok_def pop_stack_def re step_ok_def pays_def check_cost_def)
  qed
qed

lemma check_host_ok:
  assumes lim: "limits_ok (en_limits en)"
  shows "0 \<le> depth \<Longrightarrow> running en e \<Longrightarrow> ends (host_ok en depth e j) (check_host en d depth e) j"
  using lim
proof (induction en d depth e arbitrary: j rule: check_host.induct)
  case (1 en d depth e)
  let ?refused = "\<not> valid_initial_domain d \<or> list_ex (\<lambda>x. equal_fold x d) (el_stack e) \<or> max_depth (en_limits en) < depth"
  show ?case
  proof (cases ?refused)
    case True
    then show ?thesis by (rule check_host_refused [OF "1.prems"(2,3)])
  next
    case False
    then have "check_ok en (\<lambda>target e. check_host en target (depth + 1) e)"
      using 1(1) "1.prems"(1,3) by (auto simp: check_ok_def host_ok_def check_cost_def top_cost_def)
    then show ?thesis
      using check_host_go [OF "1.prems"(2,3)] False by (simp add: check_host.simps [of en d])
  qed
qed

lemmas check_host_ends = check_host_ok [unfolded host_ok_def]

subsection \<open>CheckHost\<close>

definition chosen_limits :: "limits \<Rightarrow> limits" where
  "chosen_limits l = (if l = zero_limits then default_limits else l)"

text \<open>How an evaluation ends: within the limits, or stopped by one with permerror.\<close>

definition evaluation_ok :: "limits \<Rightarrow> evaluation \<Rightarrow> bool" where
  "evaluation_ok l v \<longleftrightarrow>
     (if ev_limit_exceeded v \<or> ev_loop_detected v
      then ev_result v = Some ResultPermError
        \<and> ev_lookups v \<le> max_lookups l + 1 \<and> ev_void_lookups v \<le> max_void_lookups l + 1
      else ev_result v \<noteq> None
        \<and> ev_lookups v \<le> max_lookups l \<and> ev_void_lookups v \<le> max_void_lookups l)"

text \<open>How \<open>CheckHost\<close> records the result.\<close>

definition recorded :: "(eval_error + spf_result) \<times> evaluator \<Rightarrow> evaluation" where
  "recorded re = (case re of (r, e) \<Rightarrow> case r of
     Inl (EvalError res reason) \<Rightarrow> (el_ev e)\<lparr>ev_result := Some res, ev_reason := reason\<rparr>
   | Inr res \<Rightarrow> (el_ev e)\<lparr>ev_result := Some res\<rparr>)"

lemma recorded_ok: "keeps en e0 r e \<Longrightarrow> evaluation_ok (en_limits en) (recorded (r, e))"
  by (auto simp: recorded_def keeps_def stopped_def running_def evaluation_ok_def split: sum.splits eval_error.splits)

lemma recorded_domain: "keeps en e0 r e \<Longrightarrow> ev_domain (recorded (r, e)) = ev_domain (el_ev e0)"
  by (auto simp: recorded_def keeps_def split: sum.split eval_error.split)

lemma check_host_request_ends:
  assumes lim: "limits_ok (chosen_limits l)"
  shows "ends (\<lambda>i v. evaluation_ok (chosen_limits l) v \<and> ev_domain v = rq_domain (effective_request rq clock)
      \<and> int i \<le> 3 + max_ptr_names (chosen_limits l)
          + max (1 + max_mx_names (chosen_limits l)) (2 + max_ptr_names (chosen_limits l)) * max_lookups (chosen_limits l))
    (check_host_request l rq clock) 0"
proof -
  let ?l = "chosen_limits l"
  let ?en = "\<lparr>en_limits = ?l, en_req = effective_request rq clock\<rparr>"
  let ?d = "rq_domain (effective_request rq clock)"
  let ?e = "\<lparr>el_ev = new_evaluation ?d, el_stack = [], el_pcache = Map.empty\<rparr>"
  have lim': "limits_ok (en_limits ?en)" using lim by simp
  have run: "running ?en ?e" using lim by (simp add: running_def new_evaluation_def limits_ok_def)
  have w: "0 \<le> term_weight ?en" using term_weight_bounds(3) [OF lim'] by simp
  have c: "term_weight ?en * (counted ?en e - counted ?en ?e) \<le> term_weight ?en * max_lookups ?l" for e
    using lim by (intro mult_left_mono w) (auto simp: counted_def new_evaluation_def limits_ok_def)
  have "ends (\<lambda>i v. evaluation_ok ?l v \<and> ev_domain v = ?d \<and> int i \<le> 3 + max_ptr_names ?l + term_weight ?en * max_lookups ?l)
      (and_then (check_host ?en ?d 0 ?e) (\<lambda>re. Ret (recorded re))) 0"
  proof (rule ends_bindI [OF check_host_ok [OF lim' order_refl run]])
    fix i and re :: "(eval_error + spf_result) \<times> evaluator"
    assume "host_ok ?en 0 ?e 0 i re"
    then show "ends (\<lambda>i v. evaluation_ok ?l v \<and> ev_domain v = ?d \<and> int i \<le> 3 + max_ptr_names ?l + term_weight ?en * max_lookups ?l)
        (Ret (recorded re)) i"
      using recorded_ok [of ?en ?e "fst re" "snd re"] recorded_domain [of ?en ?e "fst re" "snd re"] c [of "snd re"]
      by (simp add: new_evaluation_def host_ok_def check_cost_def top_cost_def)
  qed
  then show ?thesis
    by (simp add: check_host_request_def chosen_limits_def Let_def split_def term_weight_def recorded_def)
qed

subsection \<open>Properties\<close>

text \<open>
  Claim C2. The limits of RFC 7208 hold in every evaluation with the default limits, for every request and
  every DNS: an evaluation that is not stopped has counted at most 10 DNS-querying terms and 2 void
  lookups and has a result; one that is stopped by a limit or by a loop ends in permerror, with a counter at
  most one past its limit.
\<close>

theorem spf_limits_hold:
  "on_every_answer (\<lambda>v. if ev_limit_exceeded v \<or> ev_loop_detected v
      then ev_result v = Some ResultPermError \<and> ev_lookups v \<le> 11 \<and> ev_void_lookups v \<le> 3
      else ev_result v \<noteq> None \<and> ev_lookups v \<le> 10 \<and> ev_void_lookups v \<le> 2)
    (check_host_request zero_limits rq clock)"
proof (rule ends_mono [OF check_host_request_ends])
  show "limits_ok (chosen_limits zero_limits)"
    by (simp add: chosen_limits_def limits_ok_def default_limits_def)
qed (auto simp: evaluation_ok_def chosen_limits_def default_limits_def split: if_splits)

lemma evaluation_domain: "on_every_answer (\<lambda>v. ev_domain v = rq_domain (effective_request rq clock)) (check_host_request zero_limits rq clock)"
proof (rule ends_mono [OF check_host_request_ends])
  show "limits_ok (chosen_limits zero_limits)"
    by (simp add: chosen_limits_def limits_ok_def default_limits_def)
qed blast

lemma spf_asks_at_most: "asks_at_most 133 (check_host_request zero_limits rq clock)"
proof (rule ends_mono [OF check_host_request_ends])
  show "limits_ok (chosen_limits zero_limits)"
    by (simp add: chosen_limits_def limits_ok_def default_limits_def)
qed (auto simp: chosen_limits_def default_limits_def)

text \<open>
  Claim C10. Every evaluation ends, whatever the records say, after at most 133 DNS questions with the
  default limits: one for the record, eleven for the \<^verbatim>\<open>p\<close> macro of the domain, one for the explanation, and
  at most twelve for each of the ten counted terms (an \<open>mx\<close> with its ten hosts, or an included record with
  the \<^verbatim>\<open>p\<close> macro of its domain). So the resolver below is called at most 133 times.
\<close>

theorem spf_question_bound:
  "\<exists>n\<le>133. calls r n s (snd (run (check_host_request zero_limits rq clock) r s))"
  by (rule asks_at_most_run [OF spf_asks_at_most])

end
