(* ===== verification/CacheThreads.thy ===== *)
theory CacheThreads
  imports DnsBudget
begin

section \<open>The cache and the budget under concurrent lookups (internal/dnsresolver/budget.go)\<close>

text \<open>
  The scans of this program look names up one after the other, but the cache and the budget are written for lookups that
  run at once.  Here each call of \<^verbatim>\<open>cached\<close>, with a fetch that goes through the budget, is a sequence of atomic steps: what
  it does while it holds the mutex, the atomic addition, the answer of the resolver below, the assignment to the entry
  and the closing of its channel.  The steps of all calls interleave in any order; a call that comes later is one whose
  first step comes later.  A fetch does not panic here.  \<open>keys\<close> gives the key of each call, and \<open>limit\<close> the budget.
\<close>

subsection \<open>The steps\<close>

type_synonym cache_answer = "cached_value answer"

text \<open>
  Where a call stands: before it takes the mutex; waiting for an entry; with an entry of its own before the budget, before
  the answer of the resolver, before it stores the answer, before it removes the entry, and before it closes the channel.
\<close>

datatype phase = Calling | Waiting nat | Fetching nat | Asking nat | Storing nat cache_answer | Dropping nat cache_answer
  | Closing nat cache_answer | Returned nat cache_answer

record cache_entry =
  ce_key :: string
  ce_done :: bool
  ce_answer :: "cache_answer option"

text \<open>
  The shared state.  \<open>sh_asked\<close> and \<open>sh_dropped\<close> record the history: the keys that were passed on to the resolver below and
  those whose entry was removed.
\<close>

record shared =
  sh_map :: "string \<Rightarrow> nat option"
  sh_entry :: "nat \<Rightarrow> cache_entry"
  sh_fresh :: nat
  sh_used :: int
  sh_phase :: "nat \<Rightarrow> phase"
  sh_asked :: "string list"
  sh_dropped :: "string list"

definition at_start :: shared where
  "at_start = \<lparr>sh_map = Map.empty, sh_entry = (\<lambda>_. \<lparr>ce_key = [], ce_done = False, ce_answer = None\<rparr>), sh_fresh = 0,
     sh_used = 0, sh_phase = (\<lambda>_. Calling), sh_asked = [], sh_dropped = []\<rparr>"

definition move :: "nat \<Rightarrow> phase \<Rightarrow> shared \<Rightarrow> shared" where
  "move i p s = s\<lparr>sh_phase := (sh_phase s)(i := p)\<rparr>"

definition kept_answer :: "cache_answer \<Rightarrow> bool" where
  "kept_answer a \<longleftrightarrow> (case a of Inl e \<Rightarrow> \<not> not_kept e | Inr v \<Rightarrow> True)"

inductive call_step :: "int \<Rightarrow> string list \<Rightarrow> nat \<Rightarrow> shared \<Rightarrow> shared \<Rightarrow> bool" for limit keys i where
  hit: "i < length keys \<Longrightarrow> sh_phase s i = Calling \<Longrightarrow> sh_map s (keys ! i) = Some e \<Longrightarrow>
    call_step limit keys i s (move i (Waiting e) s)"
| miss: "i < length keys \<Longrightarrow> sh_phase s i = Calling \<Longrightarrow> sh_map s (keys ! i) = None \<Longrightarrow>
    call_step limit keys i s (move i (Fetching (sh_fresh s))
      (s\<lparr>sh_map := (sh_map s)(keys ! i \<mapsto> sh_fresh s), sh_fresh := sh_fresh s + 1,
         sh_entry := (sh_entry s)(sh_fresh s := \<lparr>ce_key = keys ! i, ce_done = False, ce_answer = None\<rparr>)\<rparr>))"
| wake: "i < length keys \<Longrightarrow> sh_phase s i = Waiting e \<Longrightarrow> ce_done (sh_entry s e) \<Longrightarrow> ce_answer (sh_entry s e) = Some a \<Longrightarrow>
    call_step limit keys i s (move i (Returned e a) s)"
| refused: "i < length keys \<Longrightarrow> sh_phase s i = Fetching e \<Longrightarrow> limit < sh_used s + 1 \<Longrightarrow> kind_of err = Some KindBudget \<Longrightarrow>
    call_step limit keys i s (move i (Storing e (Inl err)) (s\<lparr>sh_used := sh_used s + 1\<rparr>))"
| passed: "i < length keys \<Longrightarrow> sh_phase s i = Fetching e \<Longrightarrow> \<not> limit < sh_used s + 1 \<Longrightarrow>
    call_step limit keys i s (move i (Asking e) (s\<lparr>sh_used := sh_used s + 1, sh_asked := sh_asked s @ [keys ! i]\<rparr>))"
| answered: "i < length keys \<Longrightarrow> sh_phase s i = Asking e \<Longrightarrow>
    call_step limit keys i s (move i (Storing e a) s)"
| store: "i < length keys \<Longrightarrow> sh_phase s i = Storing e a \<Longrightarrow>
    call_step limit keys i s (move i (if kept_answer a then Closing e a else Dropping e a)
      (s\<lparr>sh_entry := (sh_entry s)(e := (sh_entry s e)\<lparr>ce_answer := Some a\<rparr>)\<rparr>))"
| drop_entry: "i < length keys \<Longrightarrow> sh_phase s i = Dropping e a \<Longrightarrow>
    call_step limit keys i s (move i (Closing e a)
      (s\<lparr>sh_map := (sh_map s)(keys ! i := None), sh_dropped := sh_dropped s @ [keys ! i]\<rparr>))"
| close: "i < length keys \<Longrightarrow> sh_phase s i = Closing e a \<Longrightarrow>
    call_step limit keys i s (move i (Returned e a)
      (s\<lparr>sh_entry := (sh_entry s)(e := (sh_entry s e)\<lparr>ce_done := True\<rparr>)\<rparr>))"

text \<open>The states that some schedule reaches, with the number of steps it took.\<close>

inductive schedule :: "int \<Rightarrow> string list \<Rightarrow> nat \<Rightarrow> shared \<Rightarrow> bool" for limit keys where
  starts: "schedule limit keys 0 at_start"
| goes_on: "schedule limit keys n s \<Longrightarrow> call_step limit keys i s s' \<Longrightarrow> schedule limit keys (Suc n) s'"

subsection \<open>The invariant\<close>

fun owned :: "phase \<Rightarrow> nat option" where
  "owned (Fetching e) = Some e"
| "owned (Asking e) = Some e"
| "owned (Storing e a) = Some e"
| "owned (Dropping e a) = Some e"
| "owned (Closing e a) = Some e"
| "owned _ = None"

fun in_map :: "phase \<Rightarrow> nat option" where
  "in_map (Closing e a) = (if kept_answer a then Some e else None)"
| "in_map p = owned p"

fun refers :: "phase \<Rightarrow> nat option" where
  "refers (Waiting e) = Some e"
| "refers (Returned e a) = Some e"
| "refers p = owned p"

fun stored :: "phase \<Rightarrow> (nat \<times> cache_answer) option" where
  "stored (Dropping e a) = Some (e, a)"
| "stored (Closing e a) = Some (e, a)"
| "stored (Returned e a) = Some (e, a)"
| "stored _ = None"

text \<open>The entry of a fetch that is under way is the one in the map; a kept answer stays there.\<close>

definition mapped :: "string list \<Rightarrow> shared \<Rightarrow> bool" where
  "mapped keys s \<longleftrightarrow> (\<forall>i e. in_map (sh_phase s i) = Some e \<longrightarrow> sh_map s (keys ! i) = Some e)
     \<and> (\<forall>e a. ce_done (sh_entry s e) \<and> ce_answer (sh_entry s e) = Some a \<and> kept_answer a \<longrightarrow> sh_map s (ce_key (sh_entry s e)) = Some e)"

text \<open>An entry has one owner until it is done.\<close>

definition single_owner :: "string list \<Rightarrow> shared \<Rightarrow> bool" where
  "single_owner keys s \<longleftrightarrow> (\<forall>i j e. owned (sh_phase s i) = Some e \<and> owned (sh_phase s j) = Some e \<longrightarrow> i = j)
     \<and> (\<forall>i e. owned (sh_phase s i) = Some e \<longrightarrow> \<not> ce_done (sh_entry s e))
     \<and> (\<forall>e. e < sh_fresh s \<and> \<not> ce_done (sh_entry s e) \<longrightarrow> (\<exists>i<length keys. owned (sh_phase s i) = Some e))"

definition keys_agree :: "string list \<Rightarrow> shared \<Rightarrow> bool" where
  "keys_agree keys s \<longleftrightarrow> (\<forall>k e. sh_map s k = Some e \<longrightarrow> e < sh_fresh s \<and> ce_key (sh_entry s e) = k)
     \<and> (\<forall>i e. refers (sh_phase s i) = Some e \<longrightarrow> e < sh_fresh s \<and> ce_key (sh_entry s e) = keys ! i)"

definition answers_stored :: "shared \<Rightarrow> bool" where
  "answers_stored s \<longleftrightarrow> (\<forall>i e a. stored (sh_phase s i) = Some (e, a) \<longrightarrow> ce_answer (sh_entry s e) = Some a)
     \<and> (\<forall>e. ce_done (sh_entry s e) \<longrightarrow> e < sh_fresh s \<and> ce_answer (sh_entry s e) \<noteq> None)
     \<and> (\<forall>i e a. sh_phase s i = Returned e a \<longrightarrow> ce_done (sh_entry s e))
     \<and> (\<forall>i e a. sh_phase s i = Dropping e a \<longrightarrow> \<not> kept_answer a)"

text \<open>
  The queries for a key: one for each entry that was dropped, and one for the entry in the map unless its call is still in
  front of the budget.
\<close>

definition credit :: "string list \<Rightarrow> shared \<Rightarrow> string \<Rightarrow> nat" where
  "credit keys s k = (if sh_map s k = None \<or> (\<exists>i e. sh_phase s i = Fetching e \<and> keys ! i = k) then 0 else 1)"

definition counted_keys :: "int \<Rightarrow> string list \<Rightarrow> shared \<Rightarrow> bool" where
  "counted_keys limit keys s \<longleftrightarrow> int (length (sh_asked s)) \<le> sh_used s \<and> int (length (sh_asked s)) \<le> max 0 limit
     \<and> (\<forall>k. count_list (sh_asked s) k \<le> count_list (sh_dropped s) k + credit keys s k)"

lemmas step_defs = move_def mapped_def single_owner_def keys_agree_def answers_stored_def counted_keys_def credit_def

definition threads_ok :: "int \<Rightarrow> string list \<Rightarrow> shared \<Rightarrow> bool" where
  "threads_ok limit keys s \<longleftrightarrow> mapped keys s \<and> single_owner keys s \<and> keys_agree keys s \<and> answers_stored s \<and> counted_keys limit keys s"

lemma owned_refers: "owned p = Some e \<Longrightarrow> refers p = Some e"
  by (cases p) auto

lemma in_map_owned: "in_map p = Some e \<Longrightarrow> owned p = Some e"
  by (cases p) (auto split: if_splits)

lemma stored_refers: "stored p = Some (e, a) \<Longrightarrow> refers p = Some e"
  by (cases p) auto

lemma start_ok: "threads_ok limit keys at_start"
  by (simp add: threads_ok_def step_defs at_start_def)

text \<open>What the invariant says of a single call or entry.\<close>

lemma mappedD: "mapped keys s \<Longrightarrow> in_map (sh_phase s j) = Some e \<Longrightarrow> sh_map s (keys ! j) = Some e"
  by (simp add: mapped_def)

lemma keptD: "mapped keys s \<Longrightarrow> ce_done (sh_entry s e) \<Longrightarrow> ce_answer (sh_entry s e) = Some a \<Longrightarrow> kept_answer a \<Longrightarrow>
    sh_map s (ce_key (sh_entry s e)) = Some e"
  by (simp add: mapped_def)

lemma ownerD: "single_owner keys s \<Longrightarrow> owned (sh_phase s j) = Some e \<Longrightarrow> owned (sh_phase s j') = Some e \<Longrightarrow> j = j'"
  by (auto simp: single_owner_def)

lemma not_doneD: "single_owner keys s \<Longrightarrow> owned (sh_phase s j) = Some e \<Longrightarrow> \<not> ce_done (sh_entry s e)"
  by (auto simp: single_owner_def)

lemma has_ownerD: "single_owner keys s \<Longrightarrow> e < sh_fresh s \<Longrightarrow> \<not> ce_done (sh_entry s e) \<Longrightarrow>
    \<exists>j<length keys. owned (sh_phase s j) = Some e"
  by (simp add: single_owner_def)

lemma mapD: "keys_agree keys s \<Longrightarrow> sh_map s k = Some e \<Longrightarrow> e < sh_fresh s \<and> ce_key (sh_entry s e) = k"
  by (simp add: keys_agree_def)

lemma refersD: "keys_agree keys s \<Longrightarrow> refers (sh_phase s j) = Some e \<Longrightarrow> e < sh_fresh s \<and> ce_key (sh_entry s e) = keys ! j"
  by (simp add: keys_agree_def)

lemma storedD: "answers_stored s \<Longrightarrow> stored (sh_phase s j) = Some (e, a) \<Longrightarrow> ce_answer (sh_entry s e) = Some a"
  by (simp add: answers_stored_def)

lemma doneD: "answers_stored s \<Longrightarrow> ce_done (sh_entry s e) \<Longrightarrow> e < sh_fresh s \<and> ce_answer (sh_entry s e) \<noteq> None"
  by (simp add: answers_stored_def)

lemma returnedD: "answers_stored s \<Longrightarrow> sh_phase s j = Returned e a \<Longrightarrow> ce_done (sh_entry s e)"
  unfolding answers_stored_def by blast

lemma droppingD: "answers_stored s \<Longrightarrow> sh_phase s j = Dropping e a \<Longrightarrow> \<not> kept_answer a"
  by (simp add: answers_stored_def)

lemma okD:
  assumes "threads_ok limit keys s"
  shows "mapped keys s" "single_owner keys s" "keys_agree keys s" "answers_stored s" "counted_keys limit keys s"
  using assms by (simp_all add: threads_ok_def)

lemma stored_owned: "stored p = Some (e, a) \<Longrightarrow> owned p = Some e \<or> p = Returned e a"
  by (cases p) auto

text \<open>An answer that is stored belongs to the owner of its entry while it has one.\<close>

lemma stored_by_owner:
  assumes "single_owner keys s" "answers_stored s" "owned (sh_phase s i) = Some e" "stored (sh_phase s j) = Some (e, a)"
  shows "j = i"
  using stored_owned [OF assms(4)] ownerD [OF assms(1,3)] not_doneD [OF assms(1,3)] returnedD [OF assms(2)] by metis

subsection \<open>Every step keeps the invariant\<close>

lemma step_others: "call_step limit keys i s s' \<Longrightarrow> j \<noteq> i \<Longrightarrow> sh_phase s' j = sh_phase s j"
  by (cases rule: call_step.cases) (auto simp: move_def)

lemma step_own: "call_step limit keys i s s' \<Longrightarrow> owned (sh_phase s i) = Some e \<Longrightarrow>
    owned (sh_phase s' i) = Some e \<or> ce_done (sh_entry s' e)"
  by (cases rule: call_step.cases) (auto simp: move_def)

lemma step_unfinished: "call_step limit keys i s s' \<Longrightarrow> e < sh_fresh s' \<Longrightarrow> \<not> ce_done (sh_entry s' e) \<Longrightarrow>
    e < sh_fresh s \<and> \<not> ce_done (sh_entry s e) \<or> owned (sh_phase s' i) = Some e"
  by (cases rule: call_step.cases) (auto simp: move_def split: if_splits)

lemma step_index: "call_step limit keys i s s' \<Longrightarrow> i < length keys"
  by (cases rule: call_step.cases) auto

lemma step_has_owner:
  assumes step: "call_step limit keys i s s'" and own: "single_owner keys s"
    and e: "e < sh_fresh s'" "\<not> ce_done (sh_entry s' e)"
  shows "\<exists>j<length keys. owned (sh_phase s' j) = Some e"
proof (cases "owned (sh_phase s' i) = Some e")
  case True
  then show ?thesis using step_index [OF step] by blast
next
  case False
  then obtain j where j: "j < length keys" "owned (sh_phase s j) = Some e"
    using step_unfinished [OF step e] has_ownerD [OF own] by blast
  then have "j \<noteq> i" using step_own [OF step] False e(2) by blast
  then show ?thesis using j step_others [OF step] by auto
qed

lemma step_owned_before: "call_step limit keys i s s' \<Longrightarrow> owned (sh_phase s' j) = Some e \<Longrightarrow>
    owned (sh_phase s j) = Some e \<or> j = i \<and> e = sh_fresh s \<and> \<not> ce_done (sh_entry s' e)"
  by (cases rule: call_step.cases) (auto simp: move_def split: if_splits)

lemma step_done_before: "call_step limit keys i s s' \<Longrightarrow> ce_done (sh_entry s' e) \<Longrightarrow>
    ce_done (sh_entry s e) \<or> owned (sh_phase s i) = Some e \<and> owned (sh_phase s' i) = None"
  by (cases rule: call_step.cases) (auto simp: move_def split: if_splits)

lemma step_owner:
  assumes step: "call_step limit keys i s s'" and own: "single_owner keys s" and key: "keys_agree keys s"
  shows "single_owner keys s'"
proof -
  have old: "e < sh_fresh s" if "owned (sh_phase s j) = Some e" for j e
    using refersD [OF key owned_refers [OF that]] by simp
  have "j = j'" if now: "owned (sh_phase s' j) = Some e" "owned (sh_phase s' j') = Some e" for j j' e
  proof (cases "e < sh_fresh s")
    case True
    then have "owned (sh_phase s j) = Some e" "owned (sh_phase s j') = Some e"
      using step_owned_before [OF step now(1)] step_owned_before [OF step now(2)] by auto
    then show ?thesis by (rule ownerD [OF own])
  next
    case False
    then show ?thesis using step_owned_before [OF step now(1)] step_owned_before [OF step now(2)] old by blast
  qed
  moreover have "\<not> ce_done (sh_entry s' e)" if now: "owned (sh_phase s' j) = Some e" for j e
  proof
    assume d: "ce_done (sh_entry s' e)"
    then have j: "owned (sh_phase s j) = Some e" using step_owned_before [OF step now] by blast
    then have i: "owned (sh_phase s i) = Some e" "owned (sh_phase s' i) = None"
      using step_done_before [OF step d] not_doneD [OF own j] by blast+
    show False using ownerD [OF own j i(1)] now i(2) by simp
  qed
  ultimately show ?thesis using step_has_owner [OF step own] unfolding single_owner_def by blast
qed

text \<open>What a step does to the map: it removes an entry only for the call that is dropping it.\<close>

lemma step_map: "call_step limit keys i s s' \<Longrightarrow> sh_map s k = Some e \<Longrightarrow>
    sh_map s' k = Some e \<or> k = keys ! i \<and> (\<exists>e' a. sh_phase s i = Dropping e' a)"
  by (cases rule: call_step.cases) (auto simp: move_def split: if_splits)

lemma step_in_map_before: "call_step limit keys i s s' \<Longrightarrow> answers_stored s \<Longrightarrow> in_map (sh_phase s' j) = Some e \<Longrightarrow>
    in_map (sh_phase s j) = Some e \<and> (\<forall>e' a. sh_phase s i = Dropping e' a \<longrightarrow> j \<noteq> i) \<or> sh_map s' (keys ! j) = Some e"
  by (cases rule: call_step.cases) (auto simp: move_def dest: droppingD split: if_splits)

lemma step_finished: "call_step limit keys i s s' \<Longrightarrow> ce_done (sh_entry s' e) \<Longrightarrow>
    sh_entry s' e = sh_entry s e \<or> owned (sh_phase s i) = Some e \<and> (ce_done (sh_entry s e)
      \<or> (\<exists>a. sh_phase s i = Closing e a \<and> sh_entry s' e = (sh_entry s e)\<lparr>ce_done := True\<rparr> \<and> sh_map s' = sh_map s))"
  by (cases rule: call_step.cases) (auto simp: move_def split: if_splits)

lemma dropping_map:
  assumes "mapped keys s" "single_owner keys s" "sh_phase s i = Dropping e' a" "sh_map s (keys ! i) = Some e"
  shows "owned (sh_phase s i) = Some e" "\<not> ce_done (sh_entry s e)"
proof -
  have "e' = e" using mappedD [OF assms(1), of i e'] assms(3,4) by simp
  then show "owned (sh_phase s i) = Some e" using assms(3) by simp
  then show "\<not> ce_done (sh_entry s e)" by (rule not_doneD [OF assms(2)])
qed

lemma step_mapped:
  assumes step: "call_step limit keys i s s'" and ok: "threads_ok limit keys s"
  shows "mapped keys s'"
proof -
  note m = okD(1) [OF ok] and own = okD(2) [OF ok] and key = okD(3) [OF ok] and ans = okD(4) [OF ok]
  have "sh_map s' (keys ! j) = Some e" if now: "in_map (sh_phase s' j) = Some e" for j e
  proof (rule ccontr)
    assume gone: "sh_map s' (keys ! j) \<noteq> Some e"
    then have before: "in_map (sh_phase s j) = Some e" "\<forall>e' a. sh_phase s i = Dropping e' a \<longrightarrow> j \<noteq> i"
      using step_in_map_before [OF step ans now] by blast+
    obtain e' a where i: "keys ! j = keys ! i" "sh_phase s i = Dropping e' a"
      using step_map [OF step mappedD [OF m before(1)]] gone by blast
    have "owned (sh_phase s i) = Some e"
      by (rule dropping_map(1) [OF m own i(2)]) (use mappedD [OF m before(1)] i(1) in simp)
    then show False using ownerD [OF own in_map_owned [OF before(1)]] before(2) i(2) by blast
  qed
  moreover have "sh_map s' (ce_key (sh_entry s' e)) = Some e"
    if now: "ce_done (sh_entry s' e)" "ce_answer (sh_entry s' e) = Some a" "kept_answer a" for e a
  proof -
    consider (before) "sh_entry s' e = sh_entry s e"
      | (closed) b where "sh_phase s i = Closing e b" "sh_entry s' e = (sh_entry s e)\<lparr>ce_done := True\<rparr>" "sh_map s' = sh_map s"
      using step_finished [OF step now(1)] not_doneD [OF own] by blast
    then show ?thesis
    proof cases
      case before
      then have k: "sh_map s (ce_key (sh_entry s e)) = Some e" using keptD [OF m] now by simp
      then show ?thesis
        using step_map [OF step k] dropping_map(2) [OF m own] now(1) before by auto
    next
      case closed
      then have "b = a" using storedD [OF ans, of i e b] now(2) by simp
      then show ?thesis
        using closed mappedD [OF m, of i e] refersD [OF key, of i e] now(3) by simp
    qed
  qed
  ultimately show ?thesis unfolding mapped_def by blast
qed

lemma step_keys_agree:
  assumes "call_step limit keys i s s'" and "keys_agree keys s"
  shows "keys_agree keys s'"
  using assms(1) refersD [OF assms(2), of i]
  by (cases rule: call_step.cases)
    (auto simp: keys_agree_def move_def dest: mapD [OF assms(2)] refersD [OF assms(2)] split: if_splits)

lemma step_stored:
  assumes step: "call_step limit keys i s s'" and ok: "threads_ok limit keys s"
  shows "answers_stored s'"
  using step storedD [OF okD(4) [OF ok], of i] refersD [OF okD(3) [OF ok], of i] stored_by_owner [OF okD(2,4) [OF ok], of i]
    refersD [OF okD(3) [OF ok]]
  by (cases rule: call_step.cases)
    (auto simp: answers_stored_def move_def
      dest: storedD [OF okD(4) [OF ok]] doneD [OF okD(4) [OF ok]] returnedD [OF okD(4) [OF ok]] droppingD [OF okD(4) [OF ok]] stored_refers
      split: if_splits)

lemma credit_le: "credit keys s k \<le> 1"
  by (simp add: credit_def)

lemma credit_mono:
  assumes "sh_map s k \<noteq> None \<Longrightarrow> sh_map s' k \<noteq> None"
    and "\<And>j e. sh_phase s' j = Fetching e \<Longrightarrow> keys ! j = k \<Longrightarrow> sh_map s k = None \<or> sh_phase s j = Fetching e"
  shows "credit keys s k \<le> credit keys s' k"
  using assms by (auto simp: credit_def) blast+

lemma only_fetch:
  assumes "mapped keys s" "single_owner keys s" "sh_phase s i = Fetching e" "sh_phase s j = Fetching e'" "keys ! j = keys ! i"
  shows "j = i"
proof -
  have "e' = e" using mappedD [OF assms(1), of i e] mappedD [OF assms(1), of j e'] assms(3-5) by simp
  then show ?thesis using ownerD [OF assms(2), of j e i] assms(3,4) by simp
qed

lemma step_counted:
  assumes step: "call_step limit keys i s s'" and ok: "threads_ok limit keys s"
  shows "counted_keys limit keys s'"
proof -
  note m = okD(1) [OF ok] and own = okD(2) [OF ok]
  have used: "int (length (sh_asked s)) \<le> sh_used s" "int (length (sh_asked s)) \<le> max 0 limit"
    and keys: "\<And>k. count_list (sh_asked s) k \<le> count_list (sh_dropped s) k + credit keys s k"
    using okD(5) [OF ok] by (simp_all add: counted_keys_def)
  have mono: "count_list (sh_asked s) k \<le> count_list (sh_dropped s) k + credit keys s' k" if "credit keys s k \<le> credit keys s' k" for k
    using keys [of k] that by simp
  have other: ?thesis if "sh_asked s' = sh_asked s" "sh_dropped s' = sh_dropped s" "sh_used s \<le> sh_used s'"
      "\<And>k. credit keys s k \<le> credit keys s' k"
    using used mono [OF that(4)] that(1-3) by (simp add: counted_keys_def)
  show ?thesis
    using step
  proof (cases rule: call_step.cases)
    case (passed e)
    have "credit keys s (keys ! i) = 0" using passed by (auto simp: credit_def)
    moreover have "credit keys s' (keys ! i) = 1"
      using passed mappedD [OF m, of i e] only_fetch [OF m own, of i e] by (auto simp: credit_def move_def split: if_splits)
    moreover have "credit keys s' k = credit keys s k" if "k \<noteq> keys ! i" for k
      using passed that by (auto simp: credit_def move_def)
    ultimately have "count_list (sh_asked s') k \<le> count_list (sh_dropped s') k + credit keys s' k" for k
      using passed keys [of k] by (cases "k = keys ! i") (simp_all add: move_def)
    then show ?thesis using passed used by (simp add: counted_keys_def move_def)
  next
    case (drop_entry e a)
    have "credit keys s k \<le> credit keys s' k" if "k \<noteq> keys ! i" for k
      using drop_entry that by (intro credit_mono) (auto simp: move_def split: if_splits)
    then have "count_list (sh_asked s') k \<le> count_list (sh_dropped s') k + credit keys s' k" for k
      using drop_entry keys [of k] credit_le [of keys s k] mono [of k] by (cases "k = keys ! i") (simp_all add: move_def)
    then show ?thesis using drop_entry used by (simp add: counted_keys_def move_def)
  qed (rule other; auto simp: move_def intro!: credit_mono split: if_splits)+
qed

lemma step_ok:
  assumes step: "call_step limit keys i s s'" and ok: "threads_ok limit keys s"
  shows "threads_ok limit keys s'"
  unfolding threads_ok_def
  using step_mapped [OF step ok] step_owner [OF step okD(2,3) [OF ok]] step_keys_agree [OF step okD(3) [OF ok]]
    step_stored [OF step ok] step_counted [OF step ok] by blast

lemma schedule_ok: "schedule limit keys n s \<Longrightarrow> threads_ok limit keys s"
  by (induction rule: schedule.induct) (auto intro: start_ok step_ok)

subsection \<open>Every schedule ends\<close>

fun steps_left :: "phase \<Rightarrow> nat" where
  "steps_left Calling = 6"
| "steps_left (Fetching e) = 5"
| "steps_left (Asking e) = 4"
| "steps_left (Storing e a) = 3"
| "steps_left (Dropping e a) = 2"
| "steps_left (Closing e a) = 1"
| "steps_left (Waiting e) = 1"
| "steps_left (Returned e a) = 0"

definition work :: "string list \<Rightarrow> shared \<Rightarrow> nat" where
  "work keys s = (\<Sum>i<length keys. steps_left (sh_phase s i))"

lemma step_work:
  assumes "call_step limit keys i s s'"
  shows "work keys s' < work keys s"
  unfolding work_def
proof (rule sum_strict_mono_ex1)
  have less: "steps_left (sh_phase s' i) < steps_left (sh_phase s i)"
    using assms by (cases rule: call_step.cases) (auto simp: move_def)
  then show "\<exists>j\<in>{..<length keys}. steps_left (sh_phase s' j) < steps_left (sh_phase s j)"
    using step_index [OF assms] by auto
  show "\<forall>j\<in>{..<length keys}. steps_left (sh_phase s' j) \<le> steps_left (sh_phase s j)"
    using less step_others [OF assms] by (metis less_imp_le order_refl)
qed simp

lemma schedule_work: "schedule limit keys n s \<Longrightarrow> n + work keys s \<le> 6 * length keys"
proof (induction rule: schedule.induct)
  case starts
  then show ?case by (simp add: work_def at_start_def)
next
  case (goes_on n s i s')
  then show ?case using step_work [of limit keys i s s'] by simp
qed

lemma can_step:
  assumes "i < length keys" and "\<not> (\<exists>e. sh_phase s i = Waiting e)" and "\<not> (\<exists>e a. sh_phase s i = Returned e a)"
  shows "\<exists>s'. call_step limit keys i s s'"
  using assms
proof (cases "sh_phase s i")
  case Calling
  then show ?thesis using assms(1) by (cases "sh_map s (keys ! i)") (blast intro: call_step.intros)+
next
  case (Fetching e)
  have "kind_of (DnsError KindBudget [] []) = Some KindBudget" by simp
  with Fetching show ?thesis using assms(1) by (cases "limit < sh_used s + 1") (blast intro: call_step.intros)+
qed (blast intro: call_step.intros)+

text \<open>A call that waits can go on, or the owner of its entry can.\<close>

lemma progress:
  assumes ok: "threads_ok limit keys s" and i: "i < length keys" "\<not> (\<exists>e a. sh_phase s i = Returned e a)"
  shows "\<exists>j s'. call_step limit keys j s s'"
proof (cases "\<exists>e. sh_phase s i = Waiting e")
  case False
  then show ?thesis using can_step [OF i(1) False i(2)] by blast
next
  case True
  then obtain e where w: "sh_phase s i = Waiting e" by blast
  show ?thesis
  proof (cases "ce_done (sh_entry s e)")
    case True
    then obtain a where "ce_answer (sh_entry s e) = Some a" using doneD [OF okD(4) [OF ok]] by blast
    then show ?thesis using call_step.wake [OF i(1) w True] by blast
  next
    case False
    have "e < sh_fresh s" using refersD [OF okD(3) [OF ok], of i e] w by simp
    then obtain j where j: "j < length keys" "owned (sh_phase s j) = Some e"
      using has_ownerD [OF okD(2) [OF ok] _ False] by blast
    then have "\<not> (\<exists>e. sh_phase s j = Waiting e)" "\<not> (\<exists>e a. sh_phase s j = Returned e a)" by auto
    then show ?thesis using can_step [OF j(1)] by blast
  qed
qed

subsection \<open>An executable schedule\<close>

text \<open>One step of a call, when it can go on; the resolver answers \<open>a\<close>.\<close>

definition advance :: "int \<Rightarrow> string list \<Rightarrow> nat \<Rightarrow> cache_answer \<Rightarrow> shared \<Rightarrow> shared option" where
  "advance limit keys i a s = (if \<not> i < length keys then None else (case sh_phase s i of
     Calling \<Rightarrow> (case sh_map s (keys ! i) of
         Some e \<Rightarrow> Some (move i (Waiting e) s)
       | None \<Rightarrow> Some (move i (Fetching (sh_fresh s))
           (s\<lparr>sh_map := (sh_map s)(keys ! i \<mapsto> sh_fresh s), sh_fresh := sh_fresh s + 1,
              sh_entry := (sh_entry s)(sh_fresh s := \<lparr>ce_key = keys ! i, ce_done = False, ce_answer = None\<rparr>)\<rparr>)))
   | Waiting e \<Rightarrow> (if ce_done (sh_entry s e) then map_option (\<lambda>b. move i (Returned e b) s) (ce_answer (sh_entry s e)) else None)
   | Fetching e \<Rightarrow> Some (if limit < sh_used s + 1
       then move i (Storing e (Inl (DnsError KindBudget [] []))) (s\<lparr>sh_used := sh_used s + 1\<rparr>)
       else move i (Asking e) (s\<lparr>sh_used := sh_used s + 1, sh_asked := sh_asked s @ [keys ! i]\<rparr>))
   | Asking e \<Rightarrow> Some (move i (Storing e a) s)
   | Storing e b \<Rightarrow> Some (move i (if kept_answer b then Closing e b else Dropping e b)
       (s\<lparr>sh_entry := (sh_entry s)(e := (sh_entry s e)\<lparr>ce_answer := Some b\<rparr>)\<rparr>))
   | Dropping e b \<Rightarrow> Some (move i (Closing e b)
       (s\<lparr>sh_map := (sh_map s)(keys ! i := None), sh_dropped := sh_dropped s @ [keys ! i]\<rparr>))
   | Closing e b \<Rightarrow> Some (move i (Returned e b) (s\<lparr>sh_entry := (sh_entry s)(e := (sh_entry s e)\<lparr>ce_done := True\<rparr>)\<rparr>))
   | Returned e b \<Rightarrow> None))"

lemma store_kept: "i < length keys \<Longrightarrow> sh_phase s i = Storing e a \<Longrightarrow> kept_answer a \<Longrightarrow>
    call_step limit keys i s (move i (Closing e a) (s\<lparr>sh_entry := (sh_entry s)(e := (sh_entry s e)\<lparr>ce_answer := Some a\<rparr>)\<rparr>))"
  by (drule (1) call_step.store) simp

lemma store_dropped: "i < length keys \<Longrightarrow> sh_phase s i = Storing e a \<Longrightarrow> \<not> kept_answer a \<Longrightarrow>
    call_step limit keys i s (move i (Dropping e a) (s\<lparr>sh_entry := (sh_entry s)(e := (sh_entry s e)\<lparr>ce_answer := Some a\<rparr>)\<rparr>))"
  by (drule (1) call_step.store) simp

lemmas step_intros = call_step.intros store_kept store_dropped call_step.miss [simplified]

lemma advance_step: "advance limit keys i a s = Some s' \<Longrightarrow> call_step limit keys i s s'"
  by (auto simp: advance_def intro: step_intros split: if_splits phase.splits option.splits)

fun advances :: "int \<Rightarrow> string list \<Rightarrow> (nat \<times> cache_answer) list \<Rightarrow> shared \<Rightarrow> shared option" where
  "advances limit keys [] s = Some s"
| "advances limit keys ((i, a) # xs) s = (case advance limit keys i a s of None \<Rightarrow> None | Some s' \<Rightarrow> advances limit keys xs s')"

lemma advances_schedule: "schedule limit keys n s \<Longrightarrow> advances limit keys xs s = Some s' \<Longrightarrow> schedule limit keys (n + length xs) s'"
proof (induction xs arbitrary: n s)
  case (Cons x xs)
  then show ?case
    by (cases x) (auto split: option.splits dest!: advance_step intro: schedule.goes_on, metis add_Suc schedule.goes_on)
qed simp

subsection \<open>A call alone\<close>

text \<open>What the map holds.  A call that runs alone is the operation \<open>cached\<close> of the sequential model.\<close>

definition contents :: "shared \<Rightarrow> string \<Rightarrow> cache_answer option" where
  "contents s k = (case sh_map s k of None \<Rightarrow> None | Some e \<Rightarrow> ce_answer (sh_entry s e))"

text \<open>How far the call has come since the state \<open>s\<close> from which on it was alone.\<close>

definition others_same :: "shared \<Rightarrow> shared \<Rightarrow> bool" where
  "others_same s t \<longleftrightarrow> (\<forall>e. e \<noteq> sh_fresh s \<longrightarrow> sh_entry t e = sh_entry s e)"

definition after_fetch :: "string \<Rightarrow> shared \<Rightarrow> nat \<Rightarrow> cache_answer \<Rightarrow> shared \<Rightarrow> bool" where
  "after_fetch k s e a t \<longleftrightarrow> sh_map s k = None \<and> e = sh_fresh s \<and> others_same s t \<and> ce_answer (sh_entry t e) = Some a
     \<and> sh_map t = (if kept_answer a then (sh_map s)(k \<mapsto> e) else sh_map s)"

definition alone :: "string \<Rightarrow> shared \<Rightarrow> phase \<Rightarrow> shared \<Rightarrow> bool" where
  "alone k s p t \<longleftrightarrow> (case p of
     Calling \<Rightarrow> sh_map t = sh_map s \<and> sh_entry t = sh_entry s \<and> sh_fresh t = sh_fresh s
   | Waiting e \<Rightarrow> sh_map s k = Some e \<and> sh_map t = sh_map s \<and> sh_entry t = sh_entry s
   | Dropping e a \<Rightarrow> sh_map s k = None \<and> e = sh_fresh s \<and> others_same s t \<and> ce_answer (sh_entry t e) = Some a
       \<and> \<not> kept_answer a \<and> sh_map t = (sh_map s)(k \<mapsto> e)
   | Closing e a \<Rightarrow> after_fetch k s e a t
   | Returned e a \<Rightarrow> contents s k = Some a \<and> sh_map t = sh_map s \<and> sh_entry t = sh_entry s \<or> after_fetch k s e a t
   | _ \<Rightarrow> sh_map s k = None \<and> owned p = Some (sh_fresh s) \<and> others_same s t \<and> sh_map t = (sh_map s)(k \<mapsto> sh_fresh s))"

lemma alone_step: "call_step limit keys i t t' \<Longrightarrow> alone (keys ! i) s (sh_phase t i) t \<Longrightarrow>
    alone (keys ! i) s (sh_phase t' i) t'"
  by (cases rule: call_step.cases)
    (auto simp: alone_def after_fetch_def others_same_def contents_def move_def fun_upd_idem_iff)

lemma alone_steps:
  assumes "(call_step limit keys i)\<^sup>*\<^sup>* s t" and "sh_phase s i = Calling"
  shows "alone (keys ! i) s (sh_phase t i) t"
  using assms(1)
proof (induction rule: rtranclp_induct)
  case base
  then show ?case using assms(2) by (simp add: alone_def)
qed (rule alone_step)

lemma contents_cong: "sh_map t = sh_map s \<Longrightarrow> sh_entry t = sh_entry s \<Longrightarrow> contents t = contents s"
  by (rule ext) (simp add: contents_def split: option.split)

lemma after_fetch_contents:
  assumes "keys_agree keys s" and "after_fetch k s e a t"
  shows "contents s k = None" "contents t = (if kept_answer a then (contents s)(k \<mapsto> a) else contents s)"
proof -
  have "sh_entry t e' = sh_entry s e'" if "sh_map s k' = Some e'" for k' e'
    using mapD [OF assms(1) that] assms(2) by (auto simp: after_fetch_def others_same_def)
  then show "contents t = (if kept_answer a then (contents s)(k \<mapsto> a) else contents s)"
    using assms(2) by (auto simp: after_fetch_def contents_def fun_eq_iff split: option.split)
qed (use assms(2) in \<open>simp add: after_fetch_def contents_def\<close>)

text \<open>
  In any state of any schedule, a call that gets to run alone and returns has done what the sequential operation does with
  the contents of the map, when the fetch gives the answer that the call has got.
\<close>

theorem alone_is_cached:
  assumes "schedule limit keys n s" and "sh_phase s i = Calling" and "(call_step limit keys i)\<^sup>*\<^sup>* s t"
    and "sh_phase t i = Returned e a" and "ch_m c = contents s"
    and "contents s (keys ! i) = None \<longrightarrow> fst (fetch (ch_next c)) = a"
  shows "fst (cached (\<lambda>v. v) (\<lambda>v. v) (keys ! i) fetch c) = a \<and> ch_m (snd (cached (\<lambda>v. v) (\<lambda>v. v) (keys ! i) fetch c)) = contents t"
proof -
  have key: "keys_agree keys s" using okD(3) [OF schedule_ok [OF assms(1)]] .
  have "alone (keys ! i) s (Returned e a) t" using alone_steps [OF assms(3,2)] assms(4) by simp
  then consider (hit) "contents s (keys ! i) = Some a" "contents t = contents s" | (fetch) "after_fetch (keys ! i) s e a t"
    by (auto simp: alone_def dest: contents_cong)
  then show ?thesis
  proof cases
    case hit
    then show ?thesis using assms(5) by (cases a) (simp_all add: cached_def)
  next
    case fetch
    note f = after_fetch_contents [OF key fetch]
    obtain b s' where b: "fetch (ch_next c) = (b, s')" by fastforce
    then have "b = a" using assms(6) f(1) by simp
    then show ?thesis using assms(5) f b by (cases a) (simp_all add: cached_def kept_answer_def)
  qed
qed

subsection \<open>Properties\<close>

text \<open>
  Claim C13. Lookups that run at once share their queries, whatever the schedule: a key is passed on to the resolver at most once,
  and once more for each temporary failure of it; all the queries together stay within the budget; and two calls for the
  same key return the same answer when they shared an entry or neither answer is a temporary failure.
\<close>

theorem concurrent_lookups_share:
  assumes "schedule limit keys n s" and "keys ! i = keys ! j"
    and "sh_phase s i = Returned e a" and "sh_phase s j = Returned e' b"
  shows "count_list (sh_asked s) k \<le> count_list (sh_dropped s) k + 1 \<and> int (length (sh_asked s)) \<le> max 0 limit
    \<and> (e = e' \<or> kept_answer a \<and> kept_answer b \<longrightarrow> a = b)"
proof -
  note ok = okD [OF schedule_ok [OF assms(1)]]
  have counts: "count_list (sh_asked s) k \<le> count_list (sh_dropped s) k + 1" "int (length (sh_asked s)) \<le> max 0 limit"
    using ok(5) credit_le [of keys s k] by (auto simp: counted_keys_def intro: order_trans)
  have a: "ce_done (sh_entry s e)" "ce_answer (sh_entry s e) = Some a" "ce_key (sh_entry s e) = keys ! i"
    using returnedD [OF ok(4) assms(3)] storedD [OF ok(4), of i e a] refersD [OF ok(3), of i e] assms(3) by simp_all
  have b: "ce_done (sh_entry s e')" "ce_answer (sh_entry s e') = Some b" "ce_key (sh_entry s e') = keys ! j"
    using returnedD [OF ok(4) assms(4)] storedD [OF ok(4), of j e' b] refersD [OF ok(3), of j e'] assms(4) by simp_all
  have "a = b" if "e = e'" using that a(2) b(2) by simp
  moreover have "e = e'" if "kept_answer a" "kept_answer b"
    using keptD [OF ok(1) a(1,2) that(1)] keptD [OF ok(1) b(1,2) that(2)] a(3) b(3) assms(2) by simp
  ultimately show ?thesis using counts by blast
qed

text \<open>Two lookups of one name: the second waits for the first and returns its answer; one query is asked.\<close>

theorem concurrent_lookups_share_witness:
  "\<exists>s e a. schedule 250 [''A x.'', ''A x.''] 7 s \<and> sh_phase s 0 = Returned e a \<and> sh_phase s 1 = Returned e a
     \<and> count_list (sh_asked s) ''A x.'' \<le> 1"
proof -
  let ?keys = "[''A x.'', ''A x.'']"
  let ?a = "Inr (CAddrs []) :: cache_answer"
  let ?s = "advances 250 ?keys (map (\<lambda>i. (i, ?a)) [0, 1, 0, 0, 0, 0, 1]) at_start"
  have run: "case ?s of None \<Rightarrow> False | Some s \<Rightarrow> sh_phase s 0 = Returned 0 ?a \<and> sh_phase s 1 = Returned 0 ?a \<and> sh_dropped s = []"
    by code_simp
  then obtain s where s: "?s = Some s" "sh_phase s 0 = Returned 0 ?a" "sh_phase s 1 = Returned 0 ?a" "sh_dropped s = []"
    by (auto split: option.splits)
  have "schedule 250 ?keys 7 s" using advances_schedule [OF schedule.starts s(1)] by (simp add: eval_nat_numeral)
  then show ?thesis using concurrent_lookups_share [of 250 ?keys 7 s 0 1 0 ?a 0 ?a "''A x.''"] s by auto
qed

text \<open>
  Claim C14. No schedule blocks a lookup: while a call has not returned, some call can take a step, however the steps have been
  interleaved, and a schedule for \<open>m\<close> calls has at most \<open>6 m\<close> steps; so all of them return.
\<close>

theorem no_lookup_blocks:
  assumes "schedule limit keys n s"
  shows "n \<le> 6 * length keys
    \<and> ((\<forall>i<length keys. \<exists>e a. sh_phase s i = Returned e a) \<or> (\<exists>i s'. call_step limit keys i s s'))"
  using schedule_work [OF assms] progress [OF schedule_ok [OF assms]] by (meson add_leD1)

theorem no_lookup_blocks_witness:
  "\<exists>s. schedule 1 [''A x.''] 0 s \<and> (\<exists>i s'. call_step 1 [''A x.''] i s s')"
  using no_lookup_blocks [OF schedule.starts [where limit = 1 and keys = "[''A x.'']"]]
    schedule.starts [where limit = 1 and keys = "[''A x.'']"]
  by (auto simp: at_start_def)

end
