(* ===== verification/DnsClient.thy ===== *)
theory DnsClient
  imports DnsBudget
begin

section \<open>The DNS client (internal/dnsresolver/client.go)\<close>

text \<open>
  The stub resolver.  The library that packs and unpacks DNS messages is a parameter (\<open>dns_codec\<close>): \<open>dc_unpack\<close> reads
  a message, \<open>dc_pack\<close> is \<^verbatim>\<open>buildQuery\<close>, and \<open>dc_name\<close> says whether \<^verbatim>\<open>NewName\<close> accepts a name.  The network is a
  parameter as well, a record of operations on its state.  A connection has a deadline, so that what arrives on it is
  a finite script: the datagrams or the bytes, and the error that ends them.
\<close>

subsection \<open>Messages\<close>

datatype rr_type = TypeTXT | TypeMX | TypeA | TypeAAAA | TypeCNAME | TypePTR | TypeOther "16 word"

datatype rr_body = BodyTXT "string list" | BodyMX "16 word" string | BodyA "32 word" | BodyAAAA "128 word"
  | BodyCNAME string | BodyPTR string | BodyOther

record dns_resource =
  rr_name :: string
  rr_type :: rr_type
  rr_body :: rr_body

record dns_question =
  qu_name :: string
  qu_type :: rr_type
  qu_class :: "16 word"

datatype rcode = RCodeSuccess | RCodeNameError | RCodeRefused | RCodeOther "16 word"

record dns_message =
  dg_id :: "16 word"
  dg_response :: bool
  dg_truncated :: bool
  dg_rcode :: rcode
  dg_questions :: "dns_question list"
  dg_answers :: "dns_resource list"

record dns_codec =
  dc_unpack :: "string \<Rightarrow> dns_message option"
  dc_pack :: "16 word \<Rightarrow> dns_question \<Rightarrow> string option"
  dc_name :: "string \<Rightarrow> bool"

definition class_inet :: "16 word" where "class_inet = 1"

text \<open>\<^verbatim>\<open>strings.TrimPrefix(t.String(), "Type")\<close>; the client only asks for the six types that have a name here.\<close>

fun type_name :: "rr_type \<Rightarrow> string" where
  "type_name TypeTXT = ''TXT''"
| "type_name TypeMX = ''MX''"
| "type_name TypeA = ''A''"
| "type_name TypeAAAA = ''AAAA''"
| "type_name TypeCNAME = ''CNAME''"
| "type_name TypePTR = ''PTR''"
| "type_name (TypeOther n) = show_nat (unat n)"

subsection \<open>Reading a response\<close>

text \<open>
  Why a response is not taken.  \<^verbatim>\<open>errMismatch\<close> is returned plain or wrapped in a malformed-response error;
  \<^verbatim>\<open>errors.Is\<close> finds it in both.
\<close>

datatype response_error = PlainMismatch | WrappedMismatch | Malformed

definition is_mismatch :: "response_error \<Rightarrow> bool" where
  "is_mismatch e \<longleftrightarrow> e \<noteq> Malformed"

definition id_of_bytes :: "string \<Rightarrow> 16 word" where
  "id_of_bytes b = word_of_int (256 * byte (b ! 0) + byte (b ! 1))"

definition question_ok :: "dns_question \<Rightarrow> dns_message \<Rightarrow> bool" where
  "question_ok q msg \<longleftrightarrow> (case dg_questions msg of
     [mq] \<Rightarrow> qu_type mq = qu_type q \<and> qu_class mq = qu_class q \<and> equal_fold (qu_name mq) (qu_name q)
   | _ \<Rightarrow> False)"

definition parse_response :: "dns_codec \<Rightarrow> string \<Rightarrow> 16 word \<Rightarrow> dns_question \<Rightarrow> response_error + dns_message" where
  "parse_response codec b qid q = (case dc_unpack codec b of
     None \<Rightarrow> if length b < 2 \<or> id_of_bytes b \<noteq> qid then Inl PlainMismatch else Inl Malformed
   | Some msg \<Rightarrow>
       if dg_id msg \<noteq> qid \<or> \<not> dg_response msg then Inl PlainMismatch
       else if dg_questions msg \<noteq> [] \<and> \<not> question_ok q msg then Inl WrappedMismatch
       else if dg_truncated msg then Inr msg
       else if \<not> question_ok q msg \<and> (dg_rcode msg = RCodeSuccess \<or> dg_rcode msg = RCodeNameError) then Inl WrappedMismatch
       else Inr msg)"

subsection \<open>Connections\<close>

datatype net_error = NetTimeout | NetEof | NetOther

definition classify_net_err :: "net_error \<Rightarrow> dns_kind" where
  "classify_net_err e = (case e of NetTimeout \<Rightarrow> KindTemporary | NetEof \<Rightarrow> KindMalformed | NetOther \<Rightarrow> KindTemporary)"

datatype transport = Udp | Tcp

record dns_conn =
  cn_write :: "net_error option"
  cn_datagrams :: "string list"
  cn_stream :: string
  cn_end :: net_error

text \<open>A read takes one datagram, of which no more than the buffer holds arrives.\<close>

fun read_udp :: "dns_codec \<Rightarrow> 16 word \<Rightarrow> dns_question \<Rightarrow> nat \<Rightarrow> net_error \<Rightarrow> string list \<Rightarrow> dns_kind + dns_message" where
  "read_udp codec qid q max_size e [] = Inl (classify_net_err e)"
| "read_udp codec qid q max_size e (d # ds) = (let b = take (min max_size 65535 + 1) d in
     if max_size < length b then Inl KindTooLarge
     else case parse_response codec b qid q of
       Inl r \<Rightarrow> if is_mismatch r then read_udp codec qid q max_size e ds else Inl KindMalformed
     | Inr msg \<Rightarrow> Inr msg)"

definition exchange_udp :: "dns_codec \<Rightarrow> dns_conn \<Rightarrow> 16 word \<Rightarrow> dns_question \<Rightarrow> nat \<Rightarrow> dns_kind + dns_message" where
  "exchange_udp codec conn qid q max_size = (case cn_write conn of
     Some e \<Rightarrow> Inl (classify_net_err e)
   | None \<Rightarrow> read_udp codec qid q max_size (cn_end conn) (cn_datagrams conn))"

definition exchange_tcp :: "dns_codec \<Rightarrow> dns_conn \<Rightarrow> 16 word \<Rightarrow> dns_question \<Rightarrow> nat \<Rightarrow> dns_kind + dns_message" where
  "exchange_tcp codec conn qid q max_size = (case cn_write conn of
     Some e \<Rightarrow> Inl (classify_net_err e)
   | None \<Rightarrow>
       let s = cn_stream conn in
       if length s < 2 then Inl (classify_net_err (cn_end conn))
       else let size = unat (id_of_bytes s); rest = drop 2 s in
         if max_size < size then Inl KindTooLarge
         else if length rest < size then Inl (classify_net_err (cn_end conn))
         else (case parse_response codec (take size rest) qid q of
           Inl r \<Rightarrow> Inl KindMalformed
         | Inr msg \<Rightarrow> if dg_truncated msg then Inl KindMalformed else Inr msg))"

subsection \<open>The client\<close>

record 'n dns_network =
  dn_random :: "'n \<Rightarrow> 16 word option \<times> 'n"
  dn_dial :: "'n \<Rightarrow> transport \<Rightarrow> string \<Rightarrow> dns_conn option \<times> 'n"
  dn_done :: "'n \<Rightarrow> bool"

record client =
  cl_servers :: "string list"
  cl_attempts :: int
  cl_max_response_size :: int

definition default_attempts :: nat where "default_attempts = 2"
definition default_max_response_size :: nat where "default_max_response_size = 32 * 1024"
definition max_cname_chain :: nat where "max_cname_chain = 8"

definition response_limit :: "client \<Rightarrow> nat" where
  "response_limit c = (if cl_max_response_size c \<le> 0 then default_max_response_size else nat (cl_max_response_size c))"

definition attempts_of :: "client \<Rightarrow> nat" where
  "attempts_of c = (if cl_attempts c \<le> 0 then default_attempts else nat (cl_attempts c))"

definition round_trip :: "dns_codec \<Rightarrow> 'n dns_network \<Rightarrow> client \<Rightarrow> transport \<Rightarrow> string \<Rightarrow> 16 word \<Rightarrow> dns_question \<Rightarrow> 'n
    \<Rightarrow> (dns_kind + dns_message) \<times> 'n" where
  "round_trip codec net c tr server qid q s = (case dc_pack codec qid q of
     None \<Rightarrow> (Inl KindInvalidName, s)
   | Some query \<Rightarrow> (case dn_dial net s tr server of
       (None, s) \<Rightarrow> (Inl KindTemporary, s)
     | (Some conn, s) \<Rightarrow> ((case tr of
           Udp \<Rightarrow> exchange_udp codec conn qid q (response_limit c)
         | Tcp \<Rightarrow> exchange_tcp codec conn qid q (response_limit c)), s)))"

text \<open>Without a random number there is no lookup error, only some error, which the caller takes for a temporary one.\<close>

definition exchange_once :: "dns_codec \<Rightarrow> 'n dns_network \<Rightarrow> client \<Rightarrow> string \<Rightarrow> dns_question \<Rightarrow> 'n
    \<Rightarrow> (dns_kind option + dns_message) \<times> 'n" where
  "exchange_once codec net c server q s = (case dn_random net s of
     (None, s) \<Rightarrow> (Inl None, s)
   | (Some qid, s) \<Rightarrow> (case round_trip codec net c Udp server qid q s of
       (Inl k, s) \<Rightarrow> (Inl (Some k), s)
     | (Inr msg, s) \<Rightarrow>
         if dg_truncated msg
         then (case round_trip codec net c Tcp server qid q s of (r, s) \<Rightarrow> (map_sum Some id r, s))
         else (Inr msg, s)))"

text \<open>How the loops go on after an attempt: the lookup is over, or the error so far is kept and another server or attempt follows.\<close>

datatype attempt = Finished "dns_kind + dns_message" | NextServer dns_kind | TryAgain dns_kind

definition judge :: "dns_kind option + dns_message \<Rightarrow> attempt" where
  "judge r = (case r of
     Inr msg \<Rightarrow> (case dg_rcode msg of
         RCodeSuccess \<Rightarrow> Finished (Inr msg)
       | RCodeNameError \<Rightarrow> Finished (Inl KindNXDomain)
       | RCodeRefused \<Rightarrow> NextServer KindRefused
       | RCodeOther _ \<Rightarrow> NextServer KindTemporary)
   | Inl (Some k) \<Rightarrow> if k \<noteq> KindTemporary then NextServer k else TryAgain k
   | Inl None \<Rightarrow> TryAgain KindTemporary)"

text \<open>The attempts at one server: the result is \<open>Inl\<close> the last error when the next server is to be asked.\<close>

fun attempt_loop :: "dns_codec \<Rightarrow> 'n dns_network \<Rightarrow> client \<Rightarrow> string \<Rightarrow> dns_question \<Rightarrow> nat \<Rightarrow> dns_kind \<Rightarrow> 'n
    \<Rightarrow> (dns_kind + (dns_kind + dns_message)) \<times> 'n" where
  "attempt_loop codec net c server q 0 last_err s = (Inl last_err, s)"
| "attempt_loop codec net c server q (Suc n) last_err s =
     (if dn_done net s then (Inr (Inl KindTemporary), s)
      else case exchange_once codec net c server q s of (r, s) \<Rightarrow> (case judge r of
          Finished res \<Rightarrow> (Inr res, s)
        | NextServer k \<Rightarrow> (Inl k, s)
        | TryAgain k \<Rightarrow> attempt_loop codec net c server q n k s))"

fun server_loop :: "dns_codec \<Rightarrow> 'n dns_network \<Rightarrow> client \<Rightarrow> dns_question \<Rightarrow> dns_kind \<Rightarrow> string list \<Rightarrow> 'n
    \<Rightarrow> (dns_kind + dns_message) \<times> 'n" where
  "server_loop codec net c q last_err [] s = (Inl last_err, s)"
| "server_loop codec net c q last_err (server # servers) s =
     (case attempt_loop codec net c server q (attempts_of c) last_err s of
        (Inl k, s) \<Rightarrow> server_loop codec net c q k servers s
      | (Inr res, s) \<Rightarrow> (res, s))"

definition exchange :: "dns_codec \<Rightarrow> 'n dns_network \<Rightarrow> client \<Rightarrow> string \<Rightarrow> rr_type \<Rightarrow> 'n \<Rightarrow> dns_message answer \<times> 'n" where
  "exchange codec net c name qtype s = (
     let derr = (\<lambda>k. DnsError k (trim_name name) (type_name qtype)) in
     if \<not> valid_domain name then (Inl (derr KindInvalidName), s)
     else if \<not> dc_name codec (fqdn name) then (Inl (derr KindInvalidName), s)
     else if cl_servers c = [] then (Inl (derr KindTemporary), s)
     else case server_loop codec net c \<lparr>qu_name = fqdn name, qu_type = qtype, qu_class = class_inet\<rparr>
         KindTemporary (cl_servers c) s of (r, s) \<Rightarrow> (map_sum derr id r, s))"

subsection \<open>Answers\<close>

definition is_cname_of :: "string \<Rightarrow> dns_resource \<Rightarrow> bool" where
  "is_cname_of target rr \<longleftrightarrow> (case rr_body rr of BodyCNAME _ \<Rightarrow> equal_fold (rr_name rr) target | _ \<Rightarrow> False)"

definition cname_target :: "dns_resource \<Rightarrow> string" where
  "cname_target rr = (case rr_body rr of BodyCNAME t \<Rightarrow> t | _ \<Rightarrow> [])"

text \<open>The next name of the chain; no name is the empty string.\<close>

definition next_name :: "dns_resource list \<Rightarrow> string \<Rightarrow> string" where
  "next_name rrs target = (case find (is_cname_of target) rrs of None \<Rightarrow> [] | Some rr \<Rightarrow> to_lower (cname_target rr))"

fun alias_loop :: "dns_resource list \<Rightarrow> nat \<Rightarrow> string list \<Rightarrow> string \<Rightarrow> string list" where
  "alias_loop rrs 0 chain target = chain"
| "alias_loop rrs (Suc n) chain target = (let next = next_name rrs target in
     if next = [] \<or> next \<in> set chain then chain else alias_loop rrs n (next # chain) next)"

definition answers_for :: "dns_message \<Rightarrow> string \<Rightarrow> rr_type \<Rightarrow> dns_resource list" where
  "answers_for msg owner qtype = (let chain = alias_loop (dg_answers msg) max_cname_chain [owner] owner in
     filter (\<lambda>rr. rr_type rr = qtype \<and> to_lower (rr_name rr) \<in> set chain) (dg_answers msg))"

definition client_lookup :: "dns_codec \<Rightarrow> 'n dns_network \<Rightarrow> client \<Rightarrow> string \<Rightarrow> rr_type \<Rightarrow> 'n \<Rightarrow> dns_resource list answer \<times> 'n" where
  "client_lookup codec net c name qtype s = (case exchange codec net c name qtype s of
     (Inl e, s) \<Rightarrow> (Inl e, s)
   | (Inr msg, s) \<Rightarrow> (Inr (answers_for msg (fqdn name) qtype), s))"

fun txt_of :: "dns_resource \<Rightarrow> string option" where
  "txt_of rr = (case rr_body rr of BodyTXT ss \<Rightarrow> Some (concat ss) | _ \<Rightarrow> None)"

fun mx_of :: "dns_resource \<Rightarrow> mx_record option" where
  "mx_of rr = (case rr_body rr of BodyMX p h \<Rightarrow> Some \<lparr>mx_host = trim_name h, mx_pref = p\<rparr> | _ \<Rightarrow> None)"

fun a_of :: "dns_resource \<Rightarrow> addr option" where
  "a_of rr = (case rr_body rr of BodyA w \<Rightarrow> Some (Addr4 w) | _ \<Rightarrow> None)"

fun aaaa_of :: "dns_resource \<Rightarrow> addr option" where
  "aaaa_of rr = (case rr_body rr of BodyAAAA w \<Rightarrow> Some (Addr6 w []) | _ \<Rightarrow> None)"

fun ptr_of :: "dns_resource \<Rightarrow> string option" where
  "ptr_of rr = (case rr_body rr of BodyPTR h \<Rightarrow> Some (trim_name h) | _ \<Rightarrow> None)"

definition collect_answers :: "(dns_resource \<Rightarrow> 'a option) \<Rightarrow> dns_resource list answer \<times> 'n \<Rightarrow> 'a list answer \<times> 'n" where
  "collect_answers f r = (case r of (ans, s) \<Rightarrow> (map_sum id (List.map_filter f) ans, s))"

definition client_cname :: "dns_codec \<Rightarrow> 'n dns_network \<Rightarrow> client \<Rightarrow> string \<Rightarrow> 'n \<Rightarrow> string answer \<times> 'n" where
  "client_cname codec net c name s = (case exchange codec net c name TypeCNAME s of
     (Inl e, s) \<Rightarrow> (Inl e, s)
   | (Inr msg, s) \<Rightarrow> (Inr (case find (is_cname_of (fqdn name)) (dg_answers msg) of
        None \<Rightarrow> [] | Some rr \<Rightarrow> trim_name (cname_target rr)), s))"

definition client_resolver :: "dns_codec \<Rightarrow> 'n dns_network \<Rightarrow> client \<Rightarrow> 'n resolver" where
  "client_resolver codec net c = \<lparr>
     lookup_txt = \<lambda>s name. collect_answers txt_of (client_lookup codec net c name TypeTXT s),
     lookup_mx = \<lambda>s name. collect_answers mx_of (client_lookup codec net c name TypeMX s),
     lookup_a = \<lambda>s name. collect_answers a_of (client_lookup codec net c name TypeA s),
     lookup_aaaa = \<lambda>s name. collect_answers aaaa_of (client_lookup codec net c name TypeAAAA s),
     lookup_cname = \<lambda>s name. client_cname codec net c name s,
     lookup_ptr = \<lambda>s a. collect_answers ptr_of (client_lookup codec net c (reverse_name a) TypePTR s)\<rparr>"

end
