(* ===== verification/DnsConfig.thy ===== *)
theory DnsConfig
  imports DnsClient
begin

section \<open>The choice of the resolver (internal/dnsresolver/config.go, std.go)\<close>

subsection \<open>Addresses with a port\<close>

text \<open>\<^verbatim>\<open>strconv.ParseUint\<close> with 16 bits, \<^verbatim>\<open>netip.ParseAddrPort\<close> and \<^verbatim>\<open>AddrPort.String\<close>.\<close>

definition parse_uint16 :: "string \<Rightarrow> int option" where
  "parse_uint16 s = (if s = [] \<or> \<not> list_all is_digit s \<or> 2 ^ 16 \<le> digits_val s then None else Some (digits_val s))"

definition split_addr_port :: "string \<Rightarrow> (string \<times> string \<times> bool) option" where
  "split_addr_port s = (case last_index_byte s (CHR '':'') of
     None \<Rightarrow> None
   | Some i \<Rightarrow> let ip = take i s; port = drop (i + 1) s in
       if ip = [] \<or> port = [] then None
       else if hd ip = CHR ''['' then
         (if length ip < 2 \<or> last ip \<noteq> CHR '']'' then None else Some (butlast (tl ip), port, True))
       else Some (ip, port, False))"

definition parse_addr_port :: "string \<Rightarrow> (addr \<times> int) option" where
  "parse_addr_port s = (case split_addr_port s of
     None \<Rightarrow> None
   | Some (ip, port, v6) \<Rightarrow> (case (parse_uint16 port, parse_addr ip) of
       (Some p, Some a) \<Rightarrow> if v6 = is6 a then Some (a, p) else None
     | _ \<Rightarrow> None))"

fun addr_port_string :: "addr \<Rightarrow> int \<Rightarrow> string" where
  "addr_port_string (Addr4 w) p = show_ip4 w @ '':'' @ show_int p"
| "addr_port_string (Addr6 w z) p = ''['' @ addr_string (Addr6 w z) @ '']:'' @ show_int p"
| "addr_port_string AddrZero p = ''invalid AddrPort''"

subsection \<open>Server addresses and resolv.conf\<close>

definition parse_server_address :: "string \<Rightarrow> string option" where
  "parse_server_address s0 = (let s = trim_space s0 in
     if s = [] then None
     else case parse_addr_port s of
       Some (a, p) \<Rightarrow> if p = 0 then None else Some (addr_port_string a p)
     | None \<Rightarrow> (case parse_addr (trim_set s ''[]'') of
         Some a \<Rightarrow> Some (addr_port_string a 53)
       | None \<Rightarrow> None))"

definition nameserver_of :: "string \<Rightarrow> string option" where
  "nameserver_of line = (case space_fields line of
     key # value # _ \<Rightarrow> if key = ''nameserver'' then parse_server_address value else None
   | _ \<Rightarrow> None)"

text \<open>
  The first 64 KiB of the file by lines, as \<^verbatim>\<open>bufio.Scanner\<close> yields them; the return before a line feed is
  white space for \<^verbatim>\<open>Fields\<close>.  The scanner gives up (and yields nothing) when its buffer of 64 KiB is full before the
  first line has ended.
\<close>

definition scan_limit :: nat where "scan_limit = 64 * 1024"

definition parse_resolv_conf :: "string \<Rightarrow> string list \<times> bool" where
  "parse_resolv_conf content = (let b = take scan_limit content in
     if length b = scan_limit \<and> CHR 0x0A \<notin> set b then ([], True)
     else (List.map_filter nameserver_of (split_byte (CHR 0x0A) b), False))"

datatype resolver_choice = UseClient "string list" | UseSystem

text \<open>\<open>None\<close> is an error; \<open>conf\<close> is the content of \<^verbatim>\<open>/etc/resolv.conf\<close> when it can be opened.\<close>

definition new_dns_resolver :: "string \<Rightarrow> string option \<Rightarrow> resolver_choice option" where
  "new_dns_resolver server conf = (
     if server \<noteq> [] then map_option (\<lambda>a. UseClient [a]) (parse_server_address server)
     else case conf of
       None \<Rightarrow> Some UseSystem
     | Some content \<Rightarrow> (case parse_resolv_conf content of (servers, failed) \<Rightarrow>
         if failed \<or> servers = [] then Some UseSystem else Some (UseClient servers)))"

subsection \<open>The resolver of the operating system\<close>

text \<open>\<^verbatim>\<open>net.Resolver\<close> is a parameter: its operations on their state, with the errors that \<^verbatim>\<open>wrap\<close> distinguishes.\<close>

datatype std_error = StdNotFound | StdFailure

record 'n std_net =
  sn_txt :: "'n \<Rightarrow> string \<Rightarrow> (std_error + string list) \<times> 'n"
  sn_mx :: "'n \<Rightarrow> string \<Rightarrow> (std_error + mx_record list) \<times> 'n"
  sn_ip :: "'n \<Rightarrow> bool \<Rightarrow> string \<Rightarrow> (std_error + addr list) \<times> 'n"
  sn_cname :: "'n \<Rightarrow> string \<Rightarrow> (std_error + string) \<times> 'n"
  sn_addr :: "'n \<Rightarrow> string \<Rightarrow> (std_error + string list) \<times> 'n"

text \<open>An answer that was not found becomes the empty one, every other error a temporary failure.\<close>

definition wrap_std :: "string \<Rightarrow> string \<Rightarrow> 'a \<Rightarrow> (std_error + 'a) \<times> 'n \<Rightarrow> 'a answer \<times> 'n" where
  "wrap_std name typ no_data r = (case r of
     (Inl StdNotFound, s) \<Rightarrow> (Inr no_data, s)
   | (Inl StdFailure, s) \<Rightarrow> (Inl (DnsError KindTemporary (trim_name name) typ), s)
   | (Inr x, s) \<Rightarrow> (Inr x, s))"

definition std_query :: "string \<Rightarrow> string \<Rightarrow> ('a \<Rightarrow> 'b) \<Rightarrow> 'b \<Rightarrow> ('n \<Rightarrow> string \<Rightarrow> (std_error + 'a) \<times> 'n) \<Rightarrow> 'n \<Rightarrow> 'b answer \<times> 'n" where
  "std_query name typ f no_data ask s = (
     if \<not> valid_domain name then (Inl (DnsError KindInvalidName name typ), s)
     else wrap_std name typ no_data (case ask s (fqdn name) of (r, s) \<Rightarrow> (map_sum id f r, s)))"

definition trim_mx :: "mx_record \<Rightarrow> mx_record" where
  "trim_mx m = m\<lparr>mx_host := trim_name (mx_host m)\<rparr>"

definition std_cname_of :: "string \<Rightarrow> string \<Rightarrow> string" where
  "std_cname_of name cname = (if equal_fold (fqdn cname) (fqdn name) then [] else trim_name cname)"

definition std_resolver :: "'n std_net \<Rightarrow> 'n resolver" where
  "std_resolver net = \<lparr>
     lookup_txt = \<lambda>s name. std_query name ''TXT'' id [] (sn_txt net) s,
     lookup_mx = \<lambda>s name. std_query name ''MX'' (map trim_mx) [] (sn_mx net) s,
     lookup_a = \<lambda>s name. std_query name ''A'' (map unmap) [] (\<lambda>s n. sn_ip net s True n) s,
     lookup_aaaa = \<lambda>s name. std_query name ''AAAA'' (map unmap) [] (\<lambda>s n. sn_ip net s False n) s,
     lookup_cname = \<lambda>s name. std_query name ''CNAME'' (std_cname_of name) [] (sn_cname net) s,
     lookup_ptr = \<lambda>s a. wrap_std (reverse_name a) ''PTR'' []
       (case sn_addr net s (addr_string a) of (r, s) \<Rightarrow> (map_sum id (map trim_name) r, s))\<rparr>"

subsection \<open>Properties\<close>

text \<open>A server the client talks to is an address with a port, so that finding it never needs the DNS.\<close>

definition server_address :: "string \<Rightarrow> bool" where
  "server_address a \<longleftrightarrow> (\<exists>ip p. ip \<noteq> AddrZero \<and> 0 < p \<and> p < 65536 \<and> a = addr_port_string ip p)"

lemma parse_ip4_not_zero: "parse_ip4 s = Some a \<Longrightarrow> a \<noteq> AddrZero"
  by (auto simp: parse_ip4_def)

lemma parse_addr_not_zero: "parse_addr s = Some a \<Longrightarrow> a \<noteq> AddrZero"
  by (auto simp: parse_addr_def parse_ip6_def Let_def dest: parse_ip4_not_zero split: option.splits prod.splits if_splits)

lemma parse_uint16_range: "parse_uint16 s = Some p \<Longrightarrow> 0 \<le> p \<and> p < 65536"
  by (auto simp: parse_uint16_def digits_val_nonneg split: if_splits)

lemma parse_addr_port_ok: "parse_addr_port s = Some (a, p) \<Longrightarrow> a \<noteq> AddrZero \<and> 0 \<le> p \<and> p < 65536"
  by (auto simp: parse_addr_port_def dest: parse_addr_not_zero parse_uint16_range split: option.splits if_splits)

lemma parse_server_address_ok:
  assumes "parse_server_address s = Some a"
  shows "server_address a"
proof -
  have "\<exists>ip p. ip \<noteq> AddrZero \<and> 0 \<le> p \<and> p \<noteq> 0 \<and> p < 65536 \<and> a = addr_port_string ip p"
  proof (cases "parse_addr_port (trim_space s)")
    case None
    then obtain ip where "parse_addr (trim_set (trim_space s) ''[]'') = Some ip" "a = addr_port_string ip 53"
      using assms by (auto simp: parse_server_address_def Let_def split: if_splits option.splits)
    then show ?thesis by (intro exI [of _ ip] exI [of _ 53]) (simp add: parse_addr_not_zero)
  next
    case (Some x)
    then show ?thesis using assms parse_addr_port_ok [of "trim_space s"]
      by (cases x) (auto simp: parse_server_address_def Let_def split: if_splits)
  qed
  then show ?thesis unfolding server_address_def by (metis order_le_less)
qed

lemma nameserver_ok: "nameserver_of line = Some a \<Longrightarrow> server_address a"
  by (auto simp: nameserver_of_def dest: parse_server_address_ok split: list.splits if_splits)

text \<open>
  Whatever the option of the operator and the content of the system's file, the client is only ever given servers that
  are addresses with a port between 1 and 65535, and at least one of them; an option that is no address is refused.
\<close>

theorem chosen_servers_are_addresses:
  "case new_dns_resolver server conf of
     Some (UseClient servers) \<Rightarrow> servers \<noteq> [] \<and> list_all server_address servers
   | Some UseSystem \<Rightarrow> server = []
   | None \<Rightarrow> server \<noteq> [] \<and> parse_server_address server = None"
  by (auto simp: new_dns_resolver_def parse_resolv_conf_def Let_def list_all_iff map_filter_def
      dest: parse_server_address_ok nameserver_ok split: option.splits if_splits prod.splits)

text \<open>
  The resolver of the operating system cannot tell a missing name from a missing record, so it never claims that a name
  does not exist: the only error beside an invalid name is a temporary one.
\<close>

theorem system_resolver_never_nxdomain:
  "case fst (lookup_txt (std_resolver net) s name) of
     Inl e \<Rightarrow> \<not> is_nxdomain e \<and> (if valid_domain name then is_infrastructure e else kind_of e = Some KindInvalidName)
   | Inr _ \<Rightarrow> valid_domain name"
  by (auto simp: std_resolver_def std_query_def wrap_std_def is_nxdomain_def is_infrastructure_def
      split: sum.splits prod.splits std_error.splits)

end
