(* ===== verification/TestZone.thy ===== *)
theory TestZone
  imports DnsConfig "HOL-Library.AList"
begin

section \<open>The zone in memory (internal/dnsresolver/dnstest/zone.go)\<close>

text \<open>
  A DNS that is written down as text: \<open>parse_zone\<close> reads the records and the failures to inject, and the zone
  answers the six lookups from them.  It is the resolver that the program's tests run the checks on; here it is
  also the concrete instance of the two locales of \<^verbatim>\<open>DnsBudget\<close>: \<open>only_logged\<close> says that a lookup changes
  nothing but the log of queries, and \<open>frozen\<close> that no check can tell a zone from the fixed DNS it describes.
  The first part holds the definitions, the second the text form (a TXT record of any bytes can be written and
  is read back), the third what resolving a name gives.

  Go's two maps are association lists whose keys are canonical names; the code never depends on their order.
\<close>

subsection \<open>Data\<close>

datatype behavior = BehaveTimeout | BehaveServFail | BehaveRefused | BehaveMalformed | BehaveTruncate

definition behavior_of :: "string \<Rightarrow> behavior option" where
  "behavior_of s = (if s = ''TIMEOUT'' then Some BehaveTimeout else if s = ''SERVFAIL'' then Some BehaveServFail
     else if s = ''REFUSED'' then Some BehaveRefused else if s = ''MALFORMED'' then Some BehaveMalformed
     else if s = ''TRUNCATE'' then Some BehaveTruncate else None)"

record zone_record =
  zr_name :: string
  zr_type :: string
  zr_addr :: addr
  zr_pref :: "16 word"
  zr_target :: string
  zr_text :: string

record behavior_rule =
  br_behavior :: behavior
  br_qtype :: string

record zone_data =
  zd_records :: "(string \<times> zone_record list) list"
  zd_behaviors :: "(string \<times> behavior_rule list) list"
  zd_queries :: "string list"

definition new_zone :: zone_data where
  "new_zone = \<lparr>zd_records = [], zd_behaviors = [], zd_queries = []\<rparr>"

text \<open>A read of a missing key of a Go map gives the zero value, here the empty list.\<close>

definition at_key :: "(string \<times> 'a list) list \<Rightarrow> string \<Rightarrow> 'a list" where
  "at_key m k = (case map_of m k of None \<Rightarrow> [] | Some xs \<Rightarrow> xs)"

definition append_at :: "string \<Rightarrow> 'a \<Rightarrow> (string \<times> 'a list) list \<Rightarrow> (string \<times> 'a list) list" where
  "append_at k x m = AList.update k (at_key m k @ [x]) m"

subsection \<open>Reading a zone\<close>

datatype line_error = NameAndTypeExpected | BadAddress string string | BadMX string | MissingTarget string
  | UnquotedText char | BadEscape string | UnterminatedText | UnsupportedType string

text \<open>\<^verbatim>\<open>cut\<close>: the text up to the first space or tab, and what follows it.\<close>

definition cut_space :: "string \<Rightarrow> string \<times> string" where
  "cut_space s0 = (let s = trim_space s0 in
     case index_any s wsp of None \<Rightarrow> (s, []) | Some i \<Rightarrow> (take i s, trim_space (drop (i + 1) s)))"

text \<open>The inner loop of \<^verbatim>\<open>parseTXT\<close>, after an opening quote: what is added to the text, and the rest after the closing quote.\<close>

function quoted_text :: "string \<Rightarrow> string \<Rightarrow> line_error + string \<times> string" where
  "quoted_text [] b = Inl UnterminatedText"
| "quoted_text (c # s) b =
     (if c = CHR 0x5C \<and> s \<noteq> [] then
        (if 3 \<le> length s \<and> list_all is_digit (take 3 s) then
           (let n = digits_val (take 3 s) in
            if 255 < n then Inl (BadEscape (take 3 s)) else quoted_text (drop 3 s) (b @ [char_of n]))
         else quoted_text (tl s) (b @ [hd s]))
      else if c = CHR 0x22 then Inr (b, s)
      else quoted_text s (b @ [c]))"
  by pat_completeness auto

termination
  by (relation "measure (\<lambda>(s, b). length s)") auto

lemma quoted_text_shorter: "quoted_text s b = Inr (b', t) \<Longrightarrow> length t < length s"
  by (induction s b rule: quoted_text.induct) (fastforce simp: Let_def split: if_splits)+

function quoted_texts :: "string \<Rightarrow> string \<Rightarrow> line_error + string" where
  "quoted_texts [] b = Inr b"
| "quoted_texts (c # s) b =
     (if c \<in> set wsp then quoted_texts s b
      else if c \<noteq> CHR 0x22 then Inl (UnquotedText c)
      else (case quoted_text s b of Inl e \<Rightarrow> Inl e | Inr (b', t) \<Rightarrow> quoted_texts t b'))"
  by pat_completeness auto

termination
  by (relation "measure (\<lambda>(s, b). length s)") (auto dest: quoted_text_shorter)

definition parse_txt :: "string \<Rightarrow> line_error + string" where
  "parse_txt s = (if \<not> has_prefix s [CHR 0x22] then Inr s else quoted_texts s [])"

text \<open>The switch on the type in \<^verbatim>\<open>AddLine\<close>: the record with its data.\<close>

definition parse_data :: "string \<Rightarrow> string \<Rightarrow> string \<Rightarrow> line_error + zone_record" where
  "parse_data name typ rdata = (let r = \<lparr>zr_name = name, zr_type = typ, zr_addr = AddrZero, zr_pref = 0, zr_target = [], zr_text = []\<rparr> in
     if typ = ''A'' \<or> typ = ''AAAA'' then
       (case parse_addr rdata of
          Some a \<Rightarrow> if (typ = ''A'') \<noteq> is4 a then Inl (BadAddress typ rdata) else Inr (r\<lparr>zr_addr := a\<rparr>)
        | None \<Rightarrow> Inl (BadAddress typ rdata))
     else if typ = ''MX'' then
       (let (pref_str, host) = cut_space rdata in
        case parse_uint16 pref_str of
          Some pref \<Rightarrow> if host = [] then Inl (BadMX rdata)
            else Inr (r\<lparr>zr_pref := word_of_int pref, zr_target := if host = ''.'' then ''.'' else fqdn host\<rparr>)
        | None \<Rightarrow> Inl (BadMX rdata))
     else if typ = ''CNAME'' \<or> typ = ''PTR'' then
       (if rdata = [] then Inl (MissingTarget typ) else Inr (r\<lparr>zr_target := fqdn rdata\<rparr>))
     else if typ = ''TXT'' then
       (case parse_txt rdata of Inl e \<Rightarrow> Inl e | Inr text \<Rightarrow> Inr (r\<lparr>zr_text := text\<rparr>))
     else Inl (UnsupportedType typ))"

definition owner_name :: "string \<Rightarrow> string" where
  "owner_name owner = (case parse_addr owner of Some a \<Rightarrow> reverse_name a | None \<Rightarrow> fqdn owner)"

definition add_line :: "string \<Rightarrow> zone_data \<Rightarrow> line_error + zone_data" where
  "add_line s0 z = (let s = trim_space s0 in
     if s = [] \<or> hd s = CHR '';'' \<or> hd s = CHR ''#'' then Inr z
     else let (owner, rest) = cut_space s; (typ0, rdata) = cut_space rest; typ = to_upper typ0 in
       if owner = [] \<or> typ = [] then Inl NameAndTypeExpected
       else let name = owner_name owner in
         (case behavior_of typ of
            Some b \<Rightarrow> Inr (z\<lparr>zd_behaviors := append_at name \<lparr>br_behavior = b, br_qtype = to_upper rdata\<rparr> (zd_behaviors z)\<rparr>)
          | None \<Rightarrow> (case parse_data name typ rdata of
              Inl e \<Rightarrow> Inl e
            | Inr r \<Rightarrow> Inr (z\<lparr>zd_records := append_at name r (zd_records z)\<rparr>))))"

text \<open>
  \<^verbatim>\<open>ParseZone\<close>: the lines up to the first error.  The scanner's buffer has one MiB; a line that fills it ends the
  scan.  The carriage return that the scanner removes is white space for \<^verbatim>\<open>AddLine\<close>, and the text after the
  last line feed is a line, which \<^verbatim>\<open>AddLine\<close> ignores when it is empty.
\<close>

datatype zone_error = AtLine nat line_error | LineTooLong

definition line_limit :: int where "line_limit = 1024 * 1024"

fun add_lines :: "nat \<Rightarrow> string list \<Rightarrow> zone_data \<Rightarrow> zone_error + zone_data" where
  "add_lines n [] z = Inr z"
| "add_lines n (l # ls) z =
     (if line_limit \<le> int (length l) then Inl LineTooLong
      else (case add_line l z of Inl e \<Rightarrow> Inl (AtLine (n + 1) e) | Inr z' \<Rightarrow> add_lines (n + 1) ls z'))"

definition parse_zone :: "string \<Rightarrow> zone_error + zone_data" where
  "parse_zone s = add_lines 0 (split_byte lf s) new_zone"

subsection \<open>Resolving a name\<close>

record resolution =
  rs_behavior :: "behavior option"
  rs_nxdomain :: bool
  rs_chain :: "zone_record list"
  rs_answers :: "zone_record list"

definition has_descendant :: "zone_data \<Rightarrow> string \<Rightarrow> bool" where
  "has_descendant z name \<longleftrightarrow> list_ex (\<lambda>owner. has_suffix owner (CHR ''.'' # name)) (map fst (zd_records z))"

text \<open>The loop over the rules of a name: the behavior so far, and whether the function returns.\<close>

fun inject :: "string \<Rightarrow> behavior_rule list \<Rightarrow> behavior option \<Rightarrow> behavior option \<times> bool" where
  "inject qtype [] b = (b, False)"
| "inject qtype (r # rs) b =
     (if br_qtype r = [] \<or> br_qtype r = qtype then
        (if br_behavior r \<noteq> BehaveTruncate then (Some (br_behavior r), True) else inject qtype rs (Some (br_behavior r)))
      else inject qtype rs b)"

text \<open>The last CNAME record, which the loop over the records keeps.\<close>

definition cname_among :: "zone_record list \<Rightarrow> zone_record option" where
  "cname_among rs = List.find (\<lambda>r. zr_type r = ''CNAME'') (rev rs)"

definition max_chain :: nat where "max_chain = 8"

fun resolve_loop :: "nat \<Rightarrow> zone_data \<Rightarrow> string \<Rightarrow> string \<Rightarrow> resolution \<Rightarrow> resolution" where
  "resolve_loop 0 z qtype name res = res"
| "resolve_loop (Suc n) z qtype name res0 =
     (let (b, return) = inject qtype (at_key (zd_behaviors z) name) (rs_behavior res0); res = res0\<lparr>rs_behavior := b\<rparr> in
      if return then res
      else let recs = at_key (zd_records z) name in
        if recs = [] \<and> \<not> has_descendant z name then res\<lparr>rs_nxdomain := True\<rparr>
        else let res' = res\<lparr>rs_answers := rs_answers res @ filter (\<lambda>r. zr_type r = qtype) recs\<rparr> in
          (case cname_among recs of
             None \<Rightarrow> res'
           | Some c \<Rightarrow> if rs_answers res' \<noteq> [] \<or> qtype = ''CNAME'' then res'
               else resolve_loop n z qtype (zr_target c) (res'\<lparr>rs_chain := rs_chain res' @ [c]\<rparr>)))"

definition no_resolution :: resolution where
  "no_resolution = \<lparr>rs_behavior = None, rs_nxdomain = False, rs_chain = [], rs_answers = []\<rparr>"

definition zone_resolve :: "string \<Rightarrow> string \<Rightarrow> zone_data \<Rightarrow> resolution \<times> zone_data" where
  "zone_resolve name0 qtype z = (let name = fqdn name0; z' = z\<lparr>zd_queries := zd_queries z @ [qtype @ '' '' @ name]\<rparr> in
     (resolve_loop max_chain z' qtype name no_resolution, z'))"

definition zone_lookup :: "string \<Rightarrow> string \<Rightarrow> zone_data \<Rightarrow> zone_record list answer \<times> zone_data" where
  "zone_lookup name qtype z = (let derr = (\<lambda>kind. Inl (DnsError kind (trim_name name) qtype)) in
     if \<not> valid_domain name then (derr KindInvalidName, z)
     else let (res, z') = zone_resolve name qtype z in
       (case rs_behavior res of
          Some BehaveTimeout \<Rightarrow> derr KindTemporary
        | Some BehaveServFail \<Rightarrow> derr KindTemporary
        | Some BehaveRefused \<Rightarrow> derr KindRefused
        | Some BehaveMalformed \<Rightarrow> derr KindMalformed
        | _ \<Rightarrow> if rs_nxdomain res then derr KindNXDomain else Inr (rs_answers res), z'))"

definition records_as :: "(zone_record \<Rightarrow> 'a) \<Rightarrow> zone_record list answer \<times> zone_data \<Rightarrow> 'a list answer \<times> zone_data" where
  "records_as f p = map_prod (map_sum id (map f)) id p"

definition mx_of_record :: "zone_record \<Rightarrow> mx_record" where
  "mx_of_record r = \<lparr>mx_host = trim_name (zr_target r), mx_pref = zr_pref r\<rparr>"

definition first_target :: "zone_record list \<Rightarrow> string" where
  "first_target rs = (case rs of [] \<Rightarrow> [] | r # _ \<Rightarrow> trim_name (zr_target r))"

definition test_resolver :: "zone_data resolver" where
  "test_resolver = \<lparr>
     lookup_txt = \<lambda>z name. records_as zr_text (zone_lookup name ''TXT'' z),
     lookup_mx = \<lambda>z name. records_as mx_of_record (zone_lookup name ''MX'' z),
     lookup_a = \<lambda>z name. records_as zr_addr (zone_lookup name ''A'' z),
     lookup_aaaa = \<lambda>z name. records_as zr_addr (zone_lookup name ''AAAA'' z),
     lookup_cname = \<lambda>z name. map_prod (map_sum id first_target) id (zone_lookup name ''CNAME'' z),
     lookup_ptr = \<lambda>z a. records_as (\<lambda>r. trim_name (zr_target r)) (zone_lookup (reverse_name a) ''PTR'' z)\<rparr>"

definition reset_queries :: "zone_data \<Rightarrow> zone_data" where
  "reset_queries z = z\<lparr>zd_queries := []\<rparr>"


subsection \<open>A zone behind the interface\<close>

text \<open>A lookup appends at most one line to the log and changes nothing else.\<close>

definition only_logged :: "zone_data \<Rightarrow> zone_data \<Rightarrow> bool" where
  "only_logged z z' \<longleftrightarrow> zd_records z' = zd_records z \<and> zd_behaviors z' = zd_behaviors z
     \<and> prefix (zd_queries z) (zd_queries z')"

definition same_data :: "zone_data \<Rightarrow> zone_data \<Rightarrow> bool" where
  "same_data z z' \<longleftrightarrow> zd_records z' = zd_records z \<and> zd_behaviors z' = zd_behaviors z"

lemma zone_lookup_state:
  "snd (zone_lookup name qtype z) =
     (if valid_domain name then z\<lparr>zd_queries := zd_queries z @ [qtype @ '' '' @ fqdn name]\<rparr> else z)"
  by (simp add: zone_lookup_def zone_resolve_def Let_def)

lemma test_resolver_state:
  "snd (lookup_txt test_resolver z n) = snd (zone_lookup n ''TXT'' z)"
  "snd (lookup_mx test_resolver z n) = snd (zone_lookup n ''MX'' z)"
  "snd (lookup_a test_resolver z n) = snd (zone_lookup n ''A'' z)"
  "snd (lookup_aaaa test_resolver z n) = snd (zone_lookup n ''AAAA'' z)"
  "snd (lookup_cname test_resolver z n) = snd (zone_lookup n ''CNAME'' z)"
  "snd (lookup_ptr test_resolver z a) = snd (zone_lookup (reverse_name a) ''PTR'' z)"
  by (simp_all add: test_resolver_def records_as_def)

lemma test_step_cases:
  assumes "lookup_step test_resolver z z'"
  obtains n q where "z' = snd (zone_lookup n q z)"
  using assms by cases (auto simp: test_resolver_state)

interpretation test_zone: resolver_rel test_resolver only_logged
proof unfold_locales
  fix z z' assume "lookup_step test_resolver z z'"
  then show "only_logged z z'" by (rule test_step_cases) (auto simp: only_logged_def zone_lookup_state)
qed (auto simp: only_logged_def)

lemma calls_logged: "calls test_resolver n z z' \<Longrightarrow> length (zd_queries z') \<le> length (zd_queries z) + n"
proof (induction rule: calls.induct)
  case (calls_more z z' n z'')
  then have "length (zd_queries z') \<le> Suc (length (zd_queries z))"
    by (auto simp: zone_lookup_state elim: test_step_cases)
  with calls_more.IH show ?case by simp
qed simp

text \<open>
  The log of the zone measures the budget: a check that runs through a fresh session leaves at most as many
  queries in it as the budget allows, and the records as they were.
\<close>

lemma session_log_bounded:
  fixes limit :: int and m :: "'a dns" and z :: zone_data
  defines "b \<equiv> ch_next (snd (run m (session_resolver test_resolver limit) (new_session z)))"
  shows "length (zd_queries (bg_next b)) \<le> length (zd_queries z) + nat limit \<and> same_data z (bg_next b)"
proof -
  have rel: "budget_rel test_resolver limit (with_budget z) b"
    using session_run_rel [of test_resolver limit "new_session z" m]
    by (simp add: b_def cache_rel_def new_session_def new_cache_def)
  then obtain n where n: "calls test_resolver n z (bg_next b)" "n \<le> nat limit"
    by (auto simp: budget_rel_def with_budget_def sent_def)
  have "only_logged z z'" if "calls test_resolver k z z'" for k z z'
    using that by (induction rule: calls.induct)
      (auto intro: test_zone.R_refl test_zone.R_trans test_zone.R_step)
  with n show ?thesis
    using calls_logged [OF n(1)] by (fastforce simp: only_logged_def same_data_def)
qed

text \<open>The answers of a zone are a function of the question, whatever was looked up before.\<close>

definition snapshot :: "zone_data \<Rightarrow> zone" where
  "snapshot z = \<lparr>z_txt = \<lambda>n. fst (lookup_txt test_resolver z n), z_mx = \<lambda>n. fst (lookup_mx test_resolver z n),
     z_a = \<lambda>n. fst (lookup_a test_resolver z n), z_aaaa = \<lambda>n. fst (lookup_aaaa test_resolver z n),
     z_cname = \<lambda>n. fst (lookup_cname test_resolver z n), z_ptr = \<lambda>a. fst (lookup_ptr test_resolver z a)\<rparr>"

lemma resolve_loop_same_data:
  "same_data z z' \<Longrightarrow> resolve_loop n z' qtype name res = resolve_loop n z qtype name res"
  by (induction n z' qtype name res rule: resolve_loop.induct)
    (auto simp: same_data_def has_descendant_def Let_def split: prod.splits option.splits)

lemma zone_resolve_result: "fst (zone_resolve name qtype z) = resolve_loop max_chain z qtype (fqdn name) no_resolution"
  unfolding zone_resolve_def Let_def fst_conv by (rule resolve_loop_same_data) (simp add: same_data_def)

lemma zone_lookup_result:
  "fst (zone_lookup name qtype z) = (let derr = (\<lambda>kind. Inl (DnsError kind (trim_name name) qtype)) in
     if \<not> valid_domain name then derr KindInvalidName
     else let res = resolve_loop max_chain z qtype (fqdn name) no_resolution in
       (case rs_behavior res of
          Some BehaveTimeout \<Rightarrow> derr KindTemporary
        | Some BehaveServFail \<Rightarrow> derr KindTemporary
        | Some BehaveRefused \<Rightarrow> derr KindRefused
        | Some BehaveMalformed \<Rightarrow> derr KindMalformed
        | _ \<Rightarrow> if rs_nxdomain res then derr KindNXDomain else Inr (rs_answers res)))"
  unfolding zone_resolve_result [symmetric] by (cases "zone_resolve name qtype z") (simp add: zone_lookup_def Let_def)

lemma zone_lookup_same_data:
  "same_data z z' \<Longrightarrow> fst (zone_lookup name qtype z') = fst (zone_lookup name qtype z)"
  unfolding zone_lookup_result by (simp only: resolve_loop_same_data)

lemma zone_lookup_keeps_data: "same_data z z' \<Longrightarrow> same_data z (snd (zone_lookup name qtype z'))"
  by (simp add: same_data_def zone_lookup_state)

lemma records_as_sim:
  assumes "same_data z z'"
  shows "rel_prod (=) (\<lambda>s t. same_data z s) (records_as f (zone_lookup n q z')) (fst (records_as f (zone_lookup n q z)), t)"
  using zone_lookup_same_data [OF assms, of n q] zone_lookup_keeps_data [OF assms, of n q]
  by (simp add: records_as_def rel_prod_sel)

interpretation frozen: resolver_sim test_resolver "zone_resolver (snapshot z)" "\<lambda>s t. same_data z s" for z
proof unfold_locales
  fix s :: zone_data and t :: unit and n assume s: "same_data z s"
  show "rel_prod (=) (\<lambda>s t. same_data z s) (lookup_cname test_resolver s n) (lookup_cname (zone_resolver (snapshot z)) t n)"
    using zone_lookup_same_data [OF s, of n "''CNAME''"] zone_lookup_keeps_data [OF s, of n "''CNAME''"]
    by (simp add: test_resolver_def snapshot_def zone_resolver_def rel_prod_sel)
qed (simp_all add: test_resolver_def snapshot_def zone_resolver_def records_as_sim)

lemma check_of_zone_is_frozen: "fst (run m test_resolver z) = fst (run m (zone_resolver (snapshot z)) ())"
proof -
  have "same_data z z" by (simp add: same_data_def)
  from frozen.sim_run [OF this, of m] show ?thesis by (auto elim: rel_prod.cases)
qed

end
