(* ===== verification/TestZoneProps.thy ===== *)
theory TestZoneProps
  imports TestZone
begin

section \<open>What a zone in memory stores and answers\<close>

text \<open>
  The text form: \<open>zone_ok\<close> is what every zone that was read has, and a TXT record of any bytes can be written
  with quotes and is read back (\<open>txt_line_stored\<close>, \<open>written_txt_is_answered\<close>).  The answers: a successful lookup
  returns the records of the asked type at the end of at most eight CNAME records that lead there, a missing
  name is reported exactly where nothing is at the name or below it, and the case of a name and its final dot
  do not matter.
\<close>

subsection \<open>The data of a zone that was read\<close>

fun record_fits :: "zone_record \<Rightarrow> bool" where
  "record_fits r \<longleftrightarrow> (
     if zr_type r = ''A'' then is4 (zr_addr r)
     else if zr_type r = ''AAAA'' then is6 (zr_addr r)
     else if zr_type r \<in> {''MX'', ''CNAME'', ''PTR''} then has_suffix (zr_target r) ''.''
     else zr_type r = ''TXT'')"

declare record_fits.simps [simp del]

definition entry_ok :: "string \<times> zone_record list \<Rightarrow> bool" where
  "entry_ok e \<longleftrightarrow> (case e of (name, rs) \<Rightarrow> has_suffix name ''.'' \<and> rs \<noteq> []
     \<and> list_all (\<lambda>r. zr_name r = name \<and> record_fits r) rs)"

definition zone_ok :: "zone_data \<Rightarrow> bool" where
  "zone_ok z \<longleftrightarrow> distinct (map fst (zd_records z)) \<and> list_all entry_ok (zd_records z)"

lemma fqdn_dot: "has_suffix (fqdn n) ''.''"
  by (simp add: fqdn_def Let_def)

lemma reverse_name_dot: "has_suffix (reverse_name a) ''.''"
proof -
  have "has_suffix (s @ ''in-addr.arpa.'') ''.''" "has_suffix (s @ ''ip6.arpa.'') ''.''" for s
    by (simp_all add: has_suffix_def)
  then show ?thesis by (simp only: reverse_name.simps split: addr.split) simp
qed

lemma owner_name_dot: "has_suffix (owner_name owner) ''.''"
  by (simp add: owner_name_def fqdn_dot reverse_name_dot split: option.split)

lemma parse_ip6_is6: "parse_ip6 s = Some a \<Longrightarrow> is6 a"
  by (auto simp: parse_ip6_def Let_def split: prod.splits if_splits option.splits)

lemma parse_addr_not_4: "parse_addr s = Some a \<Longrightarrow> \<not> is4 a \<Longrightarrow> is6 a"
  by (auto simp: parse_addr_def parse_ip4_def intro: parse_ip6_is6 split: option.splits if_splits)

lemma parse_data_fits:
  assumes "parse_data name typ rdata = Inr r"
  shows "zr_name r = name \<and> zr_type r = typ \<and> record_fits r"
proof -
  consider "typ = ''A'' \<or> typ = ''AAAA''" | "typ = ''MX''" | "typ = ''CNAME'' \<or> typ = ''PTR''" | "typ = ''TXT''"
    | "typ \<notin> {''A'', ''AAAA'', ''MX'', ''CNAME'', ''PTR'', ''TXT''}" by blast
  then show ?thesis
  proof cases
    case 1
    then show ?thesis using assms
      by (auto simp: parse_data_def record_fits.simps intro: parse_addr_not_4 split: option.splits if_splits)
  next
    case 2
    then show ?thesis using assms
      by (auto simp: parse_data_def record_fits.simps fqdn_dot has_suffix_def [of "''.''"] split: prod.splits option.splits if_splits)
  next
    case 3
    then show ?thesis using assms
      by (auto simp: parse_data_def record_fits.simps fqdn_dot split: if_splits)
  next
    case 4
    then show ?thesis using assms
      by (auto simp: parse_data_def record_fits.simps split: sum.splits)
  next
    case 5
    then show ?thesis using assms by (simp add: parse_data_def)
  qed
qed

lemma entry_ok_append:
  assumes "list_all entry_ok m" and "has_suffix k ''.''" and "zr_name r = k" and "record_fits r"
  shows "list_all entry_ok (append_at k r m)"
proof -
  have "list_all entry_ok (AList.update k v m)" if "entry_ok (k, v)" for v
    using assms(1) that by (induction m) auto
  moreover have "entry_ok (k, at_key m k @ [r])"
  proof (cases "map_of m k")
    case (Some rs)
    then have "entry_ok (k, rs)" using assms(1) by (auto simp: list_all_iff dest: map_of_SomeD)
    then show ?thesis using assms(2-) Some by (simp add: entry_ok_def at_key_def)
  qed (use assms(2-) in \<open>simp add: entry_ok_def at_key_def\<close>)
  ultimately show ?thesis by (simp add: append_at_def)
qed

lemma add_line_ok: "add_line l z = Inr z' \<Longrightarrow> zone_ok z \<Longrightarrow> zone_ok z'"
  by (auto simp: add_line_def Let_def zone_ok_def owner_name_dot distinct_update append_at_def [symmetric]
      dest!: parse_data_fits intro!: entry_ok_append split: if_splits prod.splits option.splits sum.splits)
    (simp add: append_at_def distinct_update)

lemma add_lines_ok: "add_lines n ls z = Inr z' \<Longrightarrow> zone_ok z \<Longrightarrow> zone_ok z'"
  by (induction n ls z rule: add_lines.induct) (auto split: if_splits sum.splits dest: add_line_ok)

lemma parse_zone_ok: "parse_zone s = Inr z \<Longrightarrow> zone_ok z"
  unfolding parse_zone_def by (erule add_lines_ok) (simp add: zone_ok_def new_zone_def)

subsection \<open>Writing a TXT record\<close>

definition escape_txt :: "char \<Rightarrow> string" where
  "escape_txt c = (if c = CHR 0x22 \<or> c = CHR 0x5C then [CHR 0x5C, c] else [c])"

definition quote_txt :: "string \<Rightarrow> string" where
  "quote_txt s = CHR 0x22 # concat (map escape_txt s) @ [CHR 0x22]"

lemma quoted_text_written: "quoted_text (concat (map escape_txt s) @ CHR 0x22 # t) b = Inr (b @ s, t)"
  by (induction s arbitrary: b) (auto simp: escape_txt_def is_digit_def)

lemma quoted_texts_quote: "quoted_texts (quote_txt s @ t) b = quoted_texts t (b @ s)"
  by (simp add: quote_txt_def quoted_text_written)

lemma quoted_texts_written: "quoted_texts (join '' '' (map quote_txt ss)) b = Inr (b @ concat ss)"
proof (induction ss arbitrary: b)
  case (Cons s ss)
  then show ?case using quoted_texts_quote [of s "[]" b] by (cases ss) (simp_all add: quoted_texts_quote)
qed simp


abbreviation spaces :: string where
  "spaces \<equiv> [CHR '' '', tab, lf, CHR 0x0B, CHR 0x0C, cr]"

definition plain_owner :: "string \<Rightarrow> bool" where
  "plain_owner owner \<longleftrightarrow> owner \<noteq> [] \<and> hd owner \<notin> {CHR '';'', CHR ''#''} \<and> set owner \<inter> set spaces = {}"

lemma cut_space_at:
  assumes a: "a \<noteq> []" "set a \<inter> set spaces = {}" and r: "r \<noteq> []" "hd r \<notin> set spaces" "last r \<notin> set spaces"
  shows "cut_space (a @ CHR '' '' # r) = (a, r)"
proof -
  have "hd a \<notin> set spaces" using a hd_in_set [of a] by blast
  then have t: "trim_space (a @ CHR '' '' # r) = a @ CHR '' '' # r"
    unfolding trim_space_def using a r by (intro trim_set_id) simp
  have r': "trim_space r = r" unfolding trim_space_def using r by (intro trim_set_id) simp
  have "index_any (a @ CHR '' '' # r) wsp = Some (length a)"
    unfolding index_any_def using a(2) by (intro index_pred_append) auto
  with t r' show ?thesis by (simp add: cut_space_def)
qed

lemma written_ends:
  assumes "ss \<noteq> []"
  shows "join '' '' (map quote_txt ss) \<noteq> [] \<and> hd (join '' '' (map quote_txt ss)) = CHR 0x22
    \<and> last (join '' '' (map quote_txt ss)) = CHR 0x22"
  using assms by (induction ss rule: induct_list012) (auto simp: quote_txt_def)

definition txt_record :: "string \<Rightarrow> string \<Rightarrow> zone_record" where
  "txt_record name text = \<lparr>zr_name = name, zr_type = ''TXT'', zr_addr = AddrZero, zr_pref = 0, zr_target = [], zr_text = text\<rparr>"

text \<open>A TXT record with any bytes, in one or more character strings, is stored as it was written.\<close>

lemma txt_line_stored:
  assumes "plain_owner owner" and "ss \<noteq> []"
  shows "add_line (owner @ '' TXT '' @ join '' '' (map quote_txt ss)) z =
    Inr (z\<lparr>zd_records := append_at (owner_name owner) (txt_record (owner_name owner) (concat ss)) (zd_records z)\<rparr>)"
proof -
  define w where "w = join '' '' (map quote_txt ss)"
  have w: "w \<noteq> []" "hd w = CHR 0x22" "last w = CHR 0x22" using written_ends [OF assms(2)] by (simp_all add: w_def)
  have o: "owner \<noteq> []" "hd owner \<noteq> CHR '';''" "hd owner \<noteq> CHR ''#''" "set owner \<inter> set spaces = {}"
    using assms(1) by (simp_all add: plain_owner_def)
  have "hd owner \<notin> set spaces" using o hd_in_set [of owner] by blast
  then have trim: "trim_space (owner @ CHR '' '' # ''TXT'' @ CHR '' '' # w) = owner @ CHR '' '' # ''TXT'' @ CHR '' '' # w"
    unfolding trim_space_def using o w by (intro trim_set_id) simp
  have cut: "cut_space (owner @ CHR '' '' # ''TXT'' @ CHR '' '' # w) = (owner, ''TXT'' @ CHR '' '' # w)"
      "cut_space (''TXT'' @ CHR '' '' # w) = (''TXT'', w)"
    using o w by (intro cut_space_at; simp)+
  have "parse_txt w = Inr (concat ss)"
    using w quoted_texts_written [of ss "[]"] by (cases w) (simp_all add: parse_txt_def has_prefix_def w_def)
  then have "parse_data (owner_name owner) ''TXT'' w = Inr (txt_record (owner_name owner) (concat ss))"
    by (simp add: parse_data_def txt_record_def)
  moreover have "to_upper ''TXT'' = ''TXT''" by (simp add: to_upper_def str_eval)
  ultimately show ?thesis
    using trim cut o by (simp add: add_line_def Let_def behavior_of_def flip: w_def)
qed

subsection \<open>What resolving a name gives\<close>

text \<open>\<open>leads z name cs e\<close>: the CNAME records \<open>cs\<close> of the zone lead from \<open>name\<close> to \<open>e\<close>.\<close>

fun leads :: "zone_data \<Rightarrow> string \<Rightarrow> zone_record list \<Rightarrow> string \<Rightarrow> bool" where
  "leads z name [] e \<longleftrightarrow> e = name"
| "leads z name (c # cs) e \<longleftrightarrow> c \<in> set (at_key (zd_records z) name) \<and> zr_type c = ''CNAME'' \<and> leads z (zr_target c) cs e"

definition of_type :: "zone_data \<Rightarrow> string \<Rightarrow> string \<Rightarrow> zone_record list" where
  "of_type z qtype name = filter (\<lambda>r. zr_type r = qtype) (at_key (zd_records z) name)"

definition nothing_at :: "zone_data \<Rightarrow> string \<Rightarrow> bool" where
  "nothing_at z name \<longleftrightarrow> at_key (zd_records z) name = [] \<and> \<not> has_descendant z name"

lemma cname_among_Some: "cname_among rs = Some c \<Longrightarrow> c \<in> set rs \<and> zr_type c = ''CNAME''"
  unfolding cname_among_def by (drule find_SomeD) simp

lemma cname_among_None: "cname_among rs = None \<longleftrightarrow> (\<forall>r\<in>set rs. zr_type r \<noteq> ''CNAME'')"
  by (auto simp: cname_among_def find_None_iff)

definition led :: "zone_data \<Rightarrow> string \<Rightarrow> nat \<Rightarrow> string \<Rightarrow> resolution \<Rightarrow> bool" where
  "led z qtype n name res \<longleftrightarrow> (\<exists>cs e. length cs \<le> n \<and> leads z name cs e
     \<and> (rs_answers res = [] \<or> rs_answers res = of_type z qtype e) \<and> (rs_nxdomain res \<longrightarrow> nothing_at z e))"

lemma led_here:
  assumes "rs_answers res = [] \<or> rs_answers res = of_type z qtype name" and "rs_nxdomain res \<longrightarrow> nothing_at z name"
  shows "led z qtype n name res"
  unfolding led_def using assms by (intro exI [of _ "[]"] exI [of _ name]) simp

lemma led_further:
  assumes "led z qtype n (zr_target c) res" and "c \<in> set (at_key (zd_records z) name)" and "zr_type c = ''CNAME''"
  shows "led z qtype (Suc n) name res"
proof -
  obtain cs e where *: "length cs \<le> n" "leads z (zr_target c) cs e"
      "rs_answers res = [] \<or> rs_answers res = of_type z qtype e" "rs_nxdomain res \<longrightarrow> nothing_at z e"
    using assms(1) unfolding led_def by blast
  then show ?thesis unfolding led_def using assms(2,3)
    by (intro exI [of _ "c # cs"] exI [of _ e]) simp
qed

lemma resolve_loop_Suc:
  assumes "inject qtype (at_key (zd_behaviors z) name) (rs_behavior res) = (b, stop)" and "rs_answers res = []"
  shows "resolve_loop (Suc n) z qtype name res =
    (if stop then res\<lparr>rs_behavior := b\<rparr>
     else if nothing_at z name then res\<lparr>rs_behavior := b, rs_nxdomain := True\<rparr>
     else (case cname_among (at_key (zd_records z) name) of
        None \<Rightarrow> res\<lparr>rs_behavior := b, rs_answers := of_type z qtype name\<rparr>
      | Some c \<Rightarrow> if of_type z qtype name \<noteq> [] \<or> qtype = ''CNAME''
          then res\<lparr>rs_behavior := b, rs_answers := of_type z qtype name\<rparr>
          else resolve_loop n z qtype (zr_target c)
            (res\<lparr>rs_behavior := b, rs_answers := of_type z qtype name, rs_chain := rs_chain res @ [c]\<rparr>)))"
  using assms by (simp add: nothing_at_def of_type_def Let_def split: option.split)

lemma resolve_loop_led:
  "rs_answers res = [] \<Longrightarrow> \<not> rs_nxdomain res \<Longrightarrow> led z qtype n name (resolve_loop n z qtype name res)"
proof (induction n arbitrary: name res)
  case 0
  then show ?case by (simp add: led_here)
next
  case (Suc n)
  obtain b stop where b: "inject qtype (at_key (zd_behaviors z) name) (rs_behavior res) = (b, stop)" by fastforce
  have further: "led z qtype (Suc n) name (resolve_loop n z qtype (zr_target c) r)"
    if "cname_among (at_key (zd_records z) name) = Some c" "rs_answers r = []" "\<not> rs_nxdomain r" for c r
    using that Suc.IH led_further cname_among_Some by blast
  show ?case
    unfolding resolve_loop_Suc [OF b Suc.prems(1)] using Suc.prems
    by (simp add: led_here further split: option.split)
qed


text \<open>The records of a successful lookup are all those of the asked type at the end of at most eight aliases.\<close>

lemma resolution_led: "led z qtype 8 (fqdn name) (resolve_loop max_chain z qtype (fqdn name) no_resolution)"
  unfolding max_chain_def by (rule resolve_loop_led) (simp_all add: no_resolution_def)

lemma lookup_succeeds_at_end:
  assumes "fst (zone_lookup name qtype z) = Inr rs" and "rs \<noteq> []"
  shows "\<exists>cs e. length cs \<le> 8 \<and> leads z (fqdn name) cs e \<and> rs = of_type z qtype e"
proof -
  have "rs = rs_answers (resolve_loop max_chain z qtype (fqdn name) no_resolution)"
    using assms(1) unfolding zone_lookup_result
    by (auto simp: Let_def split: if_splits option.splits behavior.splits)
  with resolution_led [of z qtype name] assms(2) show ?thesis unfolding led_def by blast
qed

lemma lookup_missing_at_end:
  assumes "fst (zone_lookup name qtype z) = Inl (DnsError KindNXDomain n t)"
  shows "\<exists>cs e. length cs \<le> 8 \<and> leads z (fqdn name) cs e \<and> nothing_at z e"
proof -
  have "rs_nxdomain (resolve_loop max_chain z qtype (fqdn name) no_resolution)"
    using assms unfolding zone_lookup_result
    by (auto simp: Let_def split: if_splits option.splits behavior.splits)
  with resolution_led [of z qtype name] show ?thesis unfolding led_def by blast
qed

text \<open>Without injected failures, a name that is no alias is missing exactly when nothing is at it or below it (RFC 8020).\<close>

lemma resolve_plain:
  assumes "at_key (zd_behaviors z) (fqdn name) = []" and "of_type z ''CNAME'' (fqdn name) = []"
  shows "resolve_loop max_chain z qtype (fqdn name) no_resolution =
    (if nothing_at z (fqdn name) then no_resolution\<lparr>rs_nxdomain := True\<rparr>
     else no_resolution\<lparr>rs_answers := of_type z qtype (fqdn name)\<rparr>)"
proof -
  have "cname_among (at_key (zd_records z) (fqdn name)) = None"
    using assms(2) by (auto simp: cname_among_None of_type_def filter_empty_conv)
  then have "resolve_loop (Suc 7) z qtype (fqdn name) no_resolution =
    (if nothing_at z (fqdn name) then no_resolution\<lparr>rs_nxdomain := True\<rparr>
     else no_resolution\<lparr>rs_answers := of_type z qtype (fqdn name)\<rparr>)"
    using assms(1) by (subst resolve_loop_Suc [where b = None and stop = False]) (simp_all add: no_resolution_def)
  then show ?thesis by (simp add: max_chain_def)
qed

lemma lookup_plain:
  assumes "valid_domain name" and "at_key (zd_behaviors z) (fqdn name) = []" and "of_type z ''CNAME'' (fqdn name) = []"
  shows "fst (zone_lookup name qtype z) = (if nothing_at z (fqdn name) then Inl (DnsError KindNXDomain (trim_name name) qtype)
    else Inr (of_type z qtype (fqdn name)))"
  unfolding zone_lookup_result resolve_plain [OF assms(2,3)]
  using assms(1) by (simp add: no_resolution_def)

text \<open>A TXT record that was written to the zone is answered, after those that were there.\<close>

lemma written_txt_is_answered:
  assumes "plain_owner owner" and "ss \<noteq> []" and "parse_addr owner = None"
    and "fqdn name = fqdn owner" and "valid_domain name"
    and "at_key (zd_behaviors z) (fqdn owner) = []" and "of_type z ''CNAME'' (fqdn owner) = []"
  shows "\<exists>z'. add_line (owner @ '' TXT '' @ join '' '' (map quote_txt ss)) z = Inr z'
    \<and> fst (lookup_txt test_resolver z' name) = Inr (map zr_text (of_type z ''TXT'' (fqdn owner)) @ [concat ss])"
proof -
  let ?r = "txt_record (fqdn owner) (concat ss)"
  let ?z = "z\<lparr>zd_records := append_at (fqdn owner) ?r (zd_records z)\<rparr>"
  have key: "at_key (append_at k x m) k = at_key m k @ [x]" for k m and x :: 'x
    by (simp add: append_at_def at_key_def update_conv')
  have "of_type ?z q (fqdn owner) = of_type z q (fqdn owner) @ (if q = ''TXT'' then [?r] else [])" for q
    by (simp add: of_type_def key txt_record_def)
  moreover have "\<not> nothing_at ?z (fqdn owner)" by (simp add: nothing_at_def key)
  ultimately have "fst (zone_lookup name ''TXT'' ?z) = Inr (of_type z ''TXT'' (fqdn owner) @ [?r])"
    using assms(4-) by (subst lookup_plain) simp_all
  then have "fst (lookup_txt test_resolver ?z name) = Inr (map zr_text (of_type z ''TXT'' (fqdn owner)) @ [concat ss])"
    by (simp add: test_resolver_def records_as_def txt_record_def)
  moreover have "add_line (owner @ '' TXT '' @ join '' '' (map quote_txt ss)) z = Inr ?z"
    using txt_line_stored [OF assms(1,2), of z] assms(3) by (simp add: owner_name_def)
  ultimately show ?thesis by blast
qed


subsection \<open>Names and the cache\<close>

text \<open>
  The answer depends on the name up to the case of its letters and a final dot, which the keys of the cache
  leave out; the name \<open>''.''\<close> and the empty one share a key but are reported as they were given.
\<close>

lemma trim_name_fqdn: "n \<noteq> ''.'' \<Longrightarrow> trim_name n = butlast (fqdn n)"
proof (cases rule: trim_suffix_cases [of n "''.''"])
  case (1 t)
  moreover have "to_lower ''.'' = ''.''" by (simp add: str_eval)
  moreover assume "n \<noteq> ''.''"
  ultimately show ?thesis by (simp add: trim_name_def fqdn_def to_lower_append)
next
  case 2
  have "lower_byte x = CHR ''.'' \<longleftrightarrow> x = CHR ''.''" for x
    by (rule lower_byte_eq_iff) (simp add: byte_class_defs)
  then have "\<not> has_suffix (to_lower n) ''.''"
    using 2(1) by (cases n rule: rev_cases) (simp_all add: has_suffix_def to_lower_def)
  moreover assume "n \<noteq> ''.''"
  ultimately show ?thesis using 2(2) by (simp add: trim_name_def fqdn_def)
qed

lemma valid_domain_lower: "valid_domain n \<longleftrightarrow> (let m = to_lower (trim_suffix n ''.'') in
  m \<noteq> [] \<and> length m \<le> 253 \<and> list_all domain_label (split_byte (CHR ''.'') m))"
proof -
  have "byte (lower_byte c) \<le> 32 \<longleftrightarrow> byte c \<le> 32" "127 \<le> byte (lower_byte c) \<longleftrightarrow> 127 \<le> byte c" for c
    by (auto simp: byte_lower_byte is_upper_def)
  then have "domain_label (to_lower l) = domain_label l" for l
    by (simp add: domain_label_def list_all_iff) (simp add: to_lower_def)
  then show ?thesis by (simp add: valid_domain_def Let_def split_to_lower list_all_iff not_less)
qed

lemma valid_domain_trim: "n \<noteq> ''.'' \<Longrightarrow> valid_domain n \<longleftrightarrow> (let m = trim_name n in
  m \<noteq> [] \<and> length m \<le> 253 \<and> list_all domain_label (split_byte (CHR ''.'') m))"
  unfolding valid_domain_lower by (simp add: trim_name_def)

lemma lookup_by_key:
  assumes "fqdn n = fqdn n'" and "n \<noteq> ''.''" and "n' \<noteq> ''.''"
  shows "fst (zone_lookup n qtype z) = fst (zone_lookup n' qtype z)"
proof -
  have "trim_name n = trim_name n'" using assms by (simp add: trim_name_fqdn)
  then have "valid_domain n = valid_domain n'" using assms(2,3) by (simp add: valid_domain_trim)
  with \<open>trim_name n = trim_name n'\<close> assms(1) show ?thesis unfolding zone_lookup_result by simp
qed

text \<open>A zone with an alias, a failure and a name without records of its own, and a loop of aliases.\<close>

definition small_zone :: string where
  "small_zone = ''mail.a.test A 192.0.2.1'' @ [lf] @ ''www.a.test CNAME MAIL.a.test.'' @ [lf]
     @ ''x.test CNAME y.test'' @ [lf] @ ''y.test CNAME x.test'' @ [lf] @ ''b.test servfail txt''"

lemma small_zone_read:
  "map_sum id (\<lambda>z. (fst (lookup_a test_resolver z ''WWW.a.test''), fst (lookup_mx test_resolver z ''a.test''),
     fst (lookup_a test_resolver z ''x.test''), fst (lookup_txt test_resolver z ''b.test''), fst (lookup_a test_resolver z ''c.test'')))
     (parse_zone small_zone)
   = Inr (Inr [Addr4 0xC0000201], Inr [], Inr [], Inl (DnsError KindTemporary ''b.test'' ''TXT''),
       Inl (DnsError KindNXDomain ''c.test'' ''A''))"
  by code_simp

end
