(* ===== verification/ZoneRuns.thy ===== *)
theory ZoneRuns
  imports TestZoneProps SpfEval
begin

section \<open>A check on a zone in memory\<close>

text \<open>
  The whole stack on concrete data: the text of a zone is read, and an SPF check runs on it through the cache and
  the budget of a session.  The result, the counted terms, the queries drawn from the budget and those that
  arrived at the zone are computed by the kernel.
\<close>

definition spf_zone :: string where
  "spf_zone = join [lf] [
     ''example.test TXT \"v=spf1 include:net.test mx -all\"'',
     ''net.test TXT v=spf1 ip4:192.0.2.0/24 ?all'',
     ''example.test MX 10 MX.example.test.'',
     ''mx.example.test AAAA 2001:db8::25'']"

definition sender_at :: "addr \<Rightarrow> request" where
  "sender_at a = \<lparr>rq_ip = a, rq_sender = ''a@Example.test'', rq_helo = ''h.test'', rq_domain = [], rq_receiver = [], rq_now = None\<rparr>"

definition spf_run :: "addr \<Rightarrow> zone_data \<Rightarrow> spf_result option \<times> string \<times> int \<times> int \<times> string list" where
  "spf_run a z = (case run (check_host_request default_limits (sender_at a) 0) (session_resolver test_resolver 250) (new_session z) of
     (e, s) \<Rightarrow> (ev_result e, ev_matched_term e, ev_lookups e, sent 250 (ch_next s), zd_queries (bg_next (ch_next s))))"

lemma spf_passes_by_include:
  "map_sum id (spf_run (Addr4 0xC0000207)) (parse_zone spf_zone)
     = Inr (Some ResultPass, ''include:net.test'', 1, 2, [''TXT example.test.'', ''TXT net.test.''])"
  by code_simp

lemma spf_passes_by_mx:
  "map_sum id (spf_run (Addr6 0x20010DB8000000000000000000000025 [])) (parse_zone spf_zone)
     = Inr (Some ResultPass, ''mx'', 2, 4,
         [''TXT example.test.'', ''TXT net.test.'', ''MX example.test.'', ''AAAA mx.example.test.''])"
  by code_simp

end
