(* ===== verification/NetUtil.thy ===== *)
theory NetUtil
  imports Netip
begin

section \<open>Address classification and host names (internal/netutil)\<close>

text \<open>
  The model of \<^verbatim>\<open>internal/netutil/netutil.go\<close>.  The classification protects the MTA-STS policy
  fetch from being directed at internal hosts, so the theorems say which addresses it refuses:
  an interval description of the IPv4 ranges, and that no IPv6 form that embeds an IPv4 address
  (mapped, compatible, NAT64, 6to4, Teredo) hides a refused one.
\<close>

definition nat64_prefix :: prefix where "nat64_prefix = Prefix (Addr6 0x0064ff9b000000000000000000000000 []) 96"
definition six_to_four :: prefix where "six_to_four = Prefix (Addr6 0x20020000000000000000000000000000 []) 16"
definition teredo_prefix :: prefix where "teredo_prefix = Prefix (Addr6 0x20010000000000000000000000000000 []) 32"
definition v4_compatible :: prefix where "v4_compatible = Prefix (Addr6 0 []) 96"

definition non_public_prefixes :: "prefix list" where
  "non_public_prefixes = [
     Prefix (Addr4 0xc0586300) 24,
     Prefix (Addr6 0xfec00000000000000000000000000000 []) 10,
     Prefix (Addr4 0x00000000) 8,
     Prefix (Addr4 0x64400000) 10,
     Prefix (Addr4 0xc0000000) 24,
     Prefix (Addr4 0xc6120000) 15,
     Prefix (Addr4 0xf0000000) 4,
     Prefix (Addr6 0x0064ff9b000100000000000000000000 []) 48,
     Prefix (Addr6 0x01000000000000000000000000000000 []) 64,
     Prefix (Addr6 0x20010002000000000000000000000000 []) 48,
     Prefix (Addr6 0xfc000000000000000000000000000000 []) 7,
     Prefix (Addr4 0xffffffff) 32]"

fun embedded_ipv4 :: "addr \<Rightarrow> addr option" where
  "embedded_ipv4 (Addr6 w z) =
    (let a = Addr6 w z; b = byte16 w in
     if prefix_contains nat64_prefix a \<or> prefix_contains v4_compatible a
       then Some (addr_from4 (b 12) (b 13) (b 14) (b 15))
     else if prefix_contains six_to_four a then Some (addr_from4 (b 2) (b 3) (b 4) (b 5))
     else if prefix_contains teredo_prefix a
       then Some (addr_from4 (NOT (b 12)) (NOT (b 13)) (NOT (b 14)) (NOT (b 15)))
     else None)"
| "embedded_ipv4 _ = None"

lemma embedded_ipv4_is4: "embedded_ipv4 a = Some e \<Longrightarrow> is4 e"
  by (cases a) (auto simp: Let_def addr_from4_def split: if_splits)

lemma unmap_is6_back: "is6 (unmap a) \<Longrightarrow> is6 a"
  by (cases a) (auto split: if_splits)

lemma embedded_needs_is6: "embedded_ipv4 a = Some e \<Longrightarrow> is6 a"
  by (cases a) auto

declare embedded_ipv4.simps(1) [simp del]

function is_non_public :: "addr \<Rightarrow> bool" where
  "is_non_public addr0 =
    (let a = unmap addr0 in
     if a = AddrZero \<or> is_unspecified a \<or> is_loopback a \<or> is_private a \<or> is_link_local_unicast a
        \<or> is_link_local_multicast a \<or> is_multicast a \<or> is_interface_local_multicast a then True
     else if list_ex (\<lambda>p. prefix_contains p a) non_public_prefixes then True
     else (case embedded_ipv4 a of Some e \<Rightarrow> is_non_public e | None \<Rightarrow> False))"
  by pat_completeness auto
termination
proof (relation "measure (\<lambda>a. if is6 a then 1 else 0)", goal_cases)
  case (2 a0 a e)
  then have "is6 a0" and "is4 e"
    by (auto dest: embedded_ipv4_is4 embedded_needs_is6 unmap_is6_back)
  then show ?case by (auto dest: is4_not_is6)
qed simp

declare is_non_public.simps [simp del]

subsection \<open>Host names\<close>

definition ldh_byte :: "char \<Rightarrow> bool" where
  "ldh_byte c \<longleftrightarrow> is_alpha c \<or> is_digit c \<or> c = CHR ''-''"

definition hostname_label :: "string \<Rightarrow> bool" where
  "hostname_label l \<longleftrightarrow> l \<noteq> [] \<and> length l \<le> 63 \<and> hd l \<noteq> CHR ''-'' \<and> last l \<noteq> CHR ''-'' \<and> list_all ldh_byte l"

definition is_hostname :: "string \<Rightarrow> bool" where
  "is_hostname name0 = (let name = trim_suffix name0 ''.'' in
     if name = [] \<or> 253 < length name then False
     else list_all hostname_label (split_byte (CHR ''.'') name))"

subsection \<open>Which addresses are refused\<close>

text \<open>The IPv4 ranges, as intervals of unsigned numbers.\<close>

definition non_public_ranges4 :: "(nat \<times> nat) list" where
  "non_public_ranges4 = [
     (0x00000000, 0x00ffffff), (0x0a000000, 0x0affffff), (0x64400000, 0x647fffff),
     (0x7f000000, 0x7fffffff), (0xa9fe0000, 0xa9feffff), (0xac100000, 0xac1fffff),
     (0xc0000000, 0xc00000ff), (0xc0586300, 0xc05863ff), (0xc0a80000, 0xc0a8ffff),
     (0xc6120000, 0xc613ffff), (0xe0000000, 0xffffffff)]"

lemma div_eq_interval:
  fixes x k q :: nat
  assumes "0 < k"
  shows "x div k = q \<longleftrightarrow> q * k \<le> x \<and> x < Suc q * k"
proof -
  have "x div k = q \<longleftrightarrow> q \<le> x div k \<and> x div k < Suc q" by auto
  then show ?thesis
    using assms by (simp only: less_eq_div_iff_mult_less_eq div_less_iff_less_mult)
qed

lemma drop_bit_eq_interval:
  fixes w v :: "'a::len word"
  shows "drop_bit n w = v \<longleftrightarrow> unat v * 2 ^ n \<le> unat w \<and> unat w < Suc (unat v) * 2 ^ n"
proof -
  have "drop_bit n w = v \<longleftrightarrow> unat w div 2 ^ n = unat v"
    by (simp only: word_unat_eq_iff unat_drop_bit_eq drop_bit_eq_div [of n "unat w"])
  then show ?thesis by (simp only: div_eq_interval zero_less_power zero_less_numeral)
qed

definition in_ranges :: "(nat \<times> nat) list \<Rightarrow> nat \<Rightarrow> bool" where
  "in_ranges rs x \<longleftrightarrow> list_ex (\<lambda>(lo, hi). lo \<le> x \<and> x \<le> hi) rs"

lemma is_non_public_4:
  "is_non_public (Addr4 w) \<longleftrightarrow>
     w = 0 \<or> drop_bit 24 w = 127 \<or> is_private (Addr4 w) \<or> drop_bit 16 w = 0xa9fe
     \<or> drop_bit 8 w = 0xe00000 \<or> drop_bit 28 w = 0xe
     \<or> list_ex (\<lambda>p. prefix_contains p (Addr4 w)) non_public_prefixes"
  by (subst is_non_public.simps) (simp add: Let_def)

lemma unat32_bound: "unat (w :: 32 word) < 4294967296"
  using unsigned_less [of w] by simp

lemma word_eq_0_iff_unat: "(w :: 32 word) = 0 \<longleftrightarrow> unat w = 0"
  by (simp add: word_unat_eq_iff)

lemma word_eq_max32: "(w :: 32 word) = 4294967295 \<longleftrightarrow> unat w = 4294967295"
  by (simp add: word_unat_eq_iff)

lemma non_public_prefixes_4:
  "list_ex (\<lambda>p. prefix_contains p (Addr4 w)) non_public_prefixes \<longleftrightarrow>
     in_ranges [(0xc0586300, 0xc05863ff), (0, 0xffffff), (0x64400000, 0x647fffff), (0xc0000000, 0xc00000ff),
       (0xc6120000, 0xc613ffff), (0xf0000000, 0xffffffff), (0xffffffff, 0xffffffff)] (unat w)"
  using unat32_bound [of w]
  by (simp add: non_public_prefixes_def in_ranges_def drop_bit_eq_interval word_eq_max32) linarith

lemma is_private_4:
  "is_private (Addr4 w) \<longleftrightarrow> in_ranges
     [(0x0a000000, 0x0affffff), (0xac100000, 0xac1fffff), (0xc0a80000, 0xc0a8ffff)] (unat w)"
  by (simp add: in_ranges_def drop_bit_eq_interval) linarith

lemma is_non_public_unmap: "is_non_public (unmap a) = is_non_public a"
  by (simp only: is_non_public.simps [of a] is_non_public.simps [of "unmap a"] unmap_idem)

lemma is_non_public_embedded:
  assumes "embedded_ipv4 (unmap a) = Some e" and "is_non_public e"
  shows "is_non_public a"
  by (subst is_non_public.simps) (simp add: Let_def assms)

lemma addr_from4_low:
  "addr_from4 (byte16 v 12) (byte16 v 13) (byte16 v 14) (byte16 v 15) = Addr4 (ucast v)"
  using addr_from4_bytes [of 0 v] by (simp add: byte16_def)

lemma addr_from4_high:
  "addr_from4 (byte16 v 2) (byte16 v 3) (byte16 v 4) (byte16 v 5) = Addr4 (ucast (drop_bit 80 v))"
  using addr_from4_bytes [of 80 v] by (simp add: byte16_def)

lemma addr_from4_inverted:
  "addr_from4 (NOT (byte16 v 12)) (NOT (byte16 v 13)) (NOT (byte16 v 14)) (NOT (byte16 v 15))
     = Addr4 (NOT (ucast v))"
proof -
  have "NOT (byte16 v i) = byte16 (NOT v) i" if "i \<in> {12, 13, 14, 15}" for i
    using that unfolding byte16_def
    by (intro bit_word_eqI) (auto simp: bit_simps)
  moreover have "(ucast (NOT v) :: 32 word) = NOT (ucast v)"
    by (rule bit_word_eqI) (auto simp: bit_simps)
  ultimately show ?thesis using addr_from4_low [of "NOT v"] by simp
qed

text \<open>The IPv6 forms that carry an IPv4 address: mapped, compatible, NAT64, 6to4, Teredo.\<close>

definition carries_ipv4 :: "128 word \<Rightarrow> 32 word \<Rightarrow> bool" where
  "carries_ipv4 v w \<longleftrightarrow>
     drop_bit 32 v = 0xffff \<and> ucast v = w
   \<or> drop_bit 32 v = 0 \<and> ucast v = w
   \<or> drop_bit 32 v = 0x0064ff9b0000000000000000 \<and> ucast v = w
   \<or> drop_bit 112 v = 0x2002 \<and> ucast (drop_bit 80 v) = w
   \<or> drop_bit 96 v = 0x20010000 \<and> NOT (ucast v) = w"

lemma carries_ipv4_embedded:
  assumes "carries_ipv4 v w" and "drop_bit 32 v \<noteq> 0xffff"
  shows "embedded_ipv4 (Addr6 v []) = Some (Addr4 w)"
proof -
  have n64: "prefix_contains nat64_prefix (Addr6 v []) \<longleftrightarrow> drop_bit 32 v = 0x0064ff9b0000000000000000"
    and v4c: "prefix_contains v4_compatible (Addr6 v []) \<longleftrightarrow> drop_bit 32 v = 0"
    and six: "prefix_contains six_to_four (Addr6 v []) \<longleftrightarrow> drop_bit 112 v = 0x2002"
    and ter: "prefix_contains teredo_prefix (Addr6 v []) \<longleftrightarrow> drop_bit 96 v = 0x20010000"
    by (simp_all add: nat64_prefix_def v4_compatible_def six_to_four_def teredo_prefix_def)
  have d112: "drop_bit 112 v = drop_bit 80 (drop_bit 32 v)"
    and d96: "drop_bit 96 v = drop_bit 64 (drop_bit 32 v)"
    and d80: "drop_bit 80 (drop_bit 32 v) = drop_bit 16 (drop_bit 64 (drop_bit 32 v))" by simp_all
  show ?thesis
    using assms d80
    by (auto simp: embedded_ipv4.simps carries_ipv4_def n64 v4c six ter Let_def addr_from4_low addr_from4_high
        addr_from4_inverted d112 d96 simp del: drop_bit_drop_bit)
qed

lemma is_non_public_4_ranges:
  "is_non_public (Addr4 w) \<longleftrightarrow> in_ranges non_public_ranges4 (unat w)"
proof -
  define x where "x = unat w"
  have b: "x < 4294967296" by (simp add: x_def unat32_bound)
  have d: "drop_bit 24 w = 127 \<longleftrightarrow> 0x7f000000 \<le> x \<and> x \<le> 0x7fffffff"
    "drop_bit 16 w = 0xa9fe \<longleftrightarrow> 0xa9fe0000 \<le> x \<and> x \<le> 0xa9feffff"
    "drop_bit 8 w = 0xe00000 \<longleftrightarrow> 0xe0000000 \<le> x \<and> x \<le> 0xe00000ff"
    "drop_bit 28 w = 0xe \<longleftrightarrow> 0xe0000000 \<le> x \<and> x \<le> 0xefffffff"
    "w = 0 \<longleftrightarrow> x = 0"
    unfolding x_def by (auto simp: drop_bit_eq_interval word_eq_0_iff_unat)
  show ?thesis
    unfolding is_non_public_4 is_private_4 non_public_prefixes_4 d x_def [symmetric]
      in_ranges_def non_public_ranges4_def
    using b by (simp only: list_ex_Nil_iff list_ex_Cons_iff prod.case) (rule iffI; (elim disjE)?; simp; linarith)
qed

text \<open>
  An IPv4 address is classified as non-public exactly when it lies in one of eleven
  ranges: this-network, private, shared, loopback, link-local, protocol assignments, 6to4 relay,
  benchmarking, multicast and reserved.  The documentation ranges are public.
\<close>

theorem is_non_public_ipv4_ranges:
  "is_non_public (Addr4 w) \<longleftrightarrow> in_ranges non_public_ranges4 (unat w)"
  by (rule is_non_public_4_ranges)

text \<open>
  Claim C19. No IPv6 spelling without a zone hides a refused IPv4 address: when an IPv6 address that has no zone
  carries the IPv4 address \<open>w\<close> in its mapped, compatible, NAT64, 6to4 or Teredo form and \<open>w\<close> is
  non-public, then the IPv6 address is non-public as well.  The condition is needed: of the addresses with a zone, only the
  mapped ones are seen through (\<open>zoned_nat64_is_public\<close>).
\<close>

theorem no_embedded_bypass:
  assumes "carries_ipv4 v w" and "is_non_public (Addr4 w)"
  shows "is_non_public (Addr6 v [])"
proof (cases "drop_bit 32 v = 0xffff")
  case True
  then have "w = ucast v"
  proof -
    have "drop_bit 112 v = drop_bit 80 (drop_bit 32 v)"
      and "drop_bit 96 v = drop_bit 64 (drop_bit 32 v)" by simp_all
    with True assms(1) show ?thesis
      by (auto simp: carries_ipv4_def simp del: drop_bit_drop_bit)
  qed
  with True assms(2) have "is_non_public (unmap (Addr6 v []))" by simp
  then show ?thesis by (simp only: is_non_public_unmap)
next
  case False
  then have "embedded_ipv4 (unmap (Addr6 v [])) = Some (Addr4 w)"
    using carries_ipv4_embedded [OF assms(1)] by simp
  then show ?thesis using assms(2) by (rule is_non_public_embedded)
qed

text \<open>
  With a zone, \<^verbatim>\<open>Contains\<close> is false for every prefix, so the same address is taken for a public one.  The DNS
  returns no address with a zone.
\<close>

theorem zoned_nat64_is_public: "\<not> is_non_public (Addr6 0x0064ff9b0000000000000000a9fea9fe ''eth0'')"
proof -
  have "embedded_ipv4 (Addr6 0x0064ff9b0000000000000000a9fea9fe ''eth0'') = None"
    by (simp add: embedded_ipv4.simps nat64_prefix_def v4_compatible_def six_to_four_def teredo_prefix_def)
  then show ?thesis
    by (subst is_non_public.simps) (simp add: Let_def non_public_prefixes_def)
qed

text \<open>NAT64 for the cloud metadata address 169.254.169.254.\<close>

theorem no_embedded_bypass_witness:
  "is_non_public (Addr6 0x0064ff9b0000000000000000a9fea9fe [])"
proof (rule no_embedded_bypass)
  show "carries_ipv4 0x0064ff9b0000000000000000a9fea9fe 0xa9fea9fe"
    by (simp add: carries_ipv4_def)
  show "is_non_public (Addr4 0xa9fea9fe)"
    by (simp add: is_non_public_4_ranges in_ranges_def non_public_ranges4_def)
qed

end
