(* ===== verification/Findings.thy ===== *)
theory Findings
  imports GoStrings "HOL-Library.List_Lexorder" "HOL-Library.Char_ord" "HOL-Library.Product_Lexorder" "HOL-Library.Multiset"
begin

section \<open>The finding model (internal/findings/findings.go)\<close>

text \<open>
  Severities, rules, findings and the list operations on findings.  Go's zero \<open>Severity\<close>, which
  is invalid and below every other one, is \<open>SeverityZero\<close>; severities are instantiated as a
  linear order so that comparisons read as in the code.
\<close>

datatype severity = SeverityZero | SeverityPass | SeverityInfo | SeverityLow | SeverityMedium
  | SeverityHigh | SeverityCritical

fun severity_num :: "severity \<Rightarrow> nat" where
  "severity_num SeverityZero = 0"
| "severity_num SeverityPass = 1"
| "severity_num SeverityInfo = 2"
| "severity_num SeverityLow = 3"
| "severity_num SeverityMedium = 4"
| "severity_num SeverityHigh = 5"
| "severity_num SeverityCritical = 6"

lemma severity_num_inject: "severity_num a = severity_num b \<longleftrightarrow> a = b"
  by (cases a; cases b) simp_all

instantiation severity :: linorder
begin

definition less_eq_severity :: "severity \<Rightarrow> severity \<Rightarrow> bool" where
  "a \<le> b \<longleftrightarrow> severity_num a \<le> severity_num b"

definition less_severity :: "severity \<Rightarrow> severity \<Rightarrow> bool" where
  "a < b \<longleftrightarrow> severity_num a < severity_num b"

instance
  by standard (auto simp: less_eq_severity_def less_severity_def severity_num_inject)

end

lemmas severity_order_defs = less_eq_severity_def less_severity_def

lemma SeverityZero_le [simp]: "SeverityZero \<le> s"
  by (simp add: severity_order_defs)

fun severity_name :: "severity \<Rightarrow> string option" where
  "severity_name SeverityZero = None"
| "severity_name SeverityPass = Some ''pass''"
| "severity_name SeverityInfo = Some ''info''"
| "severity_name SeverityLow = Some ''low''"
| "severity_name SeverityMedium = Some ''medium''"
| "severity_name SeverityHigh = Some ''high''"
| "severity_name SeverityCritical = Some ''critical''"

definition severities :: "severity list" where
  "severities = [SeverityCritical, SeverityHigh, SeverityMedium, SeverityLow, SeverityInfo, SeverityPass]"

definition severity_string :: "severity \<Rightarrow> string" where
  "severity_string s = (case severity_name s of Some n \<Rightarrow> n
     | None \<Rightarrow> ''Severity('' @ show_nat (severity_num s) @ '')'')"

definition severity_valid :: "severity \<Rightarrow> bool" where
  "severity_valid s \<longleftrightarrow> severity_name s \<noteq> None"

text \<open>
  \<open>ParseSeverity\<close> ranges over a Go map, whose order is unspecified; the names are distinct up to
  case, so at most one entry matches and the order of \<open>severities\<close> is as good as any.
\<close>

definition parse_severity :: "string \<Rightarrow> severity option" where
  "parse_severity name = find (\<lambda>s. equal_fold (the (severity_name s)) name) severities"

definition marshal_text :: "severity \<Rightarrow> string option" where
  "marshal_text s = (if \<not> severity_valid s then None else Some (severity_string s))"

subsection \<open>Rules and findings\<close>

datatype category = CategoryViolation | CategoryWeakness | CategoryHardening | CategoryInformational

datatype component = CompDNS | CompMX | CompSPF | CompDKIM | CompDMARC | CompMTASTS | CompTLSRPT
  | CompMessage | CompReceived | CompAuthResults | CompARC

record rule =
  rl_id :: string
  rl_component :: component
  rl_category :: category
  rl_severity :: severity
  rl_title :: string
  rl_recommendation :: string
  rl_references :: "string list"

record finding =
  fd_id :: string
  fd_severity :: severity
  fd_category :: category
  fd_component :: component
  fd_title :: string
  fd_subject :: string
  fd_description :: string
  fd_evidence :: "string list"
  fd_recommendation :: string
  fd_references :: "string list"

definition rule_new :: "rule \<Rightarrow> string \<Rightarrow> string \<Rightarrow> string list \<Rightarrow> finding" where
  "rule_new r subject description evidence = \<lparr>
     fd_id = rl_id r, fd_severity = rl_severity r, fd_category = rl_category r,
     fd_component = rl_component r, fd_title = rl_title r, fd_subject = subject,
     fd_description = description, fd_evidence = evidence,
     fd_recommendation = rl_recommendation r, fd_references = rl_references r\<rparr>"

definition with_severity :: "finding \<Rightarrow> severity \<Rightarrow> finding" where
  "with_severity f s = f\<lparr>fd_severity := s\<rparr>"

definition with_evidence :: "finding \<Rightarrow> string list \<Rightarrow> finding" where
  "with_evidence f ev = f\<lparr>fd_evidence := fd_evidence f @ ev\<rparr>"

subsection \<open>Ordering\<close>

definition cmp_compare :: "'a::linorder \<Rightarrow> 'a \<Rightarrow> int" where
  "cmp_compare a b = (if a < b then -1 else if b < a then 1 else 0)"

fun cmp_or :: "int list \<Rightarrow> int" where
  "cmp_or [] = 0"
| "cmp_or (v # vs) = (if v \<noteq> 0 then v else cmp_or vs)"

fun slices_compare :: "'a::linorder list \<Rightarrow> 'a list \<Rightarrow> int" where
  "slices_compare [] [] = 0"
| "slices_compare [] (_ # _) = -1"
| "slices_compare (_ # _) [] = 1"
| "slices_compare (a # as) (b # bs) = (if cmp_compare a b \<noteq> 0 then cmp_compare a b else slices_compare as bs)"

definition finding_compare :: "finding \<Rightarrow> finding \<Rightarrow> int" where
  "finding_compare a b = cmp_or [
     cmp_compare (fd_severity b) (fd_severity a),
     cmp_compare (fd_id a) (fd_id b),
     cmp_compare (fd_subject a) (fd_subject b),
     cmp_compare (fd_description a) (fd_description b),
     slices_compare (fd_evidence a) (fd_evidence b)]"

text \<open>\<open>slices.SortStableFunc\<close>: a stable sort by the comparison, as an insertion sort.\<close>

fun insert_stable :: "('a \<Rightarrow> 'a \<Rightarrow> int) \<Rightarrow> 'a \<Rightarrow> 'a list \<Rightarrow> 'a list" where
  "insert_stable c x [] = [x]"
| "insert_stable c x (y # ys) = (if c x y \<le> 0 then x # y # ys else y # insert_stable c x ys)"

definition sort_stable :: "('a \<Rightarrow> 'a \<Rightarrow> int) \<Rightarrow> 'a list \<Rightarrow> 'a list" where
  "sort_stable c xs = foldr (insert_stable c) xs []"

definition sort_findings :: "finding list \<Rightarrow> finding list" where
  "sort_findings fs = sort_stable finding_compare fs"

subsection \<open>Summaries\<close>

fun max_severity :: "finding list \<Rightarrow> severity" where
  "max_severity fs = foldl (\<lambda>m f. max m (fd_severity f)) SeverityZero fs"

declare max_severity.simps [simp del]

definition severity_counts :: "finding list \<Rightarrow> (severity \<times> nat) list" where
  "severity_counts fs = map (\<lambda>s. (s, length (filter (\<lambda>f. fd_severity f = s) fs))) severities"

definition at_least :: "finding list \<Rightarrow> severity \<Rightarrow> finding list" where
  "at_least fs threshold = filter (\<lambda>f. threshold \<le> fd_severity f) fs"

subsection \<open>Correctness of the ordering\<close>

lemma cmp_compare_le: "cmp_compare a b \<le> 0 \<longleftrightarrow> a \<le> b"
  by (auto simp: cmp_compare_def)

lemma cmp_compare_0: "cmp_compare a b = 0 \<longleftrightarrow> a = b"
  by (auto simp: cmp_compare_def)

lemma slices_compare_0: "slices_compare as bs = 0 \<longleftrightarrow> as = bs"
  by (induction as bs rule: slices_compare.induct) (auto simp: cmp_compare_0)

lemma slices_compare_le: "slices_compare as bs \<le> 0 \<longleftrightarrow> as \<le> bs"
  by (induction as bs rule: slices_compare.induct)
    (auto simp: cmp_compare_def)

text \<open>The sort key: the severity counts downwards, the other fields upwards.\<close>

definition finding_key :: "finding \<Rightarrow> nat \<times> string \<times> string \<times> string \<times> string list" where
  "finding_key f = (6 - severity_num (fd_severity f), fd_id f, fd_subject f, fd_description f, fd_evidence f)"

lemma severity_num_le: "severity_num s \<le> 6"
  by (cases s) simp_all

lemma cmp_compare_severity:
  "cmp_compare b a = cmp_compare (6 - severity_num a) (6 - severity_num (b :: severity))"
  using severity_num_le [of a] severity_num_le [of b]
  by (auto simp: cmp_compare_def less_severity_def)

lemma cmp_or_lex:
  "cmp_or (cmp_compare a b # cs) \<le> 0 \<longleftrightarrow> a < b \<or> a \<le> b \<and> cmp_or cs \<le> 0"
  by (auto simp: cmp_compare_def)

lemma cmp_or_single: "cmp_or [v] = v"
  by simp

lemma finding_compare_le: "finding_compare a b \<le> 0 \<longleftrightarrow> finding_key a \<le> finding_key b"
  unfolding finding_compare_def cmp_compare_severity [of "fd_severity b"]
  by (simp only: cmp_or_lex cmp_or_single slices_compare_le finding_key_def less_eq_prod_def fst_conv snd_conv)

lemma insert_stable_insort:
  "(\<And>a b. c a b \<le> 0 \<longleftrightarrow> k a \<le> k b) \<Longrightarrow> insert_stable c x xs = insort_key k x xs"
  by (induction xs) auto

lemma sort_stable_sort_key:
  assumes "\<And>a b. c a b \<le> 0 \<longleftrightarrow> k a \<le> k b"
  shows "sort_stable c xs = sort_key k xs"
  by (induction xs) (simp_all add: sort_stable_def sort_key_def insert_stable_insort [of c k, OF assms])

lemma sort_findings_key: "sort_findings fs = sort_key finding_key fs"
  unfolding sort_findings_def by (rule sort_stable_sort_key) (rule finding_compare_le)

lemma max_severity_foldl:
  "foldl (\<lambda>m f. max m (fd_severity f)) s fs = Max (insert s (fd_severity ` set fs))"
proof (induction fs arbitrary: s)
  case (Cons f fs)
  then show ?case
    by (cases "fs = []") (simp_all add: Max_insert insert_commute ac_simps)
qed simp

lemma max_severity_Nil [simp]: "max_severity [] = SeverityZero"
  by (simp add: max_severity.simps)

lemma max_severity_Max: "max_severity fs = Max (insert SeverityZero (fd_severity ` set fs))"
  by (simp add: max_severity.simps max_severity_foldl)

lemma max_severity_le_iff: "max_severity fs \<le> s \<longleftrightarrow> (\<forall>f\<in>set fs. fd_severity f \<le> s)"
  by (auto simp: max_severity_Max)

lemma le_max_severity_iff:
  "s \<noteq> SeverityZero \<Longrightarrow> s \<le> max_severity fs \<longleftrightarrow> (\<exists>f\<in>set fs. s \<le> fd_severity f)"
  by (auto simp: max_severity_Max Max_ge_iff) (metis SeverityZero_le order_antisym)

lemma fd_severity_rule_new [simp]: "fd_severity (rule_new r s d e) = rl_severity r"
  by (simp add: rule_new_def)

lemma fd_id_rule_new [simp]: "fd_id (rule_new r s d e) = rl_id r"
  by (simp add: rule_new_def)

lemma with_severity_simps [simp]:
  "fd_severity (with_severity f s) = s" "fd_id (with_severity f s) = fd_id f"
  by (simp_all add: with_severity_def)

lemma with_evidence_simps [simp]:
  "fd_severity (with_evidence f e) = fd_severity f" "fd_id (with_evidence f e) = fd_id f"
  by (simp_all add: with_evidence_def)

subsection \<open>Observations\<close>

text \<open>
  The checks report findings with a prose description and quoted evidence.  Their models keep the
  decision, that is the rule, the severity and the subject of each finding, and leave out the prose:
  \<open>observe\<close> is \<^verbatim>\<open>Rule.New\<close> and \<open>observe_at\<close> is \<^verbatim>\<open>Rule.New\<close> with \<^verbatim>\<open>WithSeverity\<close>.
\<close>

record observation =
  ob_rule :: rule
  ob_severity :: severity
  ob_subject :: string

definition observe :: "rule \<Rightarrow> string \<Rightarrow> observation" where
  "observe r subject = \<lparr>ob_rule = r, ob_severity = rl_severity r, ob_subject = subject\<rparr>"

definition observe_at :: "severity \<Rightarrow> rule \<Rightarrow> string \<Rightarrow> observation" where
  "observe_at s r subject = \<lparr>ob_rule = r, ob_severity = s, ob_subject = subject\<rparr>"

definition observed_max :: "observation list \<Rightarrow> severity" where
  "observed_max os = foldl (\<lambda>m f. max m (ob_severity f)) SeverityZero os"

lemma ob_simps [simp]:
  "ob_rule (observe r s) = r" "ob_severity (observe r s) = rl_severity r" "ob_subject (observe r s) = s"
  "ob_rule (observe_at v r s) = r" "ob_severity (observe_at v r s) = v" "ob_subject (observe_at v r s) = s"
  by (simp_all add: observe_def observe_at_def)

subsection \<open>Properties\<close>

text \<open>
  Sorting the findings of a report loses and invents none, and puts them in the order of
  \<^verbatim>\<open>Compare\<close>: for neighbours and all later pairs the first is not greater than the second, so the most
  severe findings come first.
\<close>

theorem sort_findings_correct:
  "mset (sort_findings fs) = mset fs \<and> sorted_wrt (\<lambda>a b. finding_compare a b \<le> 0) (sort_findings fs)"
proof -
  have "sorted (map finding_key (sort_key finding_key fs))" by simp
  then have "sorted_wrt (\<lambda>a b. finding_key a \<le> finding_key b) (sort_key finding_key fs)"
    by (simp add: sorted_map)
  then show ?thesis by (simp add: sort_findings_key finding_compare_le)
qed

lemma observed_max_le: "observed_max os \<le> s \<longleftrightarrow> list_all (\<lambda>ob. ob_severity ob \<le> s) os"
proof -
  have "foldl (\<lambda>m f. max m (ob_severity f)) t os \<le> s \<longleftrightarrow> t \<le> s \<and> list_all (\<lambda>ob. ob_severity ob \<le> s) os" for t
    by (induction os arbitrary: t) auto
  then show ?thesis by (simp add: observed_max_def)
qed

lemma list_all_if: "list_all P (if c then xs else ys) = (if c then list_all P xs else list_all P ys)"
  by simp

lemma severity_le_Info [simp]:
  "SeverityPass \<le> SeverityInfo" "\<not> SeverityLow \<le> SeverityInfo" "\<not> SeverityMedium \<le> SeverityInfo"
  "\<not> SeverityHigh \<le> SeverityInfo"
  by (simp_all add: less_eq_severity_def)

end
