(* ===== verification/FindingsCatalog.thy ===== *)
theory FindingsCatalog
  imports Findings "HOL-Library.Multiset"
begin

section \<open>The rule catalog (internal/findings/catalog.go)\<close>

text \<open>
  Every rule of the catalog, in source order and group by group, with its text.  \<open>register\<close> panics
  on a duplicate identifier, so the program only starts when all identifiers differ; the theorem at
  the end says that registration of the whole catalog succeeds.
\<close>

definition RFC1035 :: string where "RFC1035 = ''https://www.rfc-editor.org/rfc/rfc1035''"
definition RFC2181 :: string where "RFC2181 = ''https://www.rfc-editor.org/rfc/rfc2181''"
definition RFC5321 :: string where "RFC5321 = ''https://www.rfc-editor.org/rfc/rfc5321''"
definition RFC5322 :: string where "RFC5322 = ''https://www.rfc-editor.org/rfc/rfc5322''"
definition RFC6376 :: string where "RFC6376 = ''https://www.rfc-editor.org/rfc/rfc6376''"
definition RFC7208 :: string where "RFC7208 = ''https://www.rfc-editor.org/rfc/rfc7208''"
definition RFC7489 :: string where "RFC7489 = ''https://www.rfc-editor.org/rfc/rfc7489''"
definition RFC7505 :: string where "RFC7505 = ''https://www.rfc-editor.org/rfc/rfc7505''"
definition RFC8301 :: string where "RFC8301 = ''https://www.rfc-editor.org/rfc/rfc8301''"
definition RFC8460 :: string where "RFC8460 = ''https://www.rfc-editor.org/rfc/rfc8460''"
definition RFC8461 :: string where "RFC8461 = ''https://www.rfc-editor.org/rfc/rfc8461''"
definition RFC8463 :: string where "RFC8463 = ''https://www.rfc-editor.org/rfc/rfc8463''"
definition RFC8601 :: string where "RFC8601 = ''https://www.rfc-editor.org/rfc/rfc8601''"
definition RFC8617 :: string where "RFC8617 = ''https://www.rfc-editor.org/rfc/rfc8617''"
definition RFC2045 :: string where "RFC2045 = ''https://www.rfc-editor.org/rfc/rfc2045''"
definition RFC2046 :: string where "RFC2046 = ''https://www.rfc-editor.org/rfc/rfc2046''"

subsection \<open>DNS rules\<close>

definition DNSLookupFailed :: rule where
  "DNSLookupFailed = \<lparr>
     rl_id = ''MAIL-DNS-001'', rl_component = CompDNS, rl_category = CategoryInformational,
     rl_severity = SeverityHigh, rl_title = ''DNS lookup failed'',
     rl_recommendation = ''Retry the scan. If the failure persists, check the authoritative name servers for the zone and the resolver passed with --resolver.'',
     rl_references = [RFC1035]\<rparr>"

definition DNSQueryBudgetExceeded :: rule where
  "DNSQueryBudgetExceeded = \<lparr>
     rl_id = ''MAIL-DNS-002'', rl_component = CompDNS, rl_category = CategoryInformational,
     rl_severity = SeverityMedium, rl_title = ''DNS query budget exhausted'',
     rl_recommendation = ''The scan stopped issuing DNS queries to protect the resolver. Results for the affected checks are incomplete.'',
     rl_references = []\<rparr>"

definition dns_rules :: "rule list" where
  "dns_rules = [DNSLookupFailed, DNSQueryBudgetExceeded]"

subsection \<open>MX rules\<close>

definition MXNone :: rule where
  "MXNone = \<lparr>
     rl_id = ''MAIL-MX-001'', rl_component = CompMX, rl_category = CategoryHardening,
     rl_severity = SeverityMedium, rl_title = ''No MX records; mail relies on implicit MX'',
     rl_recommendation = ''Publish explicit MX records for domains that receive mail, or a null MX (\"0 .\") for domains that do not.'',
     rl_references = [RFC5321 @ ''#section-5.1'', RFC7505]\<rparr>"

definition MXNoMailHost :: rule where
  "MXNoMailHost = \<lparr>
     rl_id = ''MAIL-MX-002'', rl_component = CompMX, rl_category = CategoryHardening,
     rl_severity = SeverityLow, rl_title = ''Domain publishes neither MX nor address records'',
     rl_recommendation = ''If the domain does not receive mail, publish a null MX record (\"0 .\") so senders fail fast instead of retrying.'',
     rl_references = [RFC7505]\<rparr>"

definition MXDomainNotFound :: rule where
  "MXDomainNotFound = \<lparr>
     rl_id = ''MAIL-MX-003'', rl_component = CompMX, rl_category = CategoryInformational,
     rl_severity = SeverityHigh, rl_title = ''Domain does not exist'',
     rl_recommendation = ''Check the domain name. A non-existent domain cannot send or receive mail.'',
     rl_references = [RFC1035]\<rparr>"

definition MXNullMX :: rule where
  "MXNullMX = \<lparr>
     rl_id = ''MAIL-MX-004'', rl_component = CompMX, rl_category = CategoryInformational,
     rl_severity = SeverityInfo, rl_title = ''Null MX published; domain does not accept mail'',
     rl_recommendation = [],
     rl_references = [RFC7505]\<rparr>"

definition MXNullMixed :: rule where
  "MXNullMixed = \<lparr>
     rl_id = ''MAIL-MX-005'', rl_component = CompMX, rl_category = CategoryViolation,
     rl_severity = SeverityHigh, rl_title = ''Null MX combined with other MX records'',
     rl_recommendation = ''Remove either the null MX record or the other MX records. A domain that publishes a null MX must not publish any other MX record.'',
     rl_references = [RFC7505 @ ''#section-3'']\<rparr>"

definition MXNullPreference :: rule where
  "MXNullPreference = \<lparr>
     rl_id = ''MAIL-MX-006'', rl_component = CompMX, rl_category = CategoryViolation,
     rl_severity = SeverityLow, rl_title = ''Null MX uses a non-zero preference'',
     rl_recommendation = ''Publish the null MX with preference 0: \"MX 0 .\".'',
     rl_references = [RFC7505 @ ''#section-3'']\<rparr>"

definition MXDuplicateHost :: rule where
  "MXDuplicateHost = \<lparr>
     rl_id = ''MAIL-MX-007'', rl_component = CompMX, rl_category = CategoryHardening,
     rl_severity = SeverityLow, rl_title = ''Duplicate MX host'',
     rl_recommendation = ''List each mail exchanger once. Duplicates do not add redundancy and may indicate a copy-paste error.'',
     rl_references = [RFC5321 @ ''#section-5.1'']\<rparr>"

definition MXIPLiteral :: rule where
  "MXIPLiteral = \<lparr>
     rl_id = ''MAIL-MX-008'', rl_component = CompMX, rl_category = CategoryViolation,
     rl_severity = SeverityHigh, rl_title = ''MX target is an IP address'',
     rl_recommendation = ''MX records must name a host. Create an A/AAAA record for the mail server and point the MX record at that name.'',
     rl_references = [RFC5321 @ ''#section-5.1'', RFC1035 @ ''#section-3.3.9'']\<rparr>"

definition MXCNAME :: rule where
  "MXCNAME = \<lparr>
     rl_id = ''MAIL-MX-009'', rl_component = CompMX, rl_category = CategoryViolation,
     rl_severity = SeverityMedium, rl_title = ''MX target is a CNAME alias'',
     rl_recommendation = ''Point the MX record at the canonical host name that owns the A/AAAA records, not at an alias.'',
     rl_references = [RFC2181 @ ''#section-10.3'', RFC5321 @ ''#section-5.1'']\<rparr>"

definition MXNoAddress :: rule where
  "MXNoAddress = \<lparr>
     rl_id = ''MAIL-MX-010'', rl_component = CompMX, rl_category = CategoryViolation,
     rl_severity = SeverityMedium, rl_title = ''MX host has no address records'',
     rl_recommendation = ''Publish A and/or AAAA records for every MX host, or remove the MX record.'',
     rl_references = [RFC5321 @ ''#section-5.1'']\<rparr>"

definition MXNonPublicAddress :: rule where
  "MXNonPublicAddress = \<lparr>
     rl_id = ''MAIL-MX-011'', rl_component = CompMX, rl_category = CategoryViolation,
     rl_severity = SeverityHigh, rl_title = ''MX host resolves to a non-routable address'',
     rl_recommendation = ''Publicly advertised MX hosts must resolve to globally routable addresses. Remove private, loopback or link-local addresses from public DNS.'',
     rl_references = [''https://www.iana.org/assignments/iana-ipv4-special-registry/'', ''https://www.iana.org/assignments/iana-ipv6-special-registry/'']\<rparr>"

definition MXLookupInconsistent :: rule where
  "MXLookupInconsistent = \<lparr>
     rl_id = ''MAIL-MX-012'', rl_component = CompMX, rl_category = CategoryInformational,
     rl_severity = SeverityMedium, rl_title = ''MX host lookup failed'',
     rl_recommendation = ''Address lookups for this MX host failed temporarily or returned a malformed response. Check the authoritative servers for the host's zone.'',
     rl_references = [RFC1035]\<rparr>"

definition MXIPv4Only :: rule where
  "MXIPv4Only = \<lparr>
     rl_id = ''MAIL-MX-013'', rl_component = CompMX, rl_category = CategoryHardening,
     rl_severity = SeverityInfo, rl_title = ''MX hosts are reachable over IPv4 only'',
     rl_recommendation = [],
     rl_references = [RFC5321 @ ''#section-5.1'']\<rparr>"

definition MXSingleHost :: rule where
  "MXSingleHost = \<lparr>
     rl_id = ''MAIL-MX-014'', rl_component = CompMX, rl_category = CategoryHardening,
     rl_severity = SeverityInfo, rl_title = ''Single MX host'',
     rl_recommendation = [],
     rl_references = [RFC5321 @ ''#section-5.1'']\<rparr>"

definition MXValid :: rule where
  "MXValid = \<lparr>
     rl_id = ''MAIL-MX-015'', rl_component = CompMX, rl_category = CategoryInformational,
     rl_severity = SeverityPass, rl_title = ''MX records are valid'',
     rl_recommendation = [],
     rl_references = []\<rparr>"

definition MXInvalidHostname :: rule where
  "MXInvalidHostname = \<lparr>
     rl_id = ''MAIL-MX-016'', rl_component = CompMX, rl_category = CategoryViolation,
     rl_severity = SeverityHigh, rl_title = ''MX target is not a valid host name'',
     rl_recommendation = ''MX targets must be host names made of letters, digits and hyphens.'',
     rl_references = [RFC5321 @ ''#section-2.3.5'', RFC1035 @ ''#section-2.3.1'']\<rparr>"

definition MXTooMany :: rule where
  "MXTooMany = \<lparr>
     rl_id = ''MAIL-MX-017'', rl_component = CompMX, rl_category = CategoryInformational,
     rl_severity = SeverityInfo, rl_title = ''Too many MX hosts to check'',
     rl_recommendation = [],
     rl_references = [RFC5321 @ ''#section-5.1'']\<rparr>"

definition mx_rules :: "rule list" where
  "mx_rules = [MXNone, MXNoMailHost, MXDomainNotFound, MXNullMX, MXNullMixed, MXNullPreference, MXDuplicateHost, MXIPLiteral, MXCNAME, MXNoAddress, MXNonPublicAddress, MXLookupInconsistent, MXIPv4Only, MXSingleHost, MXValid, MXInvalidHostname, MXTooMany]"

subsection \<open>SPF rules\<close>

definition SPFMissing :: rule where
  "SPFMissing = \<lparr>
     rl_id = ''MAIL-SPF-001'', rl_component = CompSPF, rl_category = CategoryWeakness,
     rl_severity = SeverityMedium, rl_title = ''No SPF record'',
     rl_recommendation = ''Publish an SPF record listing the hosts allowed to send for the domain. Domains that never send mail should publish \"v=spf1 -all\".'',
     rl_references = [RFC7208 @ ''#section-4.5'']\<rparr>"

definition SPFMultiple :: rule where
  "SPFMultiple = \<lparr>
     rl_id = ''MAIL-SPF-002'', rl_component = CompSPF, rl_category = CategoryViolation,
     rl_severity = SeverityHigh, rl_title = ''Multiple SPF records'',
     rl_recommendation = ''Merge all SPF policies into a single TXT record. With more than one record every SPF check returns permerror.'',
     rl_references = [RFC7208 @ ''#section-4.5'']\<rparr>"

definition SPFSyntax :: rule where
  "SPFSyntax = \<lparr>
     rl_id = ''MAIL-SPF-003'', rl_component = CompSPF, rl_category = CategoryViolation,
     rl_severity = SeverityHigh, rl_title = ''SPF syntax error'',
     rl_recommendation = ''Fix the invalid terms. Any syntax error makes the whole record evaluate to permerror.'',
     rl_references = [RFC7208 @ ''#section-4.6'', RFC7208 @ ''#section-12'']\<rparr>"

definition SPFLoop :: rule where
  "SPFLoop = \<lparr>
     rl_id = ''MAIL-SPF-004'', rl_component = CompSPF, rl_category = CategoryViolation,
     rl_severity = SeverityHigh, rl_title = ''SPF include or redirect loop'',
     rl_recommendation = ''Break the cycle in the include/redirect chain. Receivers stop at the lookup limit and return permerror.'',
     rl_references = [RFC7208 @ ''#section-4.6.4'']\<rparr>"

definition SPFLookupLimit :: rule where
  "SPFLookupLimit = \<lparr>
     rl_id = ''MAIL-SPF-005'', rl_component = CompSPF, rl_category = CategoryViolation,
     rl_severity = SeverityHigh, rl_title = ''SPF exceeds the 10 DNS lookup limit'',
     rl_recommendation = ''Reduce include, a, mx, ptr, exists and redirect terms: replace stable hosts with ip4/ip6 ranges and remove unused includes. Receivers return permerror once the limit is exceeded.'',
     rl_references = [RFC7208 @ ''#section-4.6.4'']\<rparr>"

definition SPFVoidLimit :: rule where
  "SPFVoidLimit = \<lparr>
     rl_id = ''MAIL-SPF-006'', rl_component = CompSPF, rl_category = CategoryViolation,
     rl_severity = SeverityMedium, rl_title = ''SPF exceeds the void lookup limit'',
     rl_recommendation = ''Remove mechanisms that reference names without records. More than two void lookups lead to permerror at many receivers.'',
     rl_references = [RFC7208 @ ''#section-4.6.4'']\<rparr>"

definition SPFPassAll :: rule where
  "SPFPassAll = \<lparr>
     rl_id = ''MAIL-SPF-007'', rl_component = CompSPF, rl_category = CategoryWeakness,
     rl_severity = SeverityCritical, rl_title = ''SPF authorizes every host (+all)'',
     rl_recommendation = ''Replace \"+all\" with \"-all\" or \"~all\". \"+all\" lets anyone on the Internet pass SPF for the domain.'',
     rl_references = [RFC7208 @ ''#section-5.1'']\<rparr>"

definition SPFNeutralAll :: rule where
  "SPFNeutralAll = \<lparr>
     rl_id = ''MAIL-SPF-008'', rl_component = CompSPF, rl_category = CategoryWeakness,
     rl_severity = SeverityMedium, rl_title = ''SPF ends with ?all (neutral)'',
     rl_recommendation = ''Use \"-all\" (or \"~all\" while monitoring) so that unauthorized hosts are not treated like unknown ones.'',
     rl_references = [RFC7208 @ ''#section-8.2'']\<rparr>"

definition SPFSoftFailAll :: rule where
  "SPFSoftFailAll = \<lparr>
     rl_id = ''MAIL-SPF-009'', rl_component = CompSPF, rl_category = CategoryHardening,
     rl_severity = SeverityLow, rl_title = ''SPF ends with ~all (softfail)'',
     rl_recommendation = ''Once all legitimate senders are covered, consider \"-all\". With an enforcing DMARC policy \"~all\" is an acceptable choice.'',
     rl_references = [RFC7208 @ ''#section-8.5'']\<rparr>"

definition SPFNoAll :: rule where
  "SPFNoAll = \<lparr>
     rl_id = ''MAIL-SPF-010'', rl_component = CompSPF, rl_category = CategoryWeakness,
     rl_severity = SeverityMedium, rl_title = ''SPF has no all mechanism or redirect'',
     rl_recommendation = ''End the record with \"-all\" or \"~all\". Without it, unmatched hosts get the default neutral result.'',
     rl_references = [RFC7208 @ ''#section-4.7'']\<rparr>"

definition SPFBroadRange :: rule where
  "SPFBroadRange = \<lparr>
     rl_id = ''MAIL-SPF-011'', rl_component = CompSPF, rl_category = CategoryWeakness,
     rl_severity = SeverityMedium, rl_title = ''SPF authorizes a very large address range'',
     rl_recommendation = ''Authorize only the addresses that actually send mail. Large ranges let unrelated hosts (other customers of the same network) pass SPF.'',
     rl_references = [RFC7208 @ ''#section-5.6'']\<rparr>"

definition SPFPTR :: rule where
  "SPFPTR = \<lparr>
     rl_id = ''MAIL-SPF-012'', rl_component = CompSPF, rl_category = CategoryHardening,
     rl_severity = SeverityLow, rl_title = ''SPF uses the deprecated ptr mechanism'',
     rl_recommendation = ''Replace \"ptr\" with ip4/ip6 or a mechanisms. \"ptr\" is slow, unreliable and should not be published.'',
     rl_references = [RFC7208 @ ''#section-5.5'']\<rparr>"

definition SPFIncludeNoRecord :: rule where
  "SPFIncludeNoRecord = \<lparr>
     rl_id = ''MAIL-SPF-013'', rl_component = CompSPF, rl_category = CategoryViolation,
     rl_severity = SeverityHigh, rl_title = ''SPF include or redirect target has no SPF record'',
     rl_recommendation = ''Remove the include/redirect or fix the target. An include of a domain without SPF evaluates to permerror.'',
     rl_references = [RFC7208 @ ''#section-5.2'', RFC7208 @ ''#section-6.1'']\<rparr>"

definition SPFTempError :: rule where
  "SPFTempError = \<lparr>
     rl_id = ''MAIL-SPF-014'', rl_component = CompSPF, rl_category = CategoryInformational,
     rl_severity = SeverityMedium, rl_title = ''SPF lookup failed temporarily'',
     rl_recommendation = ''A DNS lookup needed for SPF failed. Receivers would return temperror; check the name servers of the affected zone.'',
     rl_references = [RFC7208 @ ''#section-2.6.6'']\<rparr>"

definition SPFTermsAfterAll :: rule where
  "SPFTermsAfterAll = \<lparr>
     rl_id = ''MAIL-SPF-015'', rl_component = CompSPF, rl_category = CategoryHardening,
     rl_severity = SeverityLow, rl_title = ''SPF terms after all are never evaluated'',
     rl_recommendation = ''Move the mechanisms before \"all\" or remove them.'',
     rl_references = [RFC7208 @ ''#section-5.1'']\<rparr>"

definition SPFRedirectIgnored :: rule where
  "SPFRedirectIgnored = \<lparr>
     rl_id = ''MAIL-SPF-016'', rl_component = CompSPF, rl_category = CategoryHardening,
     rl_severity = SeverityLow, rl_title = ''SPF redirect is ignored because the record contains all'',
     rl_recommendation = ''Remove either the redirect modifier or the all mechanism.'',
     rl_references = [RFC7208 @ ''#section-6.1'']\<rparr>"

definition SPFLookupsNearLimit :: rule where
  "SPFLookupsNearLimit = \<lparr>
     rl_id = ''MAIL-SPF-017'', rl_component = CompSPF, rl_category = CategoryHardening,
     rl_severity = SeverityLow, rl_title = ''SPF is close to the 10 DNS lookup limit'',
     rl_recommendation = ''A provider adding a single include to its own record will push the domain over the limit. Flatten or remove includes where possible.'',
     rl_references = [RFC7208 @ ''#section-4.6.4'']\<rparr>"

definition SPFPMacro :: rule where
  "SPFPMacro = \<lparr>
     rl_id = ''MAIL-SPF-018'', rl_component = CompSPF, rl_category = CategoryHardening,
     rl_severity = SeverityLow, rl_title = ''SPF uses the discouraged p macro'',
     rl_recommendation = ''Avoid the \"p\" macro; it requires reverse lookups and should not be used.'',
     rl_references = [RFC7208 @ ''#section-7.3'']\<rparr>"

definition SPFExp :: rule where
  "SPFExp = \<lparr>
     rl_id = ''MAIL-SPF-019'', rl_component = CompSPF, rl_category = CategoryInformational,
     rl_severity = SeverityInfo, rl_title = ''SPF publishes an explanation (exp)'',
     rl_recommendation = [],
     rl_references = [RFC7208 @ ''#section-6.2'']\<rparr>"

definition SPFUnknownModifier :: rule where
  "SPFUnknownModifier = \<lparr>
     rl_id = ''MAIL-SPF-020'', rl_component = CompSPF, rl_category = CategoryInformational,
     rl_severity = SeverityInfo, rl_title = ''SPF contains an unknown modifier'',
     rl_recommendation = [],
     rl_references = [RFC7208 @ ''#section-6'']\<rparr>"

definition SPFMXLimit :: rule where
  "SPFMXLimit = \<lparr>
     rl_id = ''MAIL-SPF-021'', rl_component = CompSPF, rl_category = CategoryViolation,
     rl_severity = SeverityHigh, rl_title = ''SPF mx mechanism references more than 10 MX records'',
     rl_recommendation = ''Use ip4/ip6 for the mail servers instead of \"mx\", or reduce the number of MX records.'',
     rl_references = [RFC7208 @ ''#section-4.6.4'']\<rparr>"

definition SPFValid :: rule where
  "SPFValid = \<lparr>
     rl_id = ''MAIL-SPF-022'', rl_component = CompSPF, rl_category = CategoryInformational,
     rl_severity = SeverityPass, rl_title = ''SPF record is valid'',
     rl_recommendation = [],
     rl_references = []\<rparr>"

definition SPFDynamic :: rule where
  "SPFDynamic = \<lparr>
     rl_id = ''MAIL-SPF-023'', rl_component = CompSPF, rl_category = CategoryInformational,
     rl_severity = SeverityInfo, rl_title = ''SPF term depends on message data and cannot be followed statically'',
     rl_recommendation = [],
     rl_references = [RFC7208 @ ''#section-7'']\<rparr>"

definition SPFRecordTooLong :: rule where
  "SPFRecordTooLong = \<lparr>
     rl_id = ''MAIL-SPF-024'', rl_component = CompSPF, rl_category = CategoryHardening,
     rl_severity = SeverityLow, rl_title = ''SPF record is longer than 450 octets'',
     rl_recommendation = ''Keep SPF records short so that the DNS response fits in 512 octets; long records force TCP fallback and fail with some resolvers.'',
     rl_references = [RFC7208 @ ''#section-3.4'']\<rparr>"

definition SPFVoidTarget :: rule where
  "SPFVoidTarget = \<lparr>
     rl_id = ''MAIL-SPF-025'', rl_component = CompSPF, rl_category = CategoryHardening,
     rl_severity = SeverityLow, rl_title = ''SPF mechanism references a name without records'',
     rl_recommendation = ''Remove mechanisms whose target has no address or MX records; they add a void lookup and never match.'',
     rl_references = [RFC7208 @ ''#section-4.6.4'']\<rparr>"

definition spf_rules :: "rule list" where
  "spf_rules = [SPFMissing, SPFMultiple, SPFSyntax, SPFLoop, SPFLookupLimit, SPFVoidLimit, SPFPassAll, SPFNeutralAll, SPFSoftFailAll, SPFNoAll, SPFBroadRange, SPFPTR, SPFIncludeNoRecord, SPFTempError, SPFTermsAfterAll, SPFRedirectIgnored, SPFLookupsNearLimit, SPFPMacro, SPFExp, SPFUnknownModifier, SPFMXLimit, SPFValid, SPFDynamic, SPFRecordTooLong, SPFVoidTarget]"

subsection \<open>DMARC rules\<close>

definition DMARCMissing :: rule where
  "DMARCMissing = \<lparr>
     rl_id = ''MAIL-DMARC-001'', rl_component = CompDMARC, rl_category = CategoryWeakness,
     rl_severity = SeverityHigh, rl_title = ''No DMARC record'',
     rl_recommendation = ''Publish a DMARC record at _dmarc.<domain>, starting with \"v=DMARC1; p=none; rua=mailto:...\" to collect reports, then move to quarantine or reject.'',
     rl_references = [RFC7489 @ ''#section-6.1'']\<rparr>"

definition DMARCMultiple :: rule where
  "DMARCMultiple = \<lparr>
     rl_id = ''MAIL-DMARC-002'', rl_component = CompDMARC, rl_category = CategoryViolation,
     rl_severity = SeverityHigh, rl_title = ''Multiple DMARC records'',
     rl_recommendation = ''Keep exactly one DMARC record. With several records receivers do not apply DMARC at all.'',
     rl_references = [RFC7489 @ ''#section-6.6.3'']\<rparr>"

definition DMARCInvalid :: rule where
  "DMARCInvalid = \<lparr>
     rl_id = ''MAIL-DMARC-003'', rl_component = CompDMARC, rl_category = CategoryViolation,
     rl_severity = SeverityHigh, rl_title = ''Invalid DMARC record'',
     rl_recommendation = ''Fix the record so that it starts with \"v=DMARC1\" and contains a valid p tag. Receivers ignore invalid records.'',
     rl_references = [RFC7489 @ ''#section-6.3'', RFC7489 @ ''#section-6.6.3'']\<rparr>"

definition DMARCPolicyNone :: rule where
  "DMARCPolicyNone = \<lparr>
     rl_id = ''MAIL-DMARC-004'', rl_component = CompDMARC, rl_category = CategoryWeakness,
     rl_severity = SeverityMedium, rl_title = ''DMARC policy is p=none (monitoring only)'',
     rl_recommendation = ''After reviewing aggregate reports, move to p=quarantine and then p=reject so that spoofed mail is not delivered.'',
     rl_references = [RFC7489 @ ''#section-6.3'']\<rparr>"

definition DMARCPolicyQuarantine :: rule where
  "DMARCPolicyQuarantine = \<lparr>
     rl_id = ''MAIL-DMARC-005'', rl_component = CompDMARC, rl_category = CategoryHardening,
     rl_severity = SeverityLow, rl_title = ''DMARC policy is p=quarantine'',
     rl_recommendation = ''Consider p=reject once no legitimate mail is quarantined.'',
     rl_references = [RFC7489 @ ''#section-6.3'']\<rparr>"

definition DMARCPartialPct :: rule where
  "DMARCPartialPct = \<lparr>
     rl_id = ''MAIL-DMARC-006'', rl_component = CompDMARC, rl_category = CategoryWeakness,
     rl_severity = SeverityMedium, rl_title = ''DMARC policy applies to only part of the mail (pct < 100)'',
     rl_recommendation = ''Increase pct to 100. Messages outside the sampled percentage are handled with the next weaker policy.'',
     rl_references = [RFC7489 @ ''#section-6.3'']\<rparr>"

definition DMARCWeakSubdomainPolicy :: rule where
  "DMARCWeakSubdomainPolicy = \<lparr>
     rl_id = ''MAIL-DMARC-007'', rl_component = CompDMARC, rl_category = CategoryWeakness,
     rl_severity = SeverityMedium, rl_title = ''DMARC subdomain policy is weaker than the domain policy'',
     rl_recommendation = ''Set sp to the same value as p unless specific subdomains still need monitoring; attackers can spoof arbitrary subdomains otherwise.'',
     rl_references = [RFC7489 @ ''#section-6.3'']\<rparr>"

definition DMARCNoRUA :: rule where
  "DMARCNoRUA = \<lparr>
     rl_id = ''MAIL-DMARC-008'', rl_component = CompDMARC, rl_category = CategoryHardening,
     rl_severity = SeverityLow, rl_title = ''DMARC aggregate reports are not requested'',
     rl_recommendation = ''Add rua=mailto:... to receive aggregate reports; without them you cannot see who sends mail using the domain.'',
     rl_references = [RFC7489 @ ''#section-7.2'']\<rparr>"

definition DMARCRUF :: rule where
  "DMARCRUF = \<lparr>
     rl_id = ''MAIL-DMARC-009'', rl_component = CompDMARC, rl_category = CategoryInformational,
     rl_severity = SeverityInfo, rl_title = ''DMARC failure reports (ruf) requested'',
     rl_recommendation = [],
     rl_references = [RFC7489 @ ''#section-7.3'']\<rparr>"

definition DMARCInvalidValue :: rule where
  "DMARCInvalidValue = \<lparr>
     rl_id = ''MAIL-DMARC-010'', rl_component = CompDMARC, rl_category = CategoryViolation,
     rl_severity = SeverityMedium, rl_title = ''DMARC tag has an invalid value'',
     rl_recommendation = ''Correct the tag value; receivers fall back to the default, which may not be what you intended.'',
     rl_references = [RFC7489 @ ''#section-6.3'']\<rparr>"

definition DMARCDuplicateTag :: rule where
  "DMARCDuplicateTag = \<lparr>
     rl_id = ''MAIL-DMARC-011'', rl_component = CompDMARC, rl_category = CategoryViolation,
     rl_severity = SeverityMedium, rl_title = ''DMARC tag appears more than once'',
     rl_recommendation = ''Remove the duplicate tag. Receivers disagree on which occurrence wins.'',
     rl_references = [RFC7489 @ ''#section-6.4'']\<rparr>"

definition DMARCUnknownTag :: rule where
  "DMARCUnknownTag = \<lparr>
     rl_id = ''MAIL-DMARC-012'', rl_component = CompDMARC, rl_category = CategoryInformational,
     rl_severity = SeverityInfo, rl_title = ''DMARC record contains an unknown tag'',
     rl_recommendation = [],
     rl_references = [RFC7489 @ ''#section-6.3'']\<rparr>"

definition DMARCInvalidURI :: rule where
  "DMARCInvalidURI = \<lparr>
     rl_id = ''MAIL-DMARC-013'', rl_component = CompDMARC, rl_category = CategoryViolation,
     rl_severity = SeverityMedium, rl_title = ''DMARC report URI is invalid'',
     rl_recommendation = ''Use URIs of the form mailto:dmarc-reports@example.com, optionally followed by a size limit such as !10m.'',
     rl_references = [RFC7489 @ ''#section-6.2'']\<rparr>"

definition DMARCExternalUnauthorized :: rule where
  "DMARCExternalUnauthorized = \<lparr>
     rl_id = ''MAIL-DMARC-014'', rl_component = CompDMARC, rl_category = CategoryViolation,
     rl_severity = SeverityMedium, rl_title = ''External DMARC report destination is not authorized'',
     rl_recommendation = ''The receiving domain must publish \"v=DMARC1\" at <policy-domain>._report._dmarc.<destination-domain>; otherwise reports are not sent there.'',
     rl_references = [RFC7489 @ ''#section-7.1'']\<rparr>"

definition DMARCInherited :: rule where
  "DMARCInherited = \<lparr>
     rl_id = ''MAIL-DMARC-015'', rl_component = CompDMARC, rl_category = CategoryInformational,
     rl_severity = SeverityInfo, rl_title = ''DMARC policy inherited from the organizational domain'',
     rl_recommendation = [],
     rl_references = [RFC7489 @ ''#section-6.6.3'']\<rparr>"

definition DMARCStrictAlignment :: rule where
  "DMARCStrictAlignment = \<lparr>
     rl_id = ''MAIL-DMARC-016'', rl_component = CompDMARC, rl_category = CategoryInformational,
     rl_severity = SeverityInfo, rl_title = ''DMARC requires strict identifier alignment'',
     rl_recommendation = [],
     rl_references = [RFC7489 @ ''#section-3.1'']\<rparr>"

definition DMARCEnforced :: rule where
  "DMARCEnforced = \<lparr>
     rl_id = ''MAIL-DMARC-017'', rl_component = CompDMARC, rl_category = CategoryInformational,
     rl_severity = SeverityPass, rl_title = ''DMARC policy is enforced'',
     rl_recommendation = [],
     rl_references = []\<rparr>"

definition DMARCFONoRUF :: rule where
  "DMARCFONoRUF = \<lparr>
     rl_id = ''MAIL-DMARC-018'', rl_component = CompDMARC, rl_category = CategoryInformational,
     rl_severity = SeverityInfo, rl_title = ''DMARC fo tag has no effect without ruf'',
     rl_recommendation = [],
     rl_references = [RFC7489 @ ''#section-6.3'']\<rparr>"

definition dmarc_rules :: "rule list" where
  "dmarc_rules = [DMARCMissing, DMARCMultiple, DMARCInvalid, DMARCPolicyNone, DMARCPolicyQuarantine, DMARCPartialPct, DMARCWeakSubdomainPolicy, DMARCNoRUA, DMARCRUF, DMARCInvalidValue, DMARCDuplicateTag, DMARCUnknownTag, DMARCInvalidURI, DMARCExternalUnauthorized, DMARCInherited, DMARCStrictAlignment, DMARCEnforced, DMARCFONoRUF]"

subsection \<open>DKIM rules\<close>

definition DKIMNoSelector :: rule where
  "DKIMNoSelector = \<lparr>
     rl_id = ''MAIL-DKIM-001'', rl_component = CompDKIM, rl_category = CategoryInformational,
     rl_severity = SeverityInfo, rl_title = ''DKIM audit incomplete: no selector specified'',
     rl_recommendation = [],
     rl_references = [RFC6376 @ ''#section-3.1'']\<rparr>"

definition DKIMKeyNotFound :: rule where
  "DKIMKeyNotFound = \<lparr>
     rl_id = ''MAIL-DKIM-002'', rl_component = CompDKIM, rl_category = CategoryViolation,
     rl_severity = SeverityHigh, rl_title = ''DKIM key record not found'',
     rl_recommendation = ''Publish the public key at <selector>._domainkey.<domain>, or check that the selector name is correct.'',
     rl_references = [RFC6376 @ ''#section-3.6.2'']\<rparr>"

definition DKIMInvalidKey :: rule where
  "DKIMInvalidKey = \<lparr>
     rl_id = ''MAIL-DKIM-003'', rl_component = CompDKIM, rl_category = CategoryViolation,
     rl_severity = SeverityHigh, rl_title = ''DKIM key record is invalid'',
     rl_recommendation = ''Republish the key record as \"v=DKIM1; k=rsa; p=<base64 SubjectPublicKeyInfo>\". An invalid record makes every signature fail.'',
     rl_references = [RFC6376 @ ''#section-3.6.1'']\<rparr>"

definition DKIMKeyRevoked :: rule where
  "DKIMKeyRevoked = \<lparr>
     rl_id = ''MAIL-DKIM-004'', rl_component = CompDKIM, rl_category = CategoryInformational,
     rl_severity = SeverityMedium, rl_title = ''DKIM key is revoked'',
     rl_recommendation = ''If this selector is still used for signing, publish the current public key. If it was retired deliberately, stop signing with it.'',
     rl_references = [RFC6376 @ ''#section-3.6.1'']\<rparr>"

definition DKIMKeyTooShort :: rule where
  "DKIMKeyTooShort = \<lparr>
     rl_id = ''MAIL-DKIM-005'', rl_component = CompDKIM, rl_category = CategoryWeakness,
     rl_severity = SeverityHigh, rl_title = ''DKIM RSA key shorter than 1024 bits'',
     rl_recommendation = ''Generate a new 2048-bit RSA key, publish it under a new selector and switch signing to it.'',
     rl_references = [RFC8301 @ ''#section-3.2'']\<rparr>"

definition DKIMKeyWeak :: rule where
  "DKIMKeyWeak = \<lparr>
     rl_id = ''MAIL-DKIM-006'', rl_component = CompDKIM, rl_category = CategoryHardening,
     rl_severity = SeverityMedium, rl_title = ''DKIM RSA key shorter than 2048 bits'',
     rl_recommendation = ''Rotate to a 2048-bit RSA key; 1024-bit keys are below current recommendations.'',
     rl_references = [RFC8301 @ ''#section-3.2'']\<rparr>"

definition DKIMKeyTooLong :: rule where
  "DKIMKeyTooLong = \<lparr>
     rl_id = ''MAIL-DKIM-007'', rl_component = CompDKIM, rl_category = CategoryHardening,
     rl_severity = SeverityLow, rl_title = ''DKIM RSA key longer than 4096 bits'',
     rl_recommendation = ''Use a 2048- or 4096-bit key; longer keys may exceed verifier limits and DNS response sizes.'',
     rl_references = [RFC8301 @ ''#section-3.2'']\<rparr>"

definition DKIMKeySHA1Only :: rule where
  "DKIMKeySHA1Only = \<lparr>
     rl_id = ''MAIL-DKIM-008'', rl_component = CompDKIM, rl_category = CategoryViolation,
     rl_severity = SeverityHigh, rl_title = ''DKIM key restricts hashes to SHA-1'',
     rl_recommendation = ''Remove the h= tag or set h=sha256.'',
     rl_references = [RFC8301 @ ''#section-3.1'']\<rparr>"

definition DKIMKeyTesting :: rule where
  "DKIMKeyTesting = \<lparr>
     rl_id = ''MAIL-DKIM-009'', rl_component = CompDKIM, rl_category = CategoryHardening,
     rl_severity = SeverityLow, rl_title = ''DKIM key is in testing mode (t=y)'',
     rl_recommendation = ''Remove t=y once signing is verified to work.'',
     rl_references = [RFC6376 @ ''#section-3.6.1'']\<rparr>"

definition DKIMKeyServiceMismatch :: rule where
  "DKIMKeyServiceMismatch = \<lparr>
     rl_id = ''MAIL-DKIM-010'', rl_component = CompDKIM, rl_category = CategoryViolation,
     rl_severity = SeverityHigh, rl_title = ''DKIM key is not usable for e-mail'',
     rl_recommendation = ''Remove the s= tag or include \"email\" in it.'',
     rl_references = [RFC6376 @ ''#section-3.6.1'']\<rparr>"

definition DKIMKeyEd25519 :: rule where
  "DKIMKeyEd25519 = \<lparr>
     rl_id = ''MAIL-DKIM-011'', rl_component = CompDKIM, rl_category = CategoryInformational,
     rl_severity = SeverityInfo, rl_title = ''DKIM key uses Ed25519'',
     rl_recommendation = [],
     rl_references = [RFC8463]\<rparr>"

definition DKIMKeyValid :: rule where
  "DKIMKeyValid = \<lparr>
     rl_id = ''MAIL-DKIM-012'', rl_component = CompDKIM, rl_category = CategoryInformational,
     rl_severity = SeverityPass, rl_title = ''DKIM key record is valid'',
     rl_recommendation = [],
     rl_references = []\<rparr>"

definition DKIMMultipleKeys :: rule where
  "DKIMMultipleKeys = \<lparr>
     rl_id = ''MAIL-DKIM-013'', rl_component = CompDKIM, rl_category = CategoryViolation,
     rl_severity = SeverityMedium, rl_title = ''Multiple TXT records at a DKIM selector'',
     rl_recommendation = ''Publish exactly one key record per selector.'',
     rl_references = [RFC6376 @ ''#section-3.6.2.2'']\<rparr>"

definition DKIMKeyUnknownTag :: rule where
  "DKIMKeyUnknownTag = \<lparr>
     rl_id = ''MAIL-DKIM-014'', rl_component = CompDKIM, rl_category = CategoryInformational,
     rl_severity = SeverityInfo, rl_title = ''DKIM key record contains an unknown tag'',
     rl_recommendation = [],
     rl_references = [RFC6376 @ ''#section-3.6.1'']\<rparr>"

definition DKIMKeyPKCS1 :: rule where
  "DKIMKeyPKCS1 = \<lparr>
     rl_id = ''MAIL-DKIM-015'', rl_component = CompDKIM, rl_category = CategoryHardening,
     rl_severity = SeverityLow, rl_title = ''DKIM RSA key is not in SubjectPublicKeyInfo format'',
     rl_recommendation = ''Publish the key as a DER SubjectPublicKeyInfo (the output of \"openssl rsa -pubout -outform DER\").'',
     rl_references = [RFC6376 @ ''#section-3.6.1'']\<rparr>"

definition DKIMSelectorsGuessed :: rule where
  "DKIMSelectorsGuessed = \<lparr>
     rl_id = ''MAIL-DKIM-016'', rl_component = CompDKIM, rl_category = CategoryInformational,
     rl_severity = SeverityInfo, rl_title = ''DKIM selectors taken from provider defaults'',
     rl_recommendation = ''Pass --dkim-selector to audit selectors other than the provider defaults.'',
     rl_references = [RFC6376 @ ''#section-3.1'']\<rparr>"

definition dkim_rules :: "rule list" where
  "dkim_rules = [DKIMNoSelector, DKIMKeyNotFound, DKIMInvalidKey, DKIMKeyRevoked, DKIMKeyTooShort, DKIMKeyWeak, DKIMKeyTooLong, DKIMKeySHA1Only, DKIMKeyTesting, DKIMKeyServiceMismatch, DKIMKeyEd25519, DKIMKeyValid, DKIMMultipleKeys, DKIMKeyUnknownTag, DKIMKeyPKCS1, DKIMSelectorsGuessed]"

subsection \<open>Received chain rules\<close>

definition RcvdNone :: rule where
  "RcvdNone = \<lparr>
     rl_id = ''MAIL-RCVD-001'', rl_component = CompReceived, rl_category = CategoryInformational,
     rl_severity = SeverityLow, rl_title = ''No Received headers'',
     rl_recommendation = ''Analyse the message as delivered to a mailbox (with full headers) to see its transport path.'',
     rl_references = [RFC5321 @ ''#section-4.4'']\<rparr>"

definition RcvdUnparseable :: rule where
  "RcvdUnparseable = \<lparr>
     rl_id = ''MAIL-RCVD-002'', rl_component = CompReceived, rl_category = CategoryViolation,
     rl_severity = SeverityLow, rl_title = ''Received header could not be parsed'',
     rl_recommendation = ''Treat data from this hop with caution; malformed trace headers are common in forged or badly generated messages.'',
     rl_references = [RFC5321 @ ''#section-4.4'']\<rparr>"

definition RcvdTimeTravel :: rule where
  "RcvdTimeTravel = \<lparr>
     rl_id = ''MAIL-RCVD-003'', rl_component = CompReceived, rl_category = CategoryInformational,
     rl_severity = SeverityLow, rl_title = ''Received timestamps go backwards'',
     rl_recommendation = ''Headers below the inconsistency may have been added by the sender rather than by the servers they name.'',
     rl_references = [RFC5321 @ ''#section-4.4'']\<rparr>"

definition RcvdTooMany :: rule where
  "RcvdTooMany = \<lparr>
     rl_id = ''MAIL-RCVD-004'', rl_component = CompReceived, rl_category = CategoryInformational,
     rl_severity = SeverityMedium, rl_title = ''Too many Received headers'',
     rl_recommendation = ''Check for a mail loop or for headers padded by the sender to hide the real origin.'',
     rl_references = [RFC5321 @ ''#section-6.3'']\<rparr>"

definition RcvdNoTLS :: rule where
  "RcvdNoTLS = \<lparr>
     rl_id = ''MAIL-RCVD-005'', rl_component = CompReceived, rl_category = CategoryHardening,
     rl_severity = SeverityInfo, rl_title = ''Hop transmitted without TLS'',
     rl_recommendation = [],
     rl_references = [''https://www.rfc-editor.org/rfc/rfc3848'']\<rparr>"

definition RcvdNoDate :: rule where
  "RcvdNoDate = \<lparr>
     rl_id = ''MAIL-RCVD-006'', rl_component = CompReceived, rl_category = CategoryViolation,
     rl_severity = SeverityLow, rl_title = ''Received header has no date'',
     rl_recommendation = ''Every Received header must end with \"; date-time\". A missing date suggests a forged or broken header.'',
     rl_references = [RFC5321 @ ''#section-4.4'']\<rparr>"

definition RcvdDelay :: rule where
  "RcvdDelay = \<lparr>
     rl_id = ''MAIL-RCVD-007'', rl_component = CompReceived, rl_category = CategoryInformational,
     rl_severity = SeverityInfo, rl_title = ''Long delay between hops'',
     rl_recommendation = [],
     rl_references = [RFC5321 @ ''#section-4.4'']\<rparr>"

definition received_chain_rules :: "rule list" where
  "received_chain_rules = [RcvdNone, RcvdUnparseable, RcvdTimeTravel, RcvdTooMany, RcvdNoTLS, RcvdNoDate, RcvdDelay]"

subsection \<open>SPF message verification rules\<close>

definition SPFMessagePass :: rule where
  "SPFMessagePass = \<lparr>
     rl_id = ''MAIL-SPF-030'', rl_component = CompSPF, rl_category = CategoryInformational,
     rl_severity = SeverityPass, rl_title = ''SPF pass'',
     rl_recommendation = [],
     rl_references = [RFC7208 @ ''#section-2.6.3'']\<rparr>"

definition SPFMessageFail :: rule where
  "SPFMessageFail = \<lparr>
     rl_id = ''MAIL-SPF-031'', rl_component = CompSPF, rl_category = CategoryWeakness,
     rl_severity = SeverityHigh, rl_title = ''SPF fail: sending host is not authorized'',
     rl_recommendation = ''The client is explicitly not authorized to send for this domain. Unless the message was forwarded, treat it as spoofed.'',
     rl_references = [RFC7208 @ ''#section-2.6.2'']\<rparr>"

definition SPFMessageSoftFail :: rule where
  "SPFMessageSoftFail = \<lparr>
     rl_id = ''MAIL-SPF-032'', rl_component = CompSPF, rl_category = CategoryWeakness,
     rl_severity = SeverityMedium, rl_title = ''SPF softfail: sending host is probably not authorized'',
     rl_recommendation = ''The domain owner believes this host is not authorized. Check DKIM and DMARC before trusting the message.'',
     rl_references = [RFC7208 @ ''#section-2.6.5'']\<rparr>"

definition SPFMessageNeutral :: rule where
  "SPFMessageNeutral = \<lparr>
     rl_id = ''MAIL-SPF-033'', rl_component = CompSPF, rl_category = CategoryInformational,
     rl_severity = SeverityLow, rl_title = ''SPF neutral or none: sender not verified'',
     rl_recommendation = ''SPF gives no assurance for this message; rely on DKIM and DMARC.'',
     rl_references = [RFC7208 @ ''#section-2.6.1'']\<rparr>"

definition SPFMessageError :: rule where
  "SPFMessageError = \<lparr>
     rl_id = ''MAIL-SPF-034'', rl_component = CompSPF, rl_category = CategoryViolation,
     rl_severity = SeverityMedium, rl_title = ''SPF evaluation error'',
     rl_recommendation = ''SPF returned temperror or permerror; receivers may reject or ignore SPF for this domain. See the reason for details.'',
     rl_references = [RFC7208 @ ''#section-2.6.6'', RFC7208 @ ''#section-2.6.7'']\<rparr>"

definition SPFInputsInferred :: rule where
  "SPFInputsInferred = \<lparr>
     rl_id = ''MAIL-SPF-035'', rl_component = CompSPF, rl_category = CategoryInformational,
     rl_severity = SeverityInfo, rl_title = ''SPF inputs inferred from message headers'',
     rl_recommendation = [],
     rl_references = [RFC7208 @ ''#section-9.1'']\<rparr>"

definition SPFNotEvaluated :: rule where
  "SPFNotEvaluated = \<lparr>
     rl_id = ''MAIL-SPF-036'', rl_component = CompSPF, rl_category = CategoryInformational,
     rl_severity = SeverityInfo, rl_title = ''SPF not evaluated'',
     rl_recommendation = [],
     rl_references = [RFC7208 @ ''#section-4.1'']\<rparr>"

definition spf_message_verification_rules :: "rule list" where
  "spf_message_verification_rules = [SPFMessagePass, SPFMessageFail, SPFMessageSoftFail, SPFMessageNeutral, SPFMessageError, SPFInputsInferred, SPFNotEvaluated]"

subsection \<open>DMARC message evaluation rules\<close>

definition DMARCMessagePass :: rule where
  "DMARCMessagePass = \<lparr>
     rl_id = ''MAIL-DMARC-030'', rl_component = CompDMARC, rl_category = CategoryInformational,
     rl_severity = SeverityPass, rl_title = ''DMARC pass'',
     rl_recommendation = [],
     rl_references = [RFC7489 @ ''#section-4.2'']\<rparr>"

definition DMARCMessageFail :: rule where
  "DMARCMessageFail = \<lparr>
     rl_id = ''MAIL-DMARC-031'', rl_component = CompDMARC, rl_category = CategoryWeakness,
     rl_severity = SeverityHigh, rl_title = ''DMARC fail'',
     rl_recommendation = ''The From domain could not be authenticated. Unless the message passed through a forwarder or mailing list that broke authentication, treat it as spoofed.'',
     rl_references = [RFC7489 @ ''#section-6.6.2'']\<rparr>"

definition DMARCMessageNoPolicy :: rule where
  "DMARCMessageNoPolicy = \<lparr>
     rl_id = ''MAIL-DMARC-032'', rl_component = CompDMARC, rl_category = CategoryWeakness,
     rl_severity = SeverityMedium, rl_title = ''No usable DMARC policy for the From domain'',
     rl_recommendation = ''Without DMARC, receivers have no instruction to reject mail that spoofs this From domain.'',
     rl_references = [RFC7489 @ ''#section-6.6.3'']\<rparr>"

definition DMARCMessageBadFrom :: rule where
  "DMARCMessageBadFrom = \<lparr>
     rl_id = ''MAIL-DMARC-033'', rl_component = CompDMARC, rl_category = CategoryViolation,
     rl_severity = SeverityHigh, rl_title = ''From header unusable for DMARC'',
     rl_recommendation = ''A message must have exactly one From header with one mailbox. Multiple or malformed From headers are a common spoofing technique.'',
     rl_references = [RFC7489 @ ''#section-6.6.1'', RFC5322 @ ''#section-3.6'']\<rparr>"

definition DMARCMessageTempError :: rule where
  "DMARCMessageTempError = \<lparr>
     rl_id = ''MAIL-DMARC-034'', rl_component = CompDMARC, rl_category = CategoryInformational,
     rl_severity = SeverityMedium, rl_title = ''DMARC temperror'',
     rl_recommendation = ''The DMARC policy could not be retrieved. Retry the analysis.'',
     rl_references = [RFC7489 @ ''#section-6.6.3'']\<rparr>"

definition DMARCMessageStrictMisalign :: rule where
  "DMARCMessageStrictMisalign = \<lparr>
     rl_id = ''MAIL-DMARC-035'', rl_component = CompDMARC, rl_category = CategoryInformational,
     rl_severity = SeverityMedium, rl_title = ''Strict alignment prevented a DMARC pass'',
     rl_recommendation = ''An authenticated identifier from the same organization failed strict alignment. If the domain owner intends subdomains to send, relaxed alignment (adkim=r / aspf=r) would pass.'',
     rl_references = [RFC7489 @ ''#section-3.1'']\<rparr>"

definition DMARCMessageSPFUnaligned :: rule where
  "DMARCMessageSPFUnaligned = \<lparr>
     rl_id = ''MAIL-DMARC-036'', rl_component = CompDMARC, rl_category = CategoryInformational,
     rl_severity = SeverityInfo, rl_title = ''SPF passed but is not aligned with From'',
     rl_recommendation = [],
     rl_references = [RFC7489 @ ''#section-3.1.2'']\<rparr>"

definition DMARCMessageIndeterminate :: rule where
  "DMARCMessageIndeterminate = \<lparr>
     rl_id = ''MAIL-DMARC-038'', rl_component = CompDMARC, rl_category = CategoryInformational,
     rl_severity = SeverityMedium, rl_title = ''DMARC result indeterminate'',
     rl_recommendation = ''Provide the missing inputs (--source-ip, --helo, --mail-from, or the complete message including its body) to obtain a definite DMARC result.'',
     rl_references = [RFC7489 @ ''#section-6.6.2'']\<rparr>"

definition DMARCMessageDKIMUnaligned :: rule where
  "DMARCMessageDKIMUnaligned = \<lparr>
     rl_id = ''MAIL-DMARC-037'', rl_component = CompDMARC, rl_category = CategoryInformational,
     rl_severity = SeverityInfo, rl_title = ''DKIM passed but is not aligned with From'',
     rl_recommendation = [],
     rl_references = [RFC7489 @ ''#section-3.1.1'']\<rparr>"

definition dmarc_message_evaluation_rules :: "rule list" where
  "dmarc_message_evaluation_rules = [DMARCMessagePass, DMARCMessageFail, DMARCMessageNoPolicy, DMARCMessageBadFrom, DMARCMessageTempError, DMARCMessageStrictMisalign, DMARCMessageSPFUnaligned, DMARCMessageIndeterminate, DMARCMessageDKIMUnaligned]"

subsection \<open>Authentication-Results comparison rules\<close>

definition ARConflict :: rule where
  "ARConflict = \<lparr>
     rl_id = ''MAIL-AR-001'', rl_component = CompAuthResults, rl_category = CategoryWeakness,
     rl_severity = SeverityHigh, rl_title = ''Conflicting Authentication-Results from the same server'',
     rl_recommendation = ''Two headers claim to come from the same authserv-id but disagree. One of them was probably added by the sender to mislead filters or users; trust only headers your own receiving MTA adds and strips.'',
     rl_references = [RFC8601 @ ''#section-5'']\<rparr>"

definition ARMismatch :: rule where
  "ARMismatch = \<lparr>
     rl_id = ''MAIL-AR-002'', rl_component = CompAuthResults, rl_category = CategoryInformational,
     rl_severity = SeverityMedium, rl_title = ''Authentication-Results disagree with independent verification'',
     rl_recommendation = ''Differences can come from forged headers, message modification after delivery, DNS changes since receipt, or inferred SPF inputs. Investigate before relying on either verdict.'',
     rl_references = [RFC8601 @ ''#section-7'']\<rparr>"

definition ARConsistent :: rule where
  "ARConsistent = \<lparr>
     rl_id = ''MAIL-AR-003'', rl_component = CompAuthResults, rl_category = CategoryInformational,
     rl_severity = SeverityPass, rl_title = ''Authentication-Results agree with independent verification'',
     rl_recommendation = [],
     rl_references = []\<rparr>"

definition ARUnparseable :: rule where
  "ARUnparseable = \<lparr>
     rl_id = ''MAIL-AR-004'', rl_component = CompAuthResults, rl_category = CategoryViolation,
     rl_severity = SeverityLow, rl_title = ''Authentication-Results header cannot be parsed'',
     rl_recommendation = ''The header does not follow RFC 8601; it was not used for comparison.'',
     rl_references = [RFC8601 @ ''#section-2.2'']\<rparr>"

definition ARNone :: rule where
  "ARNone = \<lparr>
     rl_id = ''MAIL-AR-005'', rl_component = CompAuthResults, rl_category = CategoryInformational,
     rl_severity = SeverityInfo, rl_title = ''No Authentication-Results headers'',
     rl_recommendation = [],
     rl_references = [RFC8601]\<rparr>"

definition authentication_results_comparison_rules :: "rule list" where
  "authentication_results_comparison_rules = [ARConflict, ARMismatch, ARConsistent, ARUnparseable, ARNone]"

subsection \<open>MTA-STS rules\<close>

definition MTASTSMissing :: rule where
  "MTASTSMissing = \<lparr>
     rl_id = ''MAIL-MTASTS-001'', rl_component = CompMTASTS, rl_category = CategoryHardening,
     rl_severity = SeverityLow, rl_title = ''MTA-STS not deployed'',
     rl_recommendation = ''Publish an MTA-STS policy (start with mode: testing and TLS-RPT) so that senders require authenticated TLS when delivering to your MX hosts.'',
     rl_references = [RFC8461]\<rparr>"

definition MTASTSInvalidRecord :: rule where
  "MTASTSInvalidRecord = \<lparr>
     rl_id = ''MAIL-MTASTS-002'', rl_component = CompMTASTS, rl_category = CategoryViolation,
     rl_severity = SeverityHigh, rl_title = ''Invalid MTA-STS TXT record'',
     rl_recommendation = ''Publish exactly one record of the form \"v=STSv1; id=20260914T000000;\" at _mta-sts.<domain>.'',
     rl_references = [RFC8461 @ ''#section-3.1'']\<rparr>"

definition MTASTSFetchFailed :: rule where
  "MTASTSFetchFailed = \<lparr>
     rl_id = ''MAIL-MTASTS-003'', rl_component = CompMTASTS, rl_category = CategoryViolation,
     rl_severity = SeverityHigh, rl_title = ''MTA-STS policy cannot be fetched'',
     rl_recommendation = ''Serve the policy at https://mta-sts.<domain>/.well-known/mta-sts.txt with HTTP 200, or remove the TXT record.'',
     rl_references = [RFC8461 @ ''#section-3.3'']\<rparr>"

definition MTASTSCertificate :: rule where
  "MTASTSCertificate = \<lparr>
     rl_id = ''MAIL-MTASTS-004'', rl_component = CompMTASTS, rl_category = CategoryViolation,
     rl_severity = SeverityHigh, rl_title = ''MTA-STS policy host certificate is invalid'',
     rl_recommendation = ''Install a publicly trusted certificate valid for mta-sts.<domain>. Senders discard policies fetched over an invalid certificate.'',
     rl_references = [RFC8461 @ ''#section-3.3'']\<rparr>"

definition MTASTSRedirect :: rule where
  "MTASTSRedirect = \<lparr>
     rl_id = ''MAIL-MTASTS-005'', rl_component = CompMTASTS, rl_category = CategoryViolation,
     rl_severity = SeverityHigh, rl_title = ''MTA-STS policy URL redirects'',
     rl_recommendation = ''Serve the policy directly; senders must not follow HTTP redirects when fetching MTA-STS policies.'',
     rl_references = [RFC8461 @ ''#section-3.3'']\<rparr>"

definition MTASTSContentType :: rule where
  "MTASTSContentType = \<lparr>
     rl_id = ''MAIL-MTASTS-006'', rl_component = CompMTASTS, rl_category = CategoryViolation,
     rl_severity = SeverityMedium, rl_title = ''MTA-STS policy is not served as text/plain'',
     rl_recommendation = ''Configure the web server to return Content-Type: text/plain for mta-sts.txt.'',
     rl_references = [RFC8461 @ ''#section-3.2'']\<rparr>"

definition MTASTSInvalidPolicy :: rule where
  "MTASTSInvalidPolicy = \<lparr>
     rl_id = ''MAIL-MTASTS-007'', rl_component = CompMTASTS, rl_category = CategoryViolation,
     rl_severity = SeverityHigh, rl_title = ''MTA-STS policy is invalid'',
     rl_recommendation = ''The policy needs version: STSv1, mode (enforce, testing or none), max_age and at least one mx line.'',
     rl_references = [RFC8461 @ ''#section-3.2'']\<rparr>"

definition MTASTSTesting :: rule where
  "MTASTSTesting = \<lparr>
     rl_id = ''MAIL-MTASTS-008'', rl_component = CompMTASTS, rl_category = CategoryHardening,
     rl_severity = SeverityLow, rl_title = ''MTA-STS policy in testing mode'',
     rl_recommendation = ''After TLS-RPT reports show no failures, switch to mode: enforce.'',
     rl_references = [RFC8461 @ ''#section-5'']\<rparr>"

definition MTASTSModeNone :: rule where
  "MTASTSModeNone = \<lparr>
     rl_id = ''MAIL-MTASTS-009'', rl_component = CompMTASTS, rl_category = CategoryWeakness,
     rl_severity = SeverityMedium, rl_title = ''MTA-STS policy mode is none'',
     rl_recommendation = ''mode: none is meant for retiring MTA-STS. Use testing or enforce to protect inbound mail.'',
     rl_references = [RFC8461 @ ''#section-8.3'']\<rparr>"

definition MTASTSShortMaxAge :: rule where
  "MTASTSShortMaxAge = \<lparr>
     rl_id = ''MAIL-MTASTS-010'', rl_component = CompMTASTS, rl_category = CategoryHardening,
     rl_severity = SeverityLow, rl_title = ''MTA-STS max_age shorter than one day'',
     rl_recommendation = ''Use a max_age of weeks (for example 1209600) once the policy is stable.'',
     rl_references = [RFC8461 @ ''#section-3.2'']\<rparr>"

definition MTASTSMXMismatch :: rule where
  "MTASTSMXMismatch = \<lparr>
     rl_id = ''MAIL-MTASTS-011'', rl_component = CompMTASTS, rl_category = CategoryViolation,
     rl_severity = SeverityHigh, rl_title = ''MX hosts not covered by the MTA-STS policy'',
     rl_recommendation = ''Add mx lines for every MX host. In enforce mode senders refuse to deliver to hosts that do not match the policy.'',
     rl_references = [RFC8461 @ ''#section-4.1'']\<rparr>"

definition MTASTSCertExpiring :: rule where
  "MTASTSCertExpiring = \<lparr>
     rl_id = ''MAIL-MTASTS-012'', rl_component = CompMTASTS, rl_category = CategoryInformational,
     rl_severity = SeverityLow, rl_title = ''MTA-STS policy host certificate expires soon'',
     rl_recommendation = ''Renew the certificate for mta-sts.<domain> before it expires.'',
     rl_references = [RFC8461 @ ''#section-3.3'']\<rparr>"

definition MTASTSPolicyWithoutRecord :: rule where
  "MTASTSPolicyWithoutRecord = \<lparr>
     rl_id = ''MAIL-MTASTS-013'', rl_component = CompMTASTS, rl_category = CategoryViolation,
     rl_severity = SeverityMedium, rl_title = ''MTA-STS policy published without a TXT record'',
     rl_recommendation = ''Publish the _mta-sts TXT record; without it the policy is never used.'',
     rl_references = [RFC8461 @ ''#section-3.1'']\<rparr>"

definition MTASTSValid :: rule where
  "MTASTSValid = \<lparr>
     rl_id = ''MAIL-MTASTS-014'', rl_component = CompMTASTS, rl_category = CategoryInformational,
     rl_severity = SeverityPass, rl_title = ''MTA-STS is enforced'',
     rl_recommendation = [],
     rl_references = []\<rparr>"

definition MTASTSLineEndings :: rule where
  "MTASTSLineEndings = \<lparr>
     rl_id = ''MAIL-MTASTS-015'', rl_component = CompMTASTS, rl_category = CategoryInformational,
     rl_severity = SeverityInfo, rl_title = ''MTA-STS policy uses LF line endings'',
     rl_recommendation = [],
     rl_references = [RFC8461 @ ''#section-3.2'']\<rparr>"

definition MTASTSPolicyTooLarge :: rule where
  "MTASTSPolicyTooLarge = \<lparr>
     rl_id = ''MAIL-MTASTS-016'', rl_component = CompMTASTS, rl_category = CategoryViolation,
     rl_severity = SeverityMedium, rl_title = ''MTA-STS policy is too large'',
     rl_recommendation = ''Keep the policy to the defined keys; senders may refuse large policies.'',
     rl_references = [RFC8461 @ ''#section-3.2'']\<rparr>"

definition mta_sts_rules :: "rule list" where
  "mta_sts_rules = [MTASTSMissing, MTASTSInvalidRecord, MTASTSFetchFailed, MTASTSCertificate, MTASTSRedirect, MTASTSContentType, MTASTSInvalidPolicy, MTASTSTesting, MTASTSModeNone, MTASTSShortMaxAge, MTASTSMXMismatch, MTASTSCertExpiring, MTASTSPolicyWithoutRecord, MTASTSValid, MTASTSLineEndings, MTASTSPolicyTooLarge]"

subsection \<open>TLS-RPT rules\<close>

definition TLSRPTMissing :: rule where
  "TLSRPTMissing = \<lparr>
     rl_id = ''MAIL-TLSRPT-001'', rl_component = CompTLSRPT, rl_category = CategoryHardening,
     rl_severity = SeverityLow, rl_title = ''TLS-RPT not configured'',
     rl_recommendation = ''Publish \"v=TLSRPTv1; rua=mailto:tls-reports@<domain>\" at _smtp._tls.<domain> to receive reports about failed TLS connections.'',
     rl_references = [RFC8460 @ ''#section-3'']\<rparr>"

definition TLSRPTInvalid :: rule where
  "TLSRPTInvalid = \<lparr>
     rl_id = ''MAIL-TLSRPT-002'', rl_component = CompTLSRPT, rl_category = CategoryViolation,
     rl_severity = SeverityMedium, rl_title = ''Invalid TLS-RPT record'',
     rl_recommendation = ''Publish exactly one record starting with \"v=TLSRPTv1;\" and containing a rua field.'',
     rl_references = [RFC8460 @ ''#section-3'']\<rparr>"

definition TLSRPTInvalidURI :: rule where
  "TLSRPTInvalidURI = \<lparr>
     rl_id = ''MAIL-TLSRPT-003'', rl_component = CompTLSRPT, rl_category = CategoryViolation,
     rl_severity = SeverityMedium, rl_title = ''Invalid TLS-RPT report URI'',
     rl_recommendation = ''Use mailto: or https: URIs, separated by commas.'',
     rl_references = [RFC8460 @ ''#section-3'']\<rparr>"

definition TLSRPTValid :: rule where
  "TLSRPTValid = \<lparr>
     rl_id = ''MAIL-TLSRPT-004'', rl_component = CompTLSRPT, rl_category = CategoryInformational,
     rl_severity = SeverityPass, rl_title = ''TLS-RPT is configured'',
     rl_recommendation = [],
     rl_references = []\<rparr>"

definition tls_rpt_rules :: "rule list" where
  "tls_rpt_rules = [TLSRPTMissing, TLSRPTInvalid, TLSRPTInvalidURI, TLSRPTValid]"

subsection \<open>ARC rules\<close>

definition ARCPresent :: rule where
  "ARCPresent = \<lparr>
     rl_id = ''MAIL-ARC-001'', rl_component = CompARC, rl_category = CategoryInformational,
     rl_severity = SeverityInfo, rl_title = ''ARC chain present'',
     rl_recommendation = [],
     rl_references = [RFC8617]\<rparr>"

definition ARCFail :: rule where
  "ARCFail = \<lparr>
     rl_id = ''MAIL-ARC-002'', rl_component = CompARC, rl_category = CategoryInformational,
     rl_severity = SeverityLow, rl_title = ''ARC chain validation failed at an intermediary'',
     rl_recommendation = ''An intermediary reported cv=fail. Authentication results carried in the ARC chain cannot be relied upon.'',
     rl_references = [RFC8617 @ ''#section-5.2'']\<rparr>"

definition ARCInvalid :: rule where
  "ARCInvalid = \<lparr>
     rl_id = ''MAIL-ARC-003'', rl_component = CompARC, rl_category = CategoryViolation,
     rl_severity = SeverityLow, rl_title = ''ARC header set is structurally invalid'',
     rl_recommendation = ''Missing, duplicated or misnumbered ARC headers indicate a broken intermediary or tampering.'',
     rl_references = [RFC8617 @ ''#section-4.2'']\<rparr>"

definition arc_rules :: "rule list" where
  "arc_rules = [ARCPresent, ARCFail, ARCInvalid]"

subsection \<open>Message structure rules\<close>

definition MsgMalformedHeaders :: rule where
  "MsgMalformedHeaders = \<lparr>
     rl_id = ''MAIL-MSG-001'', rl_component = CompMessage, rl_category = CategoryViolation,
     rl_severity = SeverityMedium, rl_title = ''Malformed header section'',
     rl_recommendation = ''Malformed headers are parsed differently by different software and are used to hide or smuggle header fields. Treat the message with suspicion.'',
     rl_references = [RFC5322 @ ''#section-2.2'']\<rparr>"

definition MsgMalformedMIME :: rule where
  "MsgMalformedMIME = \<lparr>
     rl_id = ''MAIL-MSG-002'', rl_component = CompMessage, rl_category = CategoryViolation,
     rl_severity = SeverityLow, rl_title = ''Malformed MIME structure'',
     rl_recommendation = ''Broken MIME structure can make filters and mail clients see different content.'',
     rl_references = [RFC2045, RFC2046]\<rparr>"

definition MsgLineEndings :: rule where
  "MsgLineEndings = \<lparr>
     rl_id = ''MAIL-MSG-003'', rl_component = CompMessage, rl_category = CategoryInformational,
     rl_severity = SeverityInfo, rl_title = ''Non-CRLF line endings'',
     rl_recommendation = [],
     rl_references = [RFC5322 @ ''#section-2.1'']\<rparr>"

definition MsgMissingRequired :: rule where
  "MsgMissingRequired = \<lparr>
     rl_id = ''MAIL-MSG-004'', rl_component = CompMessage, rl_category = CategoryViolation,
     rl_severity = SeverityMedium, rl_title = ''Required header missing'',
     rl_recommendation = ''RFC 5322 requires exactly one From and one Date header.'',
     rl_references = [RFC5322 @ ''#section-3.6'']\<rparr>"

definition MsgMissingMessageID :: rule where
  "MsgMissingMessageID = \<lparr>
     rl_id = ''MAIL-MSG-005'', rl_component = CompMessage, rl_category = CategoryViolation,
     rl_severity = SeverityLow, rl_title = ''Message-ID missing'',
     rl_recommendation = ''Legitimate mail systems add a Message-ID; its absence is common in bulk and malicious mail.'',
     rl_references = [RFC5322 @ ''#section-3.6.4'']\<rparr>"

definition MsgDuplicateHeader :: rule where
  "MsgDuplicateHeader = \<lparr>
     rl_id = ''MAIL-MSG-006'', rl_component = CompMessage, rl_category = CategoryViolation,
     rl_severity = SeverityMedium, rl_title = ''Header that must be unique appears more than once'',
     rl_recommendation = ''Different software picks different instances of duplicated headers; this is used to show one identity to filters and another to users.'',
     rl_references = [RFC5322 @ ''#section-3.6'']\<rparr>"

definition MsgReplyToMismatch :: rule where
  "MsgReplyToMismatch = \<lparr>
     rl_id = ''MAIL-MSG-007'', rl_component = CompMessage, rl_category = CategoryInformational,
     rl_severity = SeverityInfo, rl_title = ''Reply-To domain differs from From domain'',
     rl_recommendation = [],
     rl_references = [RFC5322 @ ''#section-3.6.2'']\<rparr>"

definition MsgSenderMismatch :: rule where
  "MsgSenderMismatch = \<lparr>
     rl_id = ''MAIL-MSG-008'', rl_component = CompMessage, rl_category = CategoryInformational,
     rl_severity = SeverityInfo, rl_title = ''Sender domain differs from From domain'',
     rl_recommendation = [],
     rl_references = [RFC5322 @ ''#section-3.6.2'']\<rparr>"

definition MsgReturnPathMismatch :: rule where
  "MsgReturnPathMismatch = \<lparr>
     rl_id = ''MAIL-MSG-009'', rl_component = CompMessage, rl_category = CategoryInformational,
     rl_severity = SeverityInfo, rl_title = ''Return-Path domain differs from From domain'',
     rl_recommendation = [],
     rl_references = [RFC5321 @ ''#section-4.4'']\<rparr>"

definition MsgRiskyAttachment :: rule where
  "MsgRiskyAttachment = \<lparr>
     rl_id = ''MAIL-MSG-010'', rl_component = CompMessage, rl_category = CategoryWeakness,
     rl_severity = SeverityMedium, rl_title = ''Attachment with an executable or container file type'',
     rl_recommendation = ''Do not open the attachment outside an isolated analysis environment. MailAuthProbe never extracts or executes attachments.'',
     rl_references = []\<rparr>"

definition MsgMIMELimit :: rule where
  "MsgMIMELimit = \<lparr>
     rl_id = ''MAIL-MSG-011'', rl_component = CompMessage, rl_category = CategoryInformational,
     rl_severity = SeverityMedium, rl_title = ''MIME structure exceeds analysis limits'',
     rl_recommendation = ''Extreme nesting or part counts are used to evade content scanners. Authentication results remain valid.'',
     rl_references = []\<rparr>"

definition MsgInvalidDate :: rule where
  "MsgInvalidDate = \<lparr>
     rl_id = ''MAIL-MSG-012'', rl_component = CompMessage, rl_category = CategoryViolation,
     rl_severity = SeverityLow, rl_title = ''Invalid Date header'',
     rl_recommendation = ''The Date header does not follow RFC 5322 date-time syntax.'',
     rl_references = [RFC5322 @ ''#section-3.3'']\<rparr>"

definition MsgBadBytes :: rule where
  "MsgBadBytes = \<lparr>
     rl_id = ''MAIL-MSG-013'', rl_component = CompMessage, rl_category = CategoryViolation,
     rl_severity = SeverityLow, rl_title = ''Message contains NUL bytes'',
     rl_recommendation = ''NUL bytes are not allowed in Internet messages and truncate strings in some software.'',
     rl_references = [RFC5322 @ ''#section-2.1'']\<rparr>"

definition MsgHeadersOnly :: rule where
  "MsgHeadersOnly = \<lparr>
     rl_id = ''MAIL-MSG-014'', rl_component = CompMessage, rl_category = CategoryInformational,
     rl_severity = SeverityInfo, rl_title = ''Message body not available'',
     rl_recommendation = [],
     rl_references = [RFC6376 @ ''#section-3.7'']\<rparr>"

definition message_structure_rules :: "rule list" where
  "message_structure_rules = [MsgMalformedHeaders, MsgMalformedMIME, MsgLineEndings, MsgMissingRequired, MsgMissingMessageID, MsgDuplicateHeader, MsgReplyToMismatch, MsgSenderMismatch, MsgReturnPathMismatch, MsgRiskyAttachment, MsgMIMELimit, MsgInvalidDate, MsgBadBytes, MsgHeadersOnly]"

subsection \<open>DKIM message verification rules\<close>

definition DKIMSignatureValid :: rule where
  "DKIMSignatureValid = \<lparr>
     rl_id = ''MAIL-DKIM-020'', rl_component = CompDKIM, rl_category = CategoryInformational,
     rl_severity = SeverityPass, rl_title = ''DKIM signature valid'',
     rl_recommendation = [],
     rl_references = [RFC6376 @ ''#section-6'']\<rparr>"

definition DKIMSignatureInvalid :: rule where
  "DKIMSignatureInvalid = \<lparr>
     rl_id = ''MAIL-DKIM-021'', rl_component = CompDKIM, rl_category = CategoryWeakness,
     rl_severity = SeverityHigh, rl_title = ''DKIM signature does not verify'',
     rl_recommendation = ''Signed header fields were changed after signing, or the signature was forged. Do not trust the signed identity.'',
     rl_references = [RFC6376 @ ''#section-6.1.3'']\<rparr>"

definition DKIMBodyHashMismatch :: rule where
  "DKIMBodyHashMismatch = \<lparr>
     rl_id = ''MAIL-DKIM-022'', rl_component = CompDKIM, rl_category = CategoryWeakness,
     rl_severity = SeverityHigh, rl_title = ''DKIM body hash mismatch'',
     rl_recommendation = ''The body was modified after signing (by a forwarder, footer injection, or an attacker). Compare with the original message if available.'',
     rl_references = [RFC6376 @ ''#section-6.1.3'']\<rparr>"

definition DKIMVerifyPermError :: rule where
  "DKIMVerifyPermError = \<lparr>
     rl_id = ''MAIL-DKIM-023'', rl_component = CompDKIM, rl_category = CategoryViolation,
     rl_severity = SeverityMedium, rl_title = ''DKIM signature cannot be verified'',
     rl_recommendation = ''The signature is malformed or its key is missing, revoked or unsuitable. See the description for the exact reason.'',
     rl_references = [RFC6376 @ ''#section-6.1'']\<rparr>"

definition DKIMVerifyTempError :: rule where
  "DKIMVerifyTempError = \<lparr>
     rl_id = ''MAIL-DKIM-024'', rl_component = CompDKIM, rl_category = CategoryInformational,
     rl_severity = SeverityMedium, rl_title = ''DKIM key lookup failed temporarily'',
     rl_recommendation = ''Retry the analysis; the result is unknown.'',
     rl_references = [RFC6376 @ ''#section-6.1.2'']\<rparr>"

definition DKIMUnsigned :: rule where
  "DKIMUnsigned = \<lparr>
     rl_id = ''MAIL-DKIM-025'', rl_component = CompDKIM, rl_category = CategoryWeakness,
     rl_severity = SeverityMedium, rl_title = ''Message is not DKIM-signed'',
     rl_recommendation = ''Without DKIM, DMARC can only pass through SPF, which breaks on forwarding.'',
     rl_references = [RFC6376]\<rparr>"

definition DKIMInsecureAlgorithm :: rule where
  "DKIMInsecureAlgorithm = \<lparr>
     rl_id = ''MAIL-DKIM-026'', rl_component = CompDKIM, rl_category = CategoryWeakness,
     rl_severity = SeverityHigh, rl_title = ''DKIM signature uses rsa-sha1'',
     rl_recommendation = ''The signer must switch to rsa-sha256; rsa-sha1 signatures are not accepted.'',
     rl_references = [RFC8301 @ ''#section-3.1'']\<rparr>"

definition DKIMBodyLength :: rule where
  "DKIMBodyLength = \<lparr>
     rl_id = ''MAIL-DKIM-027'', rl_component = CompDKIM, rl_category = CategoryWeakness,
     rl_severity = SeverityMedium, rl_title = ''DKIM signature covers only part of the body (l=)'',
     rl_recommendation = ''Content after the signed length can be replaced or appended by anyone. Signers should not use l=.'',
     rl_references = [RFC6376 @ ''#section-8.2'']\<rparr>"

definition DKIMUnsignedHeaders :: rule where
  "DKIMUnsignedHeaders = \<lparr>
     rl_id = ''MAIL-DKIM-028'', rl_component = CompDKIM, rl_category = CategoryHardening,
     rl_severity = SeverityLow, rl_title = ''DKIM signature does not cover important headers'',
     rl_recommendation = ''Signers should include Subject, Date, To and Message-ID in h=.'',
     rl_references = [RFC6376 @ ''#section-5.4.1'']\<rparr>"

definition DKIMExpired :: rule where
  "DKIMExpired = \<lparr>
     rl_id = ''MAIL-DKIM-029'', rl_component = CompDKIM, rl_category = CategoryInformational,
     rl_severity = SeverityMedium, rl_title = ''DKIM signature has expired'',
     rl_recommendation = ''The signature's x= time has passed; it no longer authenticates the message.'',
     rl_references = [RFC6376 @ ''#section-3.5'']\<rparr>"

definition DKIMTooManySignatures :: rule where
  "DKIMTooManySignatures = \<lparr>
     rl_id = ''MAIL-DKIM-030'', rl_component = CompDKIM, rl_category = CategoryInformational,
     rl_severity = SeverityLow, rl_title = ''Too many DKIM signatures'',
     rl_recommendation = ''Only the first signatures were verified. Large numbers of signatures are used to exhaust verifiers.'',
     rl_references = [RFC6376 @ ''#section-6.1'']\<rparr>"

definition DKIMHeaderOnlyValid :: rule where
  "DKIMHeaderOnlyValid = \<lparr>
     rl_id = ''MAIL-DKIM-031'', rl_component = CompDKIM, rl_category = CategoryInformational,
     rl_severity = SeverityInfo, rl_title = ''DKIM header signature valid; body not checked'',
     rl_recommendation = [],
     rl_references = [RFC6376 @ ''#section-6.1.3'']\<rparr>"

definition dkim_message_verification_rules :: "rule list" where
  "dkim_message_verification_rules = [DKIMSignatureValid, DKIMSignatureInvalid, DKIMBodyHashMismatch, DKIMVerifyPermError, DKIMVerifyTempError, DKIMUnsigned, DKIMInsecureAlgorithm, DKIMBodyLength, DKIMUnsignedHeaders, DKIMExpired, DKIMTooManySignatures, DKIMHeaderOnlyValid]"

subsection \<open>Registration\<close>

definition all_rules :: "rule list" where
  "all_rules = dns_rules @ mx_rules @ spf_rules @ dmarc_rules @ dkim_rules @ received_chain_rules @ spf_message_verification_rules @ dmarc_message_evaluation_rules @ authentication_results_comparison_rules @ mta_sts_rules @ tls_rpt_rules @ arc_rules @ message_structure_rules @ dkim_message_verification_rules"

text \<open>The catalog map, as an association list; \<open>None\<close> is the panic of \<open>register\<close>.\<close>

type_synonym catalog_map = "(string \<times> rule) list"

definition register :: "rule \<Rightarrow> catalog_map \<Rightarrow> catalog_map option" where
  "register r m = (if map_of m (rl_id r) \<noteq> None then None else Some ((rl_id r, r) # m))"

fun register_all :: "rule list \<Rightarrow> catalog_map \<Rightarrow> catalog_map option" where
  "register_all [] m = Some m"
| "register_all (r # rs) m = (case register r m of None \<Rightarrow> None | Some m' \<Rightarrow> register_all rs m')"

definition catalog_lookup :: "catalog_map \<Rightarrow> string \<Rightarrow> rule option" where
  "catalog_lookup m i = map_of m i"

definition catalog_rules :: "catalog_map \<Rightarrow> rule list" where
  "catalog_rules m = sort_key rl_id (map snd m)"

lemma register_all_distinct:
  "distinct (map fst m @ map rl_id rs) \<Longrightarrow> register_all rs m = Some (rev (map (\<lambda>r. (rl_id r, r)) rs) @ m)"
proof (induction rs arbitrary: m)
  case (Cons r rs)
  then have "map_of m (rl_id r) = None"
    by (auto simp: map_of_eq_None_iff)
  with Cons show ?case by (simp add: register_def)
qed simp

subsection \<open>The identifiers are distinct\<close>

lemma dns_rules_ids: "map rl_id dns_rules =
  [''MAIL-DNS-001'', ''MAIL-DNS-002'']"
  by (simp add: dns_rules_def
    DNSLookupFailed_def DNSQueryBudgetExceeded_def)

lemma mx_rules_ids: "map rl_id mx_rules =
  [''MAIL-MX-001'', ''MAIL-MX-002'', ''MAIL-MX-003'', ''MAIL-MX-004'', ''MAIL-MX-005'', ''MAIL-MX-006'', ''MAIL-MX-007'', ''MAIL-MX-008'', ''MAIL-MX-009'', ''MAIL-MX-010'', ''MAIL-MX-011'', ''MAIL-MX-012'', ''MAIL-MX-013'', ''MAIL-MX-014'', ''MAIL-MX-015'', ''MAIL-MX-016'', ''MAIL-MX-017'']"
  by (simp add: mx_rules_def
    MXNone_def MXNoMailHost_def MXDomainNotFound_def MXNullMX_def MXNullMixed_def MXNullPreference_def MXDuplicateHost_def MXIPLiteral_def MXCNAME_def MXNoAddress_def MXNonPublicAddress_def MXLookupInconsistent_def MXIPv4Only_def MXSingleHost_def MXValid_def MXInvalidHostname_def MXTooMany_def)

lemma spf_rules_ids: "map rl_id spf_rules =
  [''MAIL-SPF-001'', ''MAIL-SPF-002'', ''MAIL-SPF-003'', ''MAIL-SPF-004'', ''MAIL-SPF-005'', ''MAIL-SPF-006'', ''MAIL-SPF-007'', ''MAIL-SPF-008'', ''MAIL-SPF-009'', ''MAIL-SPF-010'', ''MAIL-SPF-011'', ''MAIL-SPF-012'', ''MAIL-SPF-013'', ''MAIL-SPF-014'', ''MAIL-SPF-015'', ''MAIL-SPF-016'', ''MAIL-SPF-017'', ''MAIL-SPF-018'', ''MAIL-SPF-019'', ''MAIL-SPF-020'', ''MAIL-SPF-021'', ''MAIL-SPF-022'', ''MAIL-SPF-023'', ''MAIL-SPF-024'', ''MAIL-SPF-025'']"
  by (simp add: spf_rules_def
    SPFMissing_def SPFMultiple_def SPFSyntax_def SPFLoop_def SPFLookupLimit_def SPFVoidLimit_def SPFPassAll_def SPFNeutralAll_def SPFSoftFailAll_def SPFNoAll_def SPFBroadRange_def SPFPTR_def SPFIncludeNoRecord_def SPFTempError_def SPFTermsAfterAll_def SPFRedirectIgnored_def SPFLookupsNearLimit_def SPFPMacro_def SPFExp_def SPFUnknownModifier_def SPFMXLimit_def SPFValid_def SPFDynamic_def SPFRecordTooLong_def SPFVoidTarget_def)

lemma dmarc_rules_ids: "map rl_id dmarc_rules =
  [''MAIL-DMARC-001'', ''MAIL-DMARC-002'', ''MAIL-DMARC-003'', ''MAIL-DMARC-004'', ''MAIL-DMARC-005'', ''MAIL-DMARC-006'', ''MAIL-DMARC-007'', ''MAIL-DMARC-008'', ''MAIL-DMARC-009'', ''MAIL-DMARC-010'', ''MAIL-DMARC-011'', ''MAIL-DMARC-012'', ''MAIL-DMARC-013'', ''MAIL-DMARC-014'', ''MAIL-DMARC-015'', ''MAIL-DMARC-016'', ''MAIL-DMARC-017'', ''MAIL-DMARC-018'']"
  by (simp add: dmarc_rules_def
    DMARCMissing_def DMARCMultiple_def DMARCInvalid_def DMARCPolicyNone_def DMARCPolicyQuarantine_def DMARCPartialPct_def DMARCWeakSubdomainPolicy_def DMARCNoRUA_def DMARCRUF_def DMARCInvalidValue_def DMARCDuplicateTag_def DMARCUnknownTag_def DMARCInvalidURI_def DMARCExternalUnauthorized_def DMARCInherited_def DMARCStrictAlignment_def DMARCEnforced_def DMARCFONoRUF_def)

lemma dkim_rules_ids: "map rl_id dkim_rules =
  [''MAIL-DKIM-001'', ''MAIL-DKIM-002'', ''MAIL-DKIM-003'', ''MAIL-DKIM-004'', ''MAIL-DKIM-005'', ''MAIL-DKIM-006'', ''MAIL-DKIM-007'', ''MAIL-DKIM-008'', ''MAIL-DKIM-009'', ''MAIL-DKIM-010'', ''MAIL-DKIM-011'', ''MAIL-DKIM-012'', ''MAIL-DKIM-013'', ''MAIL-DKIM-014'', ''MAIL-DKIM-015'', ''MAIL-DKIM-016'']"
  by (simp add: dkim_rules_def
    DKIMNoSelector_def DKIMKeyNotFound_def DKIMInvalidKey_def DKIMKeyRevoked_def DKIMKeyTooShort_def DKIMKeyWeak_def DKIMKeyTooLong_def DKIMKeySHA1Only_def DKIMKeyTesting_def DKIMKeyServiceMismatch_def DKIMKeyEd25519_def DKIMKeyValid_def DKIMMultipleKeys_def DKIMKeyUnknownTag_def DKIMKeyPKCS1_def DKIMSelectorsGuessed_def)

lemma received_chain_rules_ids: "map rl_id received_chain_rules =
  [''MAIL-RCVD-001'', ''MAIL-RCVD-002'', ''MAIL-RCVD-003'', ''MAIL-RCVD-004'', ''MAIL-RCVD-005'', ''MAIL-RCVD-006'', ''MAIL-RCVD-007'']"
  by (simp add: received_chain_rules_def
    RcvdNone_def RcvdUnparseable_def RcvdTimeTravel_def RcvdTooMany_def RcvdNoTLS_def RcvdNoDate_def RcvdDelay_def)

lemma spf_message_verification_rules_ids: "map rl_id spf_message_verification_rules =
  [''MAIL-SPF-030'', ''MAIL-SPF-031'', ''MAIL-SPF-032'', ''MAIL-SPF-033'', ''MAIL-SPF-034'', ''MAIL-SPF-035'', ''MAIL-SPF-036'']"
  by (simp add: spf_message_verification_rules_def
    SPFMessagePass_def SPFMessageFail_def SPFMessageSoftFail_def SPFMessageNeutral_def SPFMessageError_def SPFInputsInferred_def SPFNotEvaluated_def)

lemma dmarc_message_evaluation_rules_ids: "map rl_id dmarc_message_evaluation_rules =
  [''MAIL-DMARC-030'', ''MAIL-DMARC-031'', ''MAIL-DMARC-032'', ''MAIL-DMARC-033'', ''MAIL-DMARC-034'', ''MAIL-DMARC-035'', ''MAIL-DMARC-036'', ''MAIL-DMARC-038'', ''MAIL-DMARC-037'']"
  by (simp add: dmarc_message_evaluation_rules_def
    DMARCMessagePass_def DMARCMessageFail_def DMARCMessageNoPolicy_def DMARCMessageBadFrom_def DMARCMessageTempError_def DMARCMessageStrictMisalign_def DMARCMessageSPFUnaligned_def DMARCMessageIndeterminate_def DMARCMessageDKIMUnaligned_def)

lemma authentication_results_comparison_rules_ids: "map rl_id authentication_results_comparison_rules =
  [''MAIL-AR-001'', ''MAIL-AR-002'', ''MAIL-AR-003'', ''MAIL-AR-004'', ''MAIL-AR-005'']"
  by (simp add: authentication_results_comparison_rules_def
    ARConflict_def ARMismatch_def ARConsistent_def ARUnparseable_def ARNone_def)

lemma mta_sts_rules_ids: "map rl_id mta_sts_rules =
  [''MAIL-MTASTS-001'', ''MAIL-MTASTS-002'', ''MAIL-MTASTS-003'', ''MAIL-MTASTS-004'', ''MAIL-MTASTS-005'', ''MAIL-MTASTS-006'', ''MAIL-MTASTS-007'', ''MAIL-MTASTS-008'', ''MAIL-MTASTS-009'', ''MAIL-MTASTS-010'', ''MAIL-MTASTS-011'', ''MAIL-MTASTS-012'', ''MAIL-MTASTS-013'', ''MAIL-MTASTS-014'', ''MAIL-MTASTS-015'', ''MAIL-MTASTS-016'']"
  by (simp add: mta_sts_rules_def
    MTASTSMissing_def MTASTSInvalidRecord_def MTASTSFetchFailed_def MTASTSCertificate_def MTASTSRedirect_def MTASTSContentType_def MTASTSInvalidPolicy_def MTASTSTesting_def MTASTSModeNone_def MTASTSShortMaxAge_def MTASTSMXMismatch_def MTASTSCertExpiring_def MTASTSPolicyWithoutRecord_def MTASTSValid_def MTASTSLineEndings_def MTASTSPolicyTooLarge_def)

lemma tls_rpt_rules_ids: "map rl_id tls_rpt_rules =
  [''MAIL-TLSRPT-001'', ''MAIL-TLSRPT-002'', ''MAIL-TLSRPT-003'', ''MAIL-TLSRPT-004'']"
  by (simp add: tls_rpt_rules_def
    TLSRPTMissing_def TLSRPTInvalid_def TLSRPTInvalidURI_def TLSRPTValid_def)

lemma arc_rules_ids: "map rl_id arc_rules =
  [''MAIL-ARC-001'', ''MAIL-ARC-002'', ''MAIL-ARC-003'']"
  by (simp add: arc_rules_def
    ARCPresent_def ARCFail_def ARCInvalid_def)

lemma message_structure_rules_ids: "map rl_id message_structure_rules =
  [''MAIL-MSG-001'', ''MAIL-MSG-002'', ''MAIL-MSG-003'', ''MAIL-MSG-004'', ''MAIL-MSG-005'', ''MAIL-MSG-006'', ''MAIL-MSG-007'', ''MAIL-MSG-008'', ''MAIL-MSG-009'', ''MAIL-MSG-010'', ''MAIL-MSG-011'', ''MAIL-MSG-012'', ''MAIL-MSG-013'', ''MAIL-MSG-014'']"
  by (simp add: message_structure_rules_def
    MsgMalformedHeaders_def MsgMalformedMIME_def MsgLineEndings_def MsgMissingRequired_def MsgMissingMessageID_def MsgDuplicateHeader_def MsgReplyToMismatch_def MsgSenderMismatch_def MsgReturnPathMismatch_def MsgRiskyAttachment_def MsgMIMELimit_def MsgInvalidDate_def MsgBadBytes_def MsgHeadersOnly_def)

lemma dkim_message_verification_rules_ids: "map rl_id dkim_message_verification_rules =
  [''MAIL-DKIM-020'', ''MAIL-DKIM-021'', ''MAIL-DKIM-022'', ''MAIL-DKIM-023'', ''MAIL-DKIM-024'', ''MAIL-DKIM-025'', ''MAIL-DKIM-026'', ''MAIL-DKIM-027'', ''MAIL-DKIM-028'', ''MAIL-DKIM-029'', ''MAIL-DKIM-030'', ''MAIL-DKIM-031'']"
  by (simp add: dkim_message_verification_rules_def
    DKIMSignatureValid_def DKIMSignatureInvalid_def DKIMBodyHashMismatch_def DKIMVerifyPermError_def DKIMVerifyTempError_def DKIMUnsigned_def DKIMInsecureAlgorithm_def DKIMBodyLength_def DKIMUnsignedHeaders_def DKIMExpired_def DKIMTooManySignatures_def DKIMHeaderOnlyValid_def)

lemmas rule_id_lists = dns_rules_ids mx_rules_ids spf_rules_ids dmarc_rules_ids dkim_rules_ids received_chain_rules_ids spf_message_verification_rules_ids dmarc_message_evaluation_rules_ids authentication_results_comparison_rules_ids mta_sts_rules_ids tls_rpt_rules_ids arc_rules_ids message_structure_rules_ids dkim_message_verification_rules_ids

text \<open>A number per identifier; comparing numbers is what makes the check of all pairs quick.\<close>

definition id_code :: "string \<Rightarrow> int" where
  "id_code s = foldl (\<lambda>n c. n * 256 + byte c) 0 s"

lemma distinct_id_codes: "distinct (map id_code (map rl_id all_rules))"
  unfolding all_rules_def map_append rule_id_lists
  by (simp add: id_code_def)

lemma distinct_rule_ids: "distinct (map rl_id all_rules)"
  using distinct_id_codes distinct_map [of id_code "map rl_id all_rules"] by blast

definition full_catalog :: catalog_map where
  "full_catalog = rev (map (\<lambda>r. (rl_id r, r)) all_rules)"

lemma register_full_catalog: "register_all all_rules [] = Some full_catalog"
  using register_all_distinct [of "[]" all_rules] distinct_rule_ids by (simp add: full_catalog_def)

lemma catalog_lookup_full:
  assumes "r \<in> set all_rules"
  shows "catalog_lookup full_catalog (rl_id r) = Some r"
proof -
  have "distinct (map fst full_catalog)"
    using distinct_rule_ids by (simp add: full_catalog_def rev_map [symmetric] comp_def)
  moreover have "(rl_id r, r) \<in> set full_catalog"
    using assms by (simp add: full_catalog_def)
  ultimately show ?thesis by (simp add: catalog_lookup_def)
qed

subsection \<open>Severities\<close>

text \<open>The severity of every rule, for the proofs about the checks.\<close>

lemma rule_severities [simp]:
  "rl_severity DNSLookupFailed = SeverityHigh" "rl_severity DNSQueryBudgetExceeded = SeverityMedium"
  "rl_severity MXNone = SeverityMedium" "rl_severity MXNoMailHost = SeverityLow"
  "rl_severity MXDomainNotFound = SeverityHigh" "rl_severity MXNullMX = SeverityInfo"
  "rl_severity MXNullMixed = SeverityHigh" "rl_severity MXNullPreference = SeverityLow"
  "rl_severity MXDuplicateHost = SeverityLow" "rl_severity MXIPLiteral = SeverityHigh"
  "rl_severity MXCNAME = SeverityMedium" "rl_severity MXNoAddress = SeverityMedium"
  "rl_severity MXNonPublicAddress = SeverityHigh" "rl_severity MXLookupInconsistent = SeverityMedium"
  "rl_severity MXIPv4Only = SeverityInfo" "rl_severity MXSingleHost = SeverityInfo"
  "rl_severity MXValid = SeverityPass" "rl_severity MXInvalidHostname = SeverityHigh"
  "rl_severity MXTooMany = SeverityInfo" "rl_severity SPFMissing = SeverityMedium"
  "rl_severity SPFMultiple = SeverityHigh" "rl_severity SPFSyntax = SeverityHigh" "rl_severity SPFLoop = SeverityHigh"
  "rl_severity SPFLookupLimit = SeverityHigh" "rl_severity SPFVoidLimit = SeverityMedium"
  "rl_severity SPFPassAll = SeverityCritical" "rl_severity SPFNeutralAll = SeverityMedium"
  "rl_severity SPFSoftFailAll = SeverityLow" "rl_severity SPFNoAll = SeverityMedium"
  "rl_severity SPFBroadRange = SeverityMedium" "rl_severity SPFPTR = SeverityLow"
  "rl_severity SPFIncludeNoRecord = SeverityHigh" "rl_severity SPFTempError = SeverityMedium"
  "rl_severity SPFTermsAfterAll = SeverityLow" "rl_severity SPFRedirectIgnored = SeverityLow"
  "rl_severity SPFLookupsNearLimit = SeverityLow" "rl_severity SPFPMacro = SeverityLow"
  "rl_severity SPFExp = SeverityInfo" "rl_severity SPFUnknownModifier = SeverityInfo"
  "rl_severity SPFMXLimit = SeverityHigh" "rl_severity SPFValid = SeverityPass"
  "rl_severity SPFDynamic = SeverityInfo" "rl_severity SPFRecordTooLong = SeverityLow"
  "rl_severity SPFVoidTarget = SeverityLow" "rl_severity DMARCMissing = SeverityHigh"
  "rl_severity DMARCMultiple = SeverityHigh" "rl_severity DMARCInvalid = SeverityHigh"
  "rl_severity DMARCPolicyNone = SeverityMedium" "rl_severity DMARCPolicyQuarantine = SeverityLow"
  "rl_severity DMARCPartialPct = SeverityMedium" "rl_severity DMARCWeakSubdomainPolicy = SeverityMedium"
  "rl_severity DMARCNoRUA = SeverityLow" "rl_severity DMARCRUF = SeverityInfo"
  "rl_severity DMARCInvalidValue = SeverityMedium" "rl_severity DMARCDuplicateTag = SeverityMedium"
  "rl_severity DMARCUnknownTag = SeverityInfo" "rl_severity DMARCInvalidURI = SeverityMedium"
  "rl_severity DMARCExternalUnauthorized = SeverityMedium" "rl_severity DMARCInherited = SeverityInfo"
  "rl_severity DMARCStrictAlignment = SeverityInfo" "rl_severity DMARCEnforced = SeverityPass"
  "rl_severity DMARCFONoRUF = SeverityInfo" "rl_severity DKIMNoSelector = SeverityInfo"
  "rl_severity DKIMKeyNotFound = SeverityHigh" "rl_severity DKIMInvalidKey = SeverityHigh"
  "rl_severity DKIMKeyRevoked = SeverityMedium" "rl_severity DKIMKeyTooShort = SeverityHigh"
  "rl_severity DKIMKeyWeak = SeverityMedium" "rl_severity DKIMKeyTooLong = SeverityLow"
  "rl_severity DKIMKeySHA1Only = SeverityHigh" "rl_severity DKIMKeyTesting = SeverityLow"
  "rl_severity DKIMKeyServiceMismatch = SeverityHigh" "rl_severity DKIMKeyEd25519 = SeverityInfo"
  "rl_severity DKIMKeyValid = SeverityPass" "rl_severity DKIMMultipleKeys = SeverityMedium"
  "rl_severity DKIMKeyUnknownTag = SeverityInfo" "rl_severity DKIMKeyPKCS1 = SeverityLow"
  "rl_severity DKIMSelectorsGuessed = SeverityInfo" "rl_severity RcvdNone = SeverityLow"
  "rl_severity RcvdUnparseable = SeverityLow" "rl_severity RcvdTimeTravel = SeverityLow"
  "rl_severity RcvdTooMany = SeverityMedium" "rl_severity RcvdNoTLS = SeverityInfo"
  "rl_severity RcvdNoDate = SeverityLow" "rl_severity RcvdDelay = SeverityInfo"
  "rl_severity SPFMessagePass = SeverityPass" "rl_severity SPFMessageFail = SeverityHigh"
  "rl_severity SPFMessageSoftFail = SeverityMedium" "rl_severity SPFMessageNeutral = SeverityLow"
  "rl_severity SPFMessageError = SeverityMedium" "rl_severity SPFInputsInferred = SeverityInfo"
  "rl_severity SPFNotEvaluated = SeverityInfo" "rl_severity DMARCMessagePass = SeverityPass"
  "rl_severity DMARCMessageFail = SeverityHigh" "rl_severity DMARCMessageNoPolicy = SeverityMedium"
  "rl_severity DMARCMessageBadFrom = SeverityHigh" "rl_severity DMARCMessageTempError = SeverityMedium"
  "rl_severity DMARCMessageStrictMisalign = SeverityMedium" "rl_severity DMARCMessageSPFUnaligned = SeverityInfo"
  "rl_severity DMARCMessageIndeterminate = SeverityMedium" "rl_severity DMARCMessageDKIMUnaligned = SeverityInfo"
  "rl_severity ARConflict = SeverityHigh" "rl_severity ARMismatch = SeverityMedium"
  "rl_severity ARConsistent = SeverityPass" "rl_severity ARUnparseable = SeverityLow"
  "rl_severity ARNone = SeverityInfo" "rl_severity MTASTSMissing = SeverityLow"
  "rl_severity MTASTSInvalidRecord = SeverityHigh" "rl_severity MTASTSFetchFailed = SeverityHigh"
  "rl_severity MTASTSCertificate = SeverityHigh" "rl_severity MTASTSRedirect = SeverityHigh"
  "rl_severity MTASTSContentType = SeverityMedium" "rl_severity MTASTSInvalidPolicy = SeverityHigh"
  "rl_severity MTASTSTesting = SeverityLow" "rl_severity MTASTSModeNone = SeverityMedium"
  "rl_severity MTASTSShortMaxAge = SeverityLow" "rl_severity MTASTSMXMismatch = SeverityHigh"
  "rl_severity MTASTSCertExpiring = SeverityLow" "rl_severity MTASTSPolicyWithoutRecord = SeverityMedium"
  "rl_severity MTASTSValid = SeverityPass" "rl_severity MTASTSLineEndings = SeverityInfo"
  "rl_severity MTASTSPolicyTooLarge = SeverityMedium" "rl_severity TLSRPTMissing = SeverityLow"
  "rl_severity TLSRPTInvalid = SeverityMedium" "rl_severity TLSRPTInvalidURI = SeverityMedium"
  "rl_severity TLSRPTValid = SeverityPass" "rl_severity ARCPresent = SeverityInfo" "rl_severity ARCFail = SeverityLow"
  "rl_severity ARCInvalid = SeverityLow" "rl_severity MsgMalformedHeaders = SeverityMedium"
  "rl_severity MsgMalformedMIME = SeverityLow" "rl_severity MsgLineEndings = SeverityInfo"
  "rl_severity MsgMissingRequired = SeverityMedium" "rl_severity MsgMissingMessageID = SeverityLow"
  "rl_severity MsgDuplicateHeader = SeverityMedium" "rl_severity MsgReplyToMismatch = SeverityInfo"
  "rl_severity MsgSenderMismatch = SeverityInfo" "rl_severity MsgReturnPathMismatch = SeverityInfo"
  "rl_severity MsgRiskyAttachment = SeverityMedium" "rl_severity MsgMIMELimit = SeverityMedium"
  "rl_severity MsgInvalidDate = SeverityLow" "rl_severity MsgBadBytes = SeverityLow"
  "rl_severity MsgHeadersOnly = SeverityInfo" "rl_severity DKIMSignatureValid = SeverityPass"
  "rl_severity DKIMSignatureInvalid = SeverityHigh" "rl_severity DKIMBodyHashMismatch = SeverityHigh"
  "rl_severity DKIMVerifyPermError = SeverityMedium" "rl_severity DKIMVerifyTempError = SeverityMedium"
  "rl_severity DKIMUnsigned = SeverityMedium" "rl_severity DKIMInsecureAlgorithm = SeverityHigh"
  "rl_severity DKIMBodyLength = SeverityMedium" "rl_severity DKIMUnsignedHeaders = SeverityLow"
  "rl_severity DKIMExpired = SeverityMedium" "rl_severity DKIMTooManySignatures = SeverityLow"
  "rl_severity DKIMHeaderOnlyValid = SeverityInfo"
  by (simp_all add:
      DNSLookupFailed_def DNSQueryBudgetExceeded_def MXNone_def MXNoMailHost_def MXDomainNotFound_def MXNullMX_def
      MXNullMixed_def MXNullPreference_def MXDuplicateHost_def MXIPLiteral_def MXCNAME_def MXNoAddress_def
      MXNonPublicAddress_def MXLookupInconsistent_def MXIPv4Only_def MXSingleHost_def MXValid_def
      MXInvalidHostname_def MXTooMany_def SPFMissing_def SPFMultiple_def SPFSyntax_def SPFLoop_def SPFLookupLimit_def
      SPFVoidLimit_def SPFPassAll_def SPFNeutralAll_def SPFSoftFailAll_def SPFNoAll_def SPFBroadRange_def SPFPTR_def
      SPFIncludeNoRecord_def SPFTempError_def SPFTermsAfterAll_def SPFRedirectIgnored_def SPFLookupsNearLimit_def
      SPFPMacro_def SPFExp_def SPFUnknownModifier_def SPFMXLimit_def SPFValid_def SPFDynamic_def SPFRecordTooLong_def
      SPFVoidTarget_def DMARCMissing_def DMARCMultiple_def DMARCInvalid_def DMARCPolicyNone_def
      DMARCPolicyQuarantine_def DMARCPartialPct_def DMARCWeakSubdomainPolicy_def DMARCNoRUA_def DMARCRUF_def
      DMARCInvalidValue_def DMARCDuplicateTag_def DMARCUnknownTag_def DMARCInvalidURI_def
      DMARCExternalUnauthorized_def DMARCInherited_def DMARCStrictAlignment_def DMARCEnforced_def DMARCFONoRUF_def
      DKIMNoSelector_def DKIMKeyNotFound_def DKIMInvalidKey_def DKIMKeyRevoked_def DKIMKeyTooShort_def
      DKIMKeyWeak_def DKIMKeyTooLong_def DKIMKeySHA1Only_def DKIMKeyTesting_def DKIMKeyServiceMismatch_def
      DKIMKeyEd25519_def DKIMKeyValid_def DKIMMultipleKeys_def DKIMKeyUnknownTag_def DKIMKeyPKCS1_def
      DKIMSelectorsGuessed_def RcvdNone_def RcvdUnparseable_def RcvdTimeTravel_def RcvdTooMany_def RcvdNoTLS_def
      RcvdNoDate_def RcvdDelay_def SPFMessagePass_def SPFMessageFail_def SPFMessageSoftFail_def SPFMessageNeutral_def
      SPFMessageError_def SPFInputsInferred_def SPFNotEvaluated_def DMARCMessagePass_def DMARCMessageFail_def
      DMARCMessageNoPolicy_def DMARCMessageBadFrom_def DMARCMessageTempError_def DMARCMessageStrictMisalign_def
      DMARCMessageSPFUnaligned_def DMARCMessageIndeterminate_def DMARCMessageDKIMUnaligned_def ARConflict_def
      ARMismatch_def ARConsistent_def ARUnparseable_def ARNone_def MTASTSMissing_def MTASTSInvalidRecord_def
      MTASTSFetchFailed_def MTASTSCertificate_def MTASTSRedirect_def MTASTSContentType_def MTASTSInvalidPolicy_def
      MTASTSTesting_def MTASTSModeNone_def MTASTSShortMaxAge_def MTASTSMXMismatch_def MTASTSCertExpiring_def
      MTASTSPolicyWithoutRecord_def MTASTSValid_def MTASTSLineEndings_def MTASTSPolicyTooLarge_def TLSRPTMissing_def
      TLSRPTInvalid_def TLSRPTInvalidURI_def TLSRPTValid_def ARCPresent_def ARCFail_def ARCInvalid_def
      MsgMalformedHeaders_def MsgMalformedMIME_def MsgLineEndings_def MsgMissingRequired_def MsgMissingMessageID_def
      MsgDuplicateHeader_def MsgReplyToMismatch_def MsgSenderMismatch_def MsgReturnPathMismatch_def
      MsgRiskyAttachment_def MsgMIMELimit_def MsgInvalidDate_def MsgBadBytes_def MsgHeadersOnly_def
      DKIMSignatureValid_def DKIMSignatureInvalid_def DKIMBodyHashMismatch_def DKIMVerifyPermError_def
      DKIMVerifyTempError_def DKIMUnsigned_def DKIMInsecureAlgorithm_def DKIMBodyLength_def DKIMUnsignedHeaders_def
      DKIMExpired_def DKIMTooManySignatures_def DKIMHeaderOnlyValid_def)

lemma other_rule: "rl_severity r \<noteq> rl_severity r' \<Longrightarrow> r \<noteq> r'"
  by auto

lemma other_id: "rl_id r \<noteq> rl_id r' \<Longrightarrow> r \<noteq> r'"
  by auto

text \<open>
  Package initialisation does not panic on a duplicate identifier: registering the
  whole catalog succeeds, looking a rule up by its identifier returns that rule, and \<open>Rules\<close> lists
  exactly the registered rules in ascending order of their identifiers.
\<close>

theorem catalog_initialises:
  "\<exists>m. register_all all_rules [] = Some m
     \<and> map (catalog_lookup m) (map rl_id all_rules) = map Some all_rules
     \<and> mset (catalog_rules m) = mset all_rules \<and> sorted (map rl_id (catalog_rules m))"
proof (intro exI conjI)
  show "register_all all_rules [] = Some full_catalog" by (rule register_full_catalog)
  show "map (catalog_lookup full_catalog) (map rl_id all_rules) = map Some all_rules"
    by (simp add: catalog_lookup_full)
  show "mset (catalog_rules full_catalog) = mset all_rules"
    by (simp add: catalog_rules_def full_catalog_def rev_map [symmetric] comp_def)
  show "sorted (map rl_id (catalog_rules full_catalog))"
    by (simp add: catalog_rules_def)
qed

end
