(* ===== verification/Dmarc.thy ===== *)
theory Dmarc
  imports GoStrings
begin

section \<open>DMARC records (internal/dmarc/record.go)\<close>

text \<open>
  The parser of DMARC records with its defaults, issues and errors.  A Go string type with constants
  (policy, mode) is a datatype whose first constructor is the empty string.  An issue keeps its kind, its
  tag and the value its message shows.
\<close>

datatype policy = NoPolicy | PolicyNone | PolicyQuarantine | PolicyReject

fun strength :: "policy \<Rightarrow> int" where
  "strength PolicyNone = 1"
| "strength PolicyQuarantine = 2"
| "strength PolicyReject = 3"
| "strength NoPolicy = 0"

definition parse_policy :: "string \<Rightarrow> policy option" where
  "parse_policy s = (let p = to_lower s in
     if p = ''none'' then Some PolicyNone
     else if p = ''quarantine'' then Some PolicyQuarantine
     else if p = ''reject'' then Some PolicyReject
     else None)"

datatype mode = NoMode | ModeRelaxed | ModeStrict

definition parse_mode :: "string \<Rightarrow> mode option" where
  "parse_mode s = (let m = to_lower s in
     if m = ''r'' then Some ModeRelaxed else if m = ''s'' then Some ModeStrict else None)"

record report_uri =
  ru_uri :: string
  ru_scheme :: string
  ru_address :: string
  ru_domain :: string
  ru_max_size :: string

record dmarc_tag =
  dt_name :: string
  dt_value :: string

datatype issue_kind = IssueInvalidValue | IssueDuplicateTag | IssueUnknownTag | IssueInvalidURI

record dmarc_issue =
  is_kind :: issue_kind
  is_tag :: string
  is_value :: string

record dmarc_record =
  dm_raw :: string
  dm_tags :: "dmarc_tag list"
  dm_policy :: policy
  dm_subdomain_policy :: policy
  dm_percent :: int
  dm_adkim :: mode
  dm_aspf :: mode
  dm_rua :: "report_uri list"
  dm_ruf :: "report_uri list"
  dm_fo :: "string list"
  dm_rf :: string
  dm_ri :: int
  dm_policy_implied :: bool
  dm_issues :: "dmarc_issue list"

definition effective_subdomain_policy :: "dmarc_record \<Rightarrow> policy" where
  "effective_subdomain_policy r = (if dm_subdomain_policy r \<noteq> NoPolicy then dm_subdomain_policy r else dm_policy r)"

definition has_tag :: "dmarc_record \<Rightarrow> string \<Rightarrow> bool" where
  "has_tag r name \<longleftrightarrow> list_ex (\<lambda>t. dt_name t = name) (dm_tags r)"

datatype dmarc_error = NotDmarc | MalformedTag string | InvalidSpNoRua | InvalidPNoRua | MissingP

text \<open>The expression \<^verbatim>\<open>^v[ \t]*=[ \t]*DMARC1[ \t]*(;|$)\<close>.\<close>

definition skip_wsp :: "string \<Rightarrow> string" where
  "skip_wsp s = dropWhile (\<lambda>c. c \<in> set wsp) s"

definition is_dmarc :: "string \<Rightarrow> bool" where
  "is_dmarc txt = (case txt of
     [] \<Rightarrow> False
   | c # s \<Rightarrow> c = CHR ''v'' \<and> (case skip_wsp s of
       [] \<Rightarrow> False
     | d # s2 \<Rightarrow> d = CHR ''='' \<and> has_prefix (skip_wsp s2) ''DMARC1''
         \<and> (let s3 = skip_wsp (drop 6 (skip_wsp s2)) in s3 = [] \<or> hd s3 = CHR '';'')))"

subsection \<open>Report URIs\<close>

definition valid_label :: "string \<Rightarrow> bool" where
  "valid_label l \<longleftrightarrow> l \<noteq> [] \<and> length l \<le> 63
     \<and> list_all (\<lambda>c. is_alpha c \<or> is_digit c \<or> c = CHR ''-'' \<or> c = CHR ''_'') l"

definition valid_dmarc_domain :: "string \<Rightarrow> bool" where
  "valid_dmarc_domain d0 = (let d = trim_suffix d0 ''.'' in
     if d = [] \<or> 253 < length d \<or> CHR ''.'' \<notin> set d then False
     else list_all valid_label (split_byte (CHR ''.'') d))"

text \<open>The expression \<^verbatim>\<open>^[0-9]+[kKmMgGtT]?$\<close>.\<close>

definition size_ok :: "string \<Rightarrow> bool" where
  "size_ok s = (let rest = dropWhile is_digit s in
     s \<noteq> [] \<and> is_digit (hd s) \<and> (rest = [] \<or> (length rest = 1 \<and> hd rest \<in> set ''kKmMgGtT'')))"

text \<open>\<^verbatim>\<open>strings.ReplaceAll(s, "%40", "@")\<close>.\<close>

fun replace_at :: "string \<Rightarrow> string" where
  "replace_at (a # b # c # s) = (if a = CHR ''%'' \<and> b = CHR ''4'' \<and> c = CHR ''0'' then CHR ''@'' # replace_at s
     else a # replace_at (b # c # s))"
| "replace_at s = s"

text \<open>\<^verbatim>\<open>net.SplitHostPort\<close>: the host, or \<open>None\<close> for an error.\<close>

definition split_host_port :: "string \<Rightarrow> string option" where
  "split_host_port hostport = (case last_index_byte hostport (CHR '':'') of
     None \<Rightarrow> None
   | Some i \<Rightarrow>
       if hd hostport = CHR ''['' then
         (case index_byte hostport (CHR '']'') of
            None \<Rightarrow> None
          | Some e \<Rightarrow> if Suc e \<noteq> i then None
              else if CHR ''['' \<in> set (drop 1 hostport) \<or> CHR '']'' \<in> set (drop (Suc e) hostport) then None
              else Some (take (e - 1) (drop 1 hostport)))
       else let host = take i hostport in
         if CHR '':'' \<in> set host then None
         else if CHR ''['' \<in> set hostport \<or> CHR '']'' \<in> set hostport then None
         else Some host)"

definition parse_uri :: "string \<Rightarrow> report_uri option" where
  "parse_uri raw0 = (
     let bang = last_index_byte raw0 (CHR ''!'');
         size = (case bang of None \<Rightarrow> [] | Some i \<Rightarrow> drop (Suc i) raw0);
         raw = (case bang of None \<Rightarrow> raw0 | Some i \<Rightarrow> take i raw0)
     in if bang \<noteq> None \<and> \<not> size_ok size then None
     else case cut raw (CHR '':'') of (scheme0, rest, ok) \<Rightarrow>
       if \<not> ok \<or> scheme0 = [] \<or> rest = [] then None
       else let scheme = to_lower scheme0 in
         if scheme = ''mailto'' then
           (let addr = replace_at (fst (cut rest (CHR 0x3F))) in
            case cut addr (CHR ''@'') of (local, domain, has_at) \<Rightarrow>
              if \<not> has_at \<or> local = [] \<or> \<not> valid_dmarc_domain domain then None
              else Some \<lparr>ru_uri = raw0, ru_scheme = scheme, ru_address = addr,
                ru_domain = to_lower (trim_suffix domain ''.''), ru_max_size = size\<rparr>)
         else if scheme = ''https'' \<or> scheme = ''http'' then
           (let host0 = (if has_prefix rest ''//'' then drop 2 rest else []);
                host1 = (case index_any host0 [CHR ''/'', CHR 0x3F, CHR ''#''] of None \<Rightarrow> host0 | Some i \<Rightarrow> take i host0);
                host = (case split_host_port host1 of Some h \<Rightarrow> h | None \<Rightarrow> host1)
            in if \<not> valid_dmarc_domain host then None
               else Some \<lparr>ru_uri = raw0, ru_scheme = scheme, ru_address = [],
                 ru_domain = to_lower (trim_suffix host ''.''), ru_max_size = size\<rparr>)
         else None)"

text \<open>\<open>parse_uris\<close> returns the destinations and the parts that were rejected (with an issue each).\<close>

definition parse_uris :: "string \<Rightarrow> report_uri list \<times> string list" where
  "parse_uris val = (let raws = map (\<lambda>r. trim_set r wsp) (split_byte (CHR '','') val) in
     (List.map_filter (\<lambda>r. if r = [] then None else parse_uri r) raws,
      filter (\<lambda>r. r = [] \<or> parse_uri r = None) raws))"

subsection \<open>The loop over the tags\<close>

record dmarc_state =
  ds_rec :: dmarc_record
  ds_seen :: "string list"
  ds_p_valid :: bool
  ds_p_present :: bool
  ds_sp_invalid :: bool

definition update_rec :: "(dmarc_record \<Rightarrow> dmarc_record) \<Rightarrow> dmarc_state \<Rightarrow> dmarc_state" where
  "update_rec f st = st\<lparr>ds_rec := f (ds_rec st)\<rparr>"

definition add_issue :: "issue_kind \<Rightarrow> string \<Rightarrow> string \<Rightarrow> dmarc_state \<Rightarrow> dmarc_state" where
  "add_issue k tag val st =
     update_rec (\<lambda>r. r\<lparr>dm_issues := dm_issues r @ [\<lparr>is_kind = k, is_tag = tag, is_value = val\<rparr>]\<rparr>) st"

definition parse_fo :: "string \<Rightarrow> string list \<times> bool" where
  "parse_fo val = (let os = map (\<lambda>o'. trim_set o' wsp) (split_byte (CHR '':'') val);
       known = filter (\<lambda>o'. o' \<in> {''0'', ''1'', ''d'', ''s''}) os
     in (known, val \<noteq> [] \<and> length known = length os))"

text \<open>The switch on the name of a tag seen for the first time.\<close>

definition apply_tag :: "string \<Rightarrow> string \<Rightarrow> dmarc_state \<Rightarrow> dmarc_state" where
  "apply_tag name val st = (
     if name = ''v'' then st
     else if name = ''p'' then
       (let st = st\<lparr>ds_p_present := True\<rparr> in case parse_policy val of
          Some p \<Rightarrow> update_rec (\<lambda>r. r\<lparr>dm_policy := p\<rparr>) (st\<lparr>ds_p_valid := True\<rparr>)
        | None \<Rightarrow> add_issue IssueInvalidValue name val st)
     else if name = ''sp'' then
       (case parse_policy val of
          Some p \<Rightarrow> update_rec (\<lambda>r. r\<lparr>dm_subdomain_policy := p\<rparr>) st
        | None \<Rightarrow> add_issue IssueInvalidValue name val (st\<lparr>ds_sp_invalid := True\<rparr>))
     else if name = ''np'' then
       (if parse_policy val = None then add_issue IssueInvalidValue name val st else st)
     else if name = ''pct'' then
       (case parse_int64 val of
          Some n \<Rightarrow> if n < 0 \<or> 100 < n then add_issue IssueInvalidValue name val st
                    else update_rec (\<lambda>r. r\<lparr>dm_percent := n\<rparr>) st
        | None \<Rightarrow> add_issue IssueInvalidValue name val st)
     else if name = ''adkim'' \<or> name = ''aspf'' then
       (case parse_mode val of
          None \<Rightarrow> add_issue IssueInvalidValue name val st
        | Some m \<Rightarrow> if name = ''adkim'' then update_rec (\<lambda>r. r\<lparr>dm_adkim := m\<rparr>) st
                    else update_rec (\<lambda>r. r\<lparr>dm_aspf := m\<rparr>) st)
     else if name = ''rua'' \<or> name = ''ruf'' then
       (case parse_uris val of (uris, bad) \<Rightarrow>
          let st = fold (\<lambda>b. add_issue IssueInvalidURI name b) bad st in
          if name = ''rua'' then update_rec (\<lambda>r. r\<lparr>dm_rua := uris\<rparr>) st
          else update_rec (\<lambda>r. r\<lparr>dm_ruf := uris\<rparr>) st)
     else if name = ''fo'' then
       (case parse_fo val of (opts, valid) \<Rightarrow>
          let st = (if \<not> valid then add_issue IssueInvalidValue name val st else st) in
          if opts \<noteq> [] then update_rec (\<lambda>r. r\<lparr>dm_fo := opts\<rparr>) st else st)
     else if name = ''rf'' then
       (let st = (if list_ex (\<lambda>f. to_lower (trim_set f wsp) \<noteq> ''afrf'') (split_byte (CHR '':'') val)
                  then add_issue IssueInvalidValue name val st else st)
        in update_rec (\<lambda>r. r\<lparr>dm_rf := val\<rparr>) st)
     else if name = ''ri'' then
       (case parse_uint32 val of
          None \<Rightarrow> add_issue IssueInvalidValue name val st
        | Some n \<Rightarrow> update_rec (\<lambda>r. r\<lparr>dm_ri := n\<rparr>) st)
     else if name = ''psd'' then
       (if to_lower val \<notin> {''y'', ''n'', ''u''} then add_issue IssueInvalidValue name val st else st)
     else if name = ''t'' then
       (if to_lower val \<notin> {''y'', ''n''} then add_issue IssueInvalidValue name val st else st)
     else add_issue IssueUnknownTag name name st)"

text \<open>One part between semicolons: name and value, or an error.\<close>

definition split_tag :: "string \<Rightarrow> (string \<times> string) option" where
  "split_tag part = (case cut part (CHR ''='') of (name0, val0, ok) \<Rightarrow>
     let name = to_lower (trim_set name0 wsp); val = trim_set val0 wsp in
     if \<not> ok \<or> name = [] then None else Some (name, val))"

definition parse_part :: "nat \<Rightarrow> string \<Rightarrow> dmarc_state \<Rightarrow> dmarc_error + dmarc_state" where
  "parse_part i part0 st = (let part = trim_set part0 fws in
     if part = [] then Inr st
     else case split_tag part of
       None \<Rightarrow> Inl (MalformedTag part)
     | Some (name, val) \<Rightarrow>
         if i = 0 then Inr (update_rec (\<lambda>r. r\<lparr>dm_tags := dm_tags r @ [\<lparr>dt_name = ''v'', dt_value = val\<rparr>]\<rparr>)
                             (st\<lparr>ds_seen := ''v'' # ds_seen st\<rparr>))
         else
           let st = update_rec (\<lambda>r. r\<lparr>dm_tags := dm_tags r @ [\<lparr>dt_name = name, dt_value = val\<rparr>]\<rparr>) st in
           if name \<in> set (ds_seen st) then Inr (add_issue IssueDuplicateTag name name st)
           else Inr (apply_tag name val (st\<lparr>ds_seen := name # ds_seen st\<rparr>)))"

fun parse_parts :: "nat \<Rightarrow> string list \<Rightarrow> dmarc_state \<Rightarrow> dmarc_error + dmarc_state" where
  "parse_parts i [] st = Inr st"
| "parse_parts i (p # ps) st = (case parse_part i p st of Inl e \<Rightarrow> Inl e | Inr st \<Rightarrow> parse_parts (Suc i) ps st)"

definition dmarc_start :: "string \<Rightarrow> dmarc_state" where
  "dmarc_start txt = \<lparr>ds_rec = \<lparr>dm_raw = txt, dm_tags = [], dm_policy = NoPolicy, dm_subdomain_policy = NoPolicy,
       dm_percent = 100, dm_adkim = ModeRelaxed, dm_aspf = ModeRelaxed, dm_rua = [], dm_ruf = [], dm_fo = [''0''],
       dm_rf = ''afrf'', dm_ri = 86400, dm_policy_implied = False, dm_issues = []\<rparr>,
     ds_seen = [], ds_p_valid = False, ds_p_present = False, ds_sp_invalid = False\<rparr>"

definition finish_record :: "dmarc_state \<Rightarrow> dmarc_error + dmarc_record" where
  "finish_record st = (let rec = ds_rec st in
     if \<not> ds_p_valid st \<or> ds_sp_invalid st then
       if dm_rua rec = [] then
         Inl (if ds_p_valid st then InvalidSpNoRua else if ds_p_present st then InvalidPNoRua else MissingP)
       else Inr (rec\<lparr>dm_policy := PolicyNone, dm_subdomain_policy := NoPolicy, dm_policy_implied := True\<rparr>)
     else Inr rec)"

definition parse_dmarc :: "string \<Rightarrow> dmarc_error + dmarc_record" where
  "parse_dmarc txt = (
     if \<not> is_dmarc txt then Inl NotDmarc
     else case parse_parts 0 (split_byte (CHR '';'') txt) (dmarc_start txt) of
       Inl e \<Rightarrow> Inl e | Inr st \<Rightarrow> finish_record st)"

end
