(* ===== verification/DmarcSpec.thy ===== *)
theory DmarcSpec
  imports Dmarc
begin

section \<open>What a parsed DMARC record says\<close>

text \<open>
  The reference reading of a record: the value of a tag is that of its first occurrence, and each
  field is a function of that value with the default of RFC 7489.  The theorems show that the
  one-pass parser of \<^verbatim>\<open>record.go\<close> computes exactly this reading, that its fields are in range, and
  that a record written from a policy parses back to it.
\<close>

definition first_value :: "dmarc_tag list \<Rightarrow> string \<Rightarrow> string option" where
  "first_value tags name = map_option dt_value (find (\<lambda>t. dt_name t = name) tags)"

definition read_policy :: "dmarc_tag list \<Rightarrow> string \<Rightarrow> policy" where
  "read_policy tags name = (case first_value tags name of None \<Rightarrow> NoPolicy
     | Some v \<Rightarrow> (case parse_policy v of None \<Rightarrow> NoPolicy | Some p \<Rightarrow> p))"

definition invalid_policy :: "dmarc_tag list \<Rightarrow> string \<Rightarrow> bool" where
  "invalid_policy tags name \<longleftrightarrow> (case first_value tags name of None \<Rightarrow> False | Some v \<Rightarrow> parse_policy v = None)"

definition read_percent :: "dmarc_tag list \<Rightarrow> int" where
  "read_percent tags = (case first_value tags ''pct'' of None \<Rightarrow> 100
     | Some v \<Rightarrow> (case parse_int64 v of None \<Rightarrow> 100 | Some n \<Rightarrow> if 0 \<le> n \<and> n \<le> 100 then n else 100))"

definition read_mode :: "dmarc_tag list \<Rightarrow> string \<Rightarrow> mode" where
  "read_mode tags name = (case first_value tags name of None \<Rightarrow> ModeRelaxed
     | Some v \<Rightarrow> (case parse_mode v of None \<Rightarrow> ModeRelaxed | Some m \<Rightarrow> m))"

definition read_uris :: "dmarc_tag list \<Rightarrow> string \<Rightarrow> report_uri list" where
  "read_uris tags name = (case first_value tags name of None \<Rightarrow> [] | Some v \<Rightarrow> fst (parse_uris v))"

definition read_interval :: "dmarc_tag list \<Rightarrow> int" where
  "read_interval tags = (case first_value tags ''ri'' of None \<Rightarrow> 86400
     | Some v \<Rightarrow> (case parse_uint32 v of None \<Rightarrow> 86400 | Some n \<Rightarrow> n))"

definition read_fo :: "dmarc_tag list \<Rightarrow> string list" where
  "read_fo tags = (case first_value tags ''fo'' of None \<Rightarrow> [''0'']
     | Some v \<Rightarrow> (if fst (parse_fo v) \<noteq> [] then fst (parse_fo v) else [''0'']))"

definition read_rf :: "dmarc_tag list \<Rightarrow> string" where
  "read_rf tags = (case first_value tags ''rf'' of None \<Rightarrow> ''afrf'' | Some v \<Rightarrow> v)"

lemmas read_defs = read_policy_def invalid_policy_def read_percent_def read_mode_def read_uris_def
  read_interval_def read_fo_def read_rf_def

lemma first_value_Nil [simp]: "first_value [] name = None"
  by (simp add: first_value_def)

lemma first_value_None_iff: "first_value tags name = None \<longleftrightarrow> name \<notin> dt_name ` set tags"
  by (auto simp: first_value_def find_None_iff)

lemma first_value_snoc:
  "first_value (tags @ [\<lparr>dt_name = n, dt_value = v\<rparr>]) name =
     (if n = name \<and> name \<notin> dt_name ` set tags then Some v else first_value tags name)"
proof (induction tags)
  case (Cons t tags)
  then show ?case by (auto simp: first_value_def)
qed (simp add: first_value_def)

text \<open>The fields of a state agree with the reading of its tags.\<close>

definition agrees :: "dmarc_state \<Rightarrow> bool" where
  "agrees st \<longleftrightarrow> (let r = ds_rec st; tags = dm_tags r in
     set (ds_seen st) = dt_name ` set tags
     \<and> dm_policy r = read_policy tags ''p'' \<and> ds_p_valid st = (read_policy tags ''p'' \<noteq> NoPolicy)
     \<and> dm_subdomain_policy r = read_policy tags ''sp'' \<and> ds_sp_invalid st = invalid_policy tags ''sp''
     \<and> ds_p_present st = (first_value tags ''p'' \<noteq> None)
     \<and> dm_percent r = read_percent tags \<and> dm_adkim r = read_mode tags ''adkim'' \<and> dm_aspf r = read_mode tags ''aspf''
     \<and> dm_rua r = read_uris tags ''rua'' \<and> dm_ruf r = read_uris tags ''ruf''
     \<and> dm_ri r = read_interval tags \<and> dm_fo r = read_fo tags \<and> dm_rf r = read_rf tags \<and> \<not> dm_policy_implied r)"

lemma parse_policy_not_None: "parse_policy v = Some p \<Longrightarrow> p \<noteq> NoPolicy"
  by (auto simp: parse_policy_def Let_def split: if_splits)

lemma agrees_start: "agrees (dmarc_start s)"
  by (simp add: agrees_def dmarc_start_def Let_def read_defs)

lemma agrees_issue [simp]: "agrees (add_issue k tag val st) = agrees st"
  by (simp add: agrees_def add_issue_def update_rec_def Let_def)

lemma agrees_issues [simp]: "agrees (fold (\<lambda>b. add_issue k tag b) bs st) = agrees st"
  by (induction bs arbitrary: st) simp_all

lemma tags_issue [simp]:
  "dm_tags (ds_rec (add_issue k tag val st)) = dm_tags (ds_rec st)"
  "ds_seen (add_issue k tag val st) = ds_seen st"
  by (simp_all add: add_issue_def update_rec_def)

text \<open>Adding a tag whose name was seen, or that is handled as an unknown name, changes no reading.\<close>

lemma readings_snoc_seen:
  assumes "n \<in> dt_name ` set tags"
  shows "first_value (tags @ [\<lparr>dt_name = n, dt_value = v\<rparr>]) = first_value tags"
  using assms by (intro ext) (auto simp: first_value_snoc)

lemma readings_snoc_other:
  assumes "n \<noteq> name"
  shows "first_value (tags @ [\<lparr>dt_name = n, dt_value = v\<rparr>]) name = first_value tags name"
  using assms by (simp add: first_value_snoc)

lemma readings_snoc_new:
  assumes "n \<notin> dt_name ` set tags"
  shows "first_value (tags @ [\<lparr>dt_name = n, dt_value = v\<rparr>]) n = Some v"
  using assms by (simp add: first_value_snoc)

lemma read_cong:
  assumes "first_value tags' = first_value tags"
  shows "read_policy tags' = read_policy tags" "invalid_policy tags' = invalid_policy tags"
    "read_percent tags' = read_percent tags" "read_mode tags' = read_mode tags" "read_uris tags' = read_uris tags"
    "read_interval tags' = read_interval tags" "read_fo tags' = read_fo tags" "read_rf tags' = read_rf tags"
  using assms by (simp_all add: read_defs fun_eq_iff)

lemma agrees_seen:
  assumes "agrees st" and "n \<in> set (ds_seen st)"
  shows "agrees (update_rec (\<lambda>r. r\<lparr>dm_tags := dm_tags r @ [\<lparr>dt_name = n, dt_value = v\<rparr>]\<rparr>) st)"
proof -
  have n: "n \<in> dt_name ` set (dm_tags (ds_rec st))" using assms by (simp add: agrees_def Let_def)
  note c = readings_snoc_seen [OF n, of v]
  show ?thesis
    using assms by (simp add: agrees_def Let_def update_rec_def read_cong [OF c] c insert_absorb n)
qed

definition with_tag :: "string \<Rightarrow> string \<Rightarrow> dmarc_state \<Rightarrow> dmarc_state" where
  "with_tag n v st = (update_rec (\<lambda>r. r\<lparr>dm_tags := dm_tags r @ [\<lparr>dt_name = n, dt_value = v\<rparr>]\<rparr>) st)\<lparr>ds_seen := n # ds_seen st\<rparr>"

lemma read_snoc:
  "read_policy (tags @ [\<lparr>dt_name = n, dt_value = v\<rparr>]) name = (if n = name \<and> name \<notin> dt_name ` set tags
     then (case parse_policy v of None \<Rightarrow> NoPolicy | Some p \<Rightarrow> p) else read_policy tags name)"
  "invalid_policy (tags @ [\<lparr>dt_name = n, dt_value = v\<rparr>]) name = (if n = name \<and> name \<notin> dt_name ` set tags
     then parse_policy v = None else invalid_policy tags name)"
  "read_percent (tags @ [\<lparr>dt_name = n, dt_value = v\<rparr>]) = (if n = ''pct'' \<and> n \<notin> dt_name ` set tags
     then (case parse_int64 v of None \<Rightarrow> 100 | Some n \<Rightarrow> if 0 \<le> n \<and> n \<le> 100 then n else 100) else read_percent tags)"
  "read_mode (tags @ [\<lparr>dt_name = n, dt_value = v\<rparr>]) name = (if n = name \<and> name \<notin> dt_name ` set tags
     then (case parse_mode v of None \<Rightarrow> ModeRelaxed | Some m \<Rightarrow> m) else read_mode tags name)"
  "read_uris (tags @ [\<lparr>dt_name = n, dt_value = v\<rparr>]) name = (if n = name \<and> name \<notin> dt_name ` set tags
     then fst (parse_uris v) else read_uris tags name)"
  "read_interval (tags @ [\<lparr>dt_name = n, dt_value = v\<rparr>]) = (if n = ''ri'' \<and> n \<notin> dt_name ` set tags
     then (case parse_uint32 v of None \<Rightarrow> 86400 | Some n \<Rightarrow> n) else read_interval tags)"
  "read_fo (tags @ [\<lparr>dt_name = n, dt_value = v\<rparr>]) = (if n = ''fo'' \<and> n \<notin> dt_name ` set tags
     then (if fst (parse_fo v) \<noteq> [] then fst (parse_fo v) else [''0'']) else read_fo tags)"
  "read_rf (tags @ [\<lparr>dt_name = n, dt_value = v\<rparr>]) = (if n = ''rf'' \<and> n \<notin> dt_name ` set tags then v else read_rf tags)"
  by (auto simp: read_defs first_value_snoc)

lemma read_absent:
  assumes "n \<notin> dt_name ` set tags"
  shows "read_policy tags n = NoPolicy" "\<not> invalid_policy tags n" "read_mode tags n = ModeRelaxed"
    "read_uris tags n = []" "n = ''pct'' \<Longrightarrow> read_percent tags = 100" "n = ''ri'' \<Longrightarrow> read_interval tags = 86400"
    "n = ''fo'' \<Longrightarrow> read_fo tags = [''0'']"
  using first_value_None_iff [of tags n] assms by (auto simp: read_defs)

text \<open>\<open>apply_tag\<close> on a state that already lists the tag, split by the name.\<close>

lemma agrees_other:
  assumes ag: "agrees st"
    and n: "n \<notin> {''p'', ''sp'', ''pct'', ''adkim'', ''aspf'', ''rua'', ''ruf'', ''ri'', ''fo'', ''rf''}"
  shows "agrees (with_tag n v st)"
proof -
  have n': "n \<noteq> ''p''" "n \<noteq> ''sp''" "n \<noteq> ''pct''" "n \<noteq> ''adkim''" "n \<noteq> ''aspf''" "n \<noteq> ''rua''" "n \<noteq> ''ruf''"
    "n \<noteq> ''ri''" "n \<noteq> ''fo''" "n \<noteq> ''rf''"
    using n by simp_all
  obtain r se a b c where st: "st = \<lparr>ds_rec = r, ds_seen = se, ds_p_valid = a, ds_p_present = b, ds_sp_invalid = c\<rparr>"
    by (cases st)
  show ?thesis using ag
    unfolding agrees_def Let_def with_tag_def update_rec_def st
    by (simp add: read_snoc first_value_snoc n')
qed

lemma uris_after_issues:
  "agrees (update_rec (\<lambda>r. r\<lparr>dm_rua := uris\<rparr>) (fold (\<lambda>b. add_issue k t b) bs st)) =
     agrees (update_rec (\<lambda>r. r\<lparr>dm_rua := uris\<rparr>) st)"
  "agrees (update_rec (\<lambda>r. r\<lparr>dm_ruf := uris\<rparr>) (fold (\<lambda>b. add_issue k t b) bs st)) =
     agrees (update_rec (\<lambda>r. r\<lparr>dm_ruf := uris\<rparr>) st)"
  by (induction bs arbitrary: st) (simp_all add: agrees_def add_issue_def update_rec_def Let_def)

lemma agrees_apply_other:
  assumes "agrees w" and n: "n \<notin> {''p'', ''sp'', ''pct'', ''adkim'', ''aspf'', ''rua'', ''ruf'', ''ri'', ''fo'', ''rf''}"
  shows "agrees (apply_tag n v w)"
  using assms by (simp add: apply_tag_def Let_def)

lemma agrees_apply:
  assumes ag: "agrees st" and seen: "n \<notin> set (ds_seen st)"
  shows "agrees (apply_tag n v (with_tag n v st))"
proof -
  obtain r se a b c where st: "st = \<lparr>ds_rec = r, ds_seen = se, ds_p_valid = a, ds_p_present = b, ds_sp_invalid = c\<rparr>"
    by (cases st)
  have new: "n \<notin> dt_name ` set (dm_tags r)" using ag seen by (simp add: agrees_def Let_def st)
  note absent = read_absent [OF new]
  note facts = agrees_def with_tag_def update_rec_def Let_def read_snoc first_value_snoc add_issue_def st
  consider (p) "n = ''p''" | (sp) "n = ''sp''" | (pct) "n = ''pct''" | (mode) "n = ''adkim'' \<or> n = ''aspf''"
    | (uri) "n = ''rua'' \<or> n = ''ruf''" | (ri) "n = ''ri''" | (fo) "n = ''fo''" | (rf) "n = ''rf''"
    | (other) "n \<notin> {''p'', ''sp'', ''pct'', ''adkim'', ''aspf'', ''rua'', ''ruf'', ''ri'', ''fo'', ''rf''}"
    by simp blast
  then show ?thesis
  proof cases
    case p
    then show ?thesis using ag new absent parse_policy_not_None [of v]
      by (cases "parse_policy v") (simp_all add: apply_tag_def facts)
  next
    case sp
    then show ?thesis using ag new absent
      by (cases "parse_policy v") (simp_all add: apply_tag_def facts)
  next
    case pct
    then show ?thesis using ag new absent
      by (cases "parse_int64 v") (simp_all add: apply_tag_def facts)
  next
    case mode
    then show ?thesis using ag new absent
      by (elim disjE; cases "parse_mode v") (simp_all add: apply_tag_def facts)
  next
    case uri
    obtain uris bad where u: "parse_uris v = (uris, bad)" by force
    have "agrees (update_rec (\<lambda>r. r\<lparr>dm_rua := uris\<rparr>) (with_tag n v st))" if "n = ''rua''"
      using that ag new absent u by (simp add: facts)
    moreover have "agrees (update_rec (\<lambda>r. r\<lparr>dm_ruf := uris\<rparr>) (with_tag n v st))" if "n = ''ruf''"
      using that ag new absent u by (simp add: facts)
    ultimately show ?thesis using uri u
      by (elim disjE) (simp_all add: apply_tag_def Let_def uris_after_issues)
  next
    case ri
    then show ?thesis using ag new absent
      by (cases "parse_uint32 v") (simp_all add: apply_tag_def facts)
  next
    case fo
    then show ?thesis using ag new absent
      by (cases "parse_fo v") (simp_all add: apply_tag_def facts)
  next
    case rf
    then show ?thesis using ag new absent by (simp add: apply_tag_def facts)
  next
    case other
    then show ?thesis by (intro agrees_apply_other agrees_other [OF ag])
  qed
qed

lemma parse_part_cases:
  assumes "parse_part i p st = Inr st'"
  obtains (same) "st' = st"
    | (version) v where "i = 0" "st' = with_tag ''v'' v st"
    | (duplicate) n v where "i \<noteq> 0" "n \<in> set (ds_seen st)"
        "st' = add_issue IssueDuplicateTag n n (update_rec (\<lambda>r. r\<lparr>dm_tags := dm_tags r @ [\<lparr>dt_name = n, dt_value = v\<rparr>]\<rparr>) st)"
    | (tag) n v where "i \<noteq> 0" "n \<notin> set (ds_seen st)" "st' = apply_tag n v (with_tag n v st)"
proof (cases "trim_set p fws = []")
  case True
  then show thesis using assms same by (simp add: parse_part_def)
next
  case False
  show thesis
  proof (cases "split_tag (trim_set p fws)")
    case None
    then show thesis using assms False by (simp add: parse_part_def Let_def)
  next
    case (Some nv)
    obtain n v where nv: "nv = (n, v)" by force
    note eq = assms [unfolded parse_part_def Let_def, simplified False Some nv, simplified]
    have with_tag: "with_tag n v st = (update_rec (\<lambda>r. r\<lparr>dm_tags := dm_tags r @ [\<lparr>dt_name = n, dt_value = v\<rparr>]\<rparr>) st)
        \<lparr>ds_seen := n # ds_seen st\<rparr>" by (simp add: with_tag_def)
    consider "i = 0" | "i \<noteq> 0" "n \<in> set (ds_seen st)" | "i \<noteq> 0" "n \<notin> set (ds_seen st)" by blast
    then show thesis
    proof cases
      case 1
      then have "st' = with_tag ''v'' v st" using eq by (cases st) (auto simp: with_tag_def update_rec_def)
      with 1 version show thesis by blast
    qed (use eq with_tag duplicate [of n v] tag [of n v] in \<open>simp_all add: update_rec_def\<close>)
  qed
qed

text \<open>The first part of a record is its version, so the later parts are what the reading is about.\<close>

lemma agrees_part:
  assumes "agrees st" and "parse_part i p st = Inr st'" and "i = 0 \<longrightarrow> dm_tags (ds_rec st) = []"
  shows "agrees st'"
  using assms(2)
proof (cases rule: parse_part_cases)
  case (version v)
  then show ?thesis using assms(1) agrees_other [of st "''v''" v] by simp
next
  case (duplicate n v)
  then show ?thesis using agrees_seen [OF assms(1) duplicate(2)] by simp
next
  case (tag n v)
  then show ?thesis using agrees_apply [OF assms(1)] by simp
qed (use assms(1) in simp)

lemma agrees_parts: "parse_parts (Suc i) ps st = Inr st' \<Longrightarrow> agrees st \<Longrightarrow> agrees st'"
proof (induction ps arbitrary: i st)
  case (Cons p ps)
  then obtain st1 where "parse_part (Suc i) p st = Inr st1" "parse_parts (Suc (Suc i)) ps st1 = Inr st'"
    by (auto split: sum.splits)
  then show ?case using Cons.IH agrees_part [OF Cons.prems(2), of "Suc i" p st1] by blast
qed simp

text \<open>The tags are those of the text: its parts between semicolons, trimmed, without the empty ones.\<close>

definition text_tag :: "string \<Rightarrow> dmarc_tag" where
  "text_tag part = \<lparr>dt_name = to_lower (trim_set (takeWhile (\<lambda>c. c \<noteq> CHR ''='') part) wsp),
     dt_value = trim_set (tl (dropWhile (\<lambda>c. c \<noteq> CHR ''='') part)) wsp\<rparr>"

definition text_parts :: "string list \<Rightarrow> string list" where
  "text_parts parts = filter (\<lambda>t. t \<noteq> []) (map (\<lambda>part. trim_set part fws) parts)"

definition text_tags :: "string \<Rightarrow> dmarc_tag list" where
  "text_tags s = (case text_parts (split_byte (CHR '';'') s) of [] \<Rightarrow> []
     | first # others \<Rightarrow> (text_tag first)\<lparr>dt_name := ''v''\<rparr> # map text_tag others)"

lemma split_tag_text: "split_tag t = Some (n, v) \<Longrightarrow> text_tag t = \<lparr>dt_name = n, dt_value = v\<rparr>"
proof -
  assume "split_tag t = Some (n, v)"
  then obtain n0 v0 where c: "cut t (CHR ''='') = (n0, v0, True)" "n = to_lower (trim_set n0 wsp)" "v = trim_set v0 wsp"
    by (auto simp: split_tag_def Let_def split: prod.splits if_splits)
  then have "t = n0 @ CHR ''='' # v0" "CHR ''='' \<notin> set n0" by (simp_all add: cut_True)
  then have "takeWhile (\<lambda>c. c \<noteq> CHR ''='') t = n0" "dropWhile (\<lambda>c. c \<noteq> CHR ''='') t = CHR ''='' # v0"
    by (simp_all add: takeWhile_append dropWhile_append3 takeWhile_eq_all_conv, auto simp: takeWhile_append dropWhile_append)
  then show ?thesis using c by (simp add: text_tag_def)
qed

lemma trim_set_blank: "trim_set p cs = [] \<longleftrightarrow> set p \<subseteq> set cs"
proof -
  have "set p = set (takeWhile (\<lambda>x. x \<in> set cs) p) \<union> set (trim_left p cs)"
    by (metis trim_left_def set_append takeWhile_dropWhile_id)
  moreover have "set (takeWhile (\<lambda>x. x \<in> set cs) p) \<subseteq> set cs" by (auto dest: set_takeWhileD)
  moreover have "trim_right t cs = [] \<longleftrightarrow> set t \<subseteq> set cs" for t
    by (auto simp: trim_right_def dropWhile_eq_Nil_conv)
  ultimately show ?thesis by (auto simp: trim_set_def)
qed

definition text_kept :: "dmarc_record \<Rightarrow> dmarc_record \<Rightarrow> bool" where
  "text_kept r r' \<longleftrightarrow> dm_tags r' = dm_tags r \<and> dm_raw r' = dm_raw r"

lemma text_kept_issues: "text_kept r (ds_rec (fold (\<lambda>b. add_issue k tag b) bs st)) = text_kept r (ds_rec st)"
  by (induction bs arbitrary: st) (simp_all add: text_kept_def add_issue_def update_rec_def)

lemma apply_tag_text: "text_kept (ds_rec st) (ds_rec (apply_tag n v st))"
proof -
  have issue: "text_kept r (ds_rec (add_issue k tag val st)) = text_kept r (ds_rec st)" for r k tag val st
    by (simp add: text_kept_def add_issue_def update_rec_def)
  have upd: "text_kept r (ds_rec (update_rec f st)) = text_kept r (f (ds_rec st))" for r f st
    by (simp add: update_rec_def)
  have field: "text_kept r (r'\<lparr>dm_policy := a\<rparr>) = text_kept r r'" "text_kept r (r'\<lparr>dm_subdomain_policy := a\<rparr>) = text_kept r r'"
    "text_kept r (r'\<lparr>dm_percent := b\<rparr>) = text_kept r r'" "text_kept r (r'\<lparr>dm_adkim := c\<rparr>) = text_kept r r'"
    "text_kept r (r'\<lparr>dm_aspf := c\<rparr>) = text_kept r r'" "text_kept r (r'\<lparr>dm_rua := d\<rparr>) = text_kept r r'"
    "text_kept r (r'\<lparr>dm_ruf := d\<rparr>) = text_kept r r'" "text_kept r (r'\<lparr>dm_fo := e\<rparr>) = text_kept r r'"
    "text_kept r (r'\<lparr>dm_rf := g\<rparr>) = text_kept r r'" "text_kept r (r'\<lparr>dm_ri := b\<rparr>) = text_kept r r'"
    for r r' a b c d e g by (simp_all add: text_kept_def)
  have "text_kept r r" for r by (simp add: text_kept_def)
  then show ?thesis
    unfolding apply_tag_def Let_def
    by (simp add: issue upd field text_kept_issues split: option.split prod.split)
qed

lemma parse_part_text:
  assumes "parse_part i p st = Inr st'"
  shows "dm_tags (ds_rec st') = dm_tags (ds_rec st) @ (if trim_set p fws = [] then []
      else [if i = 0 then (text_tag (trim_set p fws))\<lparr>dt_name := ''v''\<rparr> else text_tag (trim_set p fws)])
    \<and> dm_raw (ds_rec st') = dm_raw (ds_rec st)"
proof (cases "trim_set p fws = []")
  case True
  then show ?thesis using assms by (simp add: parse_part_def)
next
  case False
  then obtain n v where nv: "split_tag (trim_set p fws) = Some (n, v)"
    using assms by (cases "split_tag (trim_set p fws)") (auto simp: parse_part_def Let_def)
  have raw: "dm_raw (ds_rec (add_issue k tag val st)) = dm_raw (ds_rec st)" for k tag val st
    by (simp add: add_issue_def update_rec_def)
  note kept = apply_tag_text [of "update_rec (\<lambda>r. r\<lparr>dm_tags := dm_tags r @ [\<lparr>dt_name = n, dt_value = v\<rparr>]\<rparr>) st\<lparr>ds_seen := n # ds_seen st\<rparr>" n v]
  show ?thesis
    using assms False kept split_tag_text [OF nv]
    by (auto simp: parse_part_def nv Let_def update_rec_def raw text_kept_def split: if_splits)
qed

lemma parse_parts_text:
  "parse_parts (Suc i) ps st = Inr st' \<Longrightarrow> dm_tags (ds_rec st') = dm_tags (ds_rec st) @ map text_tag (text_parts ps)
     \<and> dm_raw (ds_rec st') = dm_raw (ds_rec st)"
proof (induction ps arbitrary: i st)
  case (Cons p ps)
  then obtain st1 where "parse_part (Suc i) p st = Inr st1" "parse_parts (Suc (Suc i)) ps st1 = Inr st'"
    by (auto split: sum.splits)
  then show ?case using Cons.IH parse_part_text [of "Suc i" p st st1] by (auto simp: text_parts_def)
qed (simp add: text_parts_def)

lemma parse_dmarc_state:
  assumes "parse_dmarc s = Inr rec"
  obtains st where "agrees st" "finish_record st = Inr rec" "is_dmarc s" "dm_tags (ds_rec st) = text_tags s" "dm_raw (ds_rec st) = s"
proof -
  obtain st where st: "parse_parts 0 (split_byte (CHR '';'') s) (dmarc_start s) = Inr st"
    "finish_record st = Inr rec" "is_dmarc s"
    using assms by (auto simp: parse_dmarc_def split: if_splits sum.splits)
  obtain p ps where ps: "split_byte (CHR '';'') s = p # ps" by (cases "split_byte (CHR '';'') s") auto
  obtain st1 where parts: "parse_part 0 p (dmarc_start s) = Inr st1" "parse_parts 1 ps st1 = Inr st"
    using st(1) ps by (auto split: sum.splits)
  then have "agrees st"
    using agrees_part [OF agrees_start, of 0 p s st1] agrees_parts [of 0 ps st1 st] by (simp add: dmarc_start_def)
  moreover have "trim_set p fws \<noteq> []"
  proof -
    obtain s' where "s = CHR ''v'' # s'" using st(3) by (auto simp: is_dmarc_def split: list.splits)
    then have "CHR ''v'' \<in> set p" using ps by (auto split: list.splits)
    then have "\<not> set p \<subseteq> set fws" by auto
    then show ?thesis by (simp add: trim_set_blank)
  qed
  then have "dm_tags (ds_rec st) = text_tags s" "dm_raw (ds_rec st) = s"
    using parse_part_text [of 0 p "dmarc_start s" st1] parse_parts_text [of 0 ps st1 st] parts
    by (simp_all add: text_tags_def ps text_parts_def dmarc_start_def)
  ultimately show thesis using that st by blast
qed

definition reads :: "dmarc_record \<Rightarrow> bool" where
  "reads r \<longleftrightarrow> (let tags = dm_tags r in
       dm_percent r = read_percent tags
       \<and> dm_adkim r = read_mode tags ''adkim'' \<and> dm_aspf r = read_mode tags ''aspf''
       \<and> dm_rua r = read_uris tags ''rua'' \<and> dm_ruf r = read_uris tags ''ruf''
       \<and> dm_ri r = read_interval tags \<and> dm_fo r = read_fo tags \<and> dm_rf r = read_rf tags
       \<and> (if read_policy tags ''p'' = NoPolicy \<or> invalid_policy tags ''sp''
          then dm_policy_implied r \<and> dm_rua r \<noteq> [] \<and> dm_policy r = PolicyNone \<and> dm_subdomain_policy r = NoPolicy
          else \<not> dm_policy_implied r \<and> dm_policy r = read_policy tags ''p''
            \<and> dm_subdomain_policy r = read_policy tags ''sp''))"

lemma finish_text: "finish_record st = Inr r \<Longrightarrow> dm_tags r = dm_tags (ds_rec st) \<and> dm_raw r = dm_raw (ds_rec st)"
  by (auto simp: finish_record_def Let_def split: if_splits)

lemma finish_reads:
  assumes "agrees st" and "finish_record st = Inr r"
  shows "reads r"
proof -
  obtain q se a b c where st: "st = \<lparr>ds_rec = q, ds_seen = se, ds_p_valid = a, ds_p_present = b, ds_sp_invalid = c\<rparr>"
    by (cases st)
  have ag: "a = (read_policy (dm_tags q) ''p'' \<noteq> NoPolicy)" "c = invalid_policy (dm_tags q) ''sp''"
    using assms(1) by (simp_all add: agrees_def st Let_def)
  show ?thesis
  proof (cases "\<not> a \<or> c")
    case True
    then have "r = q\<lparr>dm_policy := PolicyNone, dm_subdomain_policy := NoPolicy, dm_policy_implied := True\<rparr>" "dm_rua q \<noteq> []"
      using assms(2) by (simp_all add: finish_record_def st split: if_splits)
    then show ?thesis using assms(1) True ag by (simp add: agrees_def st reads_def Let_def)
  next
    case False
    then have "r = q" using assms(2) by (simp add: finish_record_def st)
    then show ?thesis using assms(1) False ag by (simp add: agrees_def st reads_def Let_def)
  qed
qed

subsection \<open>Writing a record\<close>

text \<open>The record a domain publishes for a policy; the program itself never writes one.\<close>

fun policy_text :: "policy \<Rightarrow> string" where
  "policy_text PolicyNone = ''none''"
| "policy_text PolicyQuarantine = ''quarantine''"
| "policy_text PolicyReject = ''reject''"
| "policy_text NoPolicy = []"

fun mode_text :: "mode \<Rightarrow> string" where
  "mode_text ModeStrict = ''s''"
| "mode_text _ = ''r''"

definition dmarc_text :: "policy \<Rightarrow> policy \<Rightarrow> nat \<Rightarrow> mode \<Rightarrow> mode \<Rightarrow> string" where
  "dmarc_text p sp pct adkim aspf = join '';'' [''v=DMARC1'', '' p='' @ policy_text p, '' sp='' @ policy_text sp,
     '' pct='' @ show_nat pct, '' adkim='' @ mode_text adkim, '' aspf='' @ mode_text aspf]"

lemma parse_policy_text [simp]: "p \<noteq> NoPolicy \<Longrightarrow> parse_policy (policy_text p) = Some p"
  by (cases p) (simp_all add: parse_policy_def str_eval)

lemma parse_mode_text [simp]: "m \<noteq> NoMode \<Longrightarrow> parse_mode (mode_text m) = Some m"
  by (cases m) (simp_all add: parse_mode_def str_eval)

definition clean_value :: "string \<Rightarrow> bool" where
  "clean_value v \<longleftrightarrow> v \<noteq> [] \<and> list_all (\<lambda>c. c \<notin> set fws \<and> c \<noteq> CHR '';'') v"

lemma clean_text [simp]:
  "p \<noteq> NoPolicy \<Longrightarrow> clean_value (policy_text p)" "clean_value (mode_text m)" "clean_value (show_nat n)"
proof -
  show "p \<noteq> NoPolicy \<Longrightarrow> clean_value (policy_text p)" by (cases p) (simp_all add: clean_value_def)
  show "clean_value (mode_text m)" by (cases m) (simp_all add: clean_value_def)
  have "is_digit c \<Longrightarrow> c \<notin> set fws \<and> c \<noteq> CHR '';''" for c
    by (auto simp: is_digit_def)
  then show "clean_value (show_nat n)"
    using show_nat_digits [of n] by (auto simp: clean_value_def list_all_iff)
qed

lemma clean_bytes: "clean_value v \<Longrightarrow> c \<in> set v \<Longrightarrow> c \<notin> set fws \<and> c \<noteq> CHR '';''"
  by (simp add: clean_value_def list_all_iff)

lemma clean_ends: "clean_value v \<Longrightarrow> v \<noteq> [] \<and> hd v \<notin> set fws \<and> last v \<notin> set fws"
  using clean_bytes [of v "hd v"] clean_bytes [of v "last v"] by (simp add: clean_value_def)

lemma clean_no_semicolon: "clean_value v \<Longrightarrow> CHR '';'' \<notin> set v"
  using clean_bytes [of v "CHR '';''"] by blast

lemma trim_clean:
  assumes "clean_value v" and "set cs \<subseteq> set fws"
  shows "trim_set v cs = v"
proof (rule trim_set_id)
  show "v = [] \<or> hd v \<notin> set cs \<and> last v \<notin> set cs"
    using clean_ends [OF assms(1)] subsetD [OF assms(2), of "hd v"] subsetD [OF assms(2), of "last v"] by metis
qed

lemma trim_part:
  assumes "clean_value n" and "clean_value v"
  shows "trim_set (CHR '' '' # n @ CHR ''='' # v) fws = n @ CHR ''='' # v"
proof -
  have "trim_set (CHR '' '' # x) fws = trim_set x fws" for x
    by (simp add: trim_set_def trim_left_def)
  moreover have "hd (n @ CHR ''='' # v) \<notin> set fws" "last (n @ CHR ''='' # v) \<notin> set fws"
    using clean_ends [OF assms(1)] clean_ends [OF assms(2)] by (simp_all add: hd_append)
  ultimately show ?thesis using trim_set_id [of "n @ CHR ''='' # v" fws] by simp
qed

lemma parse_clean_part:
  assumes "clean_value n" "clean_value v" "CHR ''='' \<notin> set n" "to_lower n = n" "n \<notin> set (ds_seen st)"
  shows "parse_part (Suc i) (CHR '' '' # n @ CHR ''='' # v) st = Inr (apply_tag n v (with_tag n v st))"
proof -
  have "n \<noteq> []" using assms(1) by (simp add: clean_value_def)
  moreover have "trim_set n wsp = n" "trim_set v wsp = v"
    using trim_clean [OF assms(1), of wsp] trim_clean [OF assms(2), of wsp] by simp_all
  ultimately have "split_tag (n @ CHR ''='' # v) = Some (n, v)"
    using assms(3,4) by (simp add: split_tag_def cut_found)
  then show ?thesis
    using trim_part [OF assms(1,2)] assms(5)
    by (simp add: parse_part_def with_tag_def update_rec_def)
qed

subsection \<open>Properties\<close>


text \<open>What a usable record guarantees to the code that applies it.\<close>

definition uri_ok :: "report_uri \<Rightarrow> bool" where
  "uri_ok u \<longleftrightarrow> ru_scheme u \<in> {''mailto'', ''https'', ''http''} \<and> ru_domain u \<noteq> []
     \<and> (ru_max_size u = [] \<or> size_ok (ru_max_size u))"

definition dmarc_record_ok :: "dmarc_record \<Rightarrow> bool" where
  "dmarc_record_ok r \<longleftrightarrow> dm_policy r \<noteq> NoPolicy \<and> effective_subdomain_policy r \<noteq> NoPolicy
     \<and> 0 \<le> dm_percent r \<and> dm_percent r \<le> 100 \<and> dm_adkim r \<noteq> NoMode \<and> dm_aspf r \<noteq> NoMode
     \<and> list_all uri_ok (dm_rua r) \<and> list_all uri_ok (dm_ruf r)
     \<and> dm_fo r \<noteq> [] \<and> set (dm_fo r) \<subseteq> {''0'', ''1'', ''d'', ''s''} \<and> 0 \<le> dm_ri r \<and> dm_ri r < 2 ^ 32"

lemma parse_uri_ok:
  assumes "parse_uri s = Some u"
  shows "uri_ok u"
proof -
  have nonempty: "valid_dmarc_domain d \<Longrightarrow> trim_suffix d ''.'' \<noteq> []" for d
    by (simp add: valid_dmarc_domain_def Let_def split: if_splits)
  let ?bang = "last_index_byte s (CHR ''!'')"
  let ?size = "case ?bang of None \<Rightarrow> [] | Some i \<Rightarrow> drop (Suc i) s"
  have "ru_scheme u \<in> {''mailto'', ''https'', ''http''} \<and> ru_domain u \<noteq> []
     \<and> ru_max_size u = ?size \<and> (?bang = None \<or> size_ok ?size)"
    using assms unfolding parse_uri_def Let_def
    by (simp split: if_splits prod.splits) (use nonempty in \<open>auto\<close>)
  then show ?thesis by (cases ?bang) (auto simp: uri_ok_def simp del: last_index_byte_None_iff)
qed

lemma parse_uris_ok: "list_all uri_ok (fst (parse_uris v))"
  by (auto simp: parse_uris_def Let_def list_all_iff map_filter_def parse_uri_ok split: if_splits)

lemma parse_uint32_bounds: "parse_uint32 v = Some n \<Longrightarrow> 0 \<le> n \<and> n < 2 ^ 32"
  using digits_val_nonneg [of v] by (auto simp: parse_uint32_def split: if_splits)

lemma read_ranges:
  "0 \<le> read_percent tags" "read_percent tags \<le> 100" "read_mode tags n \<noteq> NoMode" "list_all uri_ok (read_uris tags n)"
  "0 \<le> read_interval tags" "read_interval tags < 2 ^ 32" "read_fo tags \<noteq> []" "set (read_fo tags) \<subseteq> {''0'', ''1'', ''d'', ''s''}"
  by (auto simp: read_defs parse_mode_def Let_def parse_fo_def parse_uris_ok dest: parse_uint32_bounds split: option.splits if_splits)

lemma finish_policy:
  assumes "agrees st" and "finish_record st = Inr r"
  shows "dm_policy r \<noteq> NoPolicy"
  using finish_reads [OF assms] by (simp add: reads_def Let_def split: if_splits)

lemma parse_dmarc_ok:
  assumes "parse_dmarc s = Inr r"
  shows "dmarc_record_ok r"
proof -
  obtain st where st: "agrees st" "finish_record st = Inr r"
    using parse_dmarc_state [OF assms] by blast
  have "dm_percent r = read_percent (dm_tags r)" "dm_adkim r = read_mode (dm_tags r) ''adkim''"
    "dm_aspf r = read_mode (dm_tags r) ''aspf''" "dm_rua r = read_uris (dm_tags r) ''rua''"
    "dm_ruf r = read_uris (dm_tags r) ''ruf''" "dm_ri r = read_interval (dm_tags r)" "dm_fo r = read_fo (dm_tags r)"
    "dm_policy r \<noteq> NoPolicy"
    using finish_reads [OF st] finish_policy [OF st] by (simp_all add: reads_def Let_def)
  then show ?thesis
    using read_ranges [of "dm_tags r"] by (simp add: dmarc_record_ok_def effective_subdomain_policy_def)
qed

text \<open>
  Every field of a usable DMARC record is in range, whatever was published: a policy that is
  none, quarantine or reject, a percentage from 0 to 100, modes that are relaxed or strict, report
  destinations with a known scheme and a domain, a report interval of 32 bits.
\<close>

theorem parse_dmarc_in_range:
  "case parse_dmarc s of Inl _ \<Rightarrow> True | Inr r \<Rightarrow> dmarc_record_ok r"
  by (auto split: sum.split dest: parse_dmarc_ok)

lemma dmarc_text_parts:
  assumes "p \<noteq> NoPolicy" "sp \<noteq> NoPolicy"
  shows "split_byte (CHR '';'') (dmarc_text p sp pct adkim aspf) = [''v=DMARC1'', '' p='' @ policy_text p, '' sp='' @ policy_text sp,
     '' pct='' @ show_nat pct, '' adkim='' @ mode_text adkim, '' aspf='' @ mode_text aspf]"
  using clean_no_semicolon [OF clean_text(1) [OF assms(1)]] clean_no_semicolon [OF clean_text(1) [OF assms(2)]]
    clean_no_semicolon [OF clean_text(2), of adkim] clean_no_semicolon [OF clean_text(2), of aspf]
    clean_no_semicolon [OF clean_text(3), of pct]
  unfolding dmarc_text_def by (intro split_byte_join) simp_all

text \<open>
  Claim C22. Round trip of DMARC records: the record published for a policy, a subdomain policy, a
  percentage and two alignment modes is usable and parses to exactly these, without an issue.
\<close>

theorem parse_dmarc_text:
  assumes "p \<noteq> NoPolicy" "sp \<noteq> NoPolicy" "pct \<le> 100" "adkim \<noteq> NoMode" "aspf \<noteq> NoMode"
  shows "case parse_dmarc (dmarc_text p sp pct adkim aspf) of Inl _ \<Rightarrow> False
    | Inr r \<Rightarrow> dm_policy r = p \<and> dm_subdomain_policy r = sp \<and> dm_percent r = int pct
        \<and> dm_adkim r = adkim \<and> dm_aspf r = aspf \<and> dm_issues r = [] \<and> \<not> dm_policy_implied r"
proof -
  let ?s = "dmarc_text p sp pct adkim aspf"
  have d: "is_dmarc ?s"
    by (simp add: is_dmarc_def dmarc_text_def skip_wsp_def has_prefix_def)
  have names: "clean_value ''p''" "clean_value ''sp''" "clean_value ''pct''" "clean_value ''adkim''" "clean_value ''aspf''"
    "to_lower ''p'' = ''p''" "to_lower ''sp'' = ''sp''" "to_lower ''pct'' = ''pct''" "to_lower ''adkim'' = ''adkim''"
    "to_lower ''aspf'' = ''aspf''"
    by (simp_all add: clean_value_def str_eval)
  have v: "parse_part 0 ''v=DMARC1'' st = Inr (with_tag ''v'' ''DMARC1'' st)" for st
    by (cases st) (simp add: parse_part_def trim_defs split_tag_def cut_def index_byte_def with_tag_def update_rec_def)
  note tags = parse_clean_part [of "''p''", simplified names, simplified] parse_clean_part [of "''sp''", simplified names, simplified]
    parse_clean_part [of "''pct''", simplified names, simplified] parse_clean_part [of "''adkim''", simplified names, simplified]
    parse_clean_part [of "''aspf''", simplified names, simplified]
  have n: "parse_int64 (show_nat pct) = Some (int pct)"
    using assms(3) by (simp add: parse_int64_digits show_nat_digits)
  show ?thesis
    using assms n
    by (simp add: parse_dmarc_def d dmarc_text_parts v tags apply_tag_def with_tag_def update_rec_def dmarc_start_def finish_record_def)
qed

theorem parse_dmarc_text_witness:
  "case parse_dmarc ''v=DMARC1; p=reject; sp=none; pct=25; adkim=s; aspf=r'' of Inl _ \<Rightarrow> False
    | Inr r \<Rightarrow> dm_policy r = PolicyReject \<and> dm_subdomain_policy r = PolicyNone \<and> dm_percent r = 25
        \<and> dm_adkim r = ModeStrict \<and> dm_aspf r = ModeRelaxed \<and> dm_issues r = [] \<and> \<not> dm_policy_implied r"
proof -
  have "dmarc_text PolicyReject PolicyNone 25 ModeStrict ModeRelaxed
      = ''v=DMARC1; p=reject; sp=none; pct=25; adkim=s; aspf=r''"
    by (simp add: dmarc_text_def show_nat.simps digit_char_def char_of_def)
  then show ?thesis
    using parse_dmarc_text [of PolicyReject PolicyNone 25 ModeStrict ModeRelaxed]
    by (cases "parse_dmarc ''v=DMARC1; p=reject; sp=none; pct=25; adkim=s; aspf=r''") simp_all
qed

end
