(* ===== verification/DmarcPolicy.thy ===== *)
theory DmarcPolicy
  imports DmarcSpec DnsBudget FindingsCatalog
begin

section \<open>DMARC alignment, discovery and evaluation (internal/dmarc)\<close>

text \<open>
  The models of \<^verbatim>\<open>alignment.go\<close>, \<^verbatim>\<open>discover.go\<close>, \<^verbatim>\<open>evaluate.go\<close> and \<^verbatim>\<open>assess.go\<close>.  Two functions the code takes from
  elsewhere are parameters: \<open>etld1\<close>, the public suffix list's \<^verbatim>\<open>EffectiveTLDPlusOne\<close> (\<open>None\<close> is its error), and
  \<open>parse_list\<close>, the mailboxes of an address list as \<^verbatim>\<open>net/mail\<close> reads them, each with the domain that
  \<^verbatim>\<open>mailparser\<close> gives it (\<open>None\<close> is a syntax error).
\<close>

subsection \<open>Alignment\<close>

type_synonym suffix_list = "string \<Rightarrow> string option"

definition normalize :: "string \<Rightarrow> string" where
  "normalize d = to_lower (trim_suffix (trim_space d) ''.'')"

definition organizational_domain :: "suffix_list \<Rightarrow> string \<Rightarrow> string" where
  "organizational_domain etld1 d0 = (let d = normalize d0 in
     if d = [] then [] else case etld1 d of None \<Rightarrow> d | Some org \<Rightarrow> org)"

definition aligned :: "suffix_list \<Rightarrow> string \<Rightarrow> string \<Rightarrow> mode \<Rightarrow> bool" where
  "aligned etld1 auth_domain from_domain m = (let a = normalize auth_domain; f = normalize from_domain in
     if a = [] \<or> f = [] then False
     else if a = f then True
     else if m = ModeStrict then False
     else organizational_domain etld1 a = organizational_domain etld1 f)"

subsection \<open>Discovery\<close>

record discovery =
  dd_domain :: string
  dd_org_domain :: string
  dd_policy_domain :: string
  dd_records :: "string list"
  dd_record :: "dmarc_record option"
  dd_parse_err :: "dmarc_error option"
  dd_inherited :: bool

definition new_discovery :: "suffix_list \<Rightarrow> string \<Rightarrow> discovery" where
  "new_discovery etld1 domain = \<lparr>dd_domain = normalize domain, dd_org_domain = organizational_domain etld1 domain,
     dd_policy_domain = [], dd_records = [], dd_record = None, dd_parse_err = None, dd_inherited = False\<rparr>"

definition take_records :: "string \<Rightarrow> string list \<Rightarrow> discovery \<Rightarrow> bool \<times> discovery" where
  "take_records name txts d = (let records = filter is_dmarc txts in
     if records = [] then (False, d)
     else let d = d\<lparr>dd_policy_domain := name, dd_records := records\<rparr> in
       (True, case records of
          [r] \<Rightarrow> (case parse_dmarc r of
              Inl err \<Rightarrow> d\<lparr>dd_record := None, dd_parse_err := Some err\<rparr>
            | Inr rec \<Rightarrow> d\<lparr>dd_record := Some rec, dd_parse_err := None\<rparr>)
        | _ \<Rightarrow> d))"

definition try_name :: "string \<Rightarrow> discovery \<Rightarrow> ((dns_error + bool) \<times> discovery) dns" where
  "try_name name d = AskTXT (''_dmarc.'' @ name) (\<lambda>ans. Ret (case ans of
     Inl err \<Rightarrow> if is_nxdomain err then (Inr False, d) else (Inl err, d)
   | Inr txts \<Rightarrow> (case take_records name txts d of (found, d) \<Rightarrow> (Inr found, d))))"

definition discover :: "suffix_list \<Rightarrow> string \<Rightarrow> (discovery \<times> dns_error option) dns" where
  "discover etld1 domain = (let d = new_discovery etld1 domain in
     and_then (try_name (dd_domain d) d) (\<lambda>(r, d). case r of
       Inl err \<Rightarrow> Ret (d, Some err)
     | Inr found \<Rightarrow>
         if found then Ret (d, None)
         else if dd_org_domain d = dd_domain d \<or> dd_org_domain d = [] then Ret (d, None)
         else and_then (try_name (dd_org_domain d) d) (\<lambda>(r, d). Ret (case r of
           Inl err \<Rightarrow> (d, Some err)
         | Inr found \<Rightarrow> (if found then d\<lparr>dd_inherited := True\<rparr> else d, None)))))"

definition discovered_policy :: "discovery \<Rightarrow> dmarc_record option" where
  "discovered_policy d = (if length (dd_records d) \<noteq> 1 \<or> dd_parse_err d \<noteq> None then None else dd_record d)"

subsection \<open>Evaluation of a message\<close>

record dkim_input =
  di_domain :: string
  di_result :: string

record message_input =
  mi_from_headers :: "string list"
  mi_spf_result :: string
  mi_spf_domain :: string
  mi_spf_inferred :: bool
  mi_dkim :: "dkim_input list"

datatype message_result = NotEvaluated | MessagePass | MessageFail | MessageNone | MessageTempError
  | MessagePermError | MessageIndeterminate

record mailbox =
  mb_address :: string
  mb_domain :: string

datatype from_problem = NoFromHeader | SeveralFromHeaders nat | FromUnparsable | SeveralMailboxes nat
  | NoFromDomain string

datatype open_item = OpenSPF | OpenDKIM string

datatype message_reason = NoReasonYet | BadFrom from_problem | PolicyLookupFailed dns_error
  | NoPolicyPublished string | SeveralPolicies string | InvalidPolicy string "dmarc_error option"
  | AlignedVia "string option" "string option" | TempItems "open_item list" | OpenItems "open_item list"
  | NothingAligned string

record message_evaluation =
  me_result :: message_result
  me_reason :: message_reason
  me_from_domain :: string
  me_discovery :: "discovery option"
  me_policy :: policy
  me_percent :: int
  me_disposition :: policy
  me_spf_aligned :: bool
  me_dkim_aligned :: bool
  me_aligned_dkim_domain :: string
  me_adkim :: mode
  me_aspf :: mode
  me_findings :: "observation list"

definition new_message_evaluation :: message_evaluation where
  "new_message_evaluation = \<lparr>me_result = NotEvaluated, me_reason = NoReasonYet, me_from_domain = [], me_discovery = None,
     me_policy = NoPolicy, me_percent = 0, me_disposition = NoPolicy, me_spf_aligned = False, me_dkim_aligned = False,
     me_aligned_dkim_domain = [], me_adkim = NoMode, me_aspf = NoMode, me_findings = []\<rparr>"

definition author_domain :: "(string \<Rightarrow> mailbox list option) \<Rightarrow> string list \<Rightarrow> from_problem + string" where
  "author_domain parse_list from_headers = (case from_headers of
     [] \<Rightarrow> Inl NoFromHeader
   | [h] \<Rightarrow> (case parse_list h of
        None \<Rightarrow> Inl FromUnparsable
      | Some [m] \<Rightarrow> if mb_domain m = [] \<or> \<not> valid_dmarc_domain (mb_domain m) then Inl (NoFromDomain (mb_address m))
                   else Inr (mb_domain m)
      | Some ms \<Rightarrow> Inl (SeveralMailboxes (length ms)))
   | hs \<Rightarrow> Inl (SeveralFromHeaders (length hs)))"

text \<open>The first passing DKIM signature that is aligned decides.\<close>

definition first_aligned_dkim :: "suffix_list \<Rightarrow> string \<Rightarrow> mode \<Rightarrow> dkim_input list \<Rightarrow> dkim_input option" where
  "first_aligned_dkim etld1 from m ds = find (\<lambda>d. di_result d = ''pass'' \<and> aligned etld1 (di_domain d) from m) ds"

definition temp_items :: "suffix_list \<Rightarrow> string \<Rightarrow> dmarc_record \<Rightarrow> message_input \<Rightarrow> open_item list" where
  "temp_items etld1 from rec inp =
     (if mi_spf_result inp = ''temperror'' \<and> aligned etld1 (mi_spf_domain inp) from (dm_aspf rec) then [OpenSPF] else [])
     @ map (\<lambda>d. OpenDKIM (di_domain d))
         (filter (\<lambda>d. aligned etld1 (di_domain d) from (dm_adkim rec) \<and> di_result d = ''temperror'') (mi_dkim inp))"

definition incomplete_items :: "suffix_list \<Rightarrow> string \<Rightarrow> dmarc_record \<Rightarrow> message_input \<Rightarrow> open_item list" where
  "incomplete_items etld1 from rec inp =
     (if mi_spf_result inp = [] then [OpenSPF] else [])
     @ map (\<lambda>d. OpenDKIM (di_domain d))
         (filter (\<lambda>d. aligned etld1 (di_domain d) from (dm_adkim rec) \<and> di_result d = ''neutral'') (mi_dkim inp))"

definition near_misses :: "suffix_list \<Rightarrow> string \<Rightarrow> dmarc_record \<Rightarrow> message_input \<Rightarrow> observation list" where
  "near_misses etld1 from rec inp =
     (if mi_spf_result inp = ''pass'' \<and> \<not> aligned etld1 (mi_spf_domain inp) from (dm_aspf rec) then
        if dm_aspf rec = ModeStrict \<and> aligned etld1 (mi_spf_domain inp) from ModeRelaxed
        then [observe DMARCMessageStrictMisalign from] else [observe DMARCMessageSPFUnaligned from]
      else [])
     @ map (\<lambda>d. if dm_adkim rec = ModeStrict \<and> aligned etld1 (di_domain d) from ModeRelaxed
          then observe DMARCMessageStrictMisalign from else observe DMARCMessageDKIMUnaligned from)
        (filter (\<lambda>d. di_result d = ''pass'') (mi_dkim inp))"

text \<open>What \<^verbatim>\<open>EvaluateMessage\<close> does once it has the record.\<close>

definition apply_policy :: "suffix_list \<Rightarrow> string \<Rightarrow> discovery \<Rightarrow> dmarc_record \<Rightarrow> message_input \<Rightarrow> message_evaluation
    \<Rightarrow> message_evaluation" where
  "apply_policy etld1 from disc rec inp ev0 = (
     let policy = (if dd_inherited disc then effective_subdomain_policy rec else dm_policy rec);
         spf = (mi_spf_result inp = ''pass'' \<and> aligned etld1 (mi_spf_domain inp) from (dm_aspf rec));
         dkim = first_aligned_dkim etld1 from (dm_adkim rec) (mi_dkim inp);
         ev = ev0\<lparr>me_adkim := dm_adkim rec, me_aspf := dm_aspf rec, me_percent := dm_percent rec, me_policy := policy,
           me_spf_aligned := spf, me_dkim_aligned := (dkim \<noteq> None),
           me_aligned_dkim_domain := (case dkim of None \<Rightarrow> [] | Some d \<Rightarrow> to_lower (di_domain d))\<rparr>
     in if spf \<or> dkim \<noteq> None then
          ev\<lparr>me_result := MessagePass,
             me_reason := AlignedVia (map_option (\<lambda>d. to_lower (di_domain d)) dkim) (if spf then Some (mi_spf_domain inp) else None),
             me_findings := me_findings ev @ [observe DMARCMessagePass from]\<rparr>
        else
          let temp = temp_items etld1 from rec inp; incomplete = incomplete_items etld1 from rec inp in
          if temp \<noteq> [] then
            ev\<lparr>me_result := MessageTempError, me_reason := TempItems temp,
               me_findings := me_findings ev @ [observe DMARCMessageTempError from]\<rparr>
          else if incomplete \<noteq> [] then
            ev\<lparr>me_result := MessageIndeterminate, me_reason := OpenItems incomplete,
               me_findings := me_findings ev @ [observe DMARCMessageIndeterminate from]\<rparr>
          else
            ev\<lparr>me_result := MessageFail, me_disposition := policy, me_reason := NothingAligned from,
               me_findings := me_findings ev
                 @ [if policy = PolicyNone then observe_at SeverityMedium DMARCMessageFail from else observe DMARCMessageFail from]
                 @ near_misses etld1 from rec inp\<rparr>)"

definition evaluate_message :: "suffix_list \<Rightarrow> (string \<Rightarrow> mailbox list option) \<Rightarrow> message_input \<Rightarrow> message_evaluation dns" where
  "evaluate_message etld1 parse_list inp = (let ev = new_message_evaluation in
     case author_domain parse_list (mi_from_headers inp) of
       Inl problem \<Rightarrow> Ret (ev\<lparr>me_result := MessagePermError, me_reason := BadFrom problem,
          me_findings := [observe DMARCMessageBadFrom []]\<rparr>)
     | Inr from \<Rightarrow>
        and_then (discover etld1 from) (\<lambda>(disc, err).
          let ev = ev\<lparr>me_from_domain := from, me_discovery := Some disc\<rparr> in
          case err of
            Some e \<Rightarrow> Ret (ev\<lparr>me_result := MessageTempError, me_reason := PolicyLookupFailed e,
               me_findings := [observe DMARCMessageTempError from]\<rparr>)
          | None \<Rightarrow> (case discovered_policy disc of
              None \<Rightarrow> Ret (ev\<lparr>me_result := MessageNone,
                me_reason := (if dd_records disc = [] then NoPolicyPublished from
                  else if 1 < length (dd_records disc) then SeveralPolicies (dd_policy_domain disc)
                  else InvalidPolicy (dd_policy_domain disc) (dd_parse_err disc)),
                me_findings := [observe DMARCMessageNoPolicy from]\<rparr>)
            | Some rec \<Rightarrow> Ret (apply_policy etld1 from disc rec inp ev))))"

subsection \<open>Assessment of a domain\<close>

record assessment =
  as_discovery :: discovery
  as_findings :: "observation list"

definition issue_rule :: "issue_kind \<Rightarrow> rule" where
  "issue_rule k = (case k of
     IssueInvalidValue \<Rightarrow> DMARCInvalidValue
   | IssueDuplicateTag \<Rightarrow> DMARCDuplicateTag
   | IssueUnknownTag \<Rightarrow> DMARCUnknownTag
   | IssueInvalidURI \<Rightarrow> DMARCInvalidURI)"

text \<open>The loop of \<open>checkExternalDestinations\<close>: the domains checked so far, the findings and the last infrastructure error.\<close>

fun external_loop :: "suffix_list \<Rightarrow> string \<Rightarrow> report_uri list \<Rightarrow> string list \<Rightarrow> observation list \<Rightarrow> dns_error option
    \<Rightarrow> (observation list \<times> dns_error option) dns" where
  "external_loop etld1 policy_domain [] checked os infra = Ret (os, infra)"
| "external_loop etld1 policy_domain (u # us) checked os infra =
     (if ru_domain u = [] \<or> organizational_domain etld1 (ru_domain u) = organizational_domain etld1 policy_domain
         \<or> ru_domain u \<in> set checked
      then external_loop etld1 policy_domain us checked os infra
      else AskTXT (policy_domain @ ''._report._dmarc.'' @ ru_domain u) (\<lambda>ans.
        case ans of
          Inl err \<Rightarrow>
            if is_nxdomain err then
              external_loop etld1 policy_domain us (ru_domain u # checked) (os @ [observe DMARCExternalUnauthorized (ru_domain u)]) infra
            else external_loop etld1 policy_domain us (ru_domain u # checked) (os @ [observe DNSLookupFailed (ru_domain u)])
                   (if is_infrastructure err then Some err else infra)
        | Inr txts \<Rightarrow>
            external_loop etld1 policy_domain us (ru_domain u # checked)
              (if list_ex is_dmarc txts then os else os @ [observe DMARCExternalUnauthorized (ru_domain u)]) infra))"

definition check_external_destinations ::
  "suffix_list \<Rightarrow> string \<Rightarrow> dmarc_record \<Rightarrow> (observation list \<times> dns_error option) dns" where
  "check_external_destinations etld1 policy_domain rec =
     external_loop etld1 policy_domain (dm_rua rec @ dm_ruf rec) [] [] None"

text \<open>The findings on a usable record, before the report destinations are checked.\<close>

definition assess_record :: "discovery \<Rightarrow> dmarc_record \<Rightarrow> observation list" where
  "assess_record disc rec = (
     let subject = dd_domain disc;
         effective = (if dd_inherited disc then effective_subdomain_policy rec else dm_policy rec)
     in (if dd_inherited disc then [observe DMARCInherited subject] else [])
      @ (if dm_policy_implied rec then [observe_at SeverityMedium DMARCInvalid subject] else [])
      @ map (\<lambda>i. observe (issue_rule (is_kind i)) subject) (dm_issues rec)
      @ (case effective of PolicyNone \<Rightarrow> [observe DMARCPolicyNone subject]
           | PolicyQuarantine \<Rightarrow> [observe DMARCPolicyQuarantine subject] | _ \<Rightarrow> [])
      @ (if dm_percent rec < 100 \<and> effective \<noteq> PolicyNone
         then [observe_at (if dm_percent rec = 0 then SeverityHigh else SeverityMedium) DMARCPartialPct subject] else [])
      @ (if \<not> dd_inherited disc \<and> dm_subdomain_policy rec \<noteq> NoPolicy
            \<and> strength (dm_subdomain_policy rec) < strength (dm_policy rec)
         then [observe DMARCWeakSubdomainPolicy subject] else [])
      @ (if dm_rua rec = [] then [observe DMARCNoRUA subject] else [])
      @ (if dm_ruf rec \<noteq> [] then [observe DMARCRUF subject]
         else if has_tag rec ''fo'' then [observe DMARCFONoRUF subject] else [])
      @ (if dm_adkim rec = ModeStrict \<or> dm_aspf rec = ModeStrict then [observe DMARCStrictAlignment subject] else []))"

definition assess_dmarc :: "suffix_list \<Rightarrow> string \<Rightarrow> (assessment \<times> dns_error option) dns" where
  "assess_dmarc etld1 domain = and_then (discover etld1 domain) (\<lambda>(disc, err).
     let subject = dd_domain disc; done = (\<lambda>os e. Ret (\<lparr>as_discovery = disc, as_findings = os\<rparr>, e)) in
     case err of
       Some e \<Rightarrow> done [observe DNSLookupFailed subject] (Some e)
     | None \<Rightarrow>
        if dd_records disc = [] then done [observe DMARCMissing subject] None
        else if 1 < length (dd_records disc) then done [observe DMARCMultiple subject] None
        else (case dd_record disc of
          None \<Rightarrow> done [observe DMARCInvalid subject] None
        | Some rec \<Rightarrow>
            and_then (check_external_destinations etld1 (dd_policy_domain disc) rec) (\<lambda>(ext, e).
              let os = assess_record disc rec @ ext;
                  effective = (if dd_inherited disc then effective_subdomain_policy rec else dm_policy rec)
              in case e of
                Some err \<Rightarrow> done os (Some err)
              | None \<Rightarrow> done (if observed_max os \<le> SeverityInfo \<and> effective = PolicyReject
                              then os @ [observe DMARCEnforced subject] else os) None)))"

end
