(* ===== verification/DnsTranscript.thy ===== *)
theory DnsTranscript
  imports DnsBudget
begin

section \<open>What a check was told\<close>

text \<open>
  The transcript of a check: its questions with their answers, in order.  \<open>told P m log\<close> says that the program \<open>m\<close>,
  after \<open>log\<close>, ends with a value \<open>x\<close> and a transcript \<open>log'\<close> with \<open>P log' x\<close>, whatever the DNS answers; \<open>replies r s
  log s'\<close> says that the resolver \<open>r\<close> gives these answers when it is asked these questions from state \<open>s\<close> on.  With
  them a property can speak of the record that a result rests on.
\<close>

datatype dns_reply = GotTXT string "string list answer"
  | GotMX string "mx_record list answer"
  | GotA string "addr list answer"
  | GotAAAA string "addr list answer"
  | GotCNAME string "string answer"
  | GotPTR addr "string list answer"

primrec told :: "(dns_reply list \<Rightarrow> 'a \<Rightarrow> bool) \<Rightarrow> 'a dns \<Rightarrow> dns_reply list \<Rightarrow> bool" where
  "told P (Ret x) l = P l x"
| "told P (AskTXT n k) l = (\<forall>a. told P (k a) (l @ [GotTXT n a]))"
| "told P (AskMX n k) l = (\<forall>a. told P (k a) (l @ [GotMX n a]))"
| "told P (AskA n k) l = (\<forall>a. told P (k a) (l @ [GotA n a]))"
| "told P (AskAAAA n k) l = (\<forall>a. told P (k a) (l @ [GotAAAA n a]))"
| "told P (AskCNAME n k) l = (\<forall>a. told P (k a) (l @ [GotCNAME n a]))"
| "told P (AskPTR n k) l = (\<forall>a. told P (k a) (l @ [GotPTR n a]))"

lemma told_and_then: "told P (and_then m f) l = told (\<lambda>l x. told P (f x) l) m l"
  by (induction m arbitrary: l) auto

lemma told_mono: "told P m l \<Longrightarrow> (\<And>l' x. set l \<subseteq> set l' \<Longrightarrow> P l' x \<Longrightarrow> Q l' x) \<Longrightarrow> told Q m l"
proof (induction m arbitrary: l)
  case (Ret x)
  then show ?case by simp
qed fastforce+

lemma told_bindI:
  "told Q m l \<Longrightarrow> (\<And>l' x. set l \<subseteq> set l' \<Longrightarrow> Q l' x \<Longrightarrow> told P (f x) l') \<Longrightarrow> told P (and_then m f) l"
  by (auto simp: told_and_then elim: told_mono)

lemma told_bind_pairI:
  assumes "told (\<lambda>l (a, b). Q l a b) m l" and "\<And>l' a b. set l \<subseteq> set l' \<Longrightarrow> Q l' a b \<Longrightarrow> told P (f (a, b)) l'"
  shows "told P (and_then m f) l"
  by (rule told_bindI [OF assms(1)]) (auto intro: assms(2))

lemma told_trivial [simp]: "told (\<lambda>_ _. True) m l"
  by (induction m arbitrary: l) auto

text \<open>The answers of a resolver.\<close>

inductive replies :: "'s resolver \<Rightarrow> 's \<Rightarrow> dns_reply list \<Rightarrow> 's \<Rightarrow> bool" for r where
  no_reply: "replies r s [] s"
| reply_txt: "lookup_txt r s n = (a, s1) \<Longrightarrow> replies r s1 l s' \<Longrightarrow> replies r s (GotTXT n a # l) s'"
| reply_mx: "lookup_mx r s n = (b, s1) \<Longrightarrow> replies r s1 l s' \<Longrightarrow> replies r s (GotMX n b # l) s'"
| reply_a: "lookup_a r s n = (c, s1) \<Longrightarrow> replies r s1 l s' \<Longrightarrow> replies r s (GotA n c # l) s'"
| reply_aaaa: "lookup_aaaa r s n = (c, s1) \<Longrightarrow> replies r s1 l s' \<Longrightarrow> replies r s (GotAAAA n c # l) s'"
| reply_cname: "lookup_cname r s n = (d, s1) \<Longrightarrow> replies r s1 l s' \<Longrightarrow> replies r s (GotCNAME n d # l) s'"
| reply_ptr: "lookup_ptr r s ip = (a, s1) \<Longrightarrow> replies r s1 l s' \<Longrightarrow> replies r s (GotPTR ip a # l) s'"

lemma replies_append: "replies r s l s1 \<Longrightarrow> replies r s1 l' s' \<Longrightarrow> replies r s (l @ l') s'"
  by (induction rule: replies.induct) (auto intro: replies.intros)

lemma told_run: "told P m l \<Longrightarrow> \<exists>l'. replies r s l' (snd (run m r s)) \<and> P (l @ l') (fst (run m r s))"
proof (induction m arbitrary: l s)
  case (Ret x)
  then show ?case by (auto intro: no_reply exI [of _ "[]"])
next
  case (AskTXT n k)
  obtain a s1 where ask: "lookup_txt r s n = (a, s1)" by fastforce
  have "told P (k a) (l @ [GotTXT n a])" using AskTXT.prems by simp
  from AskTXT.IH [OF _ this, of s1] obtain l' where "replies r s1 l' (snd (run (k a) r s1))"
    "P ((l @ [GotTXT n a]) @ l') (fst (run (k a) r s1))" by auto
  then show ?case using reply_txt [of r, OF ask] by (intro exI [of _ "GotTXT n a # l'"]) (simp add: ask)
next
  case (AskMX n k)
  obtain a s1 where ask: "lookup_mx r s n = (a, s1)" by fastforce
  have "told P (k a) (l @ [GotMX n a])" using AskMX.prems by simp
  from AskMX.IH [OF _ this, of s1] obtain l' where "replies r s1 l' (snd (run (k a) r s1))"
    "P ((l @ [GotMX n a]) @ l') (fst (run (k a) r s1))" by auto
  then show ?case using reply_mx [of r, OF ask] by (intro exI [of _ "GotMX n a # l'"]) (simp add: ask)
next
  case (AskA n k)
  obtain a s1 where ask: "lookup_a r s n = (a, s1)" by fastforce
  have "told P (k a) (l @ [GotA n a])" using AskA.prems by simp
  from AskA.IH [OF _ this, of s1] obtain l' where "replies r s1 l' (snd (run (k a) r s1))"
    "P ((l @ [GotA n a]) @ l') (fst (run (k a) r s1))" by auto
  then show ?case using reply_a [of r, OF ask] by (intro exI [of _ "GotA n a # l'"]) (simp add: ask)
next
  case (AskAAAA n k)
  obtain a s1 where ask: "lookup_aaaa r s n = (a, s1)" by fastforce
  have "told P (k a) (l @ [GotAAAA n a])" using AskAAAA.prems by simp
  from AskAAAA.IH [OF _ this, of s1] obtain l' where "replies r s1 l' (snd (run (k a) r s1))"
    "P ((l @ [GotAAAA n a]) @ l') (fst (run (k a) r s1))" by auto
  then show ?case using reply_aaaa [of r, OF ask] by (intro exI [of _ "GotAAAA n a # l'"]) (simp add: ask)
next
  case (AskCNAME n k)
  obtain a s1 where ask: "lookup_cname r s n = (a, s1)" by fastforce
  have "told P (k a) (l @ [GotCNAME n a])" using AskCNAME.prems by simp
  from AskCNAME.IH [OF _ this, of s1] obtain l' where "replies r s1 l' (snd (run (k a) r s1))"
    "P ((l @ [GotCNAME n a]) @ l') (fst (run (k a) r s1))" by auto
  then show ?case using reply_cname [of r, OF ask] by (intro exI [of _ "GotCNAME n a # l'"]) (simp add: ask)
next
  case (AskPTR n k)
  obtain a s1 where ask: "lookup_ptr r s n = (a, s1)" by fastforce
  have "told P (k a) (l @ [GotPTR n a])" using AskPTR.prems by simp
  from AskPTR.IH [OF _ this, of s1] obtain l' where "replies r s1 l' (snd (run (k a) r s1))"
    "P ((l @ [GotPTR n a]) @ l') (fst (run (k a) r s1))" by auto
  then show ?case using reply_ptr [of r, OF ask] by (intro exI [of _ "GotPTR n a # l'"]) (simp add: ask)
qed

text \<open>Every sequence of calls has a transcript.\<close>

lemma step_replies: "lookup_step r s s' \<Longrightarrow> \<exists>x. \<forall>l s''. replies r s' l s'' \<longrightarrow> replies r s (x # l) s''"
  by (erule lookup_step.cases) (metis prod.collapse replies.intros)+

lemma calls_replies: "calls r n s s' \<Longrightarrow> \<exists>l. length l = n \<and> replies r s l s'"
proof (induction rule: calls.induct)
  case (calls_none s)
  then show ?case by (auto intro: no_reply)
next
  case (calls_more s s' n s'')
  then obtain l where "length l = n" "replies r s' l s''" by blast
  moreover obtain x where "\<forall>l s''. replies r s' l s'' \<longrightarrow> replies r s (x # l) s''"
    using step_replies [OF calls_more.hyps(1)] by blast
  ultimately show ?case by (intro exI [of _ "x # l"]) simp
qed

end
