(* ===== verification/DmarcProps.thy ===== *)
theory DmarcProps
  imports DmarcPolicy DnsTranscript
begin

section \<open>What the DMARC checks promise\<close>

text \<open>
  Alignment, policy discovery, the verdict on a message and the assessment of a domain, for every
  public suffix list \<open>etld1\<close>, every reader of address lists and every behaviour of the DNS.  The
  policy in force is defined here a second time, from the zone alone and not from the lookups
  (\<open>policy_in_force\<close>), and discovery is shown to find it.
\<close>

subsection \<open>Alignment\<close>

lemma aligned_iff:
  "aligned etld1 a f m \<longleftrightarrow> normalize a \<noteq> [] \<and> normalize f \<noteq> [] \<and> (normalize a = normalize f
     \<or> m \<noteq> ModeStrict \<and> organizational_domain etld1 (normalize a) = organizational_domain etld1 (normalize f))"
  by (simp add: aligned_def Let_def)

lemma aligned_relax: "aligned etld1 a f m \<Longrightarrow> aligned etld1 a f ModeRelaxed"
  by (auto simp: aligned_iff)

text \<open>
  For one alignment mode alignment is symmetric and transitive, so the domains that have
  one are partitioned into groups; a domain is aligned with itself unless it is empty; and what is
  aligned strictly is aligned in every mode, what is aligned in some mode is aligned in relaxed mode.
\<close>

theorem alignment_partition:
  "symp (\<lambda>a f. aligned etld1 a f m) \<and> transp (\<lambda>a f. aligned etld1 a f m)
     \<and> (aligned etld1 a a m \<longleftrightarrow> normalize a \<noteq> [])
     \<and> (\<lambda>a f. aligned etld1 a f ModeStrict) \<le> (\<lambda>a f. aligned etld1 a f m)
     \<and> (\<lambda>a f. aligned etld1 a f m) \<le> (\<lambda>a f. aligned etld1 a f ModeRelaxed)"
  by (auto simp: aligned_iff symp_def transp_def le_fun_def)

subsection \<open>Discovery\<close>

text \<open>
  The reference: the DMARC records published at a name (a name that does not exist has none), the
  policy of a single record that parses, and the policy in force for a domain.
\<close>

definition dmarc_at :: "zone \<Rightarrow> string \<Rightarrow> dns_error + string list" where
  "dmarc_at z name = (case z_txt z (''_dmarc.'' @ name) of
     Inr txts \<Rightarrow> Inr (filter is_dmarc txts)
   | Inl e \<Rightarrow> if is_nxdomain e then Inr [] else Inl e)"

definition sole_policy :: "string list \<Rightarrow> dmarc_record option" where
  "sole_policy records = (case records of
     [t] \<Rightarrow> (case parse_dmarc t of Inl _ \<Rightarrow> None | Inr r \<Rightarrow> Some r)
   | _ \<Rightarrow> None)"

definition policy_in_force :: "suffix_list \<Rightarrow> zone \<Rightarrow> string \<Rightarrow> dns_error + (dmarc_record option \<times> bool)" where
  "policy_in_force etld1 z domain = (let d = normalize domain; org = organizational_domain etld1 domain in
     case dmarc_at z d of
       Inl e \<Rightarrow> Inl e
     | Inr records \<Rightarrow>
         if records \<noteq> [] \<or> org = d \<or> org = [] then Inr (sole_policy records, False)
         else map_sum id (\<lambda>records. (sole_policy records, records \<noteq> [])) (dmarc_at z org))"

text \<open>The discovery after its records were taken from \<open>name\<close>.\<close>

definition found_at :: "string \<Rightarrow> string list \<Rightarrow> discovery \<Rightarrow> discovery" where
  "found_at name records d = (if records = [] then d else snd (take_records name records d))"

lemma found_at_Nil [simp]: "found_at name [] d = d"
  by (simp add: found_at_def)

lemma take_records_found:
  "take_records name txts d = (filter is_dmarc txts \<noteq> [], found_at name (filter is_dmarc txts) d)"
  by (auto simp: found_at_def take_records_def Let_def)

lemma run_try_name:
  "run (try_name name d) (zone_resolver z) s = (case dmarc_at z name of
      Inl e \<Rightarrow> ((Inl e, d), s)
    | Inr records \<Rightarrow> ((Inr (records \<noteq> []), found_at name records d), s))"
  by (simp add: try_name_def zone_resolver_def dmarc_at_def take_records_found split: sum.split)

lemma dmarc_at_is_dmarc: "dmarc_at z name = Inr records \<Longrightarrow> filter is_dmarc records = records"
  by (auto simp: dmarc_at_def split: sum.splits if_splits)

lemma found_at_simps:
  assumes "filter is_dmarc records = records" and "dd_record d = None" "dd_parse_err d = None" "dd_records d = []"
  shows "discovered_policy (found_at name records d) = sole_policy records"
    and "dd_domain (found_at name records d) = dd_domain d" and "dd_org_domain (found_at name records d) = dd_org_domain d"
    and "dd_inherited (found_at name records d) = dd_inherited d" and "dd_records (found_at name records d) = records"
  using assms
  by (simp_all add: found_at_def take_records_def sole_policy_def discovered_policy_def Let_def split: list.split sum.split)

lemma run_discover:
  "(case fst (run (discover etld1 domain) (zone_resolver z) s) of
      (d, Some e) \<Rightarrow> Inl e
    | (d, None) \<Rightarrow> Inr (discovered_policy d, dd_inherited d)) = policy_in_force etld1 z domain"
proof -
  let ?d = "new_discovery etld1 domain"
  let ?name = "normalize domain" and ?org = "organizational_domain etld1 domain"
  have new: "dd_record ?d = None" "dd_parse_err ?d = None" "dd_records ?d = []" "dd_inherited ?d = False"
    "dd_domain ?d = ?name" "dd_org_domain ?d = ?org"
    by (simp_all add: new_discovery_def)
  have none: "discovered_policy ?d = sole_policy []"
    by (simp add: new_discovery_def discovered_policy_def sole_policy_def)
  have dp: "discovered_policy (d\<lparr>dd_inherited := b\<rparr>) = discovered_policy d" for d b
    by (simp add: discovered_policy_def)
  note found = found_at_simps [OF dmarc_at_is_dmarc new(1-3)]
  show ?thesis
    by (simp add: discover_def run_and_then run_try_name new policy_in_force_def Let_def none dp found
        split: sum.splits if_splits)
qed

text \<open>
  Claim C12. Policy discovery finds the policy in force: run on a DNS zone, \<^verbatim>\<open>Discover\<close> ends with the
  policy the zone publishes for the domain (the single DMARC record at the domain, or, only when the
  domain publishes none, the single record at its organizational domain, then marked as inherited),
  with no policy when there are several records or the record does not parse, and with the error of
  the lookup when it fails.
\<close>

theorem discover_finds_policy_in_force:
  "(case fst (run (discover etld1 domain) (zone_resolver z) s) of
      (d, Some e) \<Rightarrow> Inl e
    | (d, None) \<Rightarrow> Inr (discovered_policy d, dd_inherited d)) = policy_in_force etld1 z domain"
  by (rule run_discover)

subsection \<open>The verdict on a message\<close>

text \<open>
  The reference: who the author is, when two domains are aligned, and whether some identifier of the message (the SPF
  domain or the domain of a DKIM signature) is aligned with the author and has a given result.
\<close>

definition sole_author :: "(string \<Rightarrow> mailbox list option) \<Rightarrow> string list \<Rightarrow> string \<Rightarrow> bool" where
  "sole_author parse_list headers from \<longleftrightarrow> (\<exists>h m. headers = [h] \<and> parse_list h = Some [m] \<and> mb_domain m = from
     \<and> from \<noteq> [] \<and> valid_dmarc_domain from)"

definition in_alignment :: "suffix_list \<Rightarrow> mode \<Rightarrow> string \<Rightarrow> string \<Rightarrow> bool" where
  "in_alignment etld1 m a f \<longleftrightarrow> normalize a \<noteq> [] \<and> normalize f \<noteq> [] \<and> (normalize a = normalize f
     \<or> m \<noteq> ModeStrict \<and> organizational_domain etld1 (normalize a) = organizational_domain etld1 (normalize f))"

definition spf_aligned_with :: "suffix_list \<Rightarrow> string \<Rightarrow> dmarc_record \<Rightarrow> message_input \<Rightarrow> string \<Rightarrow> bool" where
  "spf_aligned_with etld1 from rec inp res \<longleftrightarrow>
     mi_spf_result inp = res \<and> in_alignment etld1 (dm_aspf rec) (mi_spf_domain inp) from"

definition dkim_aligned_with :: "suffix_list \<Rightarrow> string \<Rightarrow> dmarc_record \<Rightarrow> message_input \<Rightarrow> string \<Rightarrow> bool" where
  "dkim_aligned_with etld1 from rec inp res \<longleftrightarrow>
     list_ex (\<lambda>d. di_result d = res \<and> in_alignment etld1 (dm_adkim rec) (di_domain d) from) (mi_dkim inp)"

abbreviation aligned_with :: "suffix_list \<Rightarrow> string \<Rightarrow> dmarc_record \<Rightarrow> message_input \<Rightarrow> string \<Rightarrow> bool" where
  "aligned_with etld1 from rec inp res \<equiv> spf_aligned_with etld1 from rec inp res \<or> dkim_aligned_with etld1 from rec inp res"

lemma author_domain_sole: "author_domain parse_list headers = Inr from \<longleftrightarrow> sole_author parse_list headers from"
  by (auto simp: author_domain_def sole_author_def split: list.splits option.splits)

lemma author_domain_none: "author_domain parse_list headers = Inl e \<Longrightarrow> \<not> sole_author parse_list headers from"
  by (simp flip: author_domain_sole)

lemma aligned_in_alignment: "aligned etld1 a f m \<longleftrightarrow> in_alignment etld1 m a f"
  by (simp add: aligned_iff in_alignment_def)

definition policy_for :: "discovery \<Rightarrow> dmarc_record \<Rightarrow> policy" where
  "policy_for disc rec = (if dd_inherited disc then effective_subdomain_policy rec else dm_policy rec)"

lemma first_aligned_iff:
  "first_aligned_dkim etld1 from (dm_adkim rec) (mi_dkim inp) \<noteq> None \<longleftrightarrow> dkim_aligned_with etld1 from rec inp ''pass''"
  unfolding dkim_aligned_with_def first_aligned_dkim_def find_None_iff list_ex_iff aligned_in_alignment by blast

lemma temp_items_iff: "temp_items etld1 from rec inp \<noteq> [] \<longleftrightarrow> aligned_with etld1 from rec inp ''temperror''"
  by (auto simp: temp_items_def spf_aligned_with_def dkim_aligned_with_def aligned_in_alignment filter_empty_conv list_ex_iff)

lemma incomplete_items_iff:
  "incomplete_items etld1 from rec inp \<noteq> [] \<longleftrightarrow> mi_spf_result inp = [] \<or> dkim_aligned_with etld1 from rec inp ''neutral''"
  by (auto simp: incomplete_items_def dkim_aligned_with_def aligned_in_alignment filter_empty_conv list_ex_iff)

text \<open>The verdict once there is a policy: a pass wins over a temporary failure, which wins over an unfinished check.\<close>

definition verdict_by_policy :: "suffix_list \<Rightarrow> string \<Rightarrow> dmarc_record \<Rightarrow> message_input \<Rightarrow> message_result" where
  "verdict_by_policy etld1 from rec inp = (
     if aligned_with etld1 from rec inp ''pass'' then MessagePass
     else if aligned_with etld1 from rec inp ''temperror'' then MessageTempError
     else if mi_spf_result inp = [] \<or> dkim_aligned_with etld1 from rec inp ''neutral'' then MessageIndeterminate
     else MessageFail)"

lemma apply_policy_verdict:
  "me_result (apply_policy etld1 from disc rec inp ev) = verdict_by_policy etld1 from rec inp"
  "me_disposition ev = NoPolicy \<Longrightarrow> me_disposition (apply_policy etld1 from disc rec inp ev) =
     (if verdict_by_policy etld1 from rec inp = MessageFail then policy_for disc rec else NoPolicy)"
  "me_spf_aligned (apply_policy etld1 from disc rec inp ev) = spf_aligned_with etld1 from rec inp ''pass''"
  "me_dkim_aligned (apply_policy etld1 from disc rec inp ev) = dkim_aligned_with etld1 from rec inp ''pass''"
  by (simp_all add: apply_policy_def Let_def first_aligned_iff temp_items_iff incomplete_items_iff verdict_by_policy_def policy_for_def
      aligned_in_alignment spf_aligned_with_def del: not_None_eq)

lemma evaluate_message_run:
  "fst (run (evaluate_message etld1 parse_list inp) r s) =
    (case author_domain parse_list (mi_from_headers inp) of
       Inl problem \<Rightarrow> new_message_evaluation\<lparr>me_result := MessagePermError, me_reason := BadFrom problem,
          me_findings := [observe DMARCMessageBadFrom []]\<rparr>
     | Inr from \<Rightarrow> (case fst (run (discover etld1 from) r s) of (disc, err) \<Rightarrow>
         let ev = new_message_evaluation\<lparr>me_from_domain := from, me_discovery := Some disc\<rparr> in
         case err of
           Some e \<Rightarrow> ev\<lparr>me_result := MessageTempError, me_reason := PolicyLookupFailed e,
               me_findings := [observe DMARCMessageTempError from]\<rparr>
         | None \<Rightarrow> (case discovered_policy disc of
              None \<Rightarrow> ev\<lparr>me_result := MessageNone,
                me_reason := (if dd_records disc = [] then NoPolicyPublished from
                  else if 1 < length (dd_records disc) then SeveralPolicies (dd_policy_domain disc)
                  else InvalidPolicy (dd_policy_domain disc) (dd_parse_err disc)),
                me_findings := [observe DMARCMessageNoPolicy from]\<rparr>
            | Some rec \<Rightarrow> apply_policy etld1 from disc rec inp ev)))"
  by (simp add: evaluate_message_def Let_def run_and_then split: sum.split prod.split option.split)

text \<open>
  Claim C3. The verdict on a message, on every branch.  Without exactly one From header with exactly one mailbox of a usable
  domain it is a permanent error, with a failed policy lookup a temporary one, without a usable policy none.  With a
  policy, an aligned identifier that passes makes the message pass, otherwise an aligned one with a temporary
  failure makes it a temporary error, otherwise an SPF check without a result or an aligned signature that is neutral
  leaves it open, and otherwise it fails; what is not aligned in the mode the policy asks for counts for nothing.  The two
  alignment flags say which kind of identifier passed, and only a message that fails gets a disposition, which is the
  policy of the domain, or the subdomain policy when the policy was inherited.
\<close>

theorem message_verdict:
  "(case fst (run (evaluate_message etld1 parse_list inp) r s) of ev \<Rightarrow>
     case author_domain parse_list (mi_from_headers inp) of
       Inl _ \<Rightarrow> (\<nexists>from. sole_author parse_list (mi_from_headers inp) from)
         \<and> me_result ev = MessagePermError \<and> me_disposition ev = NoPolicy
     | Inr from \<Rightarrow> sole_author parse_list (mi_from_headers inp) from \<and> me_from_domain ev = from
       \<and> (case fst (run (discover etld1 from) r s) of
         (disc, Some _) \<Rightarrow> me_result ev = MessageTempError \<and> me_disposition ev = NoPolicy
       | (disc, None) \<Rightarrow> (case discovered_policy disc of
           None \<Rightarrow> me_result ev = MessageNone \<and> me_disposition ev = NoPolicy
         | Some rec \<Rightarrow>
             me_result ev = (if aligned_with etld1 from rec inp ''pass'' then MessagePass
               else if aligned_with etld1 from rec inp ''temperror'' then MessageTempError
               else if mi_spf_result inp = [] \<or> dkim_aligned_with etld1 from rec inp ''neutral'' then MessageIndeterminate
               else MessageFail)
           \<and> me_spf_aligned ev = spf_aligned_with etld1 from rec inp ''pass''
           \<and> me_dkim_aligned ev = dkim_aligned_with etld1 from rec inp ''pass''
           \<and> me_disposition ev = (if me_result ev = MessageFail then
               (if \<not> dd_inherited disc then dm_policy rec
                else if dm_subdomain_policy rec = NoPolicy then dm_policy rec else dm_subdomain_policy rec)
             else NoPolicy))))"
proof (cases "author_domain parse_list (mi_from_headers inp)")
  case (Inl e)
  then show ?thesis by (simp add: evaluate_message_run author_domain_none new_message_evaluation_def)
next
  case (Inr author)
  then have sole: "sole_author parse_list (mi_from_headers inp) author" by (simp add: author_domain_sole)
  have same: "me_from_domain (apply_policy etld1 author disc rec inp ev) = me_from_domain ev" for disc rec ev
    by (simp add: apply_policy_def Let_def)
  obtain disc err where d: "fst (run (discover etld1 author) r s) = (disc, err)" by fastforce
  show ?thesis
  proof (cases "err = None \<and> discovered_policy disc \<noteq> None")
    case False
    then show ?thesis
      by (cases err; cases "discovered_policy disc") (simp_all add: evaluate_message_run Inr d sole new_message_evaluation_def)
  next
    case True
    then obtain rec where rec: "discovered_policy disc = Some rec" "err = None" by blast
    let ?ev = "new_message_evaluation\<lparr>me_from_domain := author, me_discovery := Some disc\<rparr>"
    have "me_disposition ?ev = NoPolicy" by (simp add: new_message_evaluation_def)
    note verdict = apply_policy_verdict(1,3,4) [of etld1 author disc rec inp ?ev] apply_policy_verdict(2) [OF this, of etld1 author disc rec inp]
    have "fst (run (evaluate_message etld1 parse_list inp) r s) = apply_policy etld1 author disc rec inp ?ev"
      by (simp add: evaluate_message_run Inr d rec)
    then show ?thesis
      by (simp add: Inr d rec sole same verdict verdict_by_policy_def policy_for_def effective_subdomain_policy_def)
  qed
qed

text \<open>
  What the DNS told about the policy: at \<open>name\<close> there is one DMARC record and it parses to \<open>rec\<close>; there is none at
  \<open>name\<close>; the policy of \<open>from\<close> is its own record or, when it has none, the one of its organisational domain.
\<close>

definition one_policy_told :: "dns_reply list \<Rightarrow> string \<Rightarrow> dmarc_record \<Rightarrow> bool" where
  "one_policy_told log name rec \<longleftrightarrow> (\<exists>txts policy_text. GotTXT (''_dmarc.'' @ name) (Inr txts) \<in> set log
     \<and> filter is_dmarc txts = [policy_text] \<and> parse_dmarc policy_text = Inr rec)"

definition no_policy_told :: "dns_reply list \<Rightarrow> string \<Rightarrow> bool" where
  "no_policy_told log name \<longleftrightarrow> (\<exists>ans. GotTXT (''_dmarc.'' @ name) ans \<in> set log
     \<and> (case ans of Inl e \<Rightarrow> is_nxdomain e | Inr txts \<Rightarrow> filter is_dmarc txts = []))"

definition policy_told :: "suffix_list \<Rightarrow> dns_reply list \<Rightarrow> string \<Rightarrow> dmarc_record \<Rightarrow> bool" where
  "policy_told etld1 log from rec \<longleftrightarrow> one_policy_told log (normalize from) rec
     \<or> no_policy_told log (normalize from) \<and> one_policy_told log (organizational_domain etld1 from) rec"

lemma policy_told_mono: "policy_told etld1 log f rec \<Longrightarrow> set log \<subseteq> set log' \<Longrightarrow> policy_told etld1 log' f rec"
  unfolding policy_told_def one_policy_told_def no_policy_told_def by blast

lemma no_policy_told_mono: "no_policy_told log name \<Longrightarrow> set log \<subseteq> set log' \<Longrightarrow> no_policy_told log' name"
  unfolding no_policy_told_def by blast

definition no_policy_yet :: "discovery \<Rightarrow> bool" where
  "no_policy_yet d \<longleftrightarrow> dd_records d = [] \<and> dd_record d = None"

definition tried :: "string \<Rightarrow> discovery \<Rightarrow> dns_reply list \<Rightarrow> dns_error + bool \<Rightarrow> discovery \<Rightarrow> bool" where
  "tried name d log r d' \<longleftrightarrow> (case r of Inl _ \<Rightarrow> True
     | Inr found \<Rightarrow> if found then (case discovered_policy d' of None \<Rightarrow> True | Some rec \<Rightarrow> one_policy_told log name rec)
         else d' = d \<and> no_policy_told log name)"

lemma try_name_told:
  assumes "no_policy_yet d"
  shows "told (\<lambda>log (r, d'). tried name d log r d') (try_name name d) log"
proof -
  let ?log = "\<lambda>a. log @ [GotTXT (''_dmarc.'' @ name) a]"
  have one: "one_policy_told (?log (Inr txts)) name rec"
    if "filter is_dmarc txts \<noteq> []" "discovered_policy (snd (take_records name txts d)) = Some rec" for txts rec
    using that assms
    by (auto simp: take_records_def discovered_policy_def one_policy_told_def Let_def no_policy_yet_def
        split: list.splits sum.splits if_splits)
  have "tried name d (?log (Inr txts)) (Inr (fst (take_records name txts d))) (snd (take_records name txts d))" for txts
  proof (cases "filter is_dmarc txts = []")
    case True
    then show ?thesis by (force simp: tried_def take_records_def no_policy_told_def)
  next
    case False
    then have "fst (take_records name txts d)" by (simp add: take_records_def Let_def)
    then show ?thesis using one [OF False] by (simp add: tried_def split: option.split)
  qed
  moreover have "tried name d (?log (Inl e)) (Inr False) d" if "is_nxdomain e" for e
    using that by (force simp: tried_def no_policy_told_def)
  ultimately show ?thesis
    by (simp add: try_name_def case_prod_unfold tried_def [of _ _ _ "Inl _"] split: sum.split)
qed

text \<open>The policy that discovery ends with, if it does not end with an error, is the one the DNS told.\<close>

definition found_told :: "suffix_list \<Rightarrow> string \<Rightarrow> dns_reply list \<Rightarrow> discovery \<Rightarrow> dns_error option \<Rightarrow> bool" where
  "found_told etld1 domain log d err \<longleftrightarrow> (if err = None then
     (case discovered_policy d of None \<Rightarrow> True | Some rec \<Rightarrow> policy_told etld1 log domain rec) else True)"

lemma tried_found:
  assumes "tried name d log (Inr found) d'" and "discovered_policy d = None"
    and "\<And>rec. one_policy_told log name rec \<Longrightarrow> policy_told etld1 log domain rec"
  shows "found_told etld1 domain log (if found then d'\<lparr>dd_inherited := b\<rparr> else d') None" "found_told etld1 domain log d' None"
proof -
  have "discovered_policy (d'\<lparr>dd_inherited := b\<rparr>) = discovered_policy d'" by (simp add: discovered_policy_def)
  then show "found_told etld1 domain log (if found then d'\<lparr>dd_inherited := b\<rparr> else d') None" "found_told etld1 domain log d' None"
    using assms by (cases found; auto simp: tried_def found_told_def split: option.splits)+
qed

lemma discover_told: "told (\<lambda>log (d, err). found_told etld1 domain log d err) (discover etld1 domain) log"
proof -
  let ?d = "new_discovery etld1 domain"
  have new: "no_policy_yet ?d" "discovered_policy ?d = None" "dd_domain ?d = normalize domain"
      "dd_org_domain ?d = organizational_domain etld1 domain"
    by (simp_all add: new_discovery_def no_policy_yet_def discovered_policy_def)
  have second: "told (\<lambda>log (d, err). found_told etld1 domain log d err)
      (and_then (try_name (dd_org_domain ?d) ?d) (\<lambda>(r, d). Ret (case r of
        Inl err \<Rightarrow> (d, Some err) | Inr found \<Rightarrow> (if found then d\<lparr>dd_inherited := True\<rparr> else d, None)))) log'"
    if none: "no_policy_told log' (normalize domain)" for log'
  proof (rule told_bind_pairI [OF try_name_told [OF new(1)]])
    fix log'' r d'
    assume more: "set log' \<subseteq> set log''" and r: "tried (dd_org_domain ?d) ?d log'' r d'"
    have "policy_told etld1 log'' domain rec" if "one_policy_told log'' (dd_org_domain ?d) rec" for rec
      using that no_policy_told_mono [OF none more] by (simp add: policy_told_def new)
    note found = tried_found(1) [OF _ new(2) this, where b = True and name = "dd_org_domain ?d"]
    show "told (\<lambda>log (d, err). found_told etld1 domain log d err) (case (r, d') of (r, d) \<Rightarrow> Ret (case r of
        Inl err \<Rightarrow> (d, Some err) | Inr found \<Rightarrow> (if found then d\<lparr>dd_inherited := True\<rparr> else d, None))) log''"
      using r found by (cases r) (simp_all add: found_told_def)
  qed
  show ?thesis unfolding discover_def Let_def
  proof (rule told_bind_pairI [OF try_name_told [OF new(1)]])
    fix log' r d'
    assume r: "tried (dd_domain ?d) ?d log' r d'"
    have own: "policy_told etld1 log' domain rec" if "one_policy_told log' (dd_domain ?d) rec" for rec
      using that by (simp add: policy_told_def new)
    show "told (\<lambda>log (d, err). found_told etld1 domain log d err) (case (r, d') of (r, d) \<Rightarrow> case r of
        Inl err \<Rightarrow> Ret (d, Some err)
      | Inr found \<Rightarrow> if found then Ret (d, None)
         else if dd_org_domain d = dd_domain d \<or> dd_org_domain d = [] then Ret (d, None)
         else and_then (try_name (dd_org_domain d) d) (\<lambda>(r, d). Ret (case r of
           Inl err \<Rightarrow> (d, Some err) | Inr found \<Rightarrow> (if found then d\<lparr>dd_inherited := True\<rparr> else d, None)))) log'"
    proof (cases r)
      case (Inr found)
      have ok: "found_told etld1 domain log' d' None"
        using tried_found(2) [OF r [unfolded Inr] new(2) own] by simp
      show ?thesis
      proof (cases found)
        case False
        then have "d' = ?d" "no_policy_told log' (normalize domain)" using r by (simp_all add: Inr tried_def new)
        then show ?thesis using False second [of log'] ok by (simp add: Inr)
      qed (simp add: Inr ok)
    qed (simp add: found_told_def)
  qed
qed

text \<open>A message passes only if its author is known, the DNS told the policy and an identifier is aligned.\<close>

definition pass_told :: "suffix_list \<Rightarrow> (string \<Rightarrow> mailbox list option) \<Rightarrow> message_input \<Rightarrow> dns_reply list \<Rightarrow> string \<Rightarrow> dmarc_record \<Rightarrow> bool" where
  "pass_told etld1 parse_list inp log from rec \<longleftrightarrow> sole_author parse_list (mi_from_headers inp) from
     \<and> policy_told etld1 log from rec \<and> aligned_with etld1 from rec inp ''pass''"

lemma evaluate_message_told:
  "told (\<lambda>log ev. if me_result ev = MessagePass then \<exists>from rec. pass_told etld1 parse_list inp log from rec else True)
    (evaluate_message etld1 parse_list inp) log"
proof (cases "author_domain parse_list (mi_from_headers inp)")
  case (Inl e)
  then show ?thesis by (simp add: evaluate_message_def new_message_evaluation_def Let_def)
next
  case (Inr author)
  have pass: "pass_told etld1 parse_list inp log' author rec"
    if "found_told etld1 author log' disc None" "discovered_policy disc = Some rec"
      "me_result (apply_policy etld1 author disc rec inp ev) = MessagePass" for log' disc rec ev
    using that Inr
    by (simp add: pass_told_def found_told_def author_domain_sole apply_policy_verdict verdict_by_policy_def split: if_splits)
  show ?thesis unfolding evaluate_message_def Let_def Inr sum.case
    by (rule told_bind_pairI [OF discover_told])
      (auto simp: new_message_evaluation_def split: option.split dest: pass)
qed

text \<open>What the rest of the program and the user see of an evaluation, apart from its explanation.\<close>

definition verdict :: "message_evaluation \<Rightarrow> message_result \<times> policy \<times> bool \<times> bool \<times> string" where
  "verdict ev = (me_result ev, me_disposition ev, me_spf_aligned ev, me_dkim_aligned ev, me_aligned_dkim_domain ev)"

lemma unaligned_irrelevant:
  assumes "\<not> aligned etld1 (di_domain d) from ModeRelaxed"
  shows "verdict (apply_policy etld1 from disc rec (inp\<lparr>mi_dkim := ds @ d # ds'\<rparr>) ev)
       = verdict (apply_policy etld1 from disc rec (inp\<lparr>mi_dkim := ds @ ds'\<rparr>) ev)"
proof -
  have no: "\<not> aligned etld1 (di_domain d) from m" for m
    using assms aligned_relax by blast
  have find: "find P (xs @ x # ys) = find P (xs @ ys)" if "\<not> P x" for P :: "dkim_input \<Rightarrow> bool" and x xs ys
    using that by (induction xs) auto
  have "first_aligned_dkim etld1 from m (ds @ d # ds') = first_aligned_dkim etld1 from m (ds @ ds')" for m
    unfolding first_aligned_dkim_def by (rule find) (simp add: no)
  moreover have "temp_items etld1 from rec (inp\<lparr>mi_dkim := ds @ d # ds'\<rparr>) = temp_items etld1 from rec (inp\<lparr>mi_dkim := ds @ ds'\<rparr>)"
    "incomplete_items etld1 from rec (inp\<lparr>mi_dkim := ds @ d # ds'\<rparr>) = incomplete_items etld1 from rec (inp\<lparr>mi_dkim := ds @ ds'\<rparr>)"
    by (simp_all add: temp_items_def incomplete_items_def no)
  ultimately show ?thesis
    by (simp add: apply_policy_def Let_def verdict_def del: not_None_eq)
qed

text \<open>
  DKIM signatures of other organisations cannot influence the verdict: a signature whose
  domain is not even relaxed-aligned with the author domain, whatever its result and wherever it
  stands among the signatures, leaves the result, the disposition and the alignment of the message
  as they are without it.
\<close>

theorem foreign_signature_irrelevant:
  assumes "author_domain parse_list (mi_from_headers inp) = Inr author"
    and "\<not> aligned etld1 (di_domain d) author ModeRelaxed"
  shows "verdict (fst (run (evaluate_message etld1 parse_list (inp\<lparr>mi_dkim := ds @ d # ds'\<rparr>)) r s))
       = verdict (fst (run (evaluate_message etld1 parse_list (inp\<lparr>mi_dkim := ds @ ds'\<rparr>)) r s))"
  using assms(1) unaligned_irrelevant [OF assms(2)]
  by (simp add: evaluate_message_run Let_def verdict_def [of "new_message_evaluation\<lparr>me_result := _\<rparr>"] split: prod.split option.split)

definition sample_message :: message_input where
  "sample_message = \<lparr>mi_from_headers = [''a@x.example''], mi_spf_result = ''fail'', mi_spf_domain = ''x.example'',
     mi_spf_inferred = False, mi_dkim = []\<rparr>"

theorem foreign_signature_irrelevant_witness:
  "(\<lambda>parse_list. verdict (fst (run (evaluate_message (\<lambda>_. None) parse_list
      (sample_message\<lparr>mi_dkim := [\<lparr>di_domain = ''evil.test'', di_result = ''pass''\<rparr>]\<rparr>)) (zone_resolver sample_zone) ()))
    = verdict (fst (run (evaluate_message (\<lambda>_. None) parse_list (sample_message\<lparr>mi_dkim := []\<rparr>)) (zone_resolver sample_zone) ())))
   (\<lambda>_. Some [\<lparr>mb_address = ''a@x.example'', mb_domain = ''x.example''\<rparr>])"
  using foreign_signature_irrelevant [where parse_list = "\<lambda>_. Some [\<lparr>mb_address = ''a@x.example'', mb_domain = ''x.example''\<rparr>]"
      and ?etld1.0 = "\<lambda>_. None" and inp = sample_message and ds = "[]" and ds' = "[]" and author = "''x.example''"
      and d = "\<lparr>di_domain = ''evil.test'', di_result = ''pass''\<rparr>" and r = "zone_resolver sample_zone" and s = "()"]
  by (simp add: sample_message_def author_domain_def valid_dmarc_domain_def valid_label_def aligned_def normalize_def
      organizational_domain_def trim_defs byte_class_defs str_eval Let_def)

subsection \<open>The assessment of a domain\<close>

text \<open>The report destinations of other organisations, which must authorise the reports.\<close>

definition external_destinations :: "suffix_list \<Rightarrow> string \<Rightarrow> dmarc_record \<Rightarrow> string list" where
  "external_destinations etld1 policy_domain rec = filter (\<lambda>d. d \<noteq> []
     \<and> organizational_domain etld1 d \<noteq> organizational_domain etld1 policy_domain) (map ru_domain (dm_rua rec @ dm_ruf rec))"

lemma external_loop_asks:
  "ends (\<lambda>n _. n \<le> j + card (set (filter (\<lambda>d. d \<noteq> []
      \<and> organizational_domain etld1 d \<noteq> organizational_domain etld1 pd) (map ru_domain us)) - set checked))
    (external_loop etld1 pd us checked os infra) j"
proof (induction us arbitrary: checked os infra j)
  case (Cons u us)
  let ?P = "\<lambda>d. d \<noteq> [] \<and> organizational_domain etld1 d \<noteq> organizational_domain etld1 pd"
  let ?ext = "\<lambda>us. set (filter ?P (map ru_domain us))"
  show ?case
  proof (cases "\<not> ?P (ru_domain u) \<or> ru_domain u \<in> set checked")
    case True
    then have "?ext (u # us) - set checked = ?ext us - set checked" by auto
    moreover have "external_loop etld1 pd (u # us) checked os infra = external_loop etld1 pd us checked os infra"
      using True by auto
    ultimately show ?thesis using Cons.IH [of j checked os infra] by (simp only:)
  next
    case False
    then have "?ext (u # us) - set checked = insert (ru_domain u) (?ext us - set (ru_domain u # checked))"
      by auto
    then have "card (?ext (u # us) - set checked) = Suc (card (?ext us - set (ru_domain u # checked)))"
      by (simp only: card_insert_disjoint finite_Diff finite_set set_simps Diff_iff insert_iff simp_thms not_True_eq_False)
    then have "ends (\<lambda>n _. n \<le> j + card (?ext (u # us) - set checked))
        (external_loop etld1 pd us (ru_domain u # checked) os infra) (Suc j)" for os infra
      using Cons.IH [of "Suc j" "ru_domain u # checked" os infra] by (simp only: add_Suc add_Suc_right)
    then show ?thesis using False
      by (simp del: set_simps filter.simps list.map split: sum.split)
  qed
qed simp

text \<open>What a discovery holds in the end, whatever the DNS answered, and how many questions it took.\<close>

definition discovery_ok :: "discovery \<Rightarrow> bool" where
  "discovery_ok d \<longleftrightarrow> dd_policy_domain d \<in> {[], dd_domain d, dd_org_domain d}
     \<and> (case dd_record d of None \<Rightarrow> True
        | Some rec \<Rightarrow> list_ex (\<lambda>t. dd_records d = [t] \<and> parse_dmarc t = Inr rec) (dd_records d) \<and> dd_parse_err d = None)"

lemma discovery_ok_new: "discovery_ok (new_discovery etld1 domain)"
  by (simp add: discovery_ok_def new_discovery_def)

lemma discovery_ok_take:
  "discovery_ok d \<Longrightarrow> dd_record d = None \<Longrightarrow> name \<in> {dd_domain d, dd_org_domain d} \<Longrightarrow>
    discovery_ok (snd (take_records name txts d))"
  by (auto simp: discovery_ok_def take_records_def Let_def split: list.split sum.split option.splits)

lemma try_name_ends:
  assumes "discovery_ok d" "dd_record d = None" "name \<in> {dd_domain d, dd_org_domain d}"
  shows "ends (\<lambda>n (r, d'). n = Suc j \<and> discovery_ok d' \<and> (r = Inr True \<or> d' = d)) (try_name name d) j"
  using discovery_ok_take [OF assms] assms(1)
  by (auto simp: try_name_def take_records_found found_at_def split: sum.split)

lemma discovery_ok_inherited [simp]: "discovery_ok (d\<lparr>dd_inherited := b\<rparr>) = discovery_ok d"
  by (simp add: discovery_ok_def split: option.split)

lemma discover_ends: "ends (\<lambda>n (d, _). n \<le> 2 \<and> discovery_ok d) (discover etld1 domain) 0"
proof -
  let ?d = "new_discovery etld1 domain"
  have new: "discovery_ok ?d" "dd_record ?d = None"
    using discovery_ok_new by (simp_all add: new_discovery_def)
  have second: "ends (\<lambda>n (d, _). n \<le> 2 \<and> discovery_ok d)
      (and_then (try_name (dd_org_domain ?d) ?d) (\<lambda>(r, d). Ret (case r of
           Inl err \<Rightarrow> (d, Some err)
         | Inr found \<Rightarrow> (if found then d\<lparr>dd_inherited := True\<rparr> else d, None)))) (Suc 0)"
    by (rule ends_bindI [OF try_name_ends [OF new]]) (auto split: sum.split)
  show ?thesis unfolding discover_def Let_def
    by (rule ends_bindI [OF try_name_ends [OF new]]) (use second in \<open>auto split: sum.split\<close>)
qed

lemma discovered_policy_ok:
  "discovery_ok d \<Longrightarrow> dd_record d = Some rec \<Longrightarrow> dmarc_record_ok rec \<and> discovered_policy d = Some rec"
  using parse_dmarc_ok by (auto simp: discovery_ok_def discovered_policy_def list_ex_iff)

lemma assess_dmarc_asks:
  "ends (\<lambda>n (a, _). n \<le> 2 + (case dd_record (as_discovery a) of None \<Rightarrow> 0
      | Some rec \<Rightarrow> card (set (external_destinations etld1 (dd_policy_domain (as_discovery a)) rec)))) (assess_dmarc etld1 domain) 0"
  unfolding assess_dmarc_def
proof (rule ends_bindI [OF discover_ends], goal_cases)
  case (1 n x)
  then obtain d err where x: "x = (d, err)" and n: "n \<le> 2" by auto
  have ext: "ends (\<lambda>m _. m \<le> 2 + card (set (external_destinations etld1 (dd_policy_domain d) rec)))
      (check_external_destinations etld1 (dd_policy_domain d) rec) n" for rec
    unfolding check_external_destinations_def
    by (rule ends_mono [OF external_loop_asks]) (use n in \<open>simp add: external_destinations_def\<close>)
  show ?case
    using n by (auto simp: x Let_def split: option.split intro!: ends_bindI [OF ext])
qed

lemma issue_severity: "rl_severity (issue_rule k) = (if k = IssueUnknownTag then SeverityInfo else SeverityMedium)"
  by (cases k) (simp_all add: issue_rule_def)

text \<open>A record that rejects all mail that fails, says so cleanly and asks for reports.\<close>

definition strictly_enforced :: "discovery \<Rightarrow> dmarc_record \<Rightarrow> bool" where
  "strictly_enforced disc rec \<longleftrightarrow> policy_for disc rec = PolicyReject \<and> dm_percent rec = 100 \<and> dm_rua rec \<noteq> []
     \<and> \<not> dm_policy_implied rec \<and> (dd_inherited disc \<or> effective_subdomain_policy rec = PolicyReject)
     \<and> list_all (\<lambda>i. is_kind i = IssueUnknownTag) (dm_issues rec)"

lemma assess_record_clean:
  assumes "dmarc_record_ok rec"
  shows "list_all (\<lambda>ob. ob_severity ob \<le> SeverityInfo) (assess_record disc rec) \<and> policy_for disc rec = PolicyReject
    \<longleftrightarrow> strictly_enforced disc rec"
proof (cases "policy_for disc rec = PolicyReject")
  case True
  have weaker: "strength p < 3 \<longleftrightarrow> p \<noteq> PolicyReject" for p
    by (cases p) simp_all
  have pct: "dm_percent rec < 100 \<longleftrightarrow> dm_percent rec \<noteq> 100"
    using assms by (auto simp: dmarc_record_ok_def)
  have sub: "effective_subdomain_policy rec = PolicyReject \<longleftrightarrow> dm_subdomain_policy rec = NoPolicy \<or> dm_subdomain_policy rec = PolicyReject"
    if "\<not> dd_inherited disc"
    using True that by (simp add: effective_subdomain_policy_def policy_for_def)
  have issues: "list_all (\<lambda>ob. ob_severity ob \<le> SeverityInfo) (map (\<lambda>i. observe (issue_rule (is_kind i)) s) is)
      \<longleftrightarrow> list_all (\<lambda>i. is_kind i = IssueUnknownTag) is" for s "is"
    by (induction "is") (simp_all add: issue_severity)
  have p: "dm_policy rec = PolicyReject" if "\<not> dd_inherited disc"
    using True that by (simp add: policy_for_def)
  have sp: "effective_subdomain_policy rec = PolicyReject" if "dd_inherited disc"
    using True that by (simp add: policy_for_def)
  show ?thesis
    unfolding assess_record_def Let_def policy_for_def [symmetric] True list_all_append list_all_if issues strictly_enforced_def
    by (cases "dd_inherited disc") (simp_all add: True pct p sp sub weaker conj_ac)
qed (simp add: strictly_enforced_def)

lemma not_pass_rule: "rl_severity r \<noteq> SeverityPass \<Longrightarrow> r \<noteq> DMARCEnforced"
  by auto

lemma assess_record_rules: "list_all (\<lambda>ob. ob_rule ob \<noteq> DMARCEnforced) (assess_record disc rec)"
proof -
  have issues: "list_all (\<lambda>ob. ob_rule ob \<noteq> DMARCEnforced) (map (\<lambda>i. observe (issue_rule (is_kind i)) s) is)" for s "is"
    by (simp add: list_all_iff not_pass_rule issue_severity)
  show ?thesis
    unfolding assess_record_def Let_def list_all_append list_all_if
    by (simp add: issues not_pass_rule split: policy.split)
qed

lemma external_loop_findings:
  "list_all (\<lambda>ob. ob_rule ob \<noteq> DMARCEnforced \<and> SeverityInfo < ob_severity ob) os \<Longrightarrow>
    ends (\<lambda>_ (os', _). list_all (\<lambda>ob. ob_rule ob \<noteq> DMARCEnforced \<and> SeverityInfo < ob_severity ob) os')
      (external_loop etld1 pd us checked os infra) j"
proof (induction us arbitrary: checked os infra j)
  case (Cons u us)
  then show ?case
    by (auto split: sum.split simp: not_pass_rule less_severity_def)
qed simp

lemma assess_dmarc_enforced:
  "on_every_answer (\<lambda>(a, err).
     if list_ex (\<lambda>ob. ob_rule ob = DMARCEnforced) (as_findings a)
     then err = None \<and> (case discovered_policy (as_discovery a) of None \<Rightarrow> False
            | Some rec \<Rightarrow> strictly_enforced (as_discovery a) rec)
          \<and> list_all (\<lambda>ob. ob_severity ob \<le> SeverityInfo) (as_findings a)
     else (case discovered_policy (as_discovery a) of None \<Rightarrow> True
            | Some rec \<Rightarrow> (if strictly_enforced (as_discovery a) rec
                then err \<noteq> None \<or> list_ex (\<lambda>ob. SeverityInfo < ob_severity ob) (as_findings a) else True))) (assess_dmarc etld1 domain)"
  unfolding assess_dmarc_def
proof (rule ends_bindI [OF discover_ends], goal_cases)
  case (1 n x)
  then obtain d err where x: "x = (d, err)" and ok: "discovery_ok d" by auto
  have ext: "ends (\<lambda>_ (os', _). list_all (\<lambda>ob. ob_rule ob \<noteq> DMARCEnforced \<and> SeverityInfo < ob_severity ob) os')
      (check_external_destinations etld1 (dd_policy_domain d) rec) n" for rec
    unfolding check_external_destinations_def by (rule external_loop_findings) simp
  show ?case
  proof (cases "dd_record d")
    case None
    then have "discovered_policy d = None" by (simp add: discovered_policy_def)
    then show ?thesis using None by (simp add: x Let_def not_pass_rule split: option.split)
  next
    case (Some rec)
    then have rec: "dmarc_record_ok rec" "discovered_policy d = Some rec" "dd_records d \<noteq> []" "\<not> 1 < length (dd_records d)"
      using discovered_policy_ok [OF ok] ok by (auto simp: discovery_ok_def discovered_policy_def split: if_splits)
    let ?os = "assess_record d rec"
    let ?low = "list_all (\<lambda>ob. ob_severity ob \<le> SeverityInfo)"
    have none: "\<not> list_ex (\<lambda>ob. ob_rule ob = DMARCEnforced) ?os"
      using assess_record_rules by (auto simp: list_all_iff list_ex_iff)
    have high: "list_ex (\<lambda>ob. SeverityInfo < ob_severity ob) os \<longleftrightarrow> \<not> ?low os" for os
      by (auto simp: list_all_iff list_ex_iff not_le)
    have clean: "?low ?os \<and> (if dd_inherited d then effective_subdomain_policy rec else dm_policy rec) = PolicyReject
        \<longleftrightarrow> strictly_enforced d rec"
      using assess_record_clean [OF rec(1), of d] by (simp only: policy_for_def)
    have ext_none: "\<not> list_ex (\<lambda>ob. ob_rule ob = DMARCEnforced) e"
      if "list_all (\<lambda>ob. ob_rule ob \<noteq> DMARCEnforced \<and> SeverityInfo < ob_severity ob) e" for e
      using that by (auto simp: list_all_iff list_ex_iff)
    show ?thesis
      using rec(2-4)
      by (auto simp: x Let_def Some none high clean [symmetric] ext_none observed_max_le not_pass_rule
          split: option.split intro!: ends_bindI [OF ext])
  qed
qed

text \<open>
  Claim C20. The assessment reports the policy as enforced only when it is: if \<^verbatim>\<open>DMARCEnforced\<close> is among the
  findings, then no lookup failed, the domain has a usable policy that rejects all mail (reject for
  100 percent, for the domain and its subdomains, stated by the record and not implied) and asks for
  aggregate reports, its only issues are unknown tags, and no finding is above informational.
  Conversely an enforced policy is only left unreported when a lookup failed or a finding is above
  informational.
\<close>

theorem enforced_is_enforced:
  "on_every_answer (\<lambda>(a, err).
     if list_ex (\<lambda>ob. ob_rule ob = DMARCEnforced) (as_findings a)
     then err = None \<and> (case discovered_policy (as_discovery a) of None \<Rightarrow> False
            | Some rec \<Rightarrow> strictly_enforced (as_discovery a) rec)
          \<and> list_all (\<lambda>ob. ob_severity ob \<le> SeverityInfo) (as_findings a)
     else (case discovered_policy (as_discovery a) of None \<Rightarrow> True
            | Some rec \<Rightarrow> (if strictly_enforced (as_discovery a) rec
                then (case err of Some _ \<Rightarrow> True | None \<Rightarrow> list_ex (\<lambda>ob. SeverityInfo < ob_severity ob) (as_findings a)) else True)))
     (assess_dmarc etld1 domain)"
  by (rule ends_mono [OF assess_dmarc_enforced]) (auto split: option.split)

text \<open>
  The assessment of a domain asks at most two questions to find the policy and one for each
  different external report destination, however many report addresses the record lists.
\<close>

theorem assess_question_bound:
  "ends (\<lambda>n (a, _). n \<le> 2 + (case dd_record (as_discovery a) of None \<Rightarrow> 0
      | Some rec \<Rightarrow> card (set (external_destinations etld1 (dd_policy_domain (as_discovery a)) rec)))) (assess_dmarc etld1 domain) 0"
  by (rule assess_dmarc_asks)

end
