(* ===== verification/MailMessage.thy ===== *)
theory MailMessage
  imports GoStrings
begin

section \<open>Messages and their header section (internal/mailparser)\<close>

text \<open>
  The models of \<^verbatim>\<open>message.go\<close>, \<^verbatim>\<open>limits.go\<close> and the parts of \<^verbatim>\<open>address.go\<close> that do not call \<^verbatim>\<open>net/mail\<close>.  A
  message is a string of bytes; the header section is read by offsets, as in the code, and the state
  of the loop is a record with the field that is being collected (its name and where it starts).
  A defect keeps its kind.  A limit that is exceeded is an error value.
\<close>

record header =
  hd_name :: string
  hd_value :: string
  hd_raw :: string

datatype defect_kind = DefectMalformedHeaderLine | DefectLeadingContinuation | DefectWhitespaceBeforeColon
  | DefectLongLine | DefectBareLF | DefectMixedLineEndings | DefectNULByte | DefectEightBitHeader
  | DefectNoBodySeparator | DefectMIMEInvalidContentType | DefectMIMEMissingBoundary | DefectMIMEUnterminated
  | DefectMIMENoParts | DefectMIMEBadEncoding | DefectMIMEMissingVersion | DefectMIMEDepthExceeded
  | DefectMIMEPartsExceeded | DefectMIMESizeExceeded

subsection \<open>Limits\<close>

record mail_limits =
  max_message_bytes :: int
  max_header_bytes :: int
  max_headers :: int
  max_mime_depth :: int
  max_mime_parts :: int

definition default_mail_limits :: mail_limits where
  "default_mail_limits = \<lparr>max_message_bytes = 52428800, max_header_bytes = 524288, max_headers = 1000,
     max_mime_depth = 20, max_mime_parts = 500\<rparr>"

definition with_defaults :: "mail_limits \<Rightarrow> mail_limits" where
  "with_defaults l = \<lparr>
     max_message_bytes = (if max_message_bytes l \<le> 0 then max_message_bytes default_mail_limits else max_message_bytes l),
     max_header_bytes = (if max_header_bytes l \<le> 0 then max_header_bytes default_mail_limits else max_header_bytes l),
     max_headers = (if max_headers l \<le> 0 then max_headers default_mail_limits else max_headers l),
     max_mime_depth = (if max_mime_depth l \<le> 0 then max_mime_depth default_mail_limits else max_mime_depth l),
     max_mime_parts = (if max_mime_parts l \<le> 0 then max_mime_parts default_mail_limits else max_mime_parts l)\<rparr>"

datatype limit_error = MessageSizeLimit int | HeaderSizeLimit int | HeaderCountLimit int

subsection \<open>Messages\<close>

text \<open>The MIME tree is the subject of another theory, which sets it after the header section is parsed.\<close>

record message =
  ms_headers :: "header list"
  ms_body :: string
  ms_has_body :: bool
  ms_body_available :: bool
  ms_header_size :: nat
  ms_size :: nat
  ms_defects :: "defect_kind list"

definition get_headers :: "message \<Rightarrow> string \<Rightarrow> header list" where
  "get_headers m name = filter (\<lambda>h. equal_fold (hd_name h) name) (ms_headers m)"

definition first_header :: "message \<Rightarrow> string \<Rightarrow> string option" where
  "first_header m name = map_option hd_value (find (\<lambda>h. equal_fold (hd_name h) name) (ms_headers m))"

definition defect :: "defect_kind \<Rightarrow> message \<Rightarrow> message" where
  "defect k m = m\<lparr>ms_defects := ms_defects m @ [k]\<rparr>"

subsection \<open>Lines\<close>

definition next_line :: "string \<Rightarrow> nat \<Rightarrow> string \<times> nat" where
  "next_line data off = (case index_byte (drop off data) lf of
     None \<Rightarrow> (drop off data, length data)
   | Some i \<Rightarrow> (take (i + 1) (drop off data), off + i + 1))"

definition trim_eol :: "string \<Rightarrow> string" where
  "trim_eol line = trim_suffix (trim_suffix line [lf]) [cr]"

fun count_crlf :: "string \<Rightarrow> nat" where
  "count_crlf (a # b # cs) = (if a = cr \<and> b = lf then Suc (count_crlf cs) else count_crlf (b # cs))"
| "count_crlf _ = 0"

definition check_line_endings :: "string \<Rightarrow> message \<Rightarrow> message" where
  "check_line_endings data m = (let crlfs = count_crlf data; lfs = count_list data lf in
     if 0 < lfs \<and> crlfs = 0 then defect DefectBareLF m
     else if crlfs < lfs then defect DefectMixedLineEndings m
     else m)"

definition valid_field_name :: "string \<Rightarrow> bool" where
  "valid_field_name b \<longleftrightarrow> list_all (\<lambda>c. 33 \<le> byte c \<and> byte c \<le> 126) b"

definition unfold_value :: "string \<Rightarrow> string" where
  "unfold_value b = trim_set (filter (\<lambda>c. \<not> (c = cr \<or> c = lf)) b) wsp"

subsection \<open>The header section\<close>

text \<open>\<open>hs_cur\<close> is the field being collected: its name and the offset \<^verbatim>\<open>curStart\<close>.\<close>

record header_state =
  hs_msg :: message
  hs_cur :: "(string \<times> nat) option"

definition flush :: "string \<Rightarrow> nat \<Rightarrow> header_state \<Rightarrow> header_state" where
  "flush data end_off st = (case hs_cur st of
     None \<Rightarrow> st
   | Some (name, start) \<Rightarrow>
       let raw = take (end_off - start) (drop start data);
           h = \<lparr>hd_name = name, hd_value = unfold_value (drop (case index_byte raw (CHR '':'') of None \<Rightarrow> 0 | Some i \<Rightarrow> i + 1) raw),
                hd_raw = raw\<rparr>
       in \<lparr>hs_msg = (hs_msg st)\<lparr>ms_headers := ms_headers (hs_msg st) @ [h]\<rparr>, hs_cur = None\<rparr>)"

definition add_defect :: "defect_kind \<Rightarrow> header_state \<Rightarrow> header_state" where
  "add_defect k st = st\<lparr>hs_msg := defect k (hs_msg st)\<rparr>"

lemma next_line_ahead: "off < length data \<Longrightarrow> off < snd (next_line data off)"
  by (cases "index_byte (drop off data) lf") (auto simp: next_line_def simp del: index_byte_None_iff)

lemma next_line_le: "off \<le> length data \<Longrightarrow> snd (next_line data off) \<le> length data"
  by (cases "index_byte (drop off data) lf")
    (auto simp: next_line_def simp del: index_byte_None_iff dest!: index_byte_SomeD(1))

text \<open>
  One line of the header section either ends the section, with an error or with the offset at which the body starts and
  the message, or goes on to the next line.
\<close>

datatype line_step = EndSection "limit_error + (nat \<times> message)" | NextLine header_state

definition start_field :: "string \<Rightarrow> mail_limits \<Rightarrow> nat \<Rightarrow> string \<Rightarrow> header_state \<Rightarrow> line_step" where
  "start_field data lim off content st = (
     let colon = index_byte content (CHR '':'');
         name = (case colon of None \<Rightarrow> content | Some i \<Rightarrow> take i content);
         trimmed = trim_right name wsp
     in if colon = None \<or> colon = Some 0 \<or> trimmed = [] \<or> \<not> valid_field_name trimmed then
          EndSection (Inr (off, hs_msg (add_defect DefectNoBodySeparator (add_defect DefectMalformedHeaderLine (flush data off st)))))
        else
          let st = (if length trimmed \<noteq> length name then add_defect DefectWhitespaceBeforeColon st else st);
              st = flush data off st
          in if max_headers lim \<le> int (length (ms_headers (hs_msg st))) then EndSection (Inl (HeaderCountLimit (max_headers lim)))
             else NextLine (st\<lparr>hs_cur := Some (trimmed, off)\<rparr>))"

definition take_line :: "string \<Rightarrow> mail_limits \<Rightarrow> nat \<Rightarrow> string \<Rightarrow> nat \<Rightarrow> header_state \<Rightarrow> line_step" where
  "take_line data lim off line next_off st0 = (
     let content = trim_eol line;
         st = (if 998 < length content then add_defect DefectLongLine st0 else st0)
     in if content = [] then EndSection (Inr (next_off, hs_msg (flush data off st)))
        else if hd content = CHR '' '' \<or> hd content = tab then
          NextLine (if hs_cur st = None then add_defect DefectLeadingContinuation st else st)
        else start_field data lim off content st)"

function header_loop :: "string \<Rightarrow> mail_limits \<Rightarrow> nat \<Rightarrow> header_state \<Rightarrow> limit_error + (nat \<times> message)" where
  "header_loop data lim off st = (
     if length data \<le> off then
       (if max_header_bytes lim < int (length data) then Inl (HeaderSizeLimit (max_header_bytes lim))
        else Inr (length data, hs_msg (flush data (length data) st)))
     else if max_header_bytes lim < int off then Inl (HeaderSizeLimit (max_header_bytes lim))
     else case take_line data lim off (fst (next_line data off)) (snd (next_line data off)) st of
       EndSection r \<Rightarrow> r
     | NextLine st' \<Rightarrow> header_loop data lim (snd (next_line data off)) st')"
  by auto
termination
  by (relation "measure (\<lambda>(data, _, off, _). length data - off)") (auto simp: not_le intro!: diff_less_mono2 next_line_ahead)

declare header_loop.simps [simp del]

definition parse_header_section :: "message \<Rightarrow> string \<Rightarrow> mail_limits \<Rightarrow> limit_error + (nat \<times> message)" where
  "parse_header_section m data lim = header_loop data lim 0 \<lparr>hs_msg = m, hs_cur = None\<rparr>"

text \<open>
  \<^verbatim>\<open>ParseBytes\<close>, with the MIME walk as the argument \<open>parse_mime\<close>; it is the identity for a message that is
  parsed with \<^verbatim>\<open>HeadersOnly\<close>.
\<close>

definition parse_bytes :: "(mail_limits \<Rightarrow> message \<Rightarrow> message) \<Rightarrow> bool \<Rightarrow> mail_limits \<Rightarrow> string \<Rightarrow> limit_error + message" where
  "parse_bytes parse_mime headers_only lim0 data = (let lim = with_defaults lim0 in
     if max_message_bytes lim < int (length data) then Inl (MessageSizeLimit (max_message_bytes lim))
     else
       let m = \<lparr>ms_headers = [], ms_body = [], ms_has_body = False, ms_body_available = False, ms_header_size = 0,
                ms_size = length data, ms_defects = []\<rparr>;
           m = check_line_endings data m;
           m = (if CHR 0x00 \<in> set data then defect DefectNULByte m else m)
       in case parse_header_section m data lim of
            Inl e \<Rightarrow> Inl e
          | Inr (offset, m) \<Rightarrow>
              let m = m\<lparr>ms_header_size := offset\<rparr>;
                  m = (if offset < length data then m\<lparr>ms_has_body := True, ms_body := drop offset data\<rparr> else m)
              in if headers_only then Inr m
                 else Inr (parse_mime lim (m\<lparr>ms_body_available := True\<rparr>)))"

text \<open>\<^verbatim>\<open>Parse\<close> reads at most one byte more than the limit; what the reader holds is the string \<open>input\<close>.\<close>

definition parse_reader :: "(mail_limits \<Rightarrow> message \<Rightarrow> message) \<Rightarrow> bool \<Rightarrow> mail_limits \<Rightarrow> string \<Rightarrow> limit_error + message" where
  "parse_reader parse_mime headers_only lim input =
     parse_bytes parse_mime headers_only lim (take (nat (max_message_bytes (with_defaults lim) + 1)) input)"

subsection \<open>Addresses\<close>

definition domain_of :: "string \<Rightarrow> string" where
  "domain_of addr = (case last_index_byte addr (CHR ''@'') of
     None \<Rightarrow> []
   | Some i \<Rightarrow> to_lower (trim_suffix (trim_set (drop (i + 1) addr) [CHR ''<'', CHR ''>'', CHR '' '', tab, CHR ''['', CHR '']'']) ''.''))"

datatype return_path_error = NullReversePath | InvalidReturnPath

text \<open>\<open>parse_address\<close> is \<^verbatim>\<open>mail.ParseAddress\<close>: the address of a mailbox, or no value.\<close>

definition parse_return_path :: "(string \<Rightarrow> string option) \<Rightarrow> string \<Rightarrow> return_path_error + string" where
  "parse_return_path parse_address val = (let v = trim_space val in
     if v = ''<>'' then Inl NullReversePath
     else let v = trim_suffix (trim_prefix v ''<'') ''>'' in
       if CHR ''@'' \<notin> set v then Inl InvalidReturnPath
       else case parse_address (CHR ''<'' # v @ ''>'') of None \<Rightarrow> Inl InvalidReturnPath | Some a \<Rightarrow> Inr a)"

subsection \<open>What the header section keeps\<close>

text \<open>A header agrees with its bytes: the name before the colon, the unfolded value after it.\<close>

definition header_ok :: "header \<Rightarrow> bool" where
  "header_ok h \<longleftrightarrow> (case cut (hd_raw h) (CHR '':'') of (n, rest, found) \<Rightarrow>
     found \<and> trim_right n wsp = hd_name h \<and> hd_value h = unfold_value rest)
     \<and> hd_name h \<noteq> [] \<and> valid_field_name (hd_name h)"

text \<open>What is known of the field being collected, from its bytes so far.\<close>

definition field_start :: "string \<Rightarrow> string \<Rightarrow> bool" where
  "field_start name r \<longleftrightarrow> (case cut r (CHR '':'') of (n, rest, found) \<Rightarrow> found \<and> trim_right n wsp = name)
     \<and> name \<noteq> [] \<and> valid_field_name name"

definition raws :: "message \<Rightarrow> string" where
  "raws m = concat (map hd_raw (ms_headers m))"

text \<open>
  \<open>kept data off m\<close>: the bytes before \<open>off\<close> are those of the headers, after the skipped lines; a skipped line is a
  continuation line with no field to continue.
\<close>

definition continuations :: "string \<Rightarrow> bool" where
  "continuations s \<longleftrightarrow> (\<exists>ls. s = concat ls
     \<and> list_all (\<lambda>l. l \<noteq> [] \<and> (hd l = CHR '' '' \<or> hd l = tab) \<and> lf \<notin> set (butlast l)) ls)"

lemma continuations_Nil [simp]: "continuations []"
  unfolding continuations_def by (rule exI [of _ "[]"]) simp

lemma continuations_snoc:
  assumes "continuations s" and "l \<noteq> []" "hd l = CHR '' '' \<or> hd l = tab" "lf \<notin> set (butlast l)"
  shows "continuations (s @ l)"
proof -
  obtain ls where "s = concat ls" "list_all (\<lambda>l. l \<noteq> [] \<and> (hd l = CHR '' '' \<or> hd l = tab) \<and> lf \<notin> set (butlast l)) ls"
    using assms(1) by (auto simp: continuations_def)
  then show ?thesis using assms(2-) unfolding continuations_def by (intro exI [of _ "ls @ [l]"]) simp
qed

definition kept :: "string \<Rightarrow> nat \<Rightarrow> message \<Rightarrow> bool" where
  "kept data off m \<longleftrightarrow> off \<le> length data \<and> list_all header_ok (ms_headers m) \<and> ms_body m = []
     \<and> (\<exists>pre. take off data = pre @ raws m \<and> continuations pre \<and> (pre = [] \<or> DefectLeadingContinuation \<in> set (ms_defects m)))"

definition collects :: "mail_limits \<Rightarrow> string \<Rightarrow> nat \<Rightarrow> header_state \<Rightarrow> bool" where
  "collects lim data off st \<longleftrightarrow> (case hs_cur st of
     None \<Rightarrow> ms_headers (hs_msg st) = [] \<and> kept data off (hs_msg st)
   | Some (name, start) \<Rightarrow> start < off \<and> off \<le> length data \<and> kept data start (hs_msg st)
       \<and> field_start name (take (off - start) (drop start data)) \<and> int (length (ms_headers (hs_msg st))) < max_headers lim)"

lemma cut_found_append: "cut r c = (n, rest, True) \<Longrightarrow> cut (r @ x) c = (n, rest @ x, True)"
  by (auto simp: cut_True)

lemma field_start_append: "field_start name r \<Longrightarrow> field_start name (r @ x)"
  by (auto simp: field_start_def cut_found_append split: prod.splits)

lemma defect_simps [simp]:
  "ms_headers (defect k m) = ms_headers m" "ms_body (defect k m) = ms_body m" "ms_defects (defect k m) = ms_defects m @ [k]"
  by (simp_all add: defect_def)

lemma kept_defect: "kept data off m \<Longrightarrow> kept data off (defect k m)"
  by (auto simp: kept_def raws_def)

lemma collects_defect: "collects lim data off st \<Longrightarrow> collects lim data off (add_defect k st)"
  by (auto simp: collects_def add_defect_def kept_defect split: option.splits)

lemma cut_index: "cut r c = (n, rest, True) \<Longrightarrow> index_byte r c = Some (length n) \<and> rest = drop (Suc (length n)) r"
  by (auto simp: cut_True)

lemma flush_kept:
  assumes "collects lim data off st" and "0 \<le> max_headers lim"
  shows "kept data off (hs_msg (flush data off st)) \<and> int (length (ms_headers (hs_msg (flush data off st)))) \<le> max_headers lim
    \<and> hs_cur (flush data off st) = None"
proof (cases "hs_cur st")
  case None
  then show ?thesis using assms by (auto simp: collects_def flush_def)
next
  case (Some c)
  then obtain name start where c: "hs_cur st = Some (name, start)" by (cases c) auto
  let ?raw = "take (off - start) (drop start data)"
  let ?m = "hs_msg st"
  have st: "start < off" "off \<le> length data" "kept data start ?m" "field_start name ?raw"
    "int (length (ms_headers ?m)) < max_headers lim"
    using assms(1) c by (auto simp: collects_def)
  obtain n rest where cut: "cut ?raw (CHR '':'') = (n, rest, True)" "trim_right n wsp = name" "name \<noteq> []" "valid_field_name name"
    using st(4) by (auto simp: field_start_def split: prod.splits)
  let ?h = "\<lparr>hd_name = name, hd_value = unfold_value rest, hd_raw = ?raw\<rparr>"
  have m: "hs_msg (flush data off st) = ?m\<lparr>ms_headers := ms_headers ?m @ [?h]\<rparr>"
    using c cut_index [OF cut(1)] by (simp add: flush_def Let_def)
  have "header_ok ?h" using cut by (simp add: header_ok_def)
  moreover have "take off data = take start data @ ?raw"
    using st(1) by (metis le_add_diff_inverse less_or_eq_imp_le take_add)
  ultimately have "kept data off (?m\<lparr>ms_headers := ms_headers ?m @ [?h]\<rparr>)"
    using st(2,3) by (auto simp: kept_def raws_def)
  moreover have "hs_cur (flush data off st) = None" using c by (simp add: flush_def Let_def)
  ultimately show ?thesis using st(5) by (simp add: m)
qed

lemma take_drop_split:
  assumes "start \<le> off" and "off \<le> off'"
  shows "take (off' - start) (drop start data) = take (off - start) (drop start data) @ take (off' - off) (drop off data)"
proof -
  have "off' - start = (off - start) + (off' - off)" and "off - start + start = off" using assms by simp_all
  then show ?thesis by (simp only: take_add drop_drop)
qed

lemma collects_further:
  assumes "collects lim data off st" and "off \<le> off'" and "off' \<le> length data"
    and "hs_cur st = None \<Longrightarrow> DefectLeadingContinuation \<in> set (ms_defects (hs_msg st))
      \<and> (\<forall>pre. continuations pre \<longrightarrow> continuations (pre @ take (off' - off) (drop off data)))"
  shows "collects lim data off' st"
proof (cases "hs_cur st")
  case None
  then have k: "ms_headers (hs_msg st) = []" "kept data off (hs_msg st)" using assms(1) by (simp_all add: collects_def)
  then have "continuations (take off data)" by (auto simp: kept_def raws_def)
  moreover have "take off' data = take off data @ take (off' - off) (drop off data)"
    using assms(2) by (metis le_add_diff_inverse take_add)
  ultimately have "continuations (take off' data)" using assms(4) [OF None] by simp
  then show ?thesis using None k assms(3) assms(4) [OF None] by (simp add: collects_def kept_def raws_def)
next
  case (Some c)
  then obtain name start where c: "hs_cur st = Some (name, start)" by (cases c) auto
  have "take (off' - start) (drop start data) = take (off - start) (drop start data) @ take (off' - off) (drop off data)"
    if "start < off"
    using take_drop_split [of start off off' data] that assms(2) by simp
  then show ?thesis using assms c by (auto simp: collects_def intro: field_start_append)
qed

lemma collects_new:
  assumes "kept data off m" and "off < off'" "off' \<le> length data" and "int (length (ms_headers m)) < max_headers lim"
    and "field_start name (take (off' - off) (drop off data))"
  shows "collects lim data off' \<lparr>hs_msg = m, hs_cur = Some (name, off)\<rparr>"
  using assms by (simp add: collects_def)

lemma next_line_bytes:
  "off \<le> length data \<Longrightarrow> fst (next_line data off) = take (snd (next_line data off) - off) (drop off data)"
  by (auto simp: next_line_def split: option.split)

lemma next_line_single: "lf \<notin> set (butlast (fst (next_line data off)))"
proof (cases "index_byte (drop off data) lf")
  case None
  then have "lf \<notin> set (drop off data)" by simp
  moreover have "fst (next_line data off) = drop off data" unfolding next_line_def None by simp
  ultimately show ?thesis by (auto dest: in_set_butlastD)
next
  case (Some i)
  then have "i < length (drop off data)" "lf \<notin> set (take i (drop off data))" by (auto dest: index_byte_SomeD)
  moreover from this have "butlast (take (i + 1) (drop off data)) = take i (drop off data)" by (simp add: butlast_take)
  ultimately show ?thesis by (simp add: next_line_def Some)
qed

lemma trim_eol_line: "\<exists>eol\<in>{[], [lf], crlf, [cr]}. line = trim_eol line @ eol"
proof -
  obtain e where e: "e \<in> {[], [lf]}" "line = trim_suffix line [lf] @ e"
    by (cases rule: trim_suffix_cases [of line "[lf]"]) auto
  obtain e' where "e' \<in> {[], [cr]}" "trim_suffix line [lf] = trim_eol line @ e'"
    unfolding trim_eol_def by (cases rule: trim_suffix_cases [of "trim_suffix line [lf]" "[cr]"]) auto
  then have "e' @ e \<in> {[], [lf], crlf, [cr]} \<and> line = trim_eol line @ e' @ e" using e by auto
  then show ?thesis by blast
qed

lemma field_start_line:
  assumes "index_byte (trim_eol line) (CHR '':'') = Some i"
    and "trim_right (take i (trim_eol line)) wsp \<noteq> []" "valid_field_name (trim_right (take i (trim_eol line)) wsp)"
  shows "field_start (trim_right (take i (trim_eol line)) wsp) line"
proof -
  obtain eol where "line = trim_eol line @ eol" using trim_eol_line by blast
  moreover have "field_start (trim_right (take i (trim_eol line)) wsp) (trim_eol line)"
    using assms by (simp add: field_start_def cut_def)
  ultimately show ?thesis using field_start_append by metis
qed

definition section_ok :: "mail_limits \<Rightarrow> string \<Rightarrow> nat \<times> message \<Rightarrow> bool" where
  "section_ok lim data r \<longleftrightarrow> (case r of (body_off, m) \<Rightarrow> body_off \<le> length data
     \<and> int (length (ms_headers m)) \<le> max_headers lim
     \<and> (\<exists>off\<le>body_off. kept data off m \<and> take (body_off - off) (drop off data) \<in> {[], [lf], crlf, [cr]}
        \<and> (if body_off = off then body_off = length data \<or> DefectNoBodySeparator \<in> set (ms_defects m) else True)))"

lemma section_okI:
  "kept data off m \<Longrightarrow> int (length (ms_headers m)) \<le> max_headers lim \<Longrightarrow> off \<le> body_off \<Longrightarrow> body_off \<le> length data \<Longrightarrow>
   take (body_off - off) (drop off data) \<in> {[], [lf], crlf, [cr]} \<Longrightarrow>
   (body_off = off \<Longrightarrow> body_off = length data \<or> DefectNoBodySeparator \<in> set (ms_defects m)) \<Longrightarrow> section_ok lim data (body_off, m)"
  by (auto simp: section_ok_def)

text \<open>What a line keeps of the invariant; \<open>nxt\<close> is the offset behind the line.\<close>

definition line_ok :: "mail_limits \<Rightarrow> string \<Rightarrow> nat \<Rightarrow> line_step \<Rightarrow> bool" where
  "line_ok lim data nxt x \<longleftrightarrow> (case x of
     EndSection (Inl e) \<Rightarrow> True
   | EndSection (Inr r) \<Rightarrow> section_ok lim data r
   | NextLine st \<Rightarrow> collects lim data nxt st)"

lemma flush_cur: "hs_cur (flush data off st) = None \<Longrightarrow> (flush data off st)\<lparr>hs_cur := c\<rparr> = \<lparr>hs_msg = hs_msg (flush data off st), hs_cur = c\<rparr>"
  by (cases "flush data off st") simp

lemma start_field_ok:
  assumes st: "collects lim data off st" "0 \<le> max_headers lim" and nxt: "off < nxt" "nxt \<le> length data"
    and line: "line = take (nxt - off) (drop off data)"
  shows "line_ok lim data nxt (start_field data lim off (trim_eol line) st)"
proof -
  have bad: "section_ok lim data (off, hs_msg (add_defect DefectNoBodySeparator (add_defect DefectMalformedHeaderLine (flush data off st))))"
    using flush_kept [OF st] nxt by (auto intro!: section_okI [of data off] kept_defect simp: add_defect_def)
  have good: "collects lim data nxt ((flush data off st')\<lparr>hs_cur := Some (name, off)\<rparr>)"
    if "collects lim data off st'" "\<not> max_headers lim \<le> int (length (ms_headers (hs_msg (flush data off st'))))" "field_start name line"
    for st' name
    using flush_kept [OF that(1) st(2)] that(2,3) nxt by (auto simp: flush_cur line intro!: collects_new)
  show ?thesis
    using bad st(1) field_start_line [of line]
    by (auto simp: start_field_def line_ok_def Let_def collects_defect intro!: good split: option.splits)
qed

lemma take_line_ok:
  assumes st: "collects lim data off st" "0 \<le> max_headers lim" and nxt: "off < nxt" "nxt \<le> length data"
    and line: "line = take (nxt - off) (drop off data)" "lf \<notin> set (butlast line)"
  shows "line_ok lim data nxt (take_line data lim off line nxt st)"
proof -
  let ?st = "if 998 < length (trim_eol line) then add_defect DefectLongLine st else st"
  have st': "collects lim data off ?st" using st(1) by (simp add: collects_defect)
  have blank: "section_ok lim data (nxt, hs_msg (flush data off ?st))" if "trim_eol line = []"
    using flush_kept [OF st' st(2)] nxt trim_eol_line [of line] that by (auto simp: line(1) [symmetric] intro!: section_okI [of data off])
  let ?cont = "if hs_cur ?st = None then add_defect DefectLeadingContinuation ?st else ?st"
  have off: "collects lim data off ?cont" using st' by (simp add: collects_defect)
  have cont: "collects lim data nxt ?cont" if "trim_eol line \<noteq> []" "hd (trim_eol line) = CHR '' '' \<or> hd (trim_eol line) = tab"
  proof -
    obtain eol where "line = trim_eol line @ eol" using trim_eol_line by blast
    then have "line \<noteq> []" "hd line = CHR '' '' \<or> hd line = tab" using that by (metis append_is_Nil_conv, metis hd_append2)
    then have "continuations (pre @ take (nxt - off) (drop off data))" if "continuations pre" for pre
      using continuations_snoc [OF that _ _ line(2)] line(1) by simp
    then show ?thesis
      by (intro collects_further [OF off]) (use nxt in \<open>auto simp: add_defect_def split: if_splits\<close>)
  qed
  then show ?thesis
    using blank start_field_ok [OF st' st(2) nxt line(1)] by (simp add: take_line_def line_ok_def Let_def del: length_greater_0_conv)
qed

lemma header_loop_ok:
  "collects lim data off st \<Longrightarrow> 0 \<le> max_headers lim \<Longrightarrow> header_loop data lim off st = Inr r \<Longrightarrow> section_ok lim data r"
proof (induction data lim off st rule: header_loop.induct)
  case (1 data lim off st)
  show ?case
  proof (cases "length data \<le> off")
    case True
    then have "off = length data" using 1(2) by (auto simp: collects_def kept_def split: option.splits)
    then have "r = (length data, hs_msg (flush data off st))"
      using 1(4) True by (subst (asm) header_loop.simps) (auto split: if_splits)
    then show ?thesis
      using flush_kept [OF 1(2,3)] \<open>off = length data\<close> by (auto intro!: section_okI [of data off])
  next
    case False
    let ?nxt = "snd (next_line data off)"
    let ?step = "take_line data lim off (fst (next_line data off)) ?nxt st"
    have "off < ?nxt" "?nxt \<le> length data" "fst (next_line data off) = take (?nxt - off) (drop off data)"
      using next_line_ahead [of off data] next_line_le [of off data] next_line_bytes [of off data] False by simp_all
    then have ok: "line_ok lim data ?nxt ?step" using take_line_ok [OF 1(2,3)] next_line_single by blast
    have lim: "\<not> max_header_bytes lim < int off" using 1(4) False by (subst (asm) header_loop.simps) (auto split: if_splits)
    have "(case ?step of EndSection r' \<Rightarrow> r' | NextLine st' \<Rightarrow> header_loop data lim ?nxt st') = Inr r"
      using 1(4) False lim by (subst (asm) header_loop.simps) simp
    then show ?thesis using ok 1(1) [OF False lim] 1(3) by (auto simp: line_ok_def split: line_step.splits sum.splits)
  qed
qed

definition empty_message :: "nat \<Rightarrow> message" where
  "empty_message n = \<lparr>ms_headers = [], ms_body = [], ms_has_body = False, ms_body_available = False, ms_header_size = 0,
     ms_size = n, ms_defects = []\<rparr>"

lemma parse_header_section_ok:
  assumes "parse_header_section m data lim = Inr r" and "ms_headers m = []" and "ms_body m = []" and "0 \<le> max_headers lim"
  shows "section_ok lim data r"
  using assms(1) header_loop_ok [of lim data 0 "\<lparr>hs_msg = m, hs_cur = None\<rparr>"] assms(2-4)
  by (simp add: parse_header_section_def collects_def kept_def raws_def)

subsection \<open>Properties\<close>

lemma with_defaults_positive: "0 < max_headers (with_defaults lim)" "0 < max_message_bytes (with_defaults lim)"
  by (simp_all add: with_defaults_def default_mail_limits_def)

lemma headers_of_check [simp]:
  "ms_headers (check_line_endings data m) = ms_headers m" "ms_body (check_line_endings data m) = ms_body m"
  by (simp_all add: check_line_endings_def Let_def)

lemma parse_bytes_headers_only:
  assumes "parse_bytes parse_mime True lim data = Inr m"
  shows "\<exists>offset m0. section_ok (with_defaults lim) data (offset, m0)
    \<and> ms_headers m = ms_headers m0 \<and> ms_defects m = ms_defects m0 \<and> ms_body m = drop offset data"
proof -
  let ?lim = "with_defaults lim"
  let ?m1 = "check_line_endings data (empty_message (length data))"
  let ?m2 = "if CHR 0x00 \<in> set data then defect DefectNULByte ?m1 else ?m1"
  obtain offset m0 where sec: "parse_header_section ?m2 data ?lim = Inr (offset, m0)"
    and m: "m = (if offset < length data
        then (m0\<lparr>ms_header_size := offset\<rparr>)\<lparr>ms_has_body := True, ms_body := drop offset data\<rparr> else m0\<lparr>ms_header_size := offset\<rparr>)"
    using assms unfolding parse_bytes_def empty_message_def [symmetric] Let_def
    by (simp only: if_True split: if_splits sum.splits prod.splits) auto
  have hdrs: "ms_headers ?m2 = []" "ms_body ?m2 = []" by (simp_all add: empty_message_def)
  have ok: "section_ok ?lim data (offset, m0)"
    using parse_header_section_ok [OF sec hdrs] with_defaults_positive(1) [of lim] by simp
  then have "ms_body m0 = []" by (auto simp: section_ok_def kept_def)
  then have "ms_headers m = ms_headers m0 \<and> ms_defects m = ms_defects m0 \<and> ms_body m = drop offset data"
    unfolding m by simp
  with ok show ?thesis by blast
qed

lemma parse_bytes_full:
  "parse_bytes parse_mime False lim data =
     map_sum id (\<lambda>m. parse_mime (with_defaults lim) (m\<lparr>ms_body_available := True\<rparr>)) (parse_bytes parse_mime True lim data)"
proof (cases "max_message_bytes (with_defaults lim) < int (length data)")
  case True
  then show ?thesis by (simp add: parse_bytes_def Let_def)
next
  case False
  have split: "(case x of Inl e \<Rightarrow> Inl e | Inr r \<Rightarrow> (case r of (offset, m) \<Rightarrow> Inr (f offset m)))
      = map_sum id g (case x of Inl e \<Rightarrow> Inl e | Inr r \<Rightarrow> (case r of (offset, m) \<Rightarrow> Inr (h offset m)))"
    if "\<And>offset m. f offset m = g (h offset m)" for x :: "limit_error + (nat \<times> message)" and f g and h :: "nat \<Rightarrow> message \<Rightarrow> message"
    using that by (simp split: sum.split prod.split)
  show ?thesis unfolding parse_bytes_def Let_def if_not_P [OF False] if_False if_True
    by (rule split) (rule refl)
qed

text \<open>How the bytes of a message are divided, over the headers, the body and the defects that a parse found.\<close>

definition divides :: "string \<Rightarrow> mail_limits \<Rightarrow> message \<Rightarrow> bool" where
  "divides data lim m \<longleftrightarrow> list_all header_ok (ms_headers m) \<and> int (length (ms_headers m)) \<le> max_headers lim
     \<and> (\<exists>skipped sep. data = skipped @ concat (map hd_raw (ms_headers m)) @ sep @ ms_body m
          \<and> continuations skipped \<and> (if skipped = [] then True else DefectLeadingContinuation \<in> set (ms_defects m))
          \<and> (if sep = [] then ms_body m = [] \<or> DefectNoBodySeparator \<in> set (ms_defects m) else sep \<in> {[lf], crlf, [cr]}))"

lemma divides_mono:
  "divides data lim m \<Longrightarrow> ms_headers m' = ms_headers m \<Longrightarrow> ms_body m' = ms_body m \<Longrightarrow>
   set (ms_defects m) \<subseteq> set (ms_defects m') \<Longrightarrow> divides data lim m'"
proof -
  assume same: "ms_headers m' = ms_headers m" "ms_body m' = ms_body m" and d: "set (ms_defects m) \<subseteq> set (ms_defects m')"
  have "(if c then True else k \<in> set (ms_defects m)) \<Longrightarrow> (if c then True else k \<in> set (ms_defects m'))"
    "(if c then b \<or> k \<in> set (ms_defects m) else x) \<Longrightarrow> (if c then b \<or> k \<in> set (ms_defects m') else x)" for c k b x
    using d by auto
  then show "divides data lim m \<Longrightarrow> divides data lim m'"
    unfolding divides_def same by blast
qed

lemma parse_bytes_divides:
  assumes "parse_bytes parse_mime True lim data = Inr m"
  shows "divides data (with_defaults lim) m"
proof -
  obtain offset m0 where m0: "section_ok (with_defaults lim) data (offset, m0)" "ms_headers m = ms_headers m0"
      "ms_defects m = ms_defects m0" "ms_body m = drop offset data"
    using parse_bytes_headers_only [OF assms] by blast
  then obtain off pre where off: "off \<le> offset" "take (offset - off) (drop off data) \<in> {[], [lf], crlf, [cr]}"
      "take off data = pre @ raws m0" "pre = [] \<or> DefectLeadingContinuation \<in> set (ms_defects m0)" "list_all header_ok (ms_headers m0)"
      "continuations pre" "if offset = off then offset = length data \<or> DefectNoBodySeparator \<in> set (ms_defects m0) else True"
      "offset \<le> length data"
    unfolding section_ok_def kept_def by (simp only: prod.case) blast
  let ?sep = "take (offset - off) (drop off data)"
  have "data = take off data @ ?sep @ drop offset data"
    using take_drop_split [of 0 off offset data] off(1) append_take_drop_id [of offset data] by simp
  then have data: "data = pre @ concat (map hd_raw (ms_headers m)) @ ?sep @ ms_body m"
    unfolding off(3) raws_def m0(2,4) append_assoc .
  have "if ?sep = [] then ms_body m = [] \<or> DefectNoBodySeparator \<in> set (ms_defects m) else ?sep \<in> {[lf], crlf, [cr]}"
    using off(1,2,7,8) m0(3,4) by (auto split: if_splits)
  moreover have "int (length (ms_headers m)) \<le> max_headers (with_defaults lim)"
    using m0(1,2) by (simp add: section_ok_def)
  ultimately show ?thesis
    unfolding divides_def using data off(4-6) m0(2,3) by (intro conjI exI [of _ pre] exI [of _ ?sep]) auto
qed

text \<open>
  The limit on the message size bounds what is read: a message longer than the limit is refused with
  that error after one byte more than the limit, and any other message is parsed in full.
\<close>

theorem read_limit:
  "parse_reader parse_mime headers_only lim input =
    (if max_message_bytes (with_defaults lim) < int (length input) then Inl (MessageSizeLimit (max_message_bytes (with_defaults lim)))
     else parse_bytes parse_mime headers_only lim input)"
proof (cases "max_message_bytes (with_defaults lim) < int (length input)")
  case True
  then have "max_message_bytes (with_defaults lim) < int (length (take (nat (max_message_bytes (with_defaults lim) + 1)) input))"
    using with_defaults_positive(2) [of lim] by simp
  then show ?thesis using True by (simp add: parse_reader_def parse_bytes_def)
next
  case False
  then show ?thesis by (simp add: parse_reader_def)
qed

end
