(* ===== verification/DkimCanon.thy ===== *)
theory DkimCanon
  imports GoStrings
begin

section \<open>DKIM canonicalization (internal/dkim/canon.go)\<close>

text \<open>
  A byte slice is a string.  \<open>canon_body\<close> writes to an \<^verbatim>\<open>io.Writer\<close> in the code, a hash; the model's writer
  keeps the bytes it received, so a hash of the body is a function of \<open>bw_out\<close>.  The loops keep the
  code's variables: the pending empty lines, the flags for white space and for the first byte.
  The reference for the body cuts it into lines, canonicalises each and drops the trailing empty
  lines; the reference for a relaxed header value is its words, joined by single spaces.
\<close>

definition canon_simple :: string where "canon_simple = ''simple''"
definition canon_relaxed :: string where "canon_relaxed = ''relaxed''"

subsection \<open>Line endings\<close>

text \<open>The first argument is the byte before; at the start of the slice there is none.\<close>

fun add_cr :: "char option \<Rightarrow> string \<Rightarrow> string" where
  "add_cr prev [] = []"
| "add_cr prev (c # cs) = (if c = lf \<and> prev \<noteq> Some cr then [cr] else []) @ c # add_cr (Some c) cs"

definition normalize_eol :: "string \<Rightarrow> string" where
  "normalize_eol b = (if lf \<notin> set b then b else add_cr None b)"

definition is_wsp :: "char \<Rightarrow> bool" where
  "is_wsp c \<longleftrightarrow> c = CHR '' '' \<or> c = tab"

subsection \<open>Header fields\<close>

text \<open>The loop over the value: \<open>w\<close> is \<^verbatim>\<open>inWSP\<close>, \<open>started\<close> is \<^verbatim>\<open>started\<close>.\<close>

fun relax_value :: "bool \<Rightarrow> bool \<Rightarrow> string \<Rightarrow> string" where
  "relax_value w started [] = []"
| "relax_value w started (c # cs) =
     (if c = cr \<or> c = lf then relax_value w started cs
      else if is_wsp c then relax_value True started cs
      else (if w \<and> started then [CHR '' ''] else []) @ c # relax_value False True cs)"

definition canon_header :: "string \<Rightarrow> string \<Rightarrow> string" where
  "canon_header raw0 alg = (let raw = normalize_eol raw0 in
     if alg = canon_simple then (if \<not> has_suffix raw crlf then raw @ crlf else raw)
     else case index_byte raw (CHR '':'') of
       None \<Rightarrow> []
     | Some colon \<Rightarrow> to_lower (trim_right (take colon raw) wsp) @ CHR '':'' #
         relax_value False False (drop (Suc colon) raw) @ crlf)"

subsection \<open>The body\<close>

record body_writer =
  bw_out :: string
  bw_limit :: int
  bw_total :: int

definition write_body :: "string \<Rightarrow> body_writer \<Rightarrow> body_writer" where
  "write_body p b =
     (let out = (if bw_limit b < 0 then bw_out b @ p
                 else let remaining = bw_limit b - bw_total b in
                   if 0 < remaining then bw_out b @ take (nat (min (int (length p)) remaining)) p else bw_out b)
      in b\<lparr>bw_out := out, bw_total := bw_total b + int (length p)\<rparr>)"

text \<open>The relaxed form of a line; the flag is \<^verbatim>\<open>inWSP\<close>.\<close>

fun relax_line :: "bool \<Rightarrow> string \<Rightarrow> string" where
  "relax_line w [] = []"
| "relax_line w (c # cs) =
     (if is_wsp c then relax_line True cs else (if w then [CHR '' ''] else []) @ c # relax_line False cs)"

definition cut_line :: "string \<Rightarrow> string \<times> string" where
  "cut_line body = (case index_byte body lf of
     None \<Rightarrow> (body, [])
   | Some i \<Rightarrow> (take i body, drop (Suc i) body))"

definition canon_line :: "bool \<Rightarrow> string \<Rightarrow> string" where
  "canon_line relaxed line0 = (let line = trim_suffix line0 [cr] in if relaxed then relax_line False line else line)"

lemma cut_line_shorter: "body \<noteq> [] \<Longrightarrow> cut_line body = (line, rest) \<Longrightarrow> length rest < length body"
  by (cases "index_byte body lf") (auto simp: cut_line_def dest: index_byte_SomeD simp del: index_byte_None_iff)

function canon_body_loop :: "bool \<Rightarrow> string \<Rightarrow> nat \<Rightarrow> body_writer \<Rightarrow> body_writer" where
  "canon_body_loop relaxed body pending out = (if body = [] then out
     else let line = canon_line relaxed (fst (cut_line body)); rest = snd (cut_line body) in
       if line = [] then canon_body_loop relaxed rest (Suc pending) out
       else canon_body_loop relaxed rest 0
         (write_body crlf (write_body line ((write_body crlf ^^ pending) out))))"
  by auto
termination
  by (relation "measure (\<lambda>(_, body, _, _). length body)")
    (auto intro: cut_line_shorter simp: prod_eq_iff)

declare canon_body_loop.simps [simp del]

definition canon_body :: "string \<Rightarrow> string \<Rightarrow> int \<Rightarrow> body_writer" where
  "canon_body body alg limit = (let relaxed = (alg = canon_relaxed);
     out = canon_body_loop relaxed body 0 \<lparr>bw_out = [], bw_limit = limit, bw_total = 0\<rparr> in
     if bw_total out = 0 \<and> \<not> relaxed then write_body crlf out else out)"

text \<open>The two functions exported for the test fixtures.\<close>

definition canonical_header :: "string \<Rightarrow> string \<Rightarrow> string" where
  "canonical_header raw alg = canon_header raw alg"

definition canonical_body :: "string \<Rightarrow> string \<Rightarrow> int \<Rightarrow> body_writer" where
  "canonical_body body alg limit = canon_body (normalize_eol body) alg limit"

subsection \<open>The signature field without its signature\<close>

definition line_end :: "string \<Rightarrow> string" where
  "line_end seg = (let trail = length seg - 1;
     trail = (if 0 < trail \<and> seg ! (trail - 1) = cr then trail - 1 else trail) in drop trail seg)"

definition strip_segment :: "bool \<Rightarrow> string \<Rightarrow> string" where
  "strip_segment followed seg = (case index_byte seg (CHR ''='') of
     Some eq \<Rightarrow> if trim_set (take eq seg) fws = ''b''
       then take (Suc eq) seg @ (if followed then '';'' else if has_suffix seg [lf] then line_end seg else [])
       else seg
   | None \<Rightarrow> seg)"

function strip_loop :: "string \<Rightarrow> string" where
  "strip_loop rest = (if rest = [] then [] else
     case index_byte rest (CHR '';'') of
       None \<Rightarrow> strip_segment False rest
     | Some e \<Rightarrow> strip_segment True (take (Suc e) rest) @ strip_loop (drop (Suc e) rest))"
  by auto
termination
  by (relation "measure length") (auto dest: index_byte_SomeD simp del: index_byte_None_iff)

declare strip_loop.simps [simp del]

definition strip_signature_value :: "string \<Rightarrow> string" where
  "strip_signature_value raw = (case index_byte raw (CHR '':'') of
     None \<Rightarrow> raw
   | Some colon \<Rightarrow> take (Suc colon) raw @ strip_loop (drop (Suc colon) raw))"

subsection \<open>The writer\<close>

text \<open>\<open>wrote full w\<close>: \<open>w\<close> was given the bytes \<open>full\<close> and kept as many as its limit allows.\<close>

definition limited :: "int \<Rightarrow> string \<Rightarrow> string" where
  "limited limit full = (if limit < 0 then full else take (nat limit) full)"

definition wrote :: "int \<Rightarrow> string \<Rightarrow> body_writer \<Rightarrow> bool" where
  "wrote limit full w \<longleftrightarrow> w = \<lparr>bw_out = limited limit full, bw_limit = limit, bw_total = int (length full)\<rparr>"

lemma wrote_start: "wrote limit [] \<lparr>bw_out = [], bw_limit = limit, bw_total = 0\<rparr>"
  by (simp add: wrote_def limited_def)

lemma wrote_more: "wrote limit full w \<Longrightarrow> wrote limit (full @ p) (write_body p w)"
  by (auto simp: wrote_def write_body_def limited_def Let_def nat_diff_distrib min_def)

lemma wrote_crlfs: "wrote limit full w \<Longrightarrow> wrote limit (full @ concat (replicate n crlf)) ((write_body crlf ^^ n) w)"
proof (induction n)
  case (Suc n)
  have "concat (replicate (Suc n) crlf) = concat (replicate n crlf) @ crlf"
    by (simp flip: replicate_append_same)
  then show ?case using wrote_more [OF Suc.IH [OF Suc.prems]] by simp
qed simp

subsection \<open>The reference for the body\<close>

function body_lines :: "string \<Rightarrow> string list" where
  "body_lines body = (if body = [] then [] else fst (cut_line body) # body_lines (snd (cut_line body)))"
  by auto
termination
  by (relation "measure length") (auto intro: cut_line_shorter simp: prod_eq_iff)

declare body_lines.simps [simp del]

definition drop_trailing :: "string list \<Rightarrow> string list" where
  "drop_trailing ls = rev (dropWhile (\<lambda>l. l = []) (rev ls))"

definition as_lines :: "string list \<Rightarrow> string" where
  "as_lines ls = concat (map (\<lambda>l. l @ crlf) ls)"

definition body_text :: "string \<Rightarrow> string \<Rightarrow> string" where
  "body_text body alg = (let relaxed = (alg = canon_relaxed);
     ls = drop_trailing (map (canon_line relaxed) (body_lines body)) in
     if ls = [] \<and> \<not> relaxed then crlf else as_lines ls)"

lemma drop_trailing_nonempty: "x \<noteq> [] \<Longrightarrow> drop_trailing (xs @ x # ys) = xs @ x # drop_trailing ys"
  by (auto simp: drop_trailing_def dropWhile_append) (simp add: dropWhile_eq_Nil_conv)?

lemma drop_trailing_replicate [simp]: "drop_trailing (replicate n []) = []"
  by (simp add: drop_trailing_def)

lemma drop_trailing_Nil [simp]: "drop_trailing [] = []"
  by (simp add: drop_trailing_def)

lemma drop_trailing_idem [simp]: "drop_trailing (drop_trailing ls) = drop_trailing ls"
  by (simp add: drop_trailing_def)

lemma drop_trailing_subset: "set (drop_trailing ls) \<subseteq> set ls"
  by (auto simp: drop_trailing_def dest: set_dropWhileD)

lemma as_lines_append [simp]: "as_lines (a @ b) = as_lines a @ as_lines b"
  by (simp add: as_lines_def)

lemma as_lines_Nil [simp]: "as_lines [] = []"
  by (simp add: as_lines_def)

lemma as_lines_Cons [simp]: "as_lines (l # ls) = l @ crlf @ as_lines ls"
  by (simp add: as_lines_def)

lemma as_lines_replicate: "as_lines (replicate n []) = concat (replicate n crlf)"
  by (induction n) simp_all

lemma as_lines_Nil_iff [simp]: "as_lines ls = [] \<longleftrightarrow> ls = []"
  by (cases ls) simp_all

lemma canon_body_loop_wrote:
  "wrote limit full w \<Longrightarrow> wrote limit
     (full @ as_lines (drop_trailing (replicate pending [] @ map (canon_line relaxed) (body_lines body))))
     (canon_body_loop relaxed body pending w)"
proof (induction relaxed body pending w arbitrary: full rule: canon_body_loop.induct)
  case (1 relaxed body pending out)
  define line where "line = canon_line relaxed (fst (cut_line body))"
  define rest where "rest = snd (cut_line body)"
  show ?case
  proof (cases "body = []")
    case True
    then show ?thesis using 1 by (simp add: canon_body_loop.simps body_lines.simps)
  next
    case False
    then have lines: "map (canon_line relaxed) (body_lines body) = line # map (canon_line relaxed) (body_lines rest)"
      by (simp add: body_lines.simps [of body] line_def rest_def)
    show ?thesis
    proof (cases "line = []")
      case True
      then have "canon_body_loop relaxed body pending out = canon_body_loop relaxed rest (Suc pending) out"
        using False by (simp add: canon_body_loop.simps [of relaxed body] line_def rest_def)
      moreover have "replicate pending [] @ map (canon_line relaxed) (body_lines body)
          = replicate (Suc pending) [] @ map (canon_line relaxed) (body_lines rest)"
        by (simp add: lines True replicate_app_Cons_same)
      ultimately show ?thesis
        using 1(1) [OF False line_def rest_def True 1(3)] by (simp only:)
    next
      case nonempty: False
      let ?out = "write_body crlf (write_body line ((write_body crlf ^^ pending) out))"
      have "canon_body_loop relaxed body pending out = canon_body_loop relaxed rest 0 ?out"
        using False nonempty by (simp add: canon_body_loop.simps [of relaxed body] line_def rest_def Let_def)
      moreover have "wrote limit (full @ as_lines (replicate pending []) @ line @ crlf) ?out"
        using wrote_more [OF wrote_more [OF wrote_crlfs [OF 1(3)]], of pending line crlf]
        by (simp add: as_lines_replicate)
      ultimately show ?thesis
        using 1(2) [OF False line_def rest_def nonempty, of "full @ as_lines (replicate pending []) @ line @ crlf"] lines nonempty
        by (simp add: drop_trailing_nonempty)
    qed
  qed
qed

lemma canon_body_text: "wrote limit (body_text body alg) (canon_body body alg limit)"
proof -
  let ?r = "alg = canon_relaxed"
  define w where "w = canon_body_loop ?r body 0 \<lparr>bw_out = [], bw_limit = limit, bw_total = 0\<rparr>"
  define ls where "ls = drop_trailing (map (canon_line ?r) (body_lines body))"
  have w: "wrote limit (as_lines ls) w"
    using canon_body_loop_wrote [OF wrote_start, of limit 0 ?r body] by (simp add: w_def ls_def)
  have total: "bw_total w = 0 \<longleftrightarrow> ls = []"
    using w by (simp add: wrote_def)
  have body: "canon_body body alg limit = (if ls = [] \<and> \<not> ?r then write_body crlf w else w)"
    by (simp only: canon_body_def Let_def w_def [symmetric] total)
  have content: "body_text body alg = (if ls = [] \<and> \<not> ?r then crlf else as_lines ls)"
    by (simp only: body_text_def Let_def ls_def)
  show ?thesis
    using w wrote_more [OF w, of crlf] unfolding body content
    by (cases "ls = [] \<and> \<not> ?r") auto
qed

lemma canon_body_out:
  "canon_body body alg limit = \<lparr>bw_out = limited limit (body_text body alg), bw_limit = limit,
     bw_total = int (length (body_text body alg))\<rparr>"
  using canon_body_text by (simp add: wrote_def)

subsection \<open>Lines and line endings\<close>

lemma cut_line_lf: "lf \<notin> set l \<Longrightarrow> cut_line (l @ lf # rest) = (l, rest)"
  by (simp add: cut_line_def)

lemma cut_line_last: "lf \<notin> set l \<Longrightarrow> cut_line l = (l, [])"
  by (simp add: cut_line_def iffD2 [OF index_byte_None_iff])

lemma body_lines_lf: "lf \<notin> set l \<Longrightarrow> body_lines (l @ lf # rest) = l # body_lines rest"
  by (subst body_lines.simps) (simp add: cut_line_lf)

lemma body_lines_Nil [simp]: "body_lines [] = []"
  by (subst body_lines.simps) simp

lemma body_lines_last: "lf \<notin> set l \<Longrightarrow> l \<noteq> [] \<Longrightarrow> body_lines l = [l]"
  by (subst body_lines.simps) (simp add: cut_line_last)

lemma body_lines_induct [case_names Nil Last Line]:
  assumes "P []" and "\<And>l. lf \<notin> set l \<Longrightarrow> l \<noteq> [] \<Longrightarrow> P l" and "\<And>l rest. lf \<notin> set l \<Longrightarrow> P rest \<Longrightarrow> P (l @ lf # rest)"
  shows "P body"
proof (induction body rule: length_induct)
  case (1 body)
  show ?case
  proof (cases "lf \<in> set body")
    case True
    then obtain l rest where "body = l @ lf # rest" "lf \<notin> set l" by (meson split_list_first)
    then show ?thesis using 1 assms(3) by auto
  next
    case False
    then show ?thesis using assms(1,2) by (cases "body = []") auto
  qed
qed

lemma body_lines_no_lf: "l \<in> set (body_lines body) \<Longrightarrow> lf \<notin> set l"
  by (induction body rule: body_lines_induct) (auto simp: body_lines_lf body_lines_last)

lemma body_lines_as_lines: "\<forall>l\<in>set ls. lf \<notin> set l \<Longrightarrow> body_lines (as_lines ls) = map (\<lambda>l. l @ [cr]) ls"
proof (induction ls)
  case (Cons l ls)
  then show ?case using body_lines_lf [of "l @ [cr]" "as_lines ls"] by simp
qed simp

lemma add_cr_append: "add_cr p (a @ b) = add_cr p a @ add_cr (if a = [] then p else Some (last a)) b"
  by (induction a arbitrary: p) auto

lemma add_cr_no_lf: "lf \<notin> set a \<Longrightarrow> add_cr p a = a"
  by (induction a arbitrary: p) auto

lemma has_suffix_single: "has_suffix l [c] \<longleftrightarrow> l \<noteq> [] \<and> last l = c"
  by (cases l rule: rev_cases) (auto simp: has_suffix_iff)

lemma trim_suffix_single: "trim_suffix l [c] = (if l \<noteq> [] \<and> last l = c then butlast l else l)"
  by (cases l rule: rev_cases) (auto simp: trim_suffix_def has_suffix_single)

lemma trimmed_lines_add_cr:
  "p \<noteq> Some cr \<Longrightarrow> map (\<lambda>l. trim_suffix l [cr]) (body_lines (add_cr p body)) = map (\<lambda>l. trim_suffix l [cr]) (body_lines body)"
proof (induction body arbitrary: p rule: body_lines_induct)
  case (Last l)
  then show ?case by (simp add: add_cr_no_lf)
next
  case (Line l rest)
  let ?l = "if l \<noteq> [] \<and> last l = cr then l else l @ [cr]"
  have "add_cr p (l @ lf # rest) = ?l @ lf # add_cr (Some lf) rest"
    using Line.prems by (simp add: add_cr_append add_cr_no_lf [OF Line.hyps])
  moreover have "lf \<notin> set ?l" using Line.hyps by simp
  moreover have "trim_suffix ?l [cr] = trim_suffix l [cr]" by (simp add: trim_suffix_single)
  ultimately show ?case
    using Line.IH [of "Some lf"] by (simp only: body_lines_lf Line.hyps list.map simp_thms option.inject char.inject)
qed simp

lemma canon_lines_normalize:
  "map (canon_line relaxed) (body_lines (normalize_eol body)) = map (canon_line relaxed) (body_lines body)"
proof -
  have "map (canon_line relaxed) ls = map (\<lambda>l. if relaxed then relax_line False l else l) (map (\<lambda>l. trim_suffix l [cr]) ls)" for ls
    by (simp add: canon_line_def Let_def)
  then show ?thesis
    using trimmed_lines_add_cr [of None body] by (simp only: normalize_eol_def split: if_split) simp
qed

lemma body_text_normalize [simp]: "body_text (normalize_eol body) alg = body_text body alg"
  by (simp only: body_text_def canon_lines_normalize)

lemma relax_line_idem [simp]: "relax_line False (relax_line w l) = relax_line w l"
  by (induction w l rule: relax_line.induct) (auto simp: is_wsp_def)

lemma canon_line_again: "canon_line relaxed (canon_line relaxed l @ [cr]) = canon_line relaxed l"
  by (simp add: canon_line_def Let_def)

lemma relax_line_subset: "set (relax_line w l) \<subseteq> insert (CHR '' '') (set l)"
  by (induction w l rule: relax_line.induct) auto

lemma trim_suffix_subset: "set (trim_suffix l p) \<subseteq> set l"
  by (auto simp: trim_suffix_def dest: in_set_takeD)

lemma canon_line_no_lf: "lf \<notin> set l \<Longrightarrow> lf \<notin> set (canon_line relaxed l)"
  using relax_line_subset [of False "trim_suffix l [cr]"] trim_suffix_subset [of l "[cr]"]
  by (auto simp: canon_line_def Let_def)

lemma canon_lines_again:
  assumes "set ls \<subseteq> canon_line relaxed ` set (body_lines body)"
  shows "map (canon_line relaxed) (body_lines (as_lines ls)) = ls"
proof -
  have "\<forall>l\<in>set ls. lf \<notin> set l" using assms by (auto dest: canon_line_no_lf [OF body_lines_no_lf])
  then have "map (canon_line relaxed) (body_lines (as_lines ls)) = map (\<lambda>l. canon_line relaxed (l @ [cr])) ls"
    by (simp add: body_lines_as_lines)
  also have "\<dots> = ls"
    using assms by (intro map_idI) (auto simp: canon_line_again)
  finally show ?thesis .
qed

lemma body_text_idem: "body_text (body_text body alg) alg = body_text body alg"
proof -
  let ?r = "alg = canon_relaxed"
  let ?ls = "drop_trailing (map (canon_line ?r) (body_lines body))"
  have "set ?ls \<subseteq> canon_line ?r ` set (body_lines body)"
    using drop_trailing_subset by fastforce
  note again = canon_lines_again [OF this]
  have crlf: "body_text crlf alg = crlf" if "\<not> ?r"
    using that body_lines_as_lines [of "[[]]"]
    by (simp add: body_text_def canon_line_def drop_trailing_def trim_suffix_single)
  show ?thesis
  proof (cases "?ls = [] \<and> \<not> ?r")
    case True
    then have "body_text body alg = crlf" unfolding body_text_def Let_def by (rule if_P)
    then show ?thesis using True crlf by simp
  next
    case False
    then have "body_text body alg = as_lines ?ls" unfolding body_text_def Let_def by (rule if_not_P)
    moreover have "body_text (as_lines ?ls) alg = (if ?ls = [] \<and> \<not> ?r then crlf else as_lines ?ls)"
      by (simp only: body_text_def Let_def again drop_trailing_idem)
    ultimately show ?thesis unfolding if_not_P [OF False] by (rule ssubst)
  qed
qed

subsection \<open>Relaxed header values\<close>

text \<open>The words of a text: its longest runs without white space.\<close>

function wsp_words :: "string \<Rightarrow> string list" where
  "wsp_words s = (let t = dropWhile is_wsp s in
     if t = [] then [] else takeWhile (\<lambda>c. \<not> is_wsp c) t # wsp_words (dropWhile (\<lambda>c. \<not> is_wsp c) t))"
  by auto
termination
proof (relation "measure length", goal_cases)
  case (2 s t)
  then have "t \<noteq> []" by simp
  then obtain a l where "t = a # l" by (meson neq_Nil_conv)
  moreover have "\<not> is_wsp (hd t)" using 2 hd_dropWhile [of is_wsp s] by simp
  ultimately have "length (dropWhile (\<lambda>c. \<not> is_wsp c) t) < length t"
    by (simp add: le_imp_less_Suc length_dropWhile_le)
  also have "length t \<le> length s" using 2 by (simp add: length_dropWhile_le)
  finally show ?case by simp
qed simp

declare wsp_words.simps [simp del]

definition unfolded :: "string \<Rightarrow> string" where
  "unfolded s = filter (\<lambda>c. c \<noteq> cr \<and> c \<noteq> lf) s"

lemma relax_value_unfolded: "relax_value w st s = relax_value w st (unfolded s)"
  by (induction w st s rule: relax_value.induct) (auto simp: unfolded_def)

lemma wsp_words_wsp [simp]: "is_wsp c \<Longrightarrow> wsp_words (c # s) = wsp_words s"
  by (subst (1 2) wsp_words.simps) simp

lemma wsp_words_word:
  "\<not> is_wsp c \<Longrightarrow> wsp_words (c # s) = (c # takeWhile (\<lambda>c. \<not> is_wsp c) s) # wsp_words (dropWhile (\<lambda>c. \<not> is_wsp c) s)"
  by (subst wsp_words.simps) simp

lemma wsp_words_Nil [simp]: "wsp_words [] = []"
  by (subst wsp_words.simps) simp

lemma relax_value_word:
  "list_all (\<lambda>c. c \<noteq> cr \<and> c \<noteq> lf) s \<Longrightarrow> relax_value False True s =
    takeWhile (\<lambda>c. \<not> is_wsp c) s @ relax_value True True (dropWhile (\<lambda>c. \<not> is_wsp c) s)"
  by (induction s) auto

lemma relax_value_words:
  assumes "list_all (\<lambda>c. c \<noteq> cr \<and> c \<noteq> lf) s"
  shows "relax_value True True s = (if wsp_words s = [] then [] else CHR '' '' # join '' '' (wsp_words s))
    \<and> relax_value w False s = join '' '' (wsp_words s)"
  using assms
proof (induction s arbitrary: w rule: length_induct)
  case (1 s)
  show ?case
  proof (cases s)
    case (Cons c cs)
    show ?thesis
    proof (cases "is_wsp c")
      case True
      then show ?thesis using 1 Cons by (auto simp: is_wsp_def)
    next
      case False
      let ?d = "dropWhile (\<lambda>c. \<not> is_wsp c) cs"
      have "list_all (\<lambda>c. c \<noteq> cr \<and> c \<noteq> lf) cs" using 1 Cons by simp
      moreover have "list_all (\<lambda>c. c \<noteq> cr \<and> c \<noteq> lf) ?d"
        using calculation by (auto simp: list_all_iff dest: set_dropWhileD)
      moreover have "length ?d < length s" using Cons by (simp add: le_imp_less_Suc length_dropWhile_le)
      ultimately show ?thesis
        using 1 Cons False relax_value_word [of cs] by (cases "wsp_words ?d") (auto simp: wsp_words_word)
    qed
  qed simp
qed

lemma relaxed_value: "relax_value w False s = join '' '' (wsp_words (unfolded s))"
  using relax_value_words [of "unfolded s" w] relax_value_unfolded [of w False s]
  by (simp add: unfolded_def list_all_iff)

subsection \<open>Signature values\<close>

lemma strip_loop_Nil [simp]: "strip_loop [] = []"
  by (subst strip_loop.simps) simp

lemma strip_loop_last: "CHR '';'' \<notin> set seg \<Longrightarrow> strip_loop seg = strip_segment False seg"
  by (subst strip_loop.simps) (auto simp: strip_segment_def iffD2 [OF index_byte_None_iff] split: option.split)

lemma strip_loop_segment:
  "CHR '';'' \<notin> set seg \<Longrightarrow> strip_loop (seg @ CHR '';'' # rest) = strip_segment True (seg @ '';'') @ strip_loop rest"
  by (subst strip_loop.simps) simp

lemma strip_loop_append: "strip_loop (x @ CHR '';'' # rest) = strip_loop (x @ '';'') @ strip_loop rest"
proof (induction x rule: length_induct)
  case (1 x)
  show ?case
  proof (cases "CHR '';'' \<in> set x")
    case True
    then obtain a b where x: "x = a @ CHR '';'' # b" "CHR '';'' \<notin> set a" by (meson split_list_first)
    then have "strip_loop (b @ CHR '';'' # rest) = strip_loop (b @ '';'') @ strip_loop rest" using 1 by auto
    then show ?thesis using x strip_loop_segment [OF x(2)] by simp
  next
    case False
    then show ?thesis using strip_loop_segment [OF False, of rest] strip_loop_segment [OF False, of "[]"] by simp
  qed
qed

lemma strip_loop_after: "pre = [] \<or> last pre = CHR '';'' \<Longrightarrow> strip_loop (pre @ rest) = strip_loop pre @ strip_loop rest"
  using strip_loop_append [of "butlast pre" rest] by (cases pre rule: rev_cases) auto

lemma strip_b_segment:
  assumes "trim_set t fws = ''b''" and "CHR ''='' \<notin> set t"
  shows "strip_segment True (t @ CHR ''='' # v @ '';'') = t @ ''=;''"
    and "strip_segment False (t @ CHR ''='' # v @ crlf) = t @ CHR ''='' # crlf"
proof -
  have lf: "has_suffix (t @ CHR ''='' # v @ crlf) [lf]" by (simp add: has_suffix_single)
  have "line_end (x @ crlf) = crlf" for x
    by (simp add: line_end_def Let_def nth_append)
  from this [of "t @ CHR ''='' # v"] have "line_end (t @ CHR ''='' # v @ crlf) = crlf" by simp
  then show "strip_segment True (t @ CHR ''='' # v @ '';'') = t @ ''=;''"
    "strip_segment False (t @ CHR ''='' # v @ crlf) = t @ CHR ''='' # crlf"
    using assms lf by (simp_all add: strip_segment_def)
qed

lemma strip_signature_value_field:
  "CHR '':'' \<notin> set name \<Longrightarrow> strip_signature_value (name @ CHR '':'' # rest) = name @ CHR '':'' # strip_loop rest"
  by (simp add: strip_signature_value_def)

lemma strip_drops_value:
  assumes "CHR '':'' \<notin> set name" and "pre = [] \<or> last pre = CHR '';''"
    and "trim_set t fws = ''b''" and "CHR ''='' \<notin> set t" and "CHR '';'' \<notin> set t \<union> set v"
  shows "strip_signature_value (name @ CHR '':'' # pre @ t @ CHR ''='' # v @ CHR '';'' # post)
       = name @ CHR '':'' # strip_loop pre @ t @ ''=;'' @ strip_loop post"
    and "strip_signature_value (name @ CHR '':'' # pre @ t @ CHR ''='' # v @ crlf)
       = name @ CHR '':'' # strip_loop pre @ t @ CHR ''='' # crlf"
proof -
  have "CHR '';'' \<notin> set (t @ CHR ''='' # v)" using assms(5) by simp
  from strip_loop_segment [OF this, of post]
  have "strip_loop (t @ CHR ''='' # v @ CHR '';'' # post) = t @ ''=;'' @ strip_loop post"
    using strip_b_segment(1) [OF assms(3,4)] by simp
  moreover have "strip_loop (t @ CHR ''='' # v @ crlf) = t @ CHR ''='' # crlf"
    using strip_loop_last [of "t @ CHR ''='' # v @ crlf"] assms(5) strip_b_segment(2) [OF assms(3,4)] by simp
  ultimately show "strip_signature_value (name @ CHR '':'' # pre @ t @ CHR ''='' # v @ CHR '';'' # post)
       = name @ CHR '':'' # strip_loop pre @ t @ ''=;'' @ strip_loop post"
    "strip_signature_value (name @ CHR '':'' # pre @ t @ CHR ''='' # v @ crlf)
       = name @ CHR '':'' # strip_loop pre @ t @ CHR ''='' # crlf"
    by (simp_all only: strip_signature_value_field [OF assms(1)] strip_loop_after [OF assms(2)])
qed

subsection \<open>Properties\<close>

text \<open>
  Claim C23. The body that is hashed is the canonical body of RFC 6376: whatever the line endings of the
  stored message, \<^verbatim>\<open>CanonicalBody\<close> writes the canonical lines without the trailing empty ones, each ended by
  CRLF (a single CRLF for an empty body in simple form), as far as the limit allows, and returns the
  length of all of it.
\<close>

theorem canonical_body_correct:
  "canonical_body body alg limit = \<lparr>bw_out = limited limit (body_text body alg), bw_limit = limit,
     bw_total = int (length (body_text body alg))\<rparr>"
  by (simp add: canonical_body_def canon_body_out)

text \<open>
  Canonicalization of the body is idempotent: the canonical form of a canonical body is that
  body, byte for byte, in both algorithms.
\<close>

theorem canonical_body_idempotent:
  "bw_out (canonical_body (bw_out (canonical_body body alg (-1))) alg (-1)) = bw_out (canonical_body body alg (-1))"
  by (simp add: canonical_body_def canon_body_out limited_def body_text_idem)

text \<open>
  The hash over the signature field does not depend on the signature: replacing the value of the
  \<^verbatim>\<open>b=\<close> tag by any other value, wherever the tag stands in the field and however its name is folded,
  leaves what \<^verbatim>\<open>stripSignatureValue\<close> returns as it was.
\<close>

theorem strip_ignores_signature:
  assumes "CHR '':'' \<notin> set name" and "pre = [] \<or> last pre = CHR '';''"
    and "trim_set t fws = ''b''" and "CHR ''='' \<notin> set t" and "CHR '';'' \<notin> set t \<union> set v \<union> set v'"
  shows "strip_signature_value (name @ CHR '':'' # pre @ t @ CHR ''='' # v @ CHR '';'' # post)
       = strip_signature_value (name @ CHR '':'' # pre @ t @ CHR ''='' # v' @ CHR '';'' # post)
     \<and> strip_signature_value (name @ CHR '':'' # pre @ t @ CHR ''='' # v @ crlf)
       = strip_signature_value (name @ CHR '':'' # pre @ t @ CHR ''='' # v' @ crlf)"
  using strip_drops_value [OF assms(1-4), of v] strip_drops_value [OF assms(1-4), of v'] assms(5) by simp

theorem strip_ignores_signature_witness:
  "strip_signature_value ''DKIM-Signature: v=1; b=abc; bh=xyz''
     = strip_signature_value ''DKIM-Signature: v=1; b=; bh=xyz''"
  using strip_ignores_signature [where name = "''DKIM-Signature''" and pre = "'' v=1;''" and t = "'' b''"
      and v = "''abc''" and v' = "[]" and post = "'' bh=xyz''"]
  by (simp add: trim_defs)

lemma unfolded_add_cr: "unfolded (add_cr p s) = unfolded s"
  by (induction p s rule: add_cr.induct) (auto simp: unfolded_def)

lemma normalize_eol_header:
  assumes "lf \<notin> set name"
  obtains val' where "normalize_eol (name @ CHR '':'' # val) = name @ CHR '':'' # val'" "unfolded val' = unfolded val"
proof (cases "lf \<in> set val")
  case True
  then have "normalize_eol (name @ CHR '':'' # val) = name @ CHR '':'' # add_cr (Some (CHR '':'')) val"
    by (simp add: normalize_eol_def add_cr_append add_cr_no_lf [OF assms])
  then show thesis using that unfolded_add_cr by blast
next
  case False
  then show thesis using that [of val] assms by (simp add: normalize_eol_def)
qed

text \<open>
  A relaxed header field is its lower-cased name, a colon, the words of its unfolded value
  separated by single spaces, and CRLF, so folding and the amount of white space do not matter.
\<close>

theorem relaxed_header_words:
  assumes "CHR '':'' \<notin> set name" and "lf \<notin> set name"
  shows "canonical_header (name @ CHR '':'' # val) canon_relaxed
    = to_lower (trim_right name wsp) @ CHR '':'' # join '' '' (wsp_words (unfolded val)) @ crlf"
proof -
  obtain val' where "normalize_eol (name @ CHR '':'' # val) = name @ CHR '':'' # val'" "unfolded val' = unfolded val"
    using normalize_eol_header [OF assms(2)] by blast
  then show ?thesis
    using assms(1) by (simp add: canonical_header_def canon_header_def canon_relaxed_def canon_simple_def relaxed_value)
qed

theorem relaxed_header_words_witness:
  "canonical_header (''SubJect : '' @ [CHR '' '', lf, tab] @ ''a  b'' @ [cr, lf]) canon_relaxed = ''subject:a b'' @ crlf"
  using relaxed_header_words [of "''SubJect ''" "'' '' @ [CHR '' '', lf, tab] @ ''a  b'' @ [cr, lf]"]
  by (simp add: trim_defs unfolded_def wsp_words.simps is_wsp_def str_eval)

end
