(* ===== verification/DkimSyntax.thy ===== *)
theory DkimSyntax
  imports MailMessage DkimCanon Dns
begin

section \<open>DKIM tag lists, signatures and key records (internal/dkim)\<close>

text \<open>
  The models of \<^verbatim>\<open>taglist.go\<close>, \<^verbatim>\<open>signature.go\<close> and \<^verbatim>\<open>key.go\<close>.  An error is a constructor that says which check
  failed.  \<open>and_try\<close> runs the next check when the one before succeeded.  The parsers of public keys of
  \<^verbatim>\<open>crypto/x509\<close> and the cryptographic primitives are the fields of a record \<open>crypto\<close>, a parameter of what
  uses them; base64 is modelled.
\<close>

definition and_try :: "'e + 'a \<Rightarrow> ('a \<Rightarrow> 'e + 'b) \<Rightarrow> 'e + 'b" where
  "and_try m f = (case m of Inl e \<Rightarrow> Inl e | Inr x \<Rightarrow> f x)"

definition require :: "bool \<Rightarrow> 'e \<Rightarrow> 'e + unit" where
  "require c e = (if c then Inr () else Inl e)"

lemma and_try_Inr [simp]: "and_try m f = Inr y \<longleftrightarrow> (\<exists>x. m = Inr x \<and> f x = Inr y)"
  by (cases m) (simp_all add: and_try_def)

lemma require_Inr [simp]: "require c e = Inr x \<longleftrightarrow> c"
  by (simp add: require_def)

subsection \<open>Tag lists\<close>

record tag =
  tg_name :: string
  tg_value :: string

datatype tag_error = MalformedTagPart string | InvalidTagName string | DuplicateTagName string

definition valid_tag_name :: "string \<Rightarrow> bool" where
  "valid_tag_name s \<longleftrightarrow> s \<noteq> [] \<and> is_alpha (hd s)
     \<and> list_all (\<lambda>c. is_alpha c \<or> is_digit c \<or> c = CHR ''_'') (tl s)"

fun tag_loop :: "string list \<Rightarrow> string list \<Rightarrow> tag list \<Rightarrow> tag_error + tag list" where
  "tag_loop [] seen tags = Inr tags"
| "tag_loop (part # parts) seen tags =
     (if trim_set part fws = [] then tag_loop parts seen tags
      else case cut part (CHR ''='') of (name0, val, ok) \<Rightarrow>
        if \<not> ok then Inl (MalformedTagPart part)
        else let name = trim_set name0 fws in
          if \<not> valid_tag_name name then Inl (InvalidTagName name)
          else if name \<in> set seen then Inl (DuplicateTagName name)
          else tag_loop parts (name # seen) (tags @ [\<lparr>tg_name = name, tg_value = trim_set val fws\<rparr>]))"

definition parse_tag_list :: "string \<Rightarrow> tag_error + tag list" where
  "parse_tag_list s = tag_loop (split_byte (CHR '';'') s) [] []"

definition strip_fws :: "string \<Rightarrow> string" where
  "strip_fws s = filter (\<lambda>c. c \<notin> set fws) s"

definition split_list :: "string \<Rightarrow> string list" where
  "split_list s = filter (\<lambda>p. p \<noteq> []) (map (\<lambda>p. trim_set p fws) (split_byte (CHR '':'') s))"

definition tag_values :: "tag list \<Rightarrow> string \<Rightarrow> string option" where
  "tag_values tags = map_of (map (\<lambda>t. (tg_name t, tg_value t)) tags)"

subsection \<open>Base64\<close>

text \<open>
  \<^verbatim>\<open>base64.StdEncoding\<close>: groups of four characters, padded with \<^verbatim>\<open>=\<close> at the end; the decoder skips line breaks
  and does not look at the unused bits of the last group.
\<close>

definition b64_value :: "char \<Rightarrow> int option" where
  "b64_value c = (if is_upper c then Some (byte c - 65)
     else if is_lower c then Some (byte c - 71)
     else if is_digit c then Some (byte c + 4)
     else if c = CHR ''+'' then Some 62 else if c = CHR ''/'' then Some 63 else None)"

fun b64_groups :: "string \<Rightarrow> string option" where
  "b64_groups [] = Some []"
| "b64_groups (a # b # c # d # rest) =
     (case (b64_value a, b64_value b) of
        (Some v, Some w) \<Rightarrow>
          (if c = CHR ''='' then (if d = CHR ''='' \<and> rest = [] then Some [char_of (v * 4 + w div 16)] else None)
           else case b64_value c of
             None \<Rightarrow> None
           | Some x \<Rightarrow>
               (if d = CHR ''='' then (if rest = [] then Some [char_of (v * 4 + w div 16), char_of (w * 16 + x div 4)] else None)
                else case (b64_value d, b64_groups rest) of
                  (Some y, Some out) \<Rightarrow> Some (char_of (v * 4 + w div 16) # char_of (w * 16 + x div 4) # char_of (x * 64 + y) # out)
                | _ \<Rightarrow> None))
      | _ \<Rightarrow> None)"
| "b64_groups _ = None"

definition b64_decode :: "string \<Rightarrow> string option" where
  "b64_decode s = b64_groups (filter (\<lambda>c. c \<noteq> cr \<and> c \<noteq> lf) s)"

subsection \<open>Signatures\<close>

record signature =
  sg_header :: header
  sg_version :: string
  sg_algorithm :: string
  sg_key_algorithm :: string
  sg_hash_algorithm :: string
  sg_signature :: string
  sg_signature_b64 :: string
  sg_body_hash :: string
  sg_header_canon :: string
  sg_body_canon :: string
  sg_domain :: string
  sg_signed_headers :: "string list"
  sg_auid :: string
  sg_body_length :: "int option"
  sg_query_methods :: "string list"
  sg_selector :: string
  sg_timestamp :: "int option"
  sg_expiration :: "int option"
  sg_copied_headers :: string

datatype sig_error = SigTags tag_error | SigMissing string | SigVersion string | SigAlgorithm string | SigBadSignature
  | SigBadBodyHash | SigCanon string | SigDomain string | SigSelector | SigHeaderName | SigNoFrom
  | SigIdentity string | SigIdentityDomain string | SigLength string | SigQuery string | SigNumber string | SigOrder

definition short_b :: "signature \<Rightarrow> nat \<Rightarrow> string" where
  "short_b s n = (if length (sg_signature_b64 s) \<le> n then sg_signature_b64 s else take n (sg_signature_b64 s))"

definition contains_fold :: "string list \<Rightarrow> string \<Rightarrow> bool" where
  "contains_fold xs v \<longleftrightarrow> list_ex (\<lambda>s. equal_fold s v) xs"

definition required_tags :: "string list" where
  "required_tags = [''v'', ''a'', ''b'', ''bh'', ''d'', ''h'', ''s'']"

definition canon_of :: "string option \<Rightarrow> sig_error + (string \<times> string)" where
  "canon_of c = (case c of
     None \<Rightarrow> Inr (canon_simple, canon_simple)
   | Some c \<Rightarrow> (case cut (to_lower c) (CHR ''/'') of (hc, bc, has_body) \<Rightarrow>
       let bc = (if has_body then bc else canon_simple) in
       if list_all (\<lambda>v. v = canon_simple \<or> v = canon_relaxed) [hc, bc] then Inr (hc, bc) else Inl (SigCanon c)))"

definition signed_names :: "string \<Rightarrow> string list" where
  "signed_names h = map (\<lambda>n. trim_set n fws) (split_byte (CHR '':'') h)"

definition auid_of :: "string \<Rightarrow> string option \<Rightarrow> sig_error + string" where
  "auid_of domain i = (case i of
     None \<Rightarrow> Inr (CHR ''@'' # domain)
   | Some i \<Rightarrow> (case last_index_byte i (CHR ''@'') of
       None \<Rightarrow> Inl (SigIdentity i)
     | Some at \<Rightarrow>
         let id_domain = to_lower (trim_suffix (drop (at + 1) i) ''.'') in
         if id_domain \<noteq> domain \<and> \<not> has_suffix id_domain (CHR ''.'' # domain) then Inl (SigIdentityDomain i)
         else Inr i))"

definition number_of :: "sig_error \<Rightarrow> string option \<Rightarrow> sig_error + int option" where
  "number_of e v = (case v of
     None \<Rightarrow> Inr None
   | Some v \<Rightarrow> (case parse_int64 v of
       None \<Rightarrow> Inl e
     | Some n \<Rightarrow> if n < 0 then Inl e else Inr (Some n)))"

definition query_of :: "string option \<Rightarrow> sig_error + string list" where
  "query_of q = (case q of
     None \<Rightarrow> Inr [''dns/txt'']
   | Some q \<Rightarrow> let ms = split_list (to_lower q) in
       if \<not> contains_fold ms ''dns/txt'' then Inl (SigQuery q) else Inr ms)"

definition parse_signature :: "header \<Rightarrow> sig_error + signature" where
  "parse_signature h =
    and_try (map_sum SigTags id (parse_tag_list (hd_value h))) (\<lambda>tags.
    let val = tag_values tags; get = (\<lambda>n. case val n of None \<Rightarrow> [] | Some v \<Rightarrow> v) in
    and_try (case find (\<lambda>r. val r = None) required_tags of Some r \<Rightarrow> Inl (SigMissing r) | None \<Rightarrow> Inr ()) (\<lambda>_.
    and_try (require (get ''v'' = ''1'') (SigVersion (get ''v''))) (\<lambda>_.
    let algorithm = to_lower (get ''a'') in
    case cut algorithm (CHR ''-'') of (key, hash, ok) \<Rightarrow>
    and_try (require (ok \<and> key \<noteq> [] \<and> hash \<noteq> []) (SigAlgorithm (get ''a''))) (\<lambda>_.
    let b64 = strip_fws (get ''b'') in
    and_try (case b64_decode b64 of None \<Rightarrow> Inl SigBadSignature | Some b \<Rightarrow> if b = [] then Inl SigBadSignature else Inr b) (\<lambda>b.
    and_try (case b64_decode (strip_fws (get ''bh'')) of None \<Rightarrow> Inl SigBadBodyHash
        | Some b \<Rightarrow> if b = [] then Inl SigBadBodyHash else Inr b) (\<lambda>bh.
    and_try (canon_of (val ''c'')) (\<lambda>(hc, bc).
    let domain = to_lower (trim_suffix (get ''d'') ''.'') in
    and_try (require (\<not> (domain = [] \<or> CHR ''.'' \<notin> set domain \<and> length domain < 2)) (SigDomain (get ''d''))) (\<lambda>_.
    let selector = to_lower (get ''s'') in
    and_try (require (selector \<noteq> []) SigSelector) (\<lambda>_.
    let names = signed_names (get ''h'') in
    and_try (require (list_all (\<lambda>n. n \<noteq> []) names) SigHeaderName) (\<lambda>_.
    and_try (require (list_ex (\<lambda>n. equal_fold n ''from'') names) SigNoFrom) (\<lambda>_.
    and_try (auid_of domain (val ''i'')) (\<lambda>auid.
    and_try (number_of (SigLength (get ''l'')) (val ''l'')) (\<lambda>l.
    and_try (query_of (val ''q'')) (\<lambda>q.
    and_try (number_of (SigNumber ''t'') (val ''t'')) (\<lambda>t.
    and_try (number_of (SigNumber ''x'') (val ''x'')) (\<lambda>x.
    and_try (require (case (t, x) of (Some t, Some x) \<Rightarrow> t \<le> x | _ \<Rightarrow> True) SigOrder) (\<lambda>_.
    Inr \<lparr>sg_header = h, sg_version = get ''v'', sg_algorithm = algorithm, sg_key_algorithm = key, sg_hash_algorithm = hash,
         sg_signature = b, sg_signature_b64 = b64, sg_body_hash = bh, sg_header_canon = hc, sg_body_canon = bc,
         sg_domain = domain, sg_signed_headers = names, sg_auid = auid, sg_body_length = l, sg_query_methods = q,
         sg_selector = selector, sg_timestamp = t, sg_expiration = x, sg_copied_headers = get ''z''\<rparr>)))))))))))))))))"

subsection \<open>Key records\<close>

definition key_type_rsa :: string where "key_type_rsa = ''rsa''"
definition key_type_ed25519 :: string where "key_type_ed25519 = ''ed25519''"
definition max_rsa_key_bits :: int where "max_rsa_key_bits = 8192"

text \<open>
  The cryptography the code calls: \<open>cr_pkix\<close> is \<^verbatim>\<open>x509.ParsePKIXPublicKey\<close> (no value for an error, otherwise the
  RSA key or no value for a key of another type), \<open>cr_pkcs1\<close> is \<^verbatim>\<open>x509.ParsePKCS1PublicKey\<close>, \<open>cr_bits\<close> the
  length of the modulus.
\<close>

datatype hash_fn = SHA256 | SHA1

record 'k crypto =
  cr_pkix :: "string \<Rightarrow> 'k option option"
  cr_pkcs1 :: "string \<Rightarrow> 'k option"
  cr_bits :: "'k \<Rightarrow> int"
  cr_hash :: "hash_fn \<Rightarrow> string \<Rightarrow> string"
  cr_rsa_verify :: "'k \<Rightarrow> hash_fn \<Rightarrow> string \<Rightarrow> string \<Rightarrow> bool"
  cr_ed25519_verify :: "string \<Rightarrow> string \<Rightarrow> string \<Rightarrow> bool"

datatype 'k public_key = NoKey | RsaKey 'k | Ed25519Key string

record 'k key_record =
  kr_raw :: string
  kr_version :: string
  kr_hash_algs :: "string list"
  kr_key_type :: string
  kr_notes :: string
  kr_services :: "string list"
  kr_flags :: "string list"
  kr_revoked :: bool
  kr_key_bits :: int
  kr_pkcs1 :: bool
  kr_unknown_tags :: "string list"
  kr_public_key :: "'k public_key"

datatype key_error = KeyTags tag_error | KeyVersionNotFirst | KeyVersion string | KeyMissingP | KeyBadBase64
  | KeyNotRsa | KeyOtherType | KeyTooLong int | KeyEd25519Length nat | KeyUnsupportedType string

definition testing :: "'k key_record \<Rightarrow> bool" where
  "testing k \<longleftrightarrow> ''y'' \<in> set (kr_flags k)"

definition strict_identity :: "'k key_record \<Rightarrow> bool" where
  "strict_identity k \<longleftrightarrow> ''s'' \<in> set (kr_flags k)"

definition allows_email :: "'k key_record \<Rightarrow> bool" where
  "allows_email k \<longleftrightarrow> ''*'' \<in> set (kr_services k) \<or> ''email'' \<in> set (kr_services k)"

definition allows_hash :: "'k key_record \<Rightarrow> string \<Rightarrow> bool" where
  "allows_hash k h \<longleftrightarrow> kr_hash_algs k = [] \<or> h \<in> set (kr_hash_algs k)"

text \<open>The loop over the tags; the second component is the value of \<open>p\<close>.\<close>

definition key_tag :: "nat \<Rightarrow> tag \<Rightarrow> 'k key_record \<times> string option \<Rightarrow> key_error + ('k key_record \<times> string option)" where
  "key_tag i t st = (case st of (k, p) \<Rightarrow> let n = tg_name t; v = tg_value t in
     if n = ''v'' then
       (if i \<noteq> 0 then Inl KeyVersionNotFirst
        else if v \<noteq> ''DKIM1'' then Inl (KeyVersion v)
        else Inr (k\<lparr>kr_version := v\<rparr>, p))
     else if n = ''h'' then Inr (k\<lparr>kr_hash_algs := split_list (to_lower v)\<rparr>, p)
     else if n = ''k'' then Inr (k\<lparr>kr_key_type := to_lower v\<rparr>, p)
     else if n = ''n'' then Inr (k\<lparr>kr_notes := v\<rparr>, p)
     else if n = ''p'' then Inr (k, Some (strip_fws v))
     else if n = ''s'' then Inr (k\<lparr>kr_services := split_list (to_lower v)\<rparr>, p)
     else if n = ''t'' then Inr (k\<lparr>kr_flags := split_list (to_lower v)\<rparr>, p)
     else Inr (k\<lparr>kr_unknown_tags := kr_unknown_tags k @ [n]\<rparr>, p))"

fun key_tags :: "nat \<Rightarrow> tag list \<Rightarrow> 'k key_record \<times> string option \<Rightarrow> key_error + ('k key_record \<times> string option)" where
  "key_tags i [] st = Inr st"
| "key_tags i (t # ts) st = (case key_tag i t st of Inl e \<Rightarrow> Inl e | Inr st \<Rightarrow> key_tags (Suc i) ts st)"

definition rsa_key :: "'k crypto \<Rightarrow> string \<Rightarrow> 'k key_record \<Rightarrow> key_error + 'k key_record" where
  "rsa_key cry der k =
     and_try (case cr_pkix cry der of
         None \<Rightarrow> (case cr_pkcs1 cry der of None \<Rightarrow> Inl KeyNotRsa | Some pk \<Rightarrow> Inr (Some pk, k\<lparr>kr_pkcs1 := True\<rparr>))
       | Some pub \<Rightarrow> Inr (pub, k)) (\<lambda>(pub, k).
     case pub of
       None \<Rightarrow> Inl KeyOtherType
     | Some pk \<Rightarrow> if max_rsa_key_bits < cr_bits cry pk then Inl (KeyTooLong (cr_bits cry pk))
                  else Inr (k\<lparr>kr_public_key := RsaKey pk, kr_key_bits := cr_bits cry pk\<rparr>))"

definition parse_key_record :: "'k crypto \<Rightarrow> string \<Rightarrow> key_error + 'k key_record" where
  "parse_key_record cry s =
     and_try (map_sum KeyTags id (parse_tag_list s)) (\<lambda>tags.
     and_try (key_tags 0 tags (\<lparr>kr_raw = s, kr_version = [], kr_hash_algs = [], kr_key_type = key_type_rsa, kr_notes = [],
         kr_services = [''*''], kr_flags = [], kr_revoked = False, kr_key_bits = 0, kr_pkcs1 = False, kr_unknown_tags = [],
         kr_public_key = NoKey\<rparr>, None)) (\<lambda>(k, p).
     case p of
       None \<Rightarrow> Inl KeyMissingP
     | Some p \<Rightarrow>
         if p = [] then Inr (k\<lparr>kr_revoked := True\<rparr>)
         else case b64_decode p of
           None \<Rightarrow> Inl KeyBadBase64
         | Some der \<Rightarrow>
             if kr_key_type k = key_type_rsa then rsa_key cry der k
             else if kr_key_type k = key_type_ed25519 then
               (if length der \<noteq> 32 then Inl (KeyEd25519Length (length der))
                else Inr (k\<lparr>kr_public_key := Ed25519Key der, kr_key_bits := 256\<rparr>))
             else Inl (KeyUnsupportedType (kr_key_type k))))"

end
