(* ===== verification/DkimVerify.thy ===== *)
theory DkimVerify
  imports DkimSyntax DnsBudget
begin

section \<open>Verification of DKIM signatures (internal/dkim/verify.go)\<close>

text \<open>
  A result and a failure are datatypes; a failure carries what distinguishes its cases instead of a text.
  The time of verification is in seconds, as \<^verbatim>\<open>Unix\<close> returns it.  The function \<^verbatim>\<open>verifyOne\<close> is cut at the point where
  it asks for the key: \<open>check_signature\<close> is what it checks before, \<open>verify_with_key\<close> what it does with the key.
\<close>

datatype dkim_result = DkimNone | DkimPass | DkimFail | DkimNeutral | DkimPolicy | DkimTempError | DkimPermError

datatype dkim_failure = NoFailure | FailSyntax sig_error | FailKeyNotFound | FailKeyName | FailKeyInvalid "key_error option"
  | FailKeyRevoked | FailKeyType | FailKeyHash | FailKeyService | FailKeyIdentity | FailKeyBits int | FailAlgorithm string
  | FailInsecureAlgorithm | FailExpired int | FailBodyLength int int | FailBodyHash | FailSignature | FailDNS dns_error

record 'k verification =
  vf_index :: nat
  vf_result :: dkim_result
  vf_failure :: dkim_failure
  vf_domain :: string
  vf_selector :: string
  vf_algorithm :: string
  vf_auid :: string
  vf_canonicalization :: string
  vf_signed_headers :: "string list"
  vf_body_length :: "int option"
  vf_canonical_body_len :: int
  vf_timestamp :: "int option"
  vf_expiration :: "int option"
  vf_body_hash_ok :: "bool option"
  vf_signature_ok :: "bool option"
  vf_key_name :: string
  vf_key :: "'k key_record option"
  vf_header_b :: string
  vf_signature :: "signature option"

definition new_verification :: "'k verification" where
  "new_verification = \<lparr>vf_index = 0, vf_result = DkimNone, vf_failure = NoFailure, vf_domain = [], vf_selector = [],
     vf_algorithm = [], vf_auid = [], vf_canonicalization = [], vf_signed_headers = [], vf_body_length = None,
     vf_canonical_body_len = 0, vf_timestamp = None, vf_expiration = None, vf_body_hash_ok = None, vf_signature_ok = None,
     vf_key_name = [], vf_key = None, vf_header_b = [], vf_signature = None\<rparr>"

definition key_name :: "string \<Rightarrow> string \<Rightarrow> string" where
  "key_name selector domain = selector @ ''._domainkey.'' @ trim_suffix domain ''.''"

definition signature_verification :: "signature \<Rightarrow> 'k verification" where
  "signature_verification sig = new_verification\<lparr>
     vf_domain := sg_domain sig, vf_selector := sg_selector sig, vf_algorithm := sg_algorithm sig, vf_auid := sg_auid sig,
     vf_canonicalization := sg_header_canon sig @ ''/'' @ sg_body_canon sig, vf_signed_headers := sg_signed_headers sig,
     vf_body_length := sg_body_length sig, vf_header_b := short_b sig 12,
     vf_key_name := key_name (sg_selector sig) (sg_domain sig), vf_signature := Some sig,
     vf_timestamp := sg_timestamp sig, vf_expiration := sg_expiration sig\<rparr>"

definition failed :: "dkim_result \<Rightarrow> dkim_failure \<Rightarrow> 'k verification \<Rightarrow> 'k verification" where
  "failed result failure v = v\<lparr>vf_result := result, vf_failure := failure\<rparr>"

definition hash_of :: "signature \<Rightarrow> hash_fn option" where
  "hash_of sig = (if sg_hash_algorithm sig = ''sha256'' then Some SHA256
     else if sg_hash_algorithm sig = ''sha1'' then Some SHA1 else None)"

text \<open>The checks before the key is fetched; no value when all succeed.\<close>

definition check_signature :: "int \<Rightarrow> signature \<Rightarrow> dkim_failure option" where
  "check_signature now sig = (
     if hash_of sig = None then Some (FailAlgorithm (sg_hash_algorithm sig))
     else if sg_key_algorithm sig \<noteq> key_type_rsa \<and> sg_key_algorithm sig \<noteq> key_type_ed25519
       then Some (FailAlgorithm (sg_algorithm sig))
     else if sg_key_algorithm sig = key_type_ed25519 \<and> sg_hash_algorithm sig \<noteq> ''sha256''
       then Some (FailAlgorithm (sg_algorithm sig))
     else case sg_expiration sig of
       Some x \<Rightarrow> if x < now then Some (FailExpired x) else None
     | None \<Rightarrow> None)"

definition auid_domain :: "string \<Rightarrow> string" where
  "auid_domain auid = trim_suffix (drop (case last_index_byte auid (CHR ''@'') of None \<Rightarrow> 0 | Some i \<Rightarrow> i + 1) auid) ''.''"

definition check_key :: "signature \<Rightarrow> 'k key_record \<Rightarrow> dkim_failure option" where
  "check_key sig key = (
     if kr_revoked key then Some FailKeyRevoked
     else if kr_key_type key \<noteq> sg_key_algorithm sig then Some FailKeyType
     else if \<not> allows_hash key (sg_hash_algorithm sig) then Some FailKeyHash
     else if \<not> allows_email key then Some FailKeyService
     else if strict_identity key \<and> \<not> equal_fold (auid_domain (sg_auid sig)) (sg_domain sig) then Some FailKeyIdentity
     else None)"

subsection \<open>Header selection\<close>

fun select_loop :: "header list \<Rightarrow> string list \<Rightarrow> nat list \<Rightarrow> string list" where
  "select_loop headers [] taken = []"
| "select_loop headers (name # names) taken =
     (case find (\<lambda>i. i \<notin> set taken \<and> equal_fold (hd_name (headers ! i)) name) (rev [0..<length headers]) of
        None \<Rightarrow> select_loop headers names taken
      | Some i \<Rightarrow> hd_raw (headers ! i) # select_loop headers names (i # taken))"

definition select_headers :: "header list \<Rightarrow> string list \<Rightarrow> string list" where
  "select_headers headers names = select_loop headers names []"

subsection \<open>One signature\<close>

text \<open>The bytes written to the header hash.\<close>

definition signed_data :: "message \<Rightarrow> header \<Rightarrow> signature \<Rightarrow> string" where
  "signed_data msg h sig =
     concat (map (\<lambda>raw. canon_header raw (sg_header_canon sig)) (select_headers (ms_headers msg) (sg_signed_headers sig)))
     @ trim_suffix (canon_header (strip_signature_value (hd_raw h)) (sg_header_canon sig)) crlf"

definition body_limit :: "signature \<Rightarrow> int" where
  "body_limit sig = (case sg_body_length sig of None \<Rightarrow> -1 | Some l \<Rightarrow> l)"

text \<open>The check of the body hash: the failure, if any, and the verification with what was found.\<close>

definition check_body :: "'k crypto \<Rightarrow> hash_fn \<Rightarrow> message \<Rightarrow> signature \<Rightarrow> 'k verification \<Rightarrow> dkim_failure option \<times> 'k verification" where
  "check_body cry fn msg sig v = (
     if \<not> ms_body_available msg then (None, v)
     else
       let out = canon_body (normalize_eol (ms_body msg)) (sg_body_canon sig) (body_limit sig);
           v = v\<lparr>vf_canonical_body_len := bw_total out\<rparr>
       in case sg_body_length sig of
            Some l \<Rightarrow>
              if bw_total out < l then (Some (FailBodyLength l (bw_total out)), v\<lparr>vf_body_hash_ok := Some False\<rparr>)
              else let ok = (cr_hash cry fn (bw_out out) = sg_body_hash sig) in
                (if ok then None else Some FailBodyHash, v\<lparr>vf_body_hash_ok := Some ok\<rparr>)
          | None \<Rightarrow> let ok = (cr_hash cry fn (bw_out out) = sg_body_hash sig) in
                (if ok then None else Some FailBodyHash, v\<lparr>vf_body_hash_ok := Some ok\<rparr>))"

definition finish_signature :: "signature \<Rightarrow> bool \<Rightarrow> 'k verification \<Rightarrow> 'k verification" where
  "finish_signature sig sig_ok v0 = (let v = v0\<lparr>vf_signature_ok := Some sig_ok\<rparr> in
     if \<not> sig_ok then failed DkimFail FailSignature v
     else if sg_hash_algorithm sig = ''sha1'' then failed DkimPermError FailInsecureAlgorithm v
     else if vf_body_hash_ok v = None then failed DkimNeutral NoFailure v
     else v\<lparr>vf_result := DkimPass\<rparr>)"

definition verify_with_key ::
  "'k crypto \<Rightarrow> hash_fn \<Rightarrow> message \<Rightarrow> header \<Rightarrow> signature \<Rightarrow> 'k key_record \<Rightarrow> 'k verification \<Rightarrow> 'k verification" where
  "verify_with_key cry fn msg h sig key v0 = (let v = v0\<lparr>vf_key := Some key\<rparr> in
     case check_key sig key of
       Some failure \<Rightarrow> failed DkimPermError failure v
     | None \<Rightarrow> (case check_body cry fn msg sig v of
         (Some failure, v) \<Rightarrow> failed DkimFail failure v
       | (None, v) \<Rightarrow>
           let digest = cr_hash cry fn (signed_data msg h sig) in
           case kr_public_key key of
             RsaKey pub \<Rightarrow>
               if kr_key_bits key < 1024 then failed DkimPermError (FailKeyBits (kr_key_bits key)) v
               else finish_signature sig (cr_rsa_verify cry pub fn digest (sg_signature sig)) v
           | Ed25519Key pub \<Rightarrow> finish_signature sig (cr_ed25519_verify cry pub digest (sg_signature sig)) v
           | NoKey \<Rightarrow> failed DkimPermError (FailKeyInvalid None) v))"

text \<open>A key lookup: the key, or the result and the failure of every signature that needs it.\<close>

type_synonym 'k key_lookup = "(dkim_result \<times> dkim_failure) + 'k key_record"

definition key_of_answer :: "'k crypto \<Rightarrow> string list answer \<Rightarrow> 'k key_lookup" where
  "key_of_answer cry ans = (case ans of
     Inl e \<Rightarrow> if is_nxdomain e then Inl (DkimPermError, FailKeyNotFound)
              else if kind_of e = Some KindInvalidName then Inl (DkimPermError, FailKeyName)
              else Inl (DkimTempError, FailDNS e)
   | Inr [] \<Rightarrow> Inl (DkimPermError, FailKeyNotFound)
   | Inr (txt # _) \<Rightarrow> (case parse_key_record cry txt of
       Inl e \<Rightarrow> Inl (DkimPermError, FailKeyInvalid (Some e))
     | Inr key \<Rightarrow> Inr key))"

definition fetch_key :: "'k crypto \<Rightarrow> string \<Rightarrow> 'k key_lookup dns" where
  "fetch_key cry name = AskTXT name (\<lambda>ans. Ret (key_of_answer cry ans))"

type_synonym 'k key_cache = "string \<Rightarrow> 'k key_lookup option"

definition cached_key :: "'k crypto \<Rightarrow> string \<Rightarrow> 'k key_cache \<Rightarrow> ('k key_lookup \<times> 'k key_cache) dns" where
  "cached_key cry name keys = (case keys name of
     Some kl \<Rightarrow> Ret (kl, keys)
   | None \<Rightarrow> and_then (fetch_key cry name) (\<lambda>kl. Ret (kl, keys(name \<mapsto> kl))))"

definition apply_lookup ::
  "'k crypto \<Rightarrow> hash_fn \<Rightarrow> message \<Rightarrow> header \<Rightarrow> signature \<Rightarrow> 'k key_lookup \<Rightarrow> 'k verification \<Rightarrow> 'k verification" where
  "apply_lookup cry fn msg h sig kl v = (case kl of
     Inl (result, failure) \<Rightarrow> failed result failure v
   | Inr key \<Rightarrow> verify_with_key cry fn msg h sig key v)"

definition verify_one ::
  "'k crypto \<Rightarrow> message \<Rightarrow> int \<Rightarrow> header \<Rightarrow> 'k key_cache \<Rightarrow> ('k verification \<times> 'k key_cache) dns" where
  "verify_one cry msg now h keys = (case parse_signature h of
     Inl e \<Rightarrow> Ret (failed DkimPermError (FailSyntax e) new_verification, keys)
   | Inr sig \<Rightarrow> let v = signature_verification sig in
       (case check_signature now sig of
          Some failure \<Rightarrow> Ret (failed DkimPermError failure v, keys)
        | None \<Rightarrow> (case hash_of sig of
            None \<Rightarrow> Ret (failed DkimPermError (FailAlgorithm (sg_hash_algorithm sig)) v, keys)
          | Some fn \<Rightarrow> and_then (cached_key cry (vf_key_name v) keys) (\<lambda>(kl, keys).
              Ret (apply_lookup cry fn msg h sig kl v, keys)))))"

subsection \<open>A message\<close>

definition max_signatures :: nat where "max_signatures = 10"

fun verify_loop ::
  "'k crypto \<Rightarrow> message \<Rightarrow> int \<Rightarrow> nat \<Rightarrow> header list \<Rightarrow> 'k key_cache \<Rightarrow> 'k verification list dns" where
  "verify_loop cry msg now i [] keys = Ret []"
| "verify_loop cry msg now i (h # hs) keys =
     and_then (verify_one cry msg now h keys) (\<lambda>(v, keys).
     and_then (verify_loop cry msg now (i + 1) hs keys) (\<lambda>vs. Ret (v\<lparr>vf_index := i + 1\<rparr> # vs)))"

definition verify_message :: "'k crypto \<Rightarrow> message \<Rightarrow> int \<Rightarrow> 'k verification list dns" where
  "verify_message cry msg now =
     verify_loop cry msg now 0 (take max_signatures (get_headers msg ''DKIM-Signature'')) Map.empty"

end
