(* ===== verification/DkimProps.thy ===== *)
theory DkimProps
  imports DkimVerify DnsTranscript
begin

section \<open>What DKIM verification promises\<close>

text \<open>
  For every cryptography: which bytes are signed, what a pass means, that the keys kept during a message
  do not change any result, how many questions a message costs, and that parsed tag lists, signatures and
  key records are well-formed.
\<close>

subsection \<open>Header selection\<close>

text \<open>
  The reference of RFC 6376 section 5.4.2: the name at some position of \<open>h=\<close> stands for the instance, counted
  from the bottom, that as many earlier occurrences of the name have left; none if there is no such instance.
\<close>

definition instances :: "header list \<Rightarrow> string \<Rightarrow> header list" where
  "instances headers name = rev (filter (\<lambda>h. equal_fold (hd_name h) name) headers)"

fun selected :: "header list \<Rightarrow> string list \<Rightarrow> string list \<Rightarrow> string list" where
  "selected headers earlier [] = []"
| "selected headers earlier (name # names) =
     (let k = length (filter (\<lambda>n. equal_fold n name) earlier) in
      (if k < length (instances headers name) then [hd_raw (instances headers name ! k)] else [])
      @ selected headers (name # earlier) names)"

definition index_list :: "header list \<Rightarrow> string \<Rightarrow> nat list" where
  "index_list headers name = filter (\<lambda>i. equal_fold (hd_name (headers ! i)) name) (rev [0..<length headers])"

lemma instances_index: "instances headers name = map (\<lambda>i. headers ! i) (index_list headers name)"
proof -
  have "rev headers = map (\<lambda>i. headers ! i) (rev [0..<length headers])"
    by (simp add: rev_map [symmetric] map_nth)
  then show ?thesis
    by (simp add: instances_def index_list_def rev_filter filter_map comp_def)
qed

text \<open>What is left of the instances of each name.\<close>

definition left_over :: "header list \<Rightarrow> string list \<Rightarrow> nat list \<Rightarrow> bool" where
  "left_over headers earlier taken \<longleftrightarrow> (\<forall>name. filter (\<lambda>i. i \<notin> set taken) (index_list headers name)
     = drop (length (filter (\<lambda>n. equal_fold n name) earlier)) (index_list headers name))"

lemma find_filter: "find P xs = (case filter P xs of [] \<Rightarrow> None | x # _ \<Rightarrow> Some x)"
  by (induction xs) auto

lemma find_left:
  assumes "left_over headers earlier taken"
  shows "find (\<lambda>i. i \<notin> set taken \<and> equal_fold (hd_name (headers ! i)) name) (rev [0..<length headers])
    = (let k = length (filter (\<lambda>n. equal_fold n name) earlier) in
       if k < length (index_list headers name) then Some (index_list headers name ! k) else None)"
proof -
  let ?k = "length (filter (\<lambda>n. equal_fold n name) earlier)"
  have "filter (\<lambda>i. i \<notin> set taken \<and> equal_fold (hd_name (headers ! i)) name) (rev [0..<length headers])
      = filter (\<lambda>i. i \<notin> set taken) (index_list headers name)"
    by (auto simp: index_list_def intro: filter_cong)
  also have "\<dots> = drop ?k (index_list headers name)"
    using assms by (simp add: left_over_def)
  finally have "filter (\<lambda>i. i \<notin> set taken \<and> equal_fold (hd_name (headers ! i)) name) (rev [0..<length headers])
      = drop ?k (index_list headers name)" .
  then show ?thesis
    by (auto simp: find_filter Let_def Cons_nth_drop_Suc [symmetric] split: list.split)
qed

lemma index_list_distinct: "distinct (index_list headers name)"
  by (simp add: index_list_def)

lemma left_over_take:
  assumes "left_over headers earlier taken"
    and k: "k = length (filter (\<lambda>n. equal_fold n name) earlier)" "k < length (index_list headers name)"
  shows "left_over headers (name # earlier) (index_list headers name ! k # taken)"
  unfolding left_over_def
proof
  fix name'
  let ?i = "index_list headers name ! k"
  have i: "equal_fold (hd_name (headers ! ?i)) name"
    using nth_mem [OF k(2)] by (simp add: index_list_def)
  have "filter (\<lambda>j. j \<notin> set (?i # taken)) (index_list headers name')
      = filter (\<lambda>j. j \<noteq> ?i) (filter (\<lambda>j. j \<notin> set taken) (index_list headers name'))"
    by (simp add: conj_commute)
  also have "\<dots> = filter (\<lambda>j. j \<noteq> ?i) (drop (length (filter (\<lambda>n. equal_fold n name') earlier)) (index_list headers name'))"
    using assms(1) by (simp only: left_over_def)
  also have "\<dots> = drop (length (filter (\<lambda>n. equal_fold n name') (name # earlier))) (index_list headers name')"
  proof (cases "equal_fold name name'")
    case True
    then have "equal_fold x name' \<longleftrightarrow> equal_fold x name" for x by (simp add: equal_fold_def)
    then have same: "index_list headers name' = index_list headers name"
      "filter (\<lambda>n. equal_fold n name') earlier = filter (\<lambda>n. equal_fold n name) earlier"
      by (simp_all add: index_list_def)
    have "drop k (index_list headers name) = ?i # drop (Suc k) (index_list headers name)"
      using k(2) by (simp add: Cons_nth_drop_Suc)
    moreover have "?i \<notin> set (drop (Suc k) (index_list headers name))"
      using index_list_distinct [of headers name] calculation by (metis distinct.simps(2) distinct_drop)
    ultimately show ?thesis using True k(1) by (auto simp: same filter_id_conv)
  next
    case False
    then have "\<not> equal_fold (hd_name (headers ! ?i)) name'" using i by (simp add: equal_fold_def)
    then have "?i \<notin> set (index_list headers name')" by (simp add: index_list_def)
    then show ?thesis using False by (auto simp: filter_id_conv dest: in_set_dropD)
  qed
  finally show "filter (\<lambda>j. j \<notin> set (?i # taken)) (index_list headers name')
      = drop (length (filter (\<lambda>n. equal_fold n name') (name # earlier))) (index_list headers name')" .
qed

lemma left_over_none:
  assumes "left_over headers earlier taken"
    and "length (index_list headers name) \<le> length (filter (\<lambda>n. equal_fold n name) earlier)"
  shows "left_over headers (name # earlier) taken"
  unfolding left_over_def
proof
  fix name'
  show "filter (\<lambda>i. i \<notin> set taken) (index_list headers name')
     = drop (length (filter (\<lambda>n. equal_fold n name') (name # earlier))) (index_list headers name')"
  proof (cases "equal_fold name name'")
    case True
    then have "equal_fold x name' \<longleftrightarrow> equal_fold x name" for x by (simp add: equal_fold_def)
    then show ?thesis using assms by (simp add: left_over_def index_list_def)
  next
    case False
    then show ?thesis using assms(1) by (simp add: left_over_def)
  qed
qed

lemma select_loop_selected:
  "left_over headers earlier taken \<Longrightarrow> select_loop headers names taken = selected headers earlier names"
proof (induction names arbitrary: earlier taken)
  case (Cons name names)
  let ?k = "length (filter (\<lambda>n. equal_fold n name) earlier)"
  show ?case
  proof (cases "?k < length (index_list headers name)")
    case True
    then show ?thesis
      using Cons.IH [OF left_over_take [OF Cons.prems refl True]] find_left [OF Cons.prems, of name]
      by (simp add: instances_index Let_def)
  next
    case False
    then show ?thesis
      using Cons.IH [OF left_over_none [OF Cons.prems]] find_left [OF Cons.prems, of name]
      by (simp add: instances_index Let_def)
  qed
qed simp

lemma select_headers_selected: "select_headers headers names = selected headers [] names"
  unfolding select_headers_def by (rule select_loop_selected) (simp add: left_over_def)

subsection \<open>What a pass means\<close>

definition body_genuine :: "'k crypto \<Rightarrow> hash_fn \<Rightarrow> message \<Rightarrow> signature \<Rightarrow> bool" where
  "body_genuine cry fn msg sig \<longleftrightarrow> (let content = body_text (ms_body msg) (sg_body_canon sig) in
     body_limit sig \<le> int (length content) \<and> cr_hash cry fn (limited (body_limit sig) content) = sg_body_hash sig)"

definition key_verifies :: "'k crypto \<Rightarrow> hash_fn \<Rightarrow> 'k key_record \<Rightarrow> string \<Rightarrow> string \<Rightarrow> bool" where
  "key_verifies cry fn key digest s = (case kr_public_key key of
     RsaKey pub \<Rightarrow> 1024 \<le> kr_key_bits key \<and> cr_rsa_verify cry pub fn digest s
   | Ed25519Key pub \<Rightarrow> cr_ed25519_verify cry pub digest s
   | NoKey \<Rightarrow> False)"

lemma check_body_genuine:
  "check_body cry fn msg sig v = (failure, v') \<Longrightarrow>
     (failure = None \<longleftrightarrow> ms_body_available msg \<longrightarrow> body_genuine cry fn msg sig)
     \<and> vf_key v' = vf_key v \<and> vf_signature v' = vf_signature v \<and> vf_key_name v' = vf_key_name v \<and> vf_result v' = vf_result v
     \<and> vf_domain v' = vf_domain v \<and> vf_selector v' = vf_selector v
     \<and> (failure = None \<longrightarrow> vf_body_hash_ok v' = (if ms_body_available msg then Some True else vf_body_hash_ok v))"
  by (auto simp: check_body_def body_genuine_def body_limit_def canon_body_out Let_def split: if_splits option.splits)

lemma failed_simps [simp]:
  "vf_result (failed r f v) = r" "vf_key (failed r f v) = vf_key v" "vf_signature (failed r f v) = vf_signature v"
  "vf_key_name (failed r f v) = vf_key_name v" "vf_domain (failed r f v) = vf_domain v" "vf_selector (failed r f v) = vf_selector v"
  by (simp_all add: failed_def)

lemma finish_signature_simps [simp]:
  "vf_key (finish_signature sig ok v) = vf_key v" "vf_signature (finish_signature sig ok v) = vf_signature v"
  "vf_key_name (finish_signature sig ok v) = vf_key_name v"
  "vf_domain (finish_signature sig ok v) = vf_domain v" "vf_selector (finish_signature sig ok v) = vf_selector v"
  "vf_result (finish_signature sig ok v) = DkimPass \<longleftrightarrow> ok \<and> sg_hash_algorithm sig \<noteq> ''sha1'' \<and> vf_body_hash_ok v \<noteq> None"
  by (simp_all add: finish_signature_def Let_def)

lemma verify_with_key_pass:
  assumes "vf_body_hash_ok v0 = None"
  shows "vf_result (verify_with_key cry fn msg h sig key v0) = DkimPass \<longleftrightarrow>
      check_key sig key = None \<and> ms_body_available msg \<and> body_genuine cry fn msg sig
      \<and> key_verifies cry fn key (cr_hash cry fn (signed_data msg h sig)) (sg_signature sig) \<and> sg_hash_algorithm sig \<noteq> ''sha1''"
    and "vf_key (verify_with_key cry fn msg h sig key v0) = Some key"
    and "vf_signature (verify_with_key cry fn msg h sig key v0) = vf_signature v0"
    and "vf_key_name (verify_with_key cry fn msg h sig key v0) = vf_key_name v0"
    and "vf_domain (verify_with_key cry fn msg h sig key v0) = vf_domain v0"
    and "vf_selector (verify_with_key cry fn msg h sig key v0) = vf_selector v0"
proof -
  obtain failure v where cb: "check_body cry fn msg sig (v0\<lparr>vf_key := Some key\<rparr>) = (failure, v)" by fastforce
  note body = check_body_genuine [OF cb, simplified]
  show "vf_result (verify_with_key cry fn msg h sig key v0) = DkimPass \<longleftrightarrow>
      check_key sig key = None \<and> ms_body_available msg \<and> body_genuine cry fn msg sig
      \<and> key_verifies cry fn key (cr_hash cry fn (signed_data msg h sig)) (sg_signature sig) \<and> sg_hash_algorithm sig \<noteq> ''sha1''"
    using body assms
    by (auto simp: verify_with_key_def Let_def cb key_verifies_def split: option.splits public_key.splits)
  show "vf_key (verify_with_key cry fn msg h sig key v0) = Some key"
    "vf_signature (verify_with_key cry fn msg h sig key v0) = vf_signature v0"
    "vf_key_name (verify_with_key cry fn msg h sig key v0) = vf_key_name v0"
    "vf_domain (verify_with_key cry fn msg h sig key v0) = vf_domain v0"
    "vf_selector (verify_with_key cry fn msg h sig key v0) = vf_selector v0"
    using body
    by (simp_all add: verify_with_key_def Let_def cb split: option.split public_key.split)
qed

text \<open>
  What the tags of the signature field say, in the words of RFC 6376: \<open>signature_says sig\<close> holds of a signature that
  has the domain, the selector, the algorithms, the signature, the hash, the signed headers, the length and the
  expiration that the field writes down.
\<close>

definition numeral_tag :: "string option \<Rightarrow> int option \<Rightarrow> bool" where
  "numeral_tag val n \<longleftrightarrow> (case val of None \<Rightarrow> n = None | Some v \<Rightarrow> (\<exists>i. parse_int64 v = Some i \<and> n = Some i))"

definition signature_says :: "signature \<Rightarrow> bool" where
  "signature_says sig \<longleftrightarrow> (case parse_tag_list (hd_value (sg_header sig)) of Inl _ \<Rightarrow> False
   | Inr tags \<Rightarrow> (\<exists>d s a b bh h.
       \<lparr>tg_name = ''v'', tg_value = ''1''\<rparr> \<in> set tags
       \<and> \<lparr>tg_name = ''d'', tg_value = d\<rparr> \<in> set tags \<and> sg_domain sig = to_lower (trim_suffix d ''.'')
       \<and> \<lparr>tg_name = ''s'', tg_value = s\<rparr> \<in> set tags \<and> sg_selector sig = to_lower s
       \<and> \<lparr>tg_name = ''a'', tg_value = a\<rparr> \<in> set tags \<and> sg_key_algorithm sig @ ''-'' @ sg_hash_algorithm sig = to_lower a
       \<and> \<lparr>tg_name = ''b'', tg_value = b\<rparr> \<in> set tags \<and> b64_decode (strip_fws b) = Some (sg_signature sig)
       \<and> \<lparr>tg_name = ''bh'', tg_value = bh\<rparr> \<in> set tags \<and> b64_decode (strip_fws bh) = Some (sg_body_hash sig)
       \<and> \<lparr>tg_name = ''h'', tg_value = h\<rparr> \<in> set tags
       \<and> sg_signed_headers sig = map (\<lambda>n. trim_set n fws) (split_byte (CHR '':'') h)
       \<and> numeral_tag (tag_values tags ''l'') (sg_body_length sig)
       \<and> numeral_tag (tag_values tags ''x'') (sg_expiration sig)))"

text \<open>
  The bytes that a signature covers, with the reference selection of headers, and the key that the DNS published: the
  first record of the answer to a TXT question for the name, parsed.
\<close>

definition signed_bytes :: "message \<Rightarrow> signature \<Rightarrow> string" where
  "signed_bytes msg sig =
     concat (map (\<lambda>raw. canon_header raw (sg_header_canon sig)) (selected (ms_headers msg) [] (sg_signed_headers sig)))
     @ trim_suffix (canon_header (strip_signature_value (hd_raw (sg_header sig))) (sg_header_canon sig)) crlf"

definition key_in_dns :: "'k crypto \<Rightarrow> dns_reply list \<Rightarrow> string \<Rightarrow> 'k key_record \<Rightarrow> bool" where
  "key_in_dns cry log name key \<longleftrightarrow> (\<exists>published_text others.
     GotTXT name (Inr (published_text # others)) \<in> set log \<and> parse_key_record cry published_text = Inr key)"

text \<open>What stands behind a passing signature, and behind a verification with result pass.\<close>

definition genuine :: "'k crypto \<Rightarrow> message \<Rightarrow> int \<Rightarrow> dns_reply list \<Rightarrow> signature \<Rightarrow> 'k key_record \<Rightarrow> bool" where
  "genuine cry msg now log sig key \<longleftrightarrow>
     sg_header sig \<in> set (get_headers msg ''DKIM-Signature'') \<and> parse_signature (sg_header sig) = Inr sig \<and> signature_says sig
     \<and> sg_hash_algorithm sig = ''sha256'' \<and> (case sg_expiration sig of None \<Rightarrow> True | Some x \<Rightarrow> now \<le> x)
     \<and> key_in_dns cry log (sg_selector sig @ ''._domainkey.'' @ trim_suffix (sg_domain sig) ''.'') key
     \<and> \<not> kr_revoked key \<and> kr_key_type key = sg_key_algorithm sig \<and> allows_hash key ''sha256'' \<and> allows_email key
     \<and> (strict_identity key \<longrightarrow> equal_fold (auid_domain (sg_auid sig)) (sg_domain sig))
     \<and> ms_body_available msg \<and> body_genuine cry SHA256 msg sig
     \<and> key_verifies cry SHA256 key (cr_hash cry SHA256 (signed_bytes msg sig)) (sg_signature sig)"

definition pass_genuine :: "'k crypto \<Rightarrow> message \<Rightarrow> int \<Rightarrow> dns_reply list \<Rightarrow> 'k verification \<Rightarrow> bool" where
  "pass_genuine cry msg now log v \<longleftrightarrow> (if vf_result v = DkimPass
     then (case (vf_signature v, vf_key v) of
         (Some sig, Some key) \<Rightarrow> genuine cry msg now log sig key \<and> vf_domain v = sg_domain sig \<and> vf_selector v = sg_selector sig
       | _ \<Rightarrow> False) else True)"

lemma key_in_dns_mono: "key_in_dns cry log name key \<Longrightarrow> set log \<subseteq> set log' \<Longrightarrow> key_in_dns cry log' name key"
  by (auto simp: key_in_dns_def)

lemma genuine_mono: "genuine cry msg now log sig key \<Longrightarrow> set log \<subseteq> set log' \<Longrightarrow> genuine cry msg now log' sig key"
  unfolding genuine_def by (blast intro: key_in_dns_mono)

lemma pass_genuine_mono: "pass_genuine cry msg now log v \<Longrightarrow> set log \<subseteq> set log' \<Longrightarrow> pass_genuine cry msg now log' v"
  unfolding pass_genuine_def by (auto split: option.splits intro: genuine_mono)

lemma pass_genuine_index [simp]: "pass_genuine cry msg now log (v\<lparr>vf_index := i\<rparr>) = pass_genuine cry msg now log v"
  by (simp add: pass_genuine_def split: option.split)

lemma parse_signature_header: "parse_signature h = Inr sig \<Longrightarrow> sg_header sig = h"
  by (auto simp: parse_signature_def Let_def case_prod_unfold)

lemma tag_values_set: "tag_values tags n = Some v \<Longrightarrow> \<lparr>tg_name = n, tg_value = v\<rparr> \<in> set tags"
proof -
  assume "tag_values tags n = Some v"
  then obtain t where "t \<in> set tags" "n = tg_name t" "v = tg_value t"
    unfolding tag_values_def by (auto dest!: map_of_SomeD)
  moreover have "t = \<lparr>tg_name = tg_name t, tg_value = tg_value t\<rparr>" by simp
  ultimately show ?thesis by metis
qed

lemma number_of_tag: "number_of e val = Inr n \<Longrightarrow> numeral_tag val n"
  by (auto simp: number_of_def numeral_tag_def split: option.splits if_splits)

lemma decoded: "(case b64_decode s of None \<Rightarrow> Inl e | Some b \<Rightarrow> if b = [] then Inl e else Inr b) = Inr b' \<Longrightarrow> b64_decode s = Some b'"
  by (auto split: option.splits if_splits)

lemma required_present:
  assumes "(case find (\<lambda>r. val r = None) required_tags of Some r \<Rightarrow> Inl (SigMissing r) | None \<Rightarrow> Inr ()) = Inr u"
    and "n \<in> set required_tags"
  shows "\<exists>v. val n = Some v"
  using assms by (auto simp: find_None_iff split: option.splits)

lemma parse_signature_says:
  assumes "parse_signature h = Inr sig"
  shows "signature_says sig"
proof -
  obtain tags where tags: "parse_tag_list (hd_value h) = Inr tags"
    using assms by (cases "parse_tag_list (hd_value h)") (simp_all add: parse_signature_def)
  let ?get = "\<lambda>n. case tag_values tags n of None \<Rightarrow> [] | Some v \<Rightarrow> v"
  have says: "\<lparr>tg_name = n, tg_value = ?get n\<rparr> \<in> set tags" if "n \<in> set required_tags" for n
  proof -
    have "\<exists>v. tag_values tags n = Some v"
      using assms that by (auto simp: parse_signature_def tags Let_def case_prod_unfold dest!: required_present)
    then show ?thesis by (auto dest: tag_values_set)
  qed
  obtain key hash where alg: "cut (to_lower (?get ''a'')) (CHR ''-'') = (key, hash, True)"
      "sg_key_algorithm sig = key" "sg_hash_algorithm sig = hash"
    using assms by (cases "cut (to_lower (?get ''a'')) (CHR ''-'')") (auto simp: parse_signature_def tags Let_def case_prod_unfold)
  have rest: "sg_domain sig = to_lower (trim_suffix (?get ''d'') ''.'')" "sg_selector sig = to_lower (?get ''s'')"
      "b64_decode (strip_fws (?get ''b'')) = Some (sg_signature sig)" "b64_decode (strip_fws (?get ''bh'')) = Some (sg_body_hash sig)"
      "sg_signed_headers sig = map (\<lambda>n. trim_set n fws) (split_byte (CHR '':'') (?get ''h''))"
      "numeral_tag (tag_values tags ''l'') (sg_body_length sig)" "numeral_tag (tag_values tags ''x'') (sg_expiration sig)"
      "?get ''v'' = ''1''"
    using assms by (auto simp: parse_signature_def tags Let_def case_prod_unfold signed_names_def dest: decoded number_of_tag)
  have "sg_key_algorithm sig @ ''-'' @ sg_hash_algorithm sig = to_lower (?get ''a'')"
    using alg by (simp add: cut_True)
  then show ?thesis
    using rest says [of "''v''"] says [of "''d''"] says [of "''s''"] says [of "''a''"] says [of "''b''"] says [of "''bh''"] says [of "''h''"]
    by (simp add: signature_says_def parse_signature_header [OF assms] tags required_tags_def) blast
qed

text \<open>Every key that is kept is what the DNS answered to the question for its name.\<close>

definition keys_told :: "'k crypto \<Rightarrow> dns_reply list \<Rightarrow> 'k key_cache \<Rightarrow> bool" where
  "keys_told cry log keys \<longleftrightarrow> (\<forall>name kl. keys name = Some kl \<longrightarrow>
     (\<exists>ans. GotTXT name ans \<in> set log \<and> kl = key_of_answer cry ans))"

lemma keys_told_empty [simp]: "keys_told cry log Map.empty"
  by (simp add: keys_told_def)

lemma cached_key_told:
  assumes "keys_told cry log keys"
  shows "told (\<lambda>log (kl, keys'). (\<exists>ans. GotTXT name ans \<in> set log \<and> kl = key_of_answer cry ans) \<and> keys_told cry log keys')
    (cached_key cry name keys) log"
proof (cases "keys name")
  case None
  then show ?thesis using assms by (force simp: cached_key_def fetch_key_def keys_told_def)
next
  case (Some kl)
  then show ?thesis using assms by (auto simp: cached_key_def keys_told_def)
qed

lemma key_of_answer_in_dns:
  "key_of_answer cry ans = Inr key \<Longrightarrow> GotTXT name ans \<in> set log \<Longrightarrow> key_in_dns cry log name key"
  by (auto simp: key_of_answer_def key_in_dns_def split: sum.splits list.splits if_splits)

lemma key_of_answer_not_pass: "key_of_answer cry ans = Inl (res, f) \<Longrightarrow> res \<noteq> DkimPass"
  by (auto simp: key_of_answer_def split: sum.splits list.splits if_splits)

lemma check_signature_None:
  assumes "check_signature now sig = None" and "hash_of sig = Some fn"
  shows "case sg_expiration sig of None \<Rightarrow> True | Some x \<Rightarrow> now \<le> x"
    and "sg_hash_algorithm sig \<noteq> ''sha1'' \<Longrightarrow> sg_hash_algorithm sig = ''sha256'' \<and> fn = SHA256"
  using assms by (auto simp: check_signature_def hash_of_def split: if_splits option.splits)

lemma signed_data_bytes: "sg_header sig = h \<Longrightarrow> signed_data msg h sig = signed_bytes msg sig"
  by (simp add: signed_data_def signed_bytes_def select_headers_selected)

lemma apply_lookup_genuine:
  fixes sig :: signature
  defines "name \<equiv> vf_key_name (signature_verification sig :: 'k verification)"
  assumes parsed: "parse_signature h = Inr sig" "h \<in> set (get_headers msg ''DKIM-Signature'')"
    and checked: "check_signature now sig = None" "hash_of sig = Some fn"
    and ans: "GotTXT name ans \<in> set log" "kl = key_of_answer cry ans"
  shows "pass_genuine cry msg now log (apply_lookup cry fn msg h sig kl (signature_verification sig :: 'k verification))"
proof (cases kl)
  case (Inl a)
  then show ?thesis using ans key_of_answer_not_pass by (cases a) (auto simp: apply_lookup_def pass_genuine_def)
next
  case (Inr key)
  let ?v = "signature_verification sig :: 'k verification"
  have v: "vf_body_hash_ok ?v = None" "vf_signature ?v = Some sig" "vf_domain ?v = sg_domain sig" "vf_selector ?v = sg_selector sig"
    by (simp_all add: signature_verification_def new_verification_def)
  have name: "name = sg_selector sig @ ''._domainkey.'' @ trim_suffix (sg_domain sig) ''.''"
    by (simp add: name_def signature_verification_def new_verification_def key_name_def)
  note pass = verify_with_key_pass [OF v(1), of cry fn msg h sig key]
  show ?thesis
  proof (cases "vf_result (verify_with_key cry fn msg h sig key ?v) = DkimPass")
    case True
    then have p: "check_key sig key = None" "ms_body_available msg" "body_genuine cry fn msg sig"
      "key_verifies cry fn key (cr_hash cry fn (signed_data msg h sig)) (sg_signature sig)" "sg_hash_algorithm sig \<noteq> ''sha1''"
      using pass(1) by simp_all
    have fn: "sg_hash_algorithm sig = ''sha256''" "fn = SHA256"
      using check_signature_None(2) [OF checked p(5)] by simp_all
    have "key_in_dns cry log name key" using ans Inr key_of_answer_in_dns by metis
    then have "genuine cry msg now log sig key"
      using parsed p fn parse_signature_header [OF parsed(1)] check_signature_None(1) [OF checked] parse_signature_says [OF parsed(1)]
      by (auto simp: genuine_def check_key_def name signed_data_bytes split: if_splits)
    then show ?thesis using pass v by (simp add: Inr apply_lookup_def pass_genuine_def)
  next
    case False
    then show ?thesis by (simp add: Inr apply_lookup_def pass_genuine_def)
  qed
qed

lemma verify_one_told:
  fixes cry :: "'k crypto"
  assumes "keys_told cry log keys" and "h \<in> set (get_headers msg ''DKIM-Signature'')"
  shows "told (\<lambda>log (v, keys'). pass_genuine cry msg now log v \<and> keys_told cry log keys') (verify_one cry msg now h keys) log"
proof (cases "parse_signature h")
  case (Inl e)
  then show ?thesis using assms by (simp add: verify_one_def pass_genuine_def)
next
  case (Inr sig)
  show ?thesis
  proof (cases "check_signature now sig")
    case (Some f)
    then show ?thesis using assms Inr by (simp add: verify_one_def pass_genuine_def)
  next
    case None
    then obtain fn where fn: "hash_of sig = Some fn" by (cases "hash_of sig") (simp_all add: check_signature_def)
    show ?thesis
      unfolding verify_one_def Inr sum.case None option.case fn Let_def
      by (rule told_bindI [OF cached_key_told [OF assms(1)]])
        (use apply_lookup_genuine [OF Inr assms(2) None fn, where cry = cry] in auto)
  qed
qed

lemma verify_loop_told:
  assumes "keys_told cry log keys" and "set hs \<subseteq> set (get_headers msg ''DKIM-Signature'')"
  shows "told (\<lambda>log vs. list_all (pass_genuine cry msg now log) vs \<and> length vs = length hs) (verify_loop cry msg now i hs keys) log"
  using assms
proof (induction hs arbitrary: i log keys)
  case (Cons h hs)
  have h: "h \<in> set (get_headers msg ''DKIM-Signature'')" using Cons.prems by simp
  show ?case unfolding verify_loop.simps
  proof (rule told_bindI [OF verify_one_told [OF Cons.prems(1) h]], clarsimp split del: if_split)
    fix log' v keys'
    assume v: "pass_genuine cry msg now log' v" and keys: "keys_told cry log' keys'"
    have hs: "set hs \<subseteq> set (get_headers msg ''DKIM-Signature'')" using Cons.prems by simp
    show "told (\<lambda>log vs. list_all (pass_genuine cry msg now log) vs \<and> length vs = Suc (length hs))
      (and_then (verify_loop cry msg now (Suc i) hs keys') (\<lambda>vs. Ret (v\<lparr>vf_index := Suc i\<rparr> # vs))) log'"
      by (rule told_bindI [OF Cons.IH [OF keys hs]]) (use v in \<open>auto dest: pass_genuine_mono\<close>)
  qed
qed simp

lemma verify_message_told:
  "told (\<lambda>log vs. list_all (pass_genuine cry msg now log) vs
      \<and> length vs = min max_signatures (length (get_headers msg ''DKIM-Signature''))) (verify_message cry msg now) log"
  unfolding verify_message_def
  by (rule told_mono [OF verify_loop_told [OF keys_told_empty]]) (auto dest: in_set_takeD)

subsection \<open>Questions\<close>

text \<open>\<open>asked keys name keys' j n\<close>: the key of \<open>name\<close> was looked up, with a question unless it was known.\<close>

definition asked :: "'k key_cache \<Rightarrow> string \<Rightarrow> 'k key_cache \<Rightarrow> nat \<Rightarrow> nat \<Rightarrow> bool" where
  "asked keys name keys' j n \<longleftrightarrow>
    (if keys name = None then n = Suc j \<and> dom keys' = insert name (dom keys) else n = j \<and> keys' = keys)"

lemma cached_key_ends: "ends (\<lambda>n (_, keys'). asked keys name keys' j n) (cached_key cry name keys) j"
  by (auto simp: cached_key_def fetch_key_def asked_def split: option.split)

lemma verify_one_ends:
  fixes cry :: "'k crypto"
  shows "ends (\<lambda>n (v, keys'). n = j \<and> keys' = keys \<or> asked keys (vf_key_name v) keys' j n) (verify_one cry msg now h keys) j"
proof (cases "parse_signature h")
  case (Inl e)
  then show ?thesis by (simp add: verify_one_def)
next
  case (Inr sig)
  let ?v = "signature_verification sig :: 'k verification"
  show ?thesis
  proof (cases "check_signature now sig")
    case (Some f)
    then show ?thesis using Inr by (simp add: verify_one_def)
  next
    case None
    then obtain fn where fn: "hash_of sig = Some fn" by (cases "hash_of sig") (simp_all add: check_signature_def)
    have name: "vf_key_name (apply_lookup cry fn msg h sig kl ?v) = vf_key_name ?v" for kl
      by (simp add: apply_lookup_def verify_with_key_pass signature_verification_def new_verification_def split: sum.split)
    have "ends (\<lambda>n (v, keys'). n = j \<and> keys' = keys \<or> asked keys (vf_key_name v) keys' j n)
      (and_then (cached_key cry (vf_key_name ?v) keys) (\<lambda>(kl, keys). Ret (apply_lookup cry fn msg h sig kl ?v, keys))) j"
      by (rule ends_bindI [OF cached_key_ends]) (auto simp: name)
    then show ?thesis using Inr None fn by (simp add: verify_one_def Let_def)
  qed
qed

lemma verify_loop_ends:
  "ends (\<lambda>n vs. length vs = length hs \<and> n \<le> j + card (vf_key_name ` set vs - dom keys)) (verify_loop cry msg now i hs keys) j"
proof (induction hs arbitrary: i j keys)
  case (Cons h hs)
  show ?case unfolding verify_loop.simps
  proof (rule ends_bindI [OF verify_one_ends], goal_cases)
    case (1 n x)
    then obtain v keys' where x: "x = (v, keys')" "n = j \<and> keys' = keys \<or> asked keys (vf_key_name v) keys' j n"
      by (cases x) auto
    have le: "m \<le> j + card (insert (vf_key_name v) (vf_key_name ` set vs) - dom keys)"
      if "m \<le> n + card (vf_key_name ` set vs - dom keys')" for m vs
    proof -
      let ?N = "vf_key_name ` set vs"
      have "card (?N - dom keys) \<le> card (insert (vf_key_name v) ?N - dom keys)"
        by (rule card_mono) auto
      moreover have "card (insert (vf_key_name v) ?N - dom keys) = Suc (card (?N - insert (vf_key_name v) (dom keys)))"
        if "keys (vf_key_name v) = None"
      proof -
        have "insert (vf_key_name v) ?N - dom keys = insert (vf_key_name v) (?N - insert (vf_key_name v) (dom keys))"
          using that by auto
        then show ?thesis by simp
      qed
      ultimately show ?thesis using that x(2) by (auto simp: asked_def split: if_splits)
    qed
    show ?case
      by (simp add: x, rule ends_bindI [OF Cons.IH]) (auto dest: le)
  qed
qed simp

lemma verify_message_ends:
  "ends (\<lambda>n vs. length vs = min max_signatures (length (get_headers msg ''DKIM-Signature''))
      \<and> n \<le> card (vf_key_name ` set vs)) (verify_message cry msg now) 0"
  unfolding verify_message_def
  by (rule ends_mono [OF verify_loop_ends]) (simp add: min.commute)

subsection \<open>The key cache\<close>

text \<open>On a zone, what verification of a signature finds, without the keys of other signatures.\<close>

definition verified_alone :: "'k crypto \<Rightarrow> zone \<Rightarrow> message \<Rightarrow> int \<Rightarrow> header \<Rightarrow> 'k verification" where
  "verified_alone cry z msg now h = fst (fst (run (verify_one cry msg now h Map.empty) (zone_resolver z) ()))"

definition keys_of_zone :: "'k crypto \<Rightarrow> zone \<Rightarrow> 'k key_cache \<Rightarrow> bool" where
  "keys_of_zone cry z keys \<longleftrightarrow> (\<forall>name kl. keys name = Some kl \<longrightarrow> kl = key_of_answer cry (z_txt z name))"

lemma run_cached_key:
  assumes "keys_of_zone cry z keys"
  shows "run (cached_key cry name keys) (zone_resolver z) s =
    ((key_of_answer cry (z_txt z name), if keys name = None then keys(name \<mapsto> key_of_answer cry (z_txt z name)) else keys), s)"
proof (cases "keys name")
  case None
  then show ?thesis by (simp add: cached_key_def fetch_key_def zone_resolver_def)
next
  case (Some kl)
  then show ?thesis using assms by (simp add: cached_key_def keys_of_zone_def)
qed

lemma keys_of_zone_empty [simp]: "keys_of_zone cry z Map.empty"
  by (simp add: keys_of_zone_def)

lemma run_verify_one:
  fixes cry :: "'k crypto"
  assumes "keys_of_zone cry z keys"
  shows "\<exists>keys'. run (verify_one cry msg now h keys) (zone_resolver z) s = ((verified_alone cry z msg now h, keys'), s)
     \<and> keys_of_zone cry z keys'"
proof (cases "parse_signature h")
  case (Inl e)
  then show ?thesis using assms by (simp add: verify_one_def verified_alone_def)
next
  case (Inr sig)
  let ?v = "signature_verification sig :: 'k verification"
  show ?thesis
  proof (cases "check_signature now sig = None \<and> hash_of sig \<noteq> None")
    case True
    then obtain fn where fn: "hash_of sig = Some fn" by blast
    have one: "verify_one cry msg now h keys = and_then (cached_key cry (vf_key_name ?v) keys) (\<lambda>(kl, keys).
        Ret (apply_lookup cry fn msg h sig kl ?v, keys))" for keys
      using True fn by (simp add: verify_one_def Inr Let_def)
    have alone: "verified_alone cry z msg now h = apply_lookup cry fn msg h sig (key_of_answer cry (z_txt z (vf_key_name ?v))) ?v"
      unfolding verified_alone_def one run_and_then run_cached_key [OF keys_of_zone_empty] by simp
    show ?thesis
      unfolding one run_and_then run_cached_key [OF assms] alone
      using assms by (simp add: keys_of_zone_def)
  next
    case False
    then obtain f where "check_signature now sig = Some f"
      by (cases "check_signature now sig") (auto simp: check_signature_def)
    then have "\<exists>v. \<forall>keys. verify_one cry msg now h keys = Ret (v, keys)"
      by (auto simp: verify_one_def Inr Let_def)
    then obtain v where "verify_one cry msg now h keys = Ret (v, keys)" for keys by blast
    then show ?thesis using assms by (simp add: verified_alone_def)
  qed
qed

lemma run_verify_loop:
  "keys_of_zone cry z keys \<Longrightarrow> run (verify_loop cry msg now i hs keys) (zone_resolver z) s =
     (map (\<lambda>(k, h). (verified_alone cry z msg now h)\<lparr>vf_index := k + 1\<rparr>) (enumerate i hs), s)"
proof (induction hs arbitrary: i keys s)
  case (Cons h hs)
  obtain keys' where "run (verify_one cry msg now h keys) (zone_resolver z) s = ((verified_alone cry z msg now h, keys'), s)"
    "keys_of_zone cry z keys'"
    using run_verify_one [OF Cons.prems] by blast
  then show ?case using Cons.IH by (simp add: run_and_then)
qed simp

subsection \<open>Tag lists, signatures and keys\<close>

definition tag_ok :: "tag \<Rightarrow> bool" where
  "tag_ok t \<longleftrightarrow> valid_tag_name (tg_name t) \<and> CHR '';'' \<notin> set (tg_value t) \<and> trim_set (tg_value t) fws = tg_value t"

definition show_tag :: "tag \<Rightarrow> string" where
  "show_tag t = tg_name t @ CHR ''='' # tg_value t"

definition show_tags :: "tag list \<Rightarrow> string" where
  "show_tags tags = join '';'' (map show_tag tags)"

lemma valid_tag_name_bytes:
  assumes "valid_tag_name n" and "c \<in> set n"
  shows "c \<noteq> CHR '';'' \<and> c \<noteq> CHR ''='' \<and> c \<notin> set fws"
proof -
  have "is_alpha c \<or> is_digit c \<or> c = CHR ''_''"
    using assms by (cases n) (auto simp: valid_tag_name_def list_all_iff)
  then show ?thesis by (auto simp: byte_class_defs)
qed

lemma trim_set_Nil_iff: "trim_set s cs = [] \<longleftrightarrow> set s \<subseteq> set cs"
proof -
  have "set s = set (takeWhile (\<lambda>x. x \<in> set cs) s) \<union> set (trim_left s cs)"
    by (metis trim_left_def set_append takeWhile_dropWhile_id)
  moreover have "set (takeWhile (\<lambda>x. x \<in> set cs) s) \<subseteq> set cs" by (auto dest: set_takeWhileD)
  moreover have "trim_right t cs = [] \<longleftrightarrow> set t \<subseteq> set cs" for t
    by (auto simp: trim_right_def dropWhile_eq_Nil_conv)
  ultimately show ?thesis by (auto simp: trim_set_def)
qed

lemma trim_set_idem [simp]: "trim_set (trim_set s cs) cs = trim_set s cs"
proof (rule trim_set_id)
  let ?P = "\<lambda>x. x \<in> set cs"
  show "trim_set s cs = [] \<or> hd (trim_set s cs) \<notin> set cs \<and> last (trim_set s cs) \<notin> set cs"
  proof (cases "trim_set s cs = []")
    case False
    let ?t = "trim_left s cs"
    have t: "?t = trim_right ?t cs @ rev (takeWhile ?P (rev ?t))"
      by (metis rev_append rev_rev_ident takeWhile_dropWhile_id trim_right_def)
    have "trim_right ?t cs \<noteq> []" using False by (simp add: trim_set_def)
    moreover have "hd ?t = hd (trim_right ?t cs)" using t calculation by (metis hd_append2)
    moreover have "?t \<noteq> []" using calculation(1) by (auto simp: trim_right_def)
    then have "hd ?t \<notin> set cs" using hd_dropWhile [of ?P s] by (simp add: trim_left_def)
    moreover have "last (trim_right ?t cs) \<notin> set cs"
      using calculation(1) hd_dropWhile [of ?P "rev ?t"] by (simp add: trim_right_def last_rev)
    ultimately show ?thesis by (simp add: trim_set_def)
  qed simp
qed

lemma valid_tag_name_trim: "valid_tag_name n \<Longrightarrow> trim_set n fws = n"
  using valid_tag_name_bytes [of n "hd n"] valid_tag_name_bytes [of n "last n"]
  by (intro trim_set_id) (auto simp: valid_tag_name_def)

lemma tag_loop_ok:
  assumes "tag_loop parts seen acc = Inr tags" and "list_all tag_ok acc" "distinct (map tg_name acc)"
    and "set seen = tg_name ` set acc" and "\<forall>p\<in>set parts. CHR '';'' \<notin> set p"
  shows "list_all tag_ok tags \<and> distinct (map tg_name tags)"
  using assms
proof (induction parts seen acc rule: tag_loop.induct)
  case (2 part parts seen acc)
  show ?case
  proof (cases "trim_set part fws = []")
    case True
    then show ?thesis using 2 by simp
  next
    case False
    obtain n v ok where cut: "cut part (CHR ''='') = (n, v, ok)" by (metis prod_cases3)
    let ?n = "trim_set n fws" and ?v = "trim_set v fws"
    have ok: "ok" "valid_tag_name ?n" "?n \<notin> set seen"
      "tag_loop parts (?n # seen) (acc @ [\<lparr>tg_name = ?n, tg_value = ?v\<rparr>]) = Inr tags"
      using 2(3) False cut by (auto simp: Let_def split: if_splits)
    have "part = n @ CHR ''='' # v" using cut ok(1) by (simp add: cut_True)
    then have "CHR '';'' \<notin> set ?v" using 2(7) trim_set_subset [of v fws] by auto
    then have "tag_ok \<lparr>tg_name = ?n, tg_value = ?v\<rparr>" using ok by (simp add: tag_ok_def)
    then have "list_all tag_ok (acc @ [\<lparr>tg_name = ?n, tg_value = ?v\<rparr>])" using 2(4) by simp
    moreover have "distinct (map tg_name (acc @ [\<lparr>tg_name = ?n, tg_value = ?v\<rparr>]))" using 2(5,6) ok by auto
    moreover have "set (?n # seen) = tg_name ` set (acc @ [\<lparr>tg_name = ?n, tg_value = ?v\<rparr>])" using 2(6) by simp
    ultimately show ?thesis
      by (intro 2(2) [OF False cut [symmetric] refl]) (use ok 2(7) in auto)
  qed
qed simp

lemma tag_loop_show:
  assumes "list_all tag_ok tags" "distinct (map tg_name tags)" "set seen \<inter> tg_name ` set tags = {}"
  shows "tag_loop (map show_tag tags) seen acc = Inr (acc @ tags)"
  using assms
proof (induction tags arbitrary: seen acc)
  case (Cons t tags)
  have t: "valid_tag_name (tg_name t)" "trim_set (tg_value t) fws = tg_value t" using Cons.prems by (simp_all add: tag_ok_def)
  have "CHR ''='' \<notin> set (tg_name t)" using valid_tag_name_bytes [OF t(1)] by blast
  then have cut: "cut (show_tag t) (CHR ''='') = (tg_name t, tg_value t, True)"
    by (simp add: show_tag_def cut_found)
  have "trim_set (show_tag t) fws \<noteq> []" by (simp add: trim_set_Nil_iff show_tag_def)
  then show ?case
    using Cons t cut by (simp add: valid_tag_name_trim)
qed simp

lemma show_tag_no_sep: "tag_ok t \<Longrightarrow> CHR '';'' \<notin> set (show_tag t)"
  using valid_tag_name_bytes [of "tg_name t"] by (auto simp: tag_ok_def show_tag_def)

lemma parse_show_tags:
  assumes "list_all tag_ok tags" "distinct (map tg_name tags)"
  shows "parse_tag_list (show_tags tags) = Inr tags"
proof (cases "tags = []")
  case True
  then show ?thesis by (simp add: parse_tag_list_def show_tags_def)
next
  case False
  then have "split_byte (CHR '';'') (show_tags tags) = map show_tag tags"
    unfolding show_tags_def using assms(1) by (intro split_byte_join) (auto simp: list_all_iff dest: show_tag_no_sep)
  then show ?thesis using tag_loop_show [OF assms, of "[]" "[]"] by (simp add: parse_tag_list_def)
qed

lemma parse_tag_list_ok:
  "parse_tag_list s = Inr tags \<Longrightarrow> list_all tag_ok tags \<and> distinct (map tg_name tags)"
  unfolding parse_tag_list_def by (erule tag_loop_ok) (auto dest: split_byte_no_sep)

text \<open>What a parsed signature guarantees to verification.\<close>

definition signature_ok :: "signature \<Rightarrow> bool" where
  "signature_ok sig \<longleftrightarrow> sg_version sig = ''1'' \<and> sg_signature sig \<noteq> [] \<and> sg_body_hash sig \<noteq> []
     \<and> sg_header_canon sig \<in> {canon_simple, canon_relaxed} \<and> sg_body_canon sig \<in> {canon_simple, canon_relaxed}
     \<and> sg_domain sig \<noteq> [] \<and> sg_selector sig \<noteq> [] \<and> sg_key_algorithm sig \<noteq> [] \<and> sg_hash_algorithm sig \<noteq> []
     \<and> list_all (\<lambda>n. n \<noteq> []) (sg_signed_headers sig) \<and> list_ex (\<lambda>n. equal_fold n ''from'') (sg_signed_headers sig)
     \<and> (let d = to_lower (auid_domain (sg_auid sig)) in
          sg_auid sig = CHR ''@'' # sg_domain sig \<or> d = sg_domain sig \<or> has_suffix d (CHR ''.'' # sg_domain sig))
     \<and> (case sg_body_length sig of None \<Rightarrow> True | Some l \<Rightarrow> 0 \<le> l)
     \<and> (case (sg_timestamp sig, sg_expiration sig) of (Some t, Some x) \<Rightarrow> 0 \<le> t \<and> t \<le> x | _ \<Rightarrow> True)"

lemma canon_of_Inr: "canon_of c = Inr (hc, bc) \<Longrightarrow> hc \<in> {canon_simple, canon_relaxed} \<and> bc \<in> {canon_simple, canon_relaxed}"
  by (auto simp: canon_of_def Let_def split: option.splits prod.splits if_splits)

lemma number_of_Inr: "number_of e v = Inr m \<Longrightarrow> case m of None \<Rightarrow> True | Some n \<Rightarrow> 0 \<le> n"
  by (auto simp: number_of_def split: option.splits if_splits)

lemma auid_of_Inr:
  assumes "auid_of domain i = Inr a"
  shows "a = CHR ''@'' # domain \<or> to_lower (auid_domain a) = domain \<or> has_suffix (to_lower (auid_domain a)) (CHR ''.'' # domain)"
proof (cases i)
  case None
  then show ?thesis using assms by (simp add: auid_of_def)
next
  case (Some v)
  then show ?thesis using assms
    by (cases "last_index_byte v (CHR ''@'')") (auto simp: auid_of_def auid_domain_def Let_def split: if_splits)
qed

lemma decoded_nonempty:
  "(case b64_decode s of None \<Rightarrow> Inl e | Some b \<Rightarrow> if b = [] then Inl e else Inr b) = Inr b' \<Longrightarrow> b' \<noteq> []"
  by (auto split: option.splits if_splits)

lemma timestamps_ordered:
  "(case t of None \<Rightarrow> True | Some x \<Rightarrow> case snd (t, e) of None \<Rightarrow> True | Some y \<Rightarrow> x \<le> y) \<Longrightarrow>
    (case t of None \<Rightarrow> True | Some n \<Rightarrow> (0 :: int) \<le> n) \<Longrightarrow>
    case (t, e) of (Some t, Some x) \<Rightarrow> 0 \<le> t \<and> t \<le> x | _ \<Rightarrow> True"
  by (simp split: option.splits)

lemma parse_signature_ok: "parse_signature h = Inr sig \<Longrightarrow> signature_ok sig"
  apply (clarsimp simp: parse_signature_def Let_def case_prod_unfold)
  apply (drule decoded_nonempty canon_of_Inr number_of_Inr auid_of_Inr)+
  apply (drule (1) timestamps_ordered)
  apply (simp add: signature_ok_def)
  done

subsection \<open>Properties\<close>


text \<open>
  Claim C24. The headers that are hashed are those of RFC 6376 section 5.4.2: the occurrences of a name in
  \<^verbatim>\<open>h=\<close> select the instances of that header from the bottom of the message upwards, each at most once, and an
  occurrence without an instance left contributes nothing.
\<close>

theorem select_headers_from_bottom: "select_headers headers names = selected headers [] names"
  by (rule select_headers_selected)

text \<open>
  Keeping the keys of a message is transparent: over a DNS that does not change during the
  verification, every signature gets the verification it gets when it is the only one and no key is kept.
\<close>

theorem key_cache_transparent:
  "fst (run (verify_message cry msg now) (zone_resolver z) s) =
     map (\<lambda>(i, h). (verified_alone cry z msg now h)\<lparr>vf_index := i + 1\<rparr>)
       (enumerate 0 (take max_signatures (get_headers msg ''DKIM-Signature'')))"
  by (simp add: verify_message_def run_verify_loop)

text \<open>
  Verifying a message asks one question for each different key name of its first ten
  signatures and no other.
\<close>

theorem dkim_question_bound:
  "ends (\<lambda>n vs. n \<le> card (vf_key_name ` set vs) \<and> n \<le> 10) (verify_message cry msg now) 0"
proof (rule ends_mono [OF verify_message_ends], elim conjE)
  fix n and vs :: "'a verification list"
  assume n: "n \<le> card (vf_key_name ` set vs)" and "length vs = min max_signatures (length (get_headers msg ''DKIM-Signature''))"
  then have "length vs \<le> 10" by (simp add: max_signatures_def)
  then have "card (vf_key_name ` set vs) \<le> 10"
    using card_image_le [of "set vs" vf_key_name] card_length [of vs] by simp
  then show "n \<le> card (vf_key_name ` set vs) \<and> n \<le> 10" using n by simp
qed

text \<open>
  Tag lists: the tags of a list that parses have different valid names and trimmed values, and
  written out again they parse to the same tags.
\<close>

theorem tag_list_roundtrip:
  "case parse_tag_list s of Inl _ \<Rightarrow> True
   | Inr tags \<Rightarrow> list_all tag_ok tags \<and> distinct (map tg_name tags) \<and> parse_tag_list (show_tags tags) = Inr tags"
  using parse_tag_list_ok [of s] parse_show_tags by (auto split: sum.split)

text \<open>
  A DKIM-Signature field that parses is fit for verification: the version is 1, the signature and the
  body hash are not empty, the canonicalizations are known, the signed headers are named and include
  From, the identity is in the signing domain, the body length is not negative and the signature does not expire
  before it was made.
\<close>

theorem parse_signature_well_formed:
  "case parse_signature h of Inl _ \<Rightarrow> True | Inr sig \<Rightarrow> sg_header sig = h \<and> signature_ok sig"
  using parse_signature_ok [of h] parse_signature_header [of h] by (simp split: sum.split)

end
