(* ===== verification/MailProvider.thy ===== *)
theory MailProvider
  imports GoStrings
begin

section \<open>Known mail providers (internal/mailprovider)\<close>

text \<open>The table of providers and the detection of a domain's providers from its MX hosts and SPF targets.\<close>

record provider =
  pv_name :: string
  pv_mx_suffixes :: "string list"
  pv_spf_includes :: "string list"
  pv_dkim_selectors :: "string list"
  pv_dkim_note :: string

definition known_providers :: "provider list" where
  "known_providers = [
    \<lparr>pv_name = ''Google Workspace'', pv_mx_suffixes = [''google.com'', ''googlemail.com''],
      pv_spf_includes = [''_spf.google.com''], pv_dkim_selectors = [''google''],
      pv_dkim_note = []\<rparr>,
    \<lparr>pv_name = ''Microsoft 365'', pv_mx_suffixes = [''mail.protection.outlook.com'', ''mx.microsoft''],
      pv_spf_includes = [''spf.protection.outlook.com''], pv_dkim_selectors = [''selector1'', ''selector2''],
      pv_dkim_note = []\<rparr>,
    \<lparr>pv_name = ''Amazon SES'', pv_mx_suffixes = [],
      pv_spf_includes = [''amazonses.com''], pv_dkim_selectors = [],
      pv_dkim_note = ''Amazon SES (Easy DKIM) generates random selectors for each domain; they are shown in the SES console''\<rparr>,
    \<lparr>pv_name = ''Mailchimp'', pv_mx_suffixes = [],
      pv_spf_includes = [''servers.mcsv.net''], pv_dkim_selectors = [''k1'', ''k2'', ''k3''],
      pv_dkim_note = []\<rparr>,
    \<lparr>pv_name = ''Mailchimp Transactional'', pv_mx_suffixes = [],
      pv_spf_includes = [''spf.mandrillapp.com''], pv_dkim_selectors = [''mandrill''],
      pv_dkim_note = []\<rparr>,
    \<lparr>pv_name = ''SendGrid'', pv_mx_suffixes = [],
      pv_spf_includes = [''sendgrid.net''], pv_dkim_selectors = [''s1'', ''s2''],
      pv_dkim_note = []\<rparr>,
    \<lparr>pv_name = ''Brevo'', pv_mx_suffixes = [],
      pv_spf_includes = [''spf.brevo.com'', ''spf.sendinblue.com''], pv_dkim_selectors = [''brevo1'', ''brevo2'', ''mail''],
      pv_dkim_note = []\<rparr>,
    \<lparr>pv_name = ''Mailjet'', pv_mx_suffixes = [],
      pv_spf_includes = [''spf.mailjet.com''], pv_dkim_selectors = [''mailjet''],
      pv_dkim_note = []\<rparr>,
    \<lparr>pv_name = ''Postmark'', pv_mx_suffixes = [],
      pv_spf_includes = [''spf.mtasv.net''], pv_dkim_selectors = [],
      pv_dkim_note = ''Postmark generates timestamp-based selectors for each domain; they are shown in the Postmark account''\<rparr>,
    \<lparr>pv_name = ''Zendesk'', pv_mx_suffixes = [],
      pv_spf_includes = [''mail.zendesk.com''], pv_dkim_selectors = [''zendesk1'', ''zendesk2''],
      pv_dkim_note = []\<rparr>,
    \<lparr>pv_name = ''Fastmail'', pv_mx_suffixes = [''messagingengine.com''],
      pv_spf_includes = [''spf.messagingengine.com''], pv_dkim_selectors = [''fm1'', ''fm2'', ''fm3''],
      pv_dkim_note = []\<rparr>,
    \<lparr>pv_name = ''Proton Mail'', pv_mx_suffixes = [''protonmail.ch''],
      pv_spf_includes = [''_spf.protonmail.ch''], pv_dkim_selectors = [''protonmail'', ''protonmail2'', ''protonmail3''],
      pv_dkim_note = []\<rparr>,
    \<lparr>pv_name = ''iCloud Mail'', pv_mx_suffixes = [''mail.icloud.com''],
      pv_spf_includes = [''icloud.com''], pv_dkim_selectors = [''sig1''],
      pv_dkim_note = []\<rparr>,
    \<lparr>pv_name = ''Yandex 360'', pv_mx_suffixes = [''mx.yandex.net''],
      pv_spf_includes = [''_spf.yandex.net''], pv_dkim_selectors = [''mail''],
      pv_dkim_note = []\<rparr>]"

datatype evidence = EvidenceMX string | EvidenceSPF string

record provider_match =
  pm_provider :: string
  pm_evidence :: evidence
  pm_dkim_selectors :: "string list"
  pm_dkim_note :: string

definition normalize_host :: "string \<Rightarrow> string" where
  "normalize_host name = to_lower (trim_suffix (trim_space name) ''.'')"

definition match_suffix :: "string \<Rightarrow> string list \<Rightarrow> bool" where
  "match_suffix host sfxs \<longleftrightarrow> list_ex (\<lambda>s. host = s \<or> has_suffix host (CHR ''.'' # s)) sfxs"

text \<open>The evidence for one provider: the first MX host below a suffix, else the last include of the first target that matches.\<close>

definition provider_evidence :: "string list \<Rightarrow> string list \<Rightarrow> provider \<Rightarrow> evidence option" where
  "provider_evidence mx_hosts spf_targets p =
     (case find (\<lambda>h. match_suffix (normalize_host h) (pv_mx_suffixes p)) mx_hosts of
        Some h \<Rightarrow> Some (EvidenceMX (normalize_host h))
      | None \<Rightarrow> (case find (\<lambda>t. normalize_host t \<in> set (pv_spf_includes p)) spf_targets of
          Some t \<Rightarrow> Some (EvidenceSPF (normalize_host t))
        | None \<Rightarrow> None))"

definition detect :: "string list \<Rightarrow> string list \<Rightarrow> provider_match list" where
  "detect mx_hosts spf_targets = List.map_filter (\<lambda>p. map_option (\<lambda>e.
     \<lparr>pm_provider = pv_name p, pm_evidence = e, pm_dkim_selectors = pv_dkim_selectors p, pm_dkim_note = pv_dkim_note p\<rparr>)
     (provider_evidence mx_hosts spf_targets p)) known_providers"

lemma known_names_distinct: "distinct (map pv_name known_providers)"
  by (simp add: known_providers_def)

lemma known_selector_count: "list_all (\<lambda>p. length (pv_dkim_selectors p) \<le> 3) known_providers"
  by (simp add: known_providers_def)

end
