(* ===== verification/DkimAssess.thy ===== *)
theory DkimAssess
  imports DkimVerify MailProvider FindingsCatalog
begin

section \<open>Audit of DKIM key records (internal/dkim/assess.go)\<close>

text \<open>
  The selectors of the user, or else the default selectors of the detected providers, are looked up one after the
  other and their key records graded.  An operation that returns an infrastructure error beside its result returns
  it as the last component.
\<close>

definition max_guessed_selectors :: nat where "max_guessed_selectors = 16"

datatype selector_error = NoSelectorError | InvalidSelector | NoKeyRecord | SelectorLookup dns_error | SelectorKey key_error

record 'k selector_assessment =
  sl_selector :: string
  sl_name :: string
  sl_provider :: string
  sl_records :: "string list"
  sl_key :: "'k key_record option"
  sl_error :: selector_error

definition published :: "'k selector_assessment \<Rightarrow> bool" where
  "published sa \<longleftrightarrow> sl_records sa \<noteq> []"

record 'k dkim_assessment =
  da_providers :: "provider_match list"
  da_selectors :: "'k selector_assessment list"
  da_findings :: "observation list"

subsection \<open>One selector\<close>

definition key_findings :: "string \<Rightarrow> 'k key_record \<Rightarrow> observation list" where
  "key_findings name key = (
     if kr_revoked key then [observe DKIMKeyRevoked name]
     else (if \<not> allows_email key then [observe DKIMKeyServiceMismatch name] else [])
       @ (if kr_hash_algs key \<noteq> [] \<and> ''sha256'' \<notin> set (kr_hash_algs key) then [observe DKIMKeySHA1Only name] else [])
       @ (if kr_key_type key = key_type_rsa
          then (if kr_key_bits key < 1024 then [observe DKIMKeyTooShort name]
                else if kr_key_bits key < 2048 then [observe DKIMKeyWeak name]
                else if 4096 < kr_key_bits key then [observe DKIMKeyTooLong name] else [])
            @ (if kr_pkcs1 key then [observe DKIMKeyPKCS1 name] else [])
          else [])
       @ (if kr_key_type key = key_type_ed25519 then [observe DKIMKeyEd25519 name] else [])
       @ (if testing key then [observe DKIMKeyTesting name] else [])
       @ map (\<lambda>t. observe DKIMKeyUnknownTag name) (kr_unknown_tags key))"

definition grade_records :: "'k crypto \<Rightarrow> 'k selector_assessment \<Rightarrow> string \<Rightarrow> string list
    \<Rightarrow> 'k selector_assessment \<times> observation list" where
  "grade_records cry sa0 record records = (
     let name = sl_name sa0;
         sa = sa0\<lparr>sl_records := record # records\<rparr>;
         fs = (if records \<noteq> [] then [observe DKIMMultipleKeys name] else [])
     in case parse_key_record cry record of
          Inl e \<Rightarrow> (sa\<lparr>sl_error := SelectorKey e\<rparr>, fs @ [observe DKIMInvalidKey name])
        | Inr key \<Rightarrow>
            let fs = fs @ key_findings name key
            in (sa\<lparr>sl_key := Some key\<rparr>,
                if observed_max fs \<le> SeverityInfo \<and> \<not> kr_revoked key then fs @ [observe DKIMKeyValid name] else fs))"

text \<open>What the answer of the key lookup gives; \<open>not_found\<close> are the findings on a missing key.\<close>

definition selector_answer :: "'k crypto \<Rightarrow> 'k selector_assessment \<Rightarrow> observation list \<Rightarrow> string list answer
    \<Rightarrow> 'k selector_assessment \<times> observation list \<times> dns_error option" where
  "selector_answer cry sa not_found ans = (case ans of
      Inl e \<Rightarrow>
        if is_nxdomain e then (sa\<lparr>sl_error := NoKeyRecord\<rparr>, not_found, None)
        else (sa\<lparr>sl_error := SelectorLookup e\<rparr>, [observe DNSLookupFailed (sl_name sa)],
              if is_infrastructure e then Some e else None)
    | Inr [] \<Rightarrow> (sa\<lparr>sl_error := NoKeyRecord\<rparr>, not_found, None)
    | Inr (txt # txts) \<Rightarrow> (case grade_records cry sa txt txts of (sa, fs) \<Rightarrow> (sa, fs, None)))"

definition assess_selector :: "'k crypto \<Rightarrow> string \<Rightarrow> string \<Rightarrow> string
    \<Rightarrow> ('k selector_assessment \<times> observation list \<times> dns_error option) dns" where
  "assess_selector cry domain sel provider = (
     let name = key_name sel domain;
         sa = \<lparr>sl_selector = sel, sl_name = name, sl_provider = provider, sl_records = [], sl_key = None,
                sl_error = NoSelectorError\<rparr>;
         not_found = (if provider = [] then [observe DKIMKeyNotFound name] else [])
     in if \<not> valid_domain name then Ret (sa\<lparr>sl_error := InvalidSelector\<rparr>, not_found, None)
        else AskTXT name (\<lambda>ans. Ret (selector_answer cry sa not_found ans)))"

subsection \<open>All selectors\<close>

definition add_selector :: "'k selector_assessment \<Rightarrow> observation list \<Rightarrow> 'k dkim_assessment \<Rightarrow> 'k dkim_assessment" where
  "add_selector sa fs a = a\<lparr>da_selectors := da_selectors a @ [sa], da_findings := da_findings a @ fs\<rparr>"

definition later_error :: "dns_error option \<Rightarrow> dns_error option \<Rightarrow> dns_error option" where
  "later_error infra err = (case err of None \<Rightarrow> infra | Some e \<Rightarrow> Some e)"

fun given_loop :: "'k crypto \<Rightarrow> string \<Rightarrow> string list \<Rightarrow> string list \<Rightarrow> 'k dkim_assessment \<Rightarrow> dns_error option
    \<Rightarrow> ('k dkim_assessment \<times> dns_error option) dns" where
  "given_loop cry domain [] seen a infra = Ret (a, infra)"
| "given_loop cry domain (s # ss) seen a infra = (let sel = to_lower (trim_space s) in
     if sel = [] \<or> sel \<in> set seen then given_loop cry domain ss seen a infra
     else and_then (assess_selector cry domain sel []) (\<lambda>(sa, fs, err).
       given_loop cry domain ss (sel # seen) (add_selector sa fs a) (later_error infra err)))"

text \<open>The two nested loops of \<^verbatim>\<open>guess\<close> are one over the pairs of a provider and one of its selectors.\<close>

fun guess_loop :: "'k crypto \<Rightarrow> string \<Rightarrow> (string \<times> string) list \<Rightarrow> string list \<Rightarrow> nat \<Rightarrow> 'k dkim_assessment
    \<Rightarrow> dns_error option \<Rightarrow> ('k dkim_assessment \<times> dns_error option) dns" where
  "guess_loop cry domain [] seen tried a infra = Ret (a, infra)"
| "guess_loop cry domain ((provider, sel) # ps) seen tried a infra =
     (if sel \<in> set seen \<or> tried = max_guessed_selectors then guess_loop cry domain ps seen tried a infra
      else and_then (assess_selector cry domain sel provider) (\<lambda>(sa, fs, err).
        guess_loop cry domain ps (sel # seen) (tried + 1) (add_selector sa fs a) (later_error infra err)))"

definition guessed_pairs :: "provider_match list \<Rightarrow> (string \<times> string) list" where
  "guessed_pairs ps = concat (map (\<lambda>p. map (Pair (pm_provider p)) (pm_dkim_selectors p)) ps)"

text \<open>The providers with a published key; the others only add to the text of the finding.\<close>

definition found_providers :: "'k dkim_assessment \<Rightarrow> (string \<times> string list) list" where
  "found_providers a = filter (\<lambda>(p, sels). sels \<noteq> [])
     (map (\<lambda>p. (pm_provider p, map sl_selector (filter (\<lambda>sa. sl_provider sa = pm_provider p \<and> published sa) (da_selectors a))))
       (da_providers a))"

definition guess :: "'k crypto \<Rightarrow> string \<Rightarrow> 'k dkim_assessment \<Rightarrow> ('k dkim_assessment \<times> dns_error option) dns" where
  "guess cry domain a = and_then (guess_loop cry domain (guessed_pairs (da_providers a)) [] 0 a None) (\<lambda>(a, infra).
     Ret (a\<lparr>da_findings := da_findings a
       @ [observe (if found_providers a \<noteq> [] then DKIMSelectorsGuessed else DKIMNoSelector) domain]\<rparr>, infra))"

definition assess_dkim :: "'k crypto \<Rightarrow> string \<Rightarrow> string list \<Rightarrow> provider_match list
    \<Rightarrow> ('k dkim_assessment \<times> dns_error option) dns" where
  "assess_dkim cry domain0 selectors providers = (
     let domain = trim_name domain0;
         a = \<lparr>da_providers = providers, da_selectors = [], da_findings = []\<rparr>
     in if selectors = [] then guess cry domain a else given_loop cry domain selectors [] a None)"

subsection \<open>When a key is reported as valid\<close>

definition strong_key :: "'k key_record \<Rightarrow> bool" where
  "strong_key key \<longleftrightarrow> \<not> kr_revoked key \<and> allows_email key \<and> allows_hash key ''sha256'' \<and> \<not> testing key
     \<and> (kr_key_type key = key_type_ed25519
        \<or> kr_key_type key = key_type_rsa \<and> 2048 \<le> kr_key_bits key \<and> kr_key_bits key \<le> 4096 \<and> \<not> kr_pkcs1 key)"

definition reports_key :: "rule \<Rightarrow> observation list \<Rightarrow> bool" where
  "reports_key r fs \<longleftrightarrow> list_ex (\<lambda>f. ob_rule f = r) fs"

lemma reports_key_simps [simp]:
  "\<not> reports_key r []" "reports_key r (fs @ gs) \<longleftrightarrow> reports_key r fs \<or> reports_key r gs"
  "reports_key r (observe r' s # fs) \<longleftrightarrow> r' = r \<or> reports_key r fs"
  by (auto simp: reports_key_def)

lemma reports_key_map [simp]: "r' \<noteq> r \<Longrightarrow> \<not> reports_key r (map (\<lambda>x. observe r' (g x)) xs)"
  by (simp add: reports_key_def list_ex_iff)

lemma not_pass_key: "rl_severity r \<noteq> SeverityPass \<Longrightarrow> r \<noteq> DKIMKeyValid"
  by auto

lemma key_types_distinct [simp]: "key_type_rsa \<noteq> key_type_ed25519" "key_type_ed25519 \<noteq> key_type_rsa"
  by (simp_all add: key_type_rsa_def key_type_ed25519_def)

lemma rsa_key_type: "rsa_key cry der k = Inr key \<Longrightarrow> kr_key_type key = kr_key_type k"
  by (auto simp: rsa_key_def and_try_Inr split: option.splits if_splits)

lemma parse_key_record_type:
  "parse_key_record cry s = Inr key \<Longrightarrow> kr_revoked key \<or> kr_key_type key = key_type_rsa \<or> kr_key_type key = key_type_ed25519"
proof (unfold parse_key_record_def and_try_Inr, elim exE conjE, goal_cases)
  case (1 tags x)
  then show ?case by (cases x; cases "snd x") (auto dest: rsa_key_type split: if_splits option.splits)
qed

lemma key_findings_silent: "\<not> reports_key DKIMKeyValid (key_findings name key)"
  by (simp add: key_findings_def not_pass_key)

lemma key_findings_clean:
  assumes "\<not> kr_revoked key" and "kr_key_type key = key_type_rsa \<or> kr_key_type key = key_type_ed25519"
  shows "list_all (\<lambda>f. ob_severity f \<le> SeverityInfo) (key_findings name key) \<longleftrightarrow> strong_key key"
proof -
  have unknown: "list_all (\<lambda>f. ob_severity f \<le> SeverityInfo) (map (\<lambda>t. observe DKIMKeyUnknownTag name) ts)" for ts :: "string list"
    by (induction ts) simp_all
  show ?thesis
    using assms(2)
  proof
    assume "kr_key_type key = key_type_rsa"
    then show ?thesis
      unfolding key_findings_def strong_key_def allows_hash_def list_all_append list_all_if if_not_P [OF assms(1)]
      by (simp add: unknown assms(1) not_less conj_ac)
  next
    assume "kr_key_type key = key_type_ed25519"
    then show ?thesis
      unfolding key_findings_def strong_key_def allows_hash_def list_all_append list_all_if if_not_P [OF assms(1)]
      by (simp add: unknown assms(1) conj_ac)
  qed
qed

lemma strong_not_revoked: "strong_key key \<Longrightarrow> \<not> kr_revoked key"
  by (simp add: strong_key_def)

lemma not_found_rules [simp]:
  "DKIMInvalidKey \<noteq> DKIMKeyNotFound" "DKIMKeyServiceMismatch \<noteq> DKIMKeyNotFound" "DKIMKeySHA1Only \<noteq> DKIMKeyNotFound"
  "DKIMKeyTooShort \<noteq> DKIMKeyNotFound" "DNSLookupFailed \<noteq> DKIMKeyNotFound"
  by (simp_all add: DNSLookupFailed_def DKIMInvalidKey_def DKIMKeyServiceMismatch_def DKIMKeySHA1Only_def DKIMKeyTooShort_def DKIMKeyNotFound_def)

lemma not_high_rule: "rl_severity r \<noteq> SeverityHigh \<Longrightarrow> r \<noteq> DKIMKeyNotFound"
  by auto

lemma grade_records_valid:
  assumes "grade_records cry sa0 record records = (sa, fs)"
  shows "(reports_key DKIMKeyValid fs \<longleftrightarrow> (case parse_key_record cry record of
        Inl e \<Rightarrow> False | Inr key \<Rightarrow> records = [] \<and> strong_key key))
     \<and> \<not> reports_key DKIMKeyNotFound fs \<and> sl_records sa = record # records
     \<and> sl_key sa = (case parse_key_record cry record of Inl e \<Rightarrow> sl_key sa0 | Inr key \<Rightarrow> Some key)"
proof (cases "parse_key_record cry record")
  case (Inl e)
  then show ?thesis
    using assms by (auto simp: grade_records_def Let_def not_pass_key not_high_rule split: if_splits)
next
  case (Inr key)
  have found: "\<not> reports_key DKIMKeyNotFound (key_findings (sl_name sa0) key)"
    by (simp add: key_findings_def not_high_rule)
  show ?thesis
  proof (cases "kr_revoked key")
    case True
    then show ?thesis
      using assms Inr
      by (auto simp: grade_records_def Let_def key_findings_silent not_pass_key not_high_rule found strong_not_revoked split: if_splits)
  next
    case False
    then have "list_all (\<lambda>f. ob_severity f \<le> SeverityInfo) (key_findings (sl_name sa0) key) \<longleftrightarrow> strong_key key"
      using parse_key_record_type [OF Inr] by (intro key_findings_clean) auto
    then show ?thesis
      using assms Inr False
      by (auto simp: grade_records_def Let_def observed_max_le key_findings_silent not_pass_key not_high_rule found split: if_splits)
  qed
qed

text \<open>What holds of a selector's assessment: its key is read from the first record, and graded as the report says.\<close>

definition key_of_records :: "'k crypto \<Rightarrow> string list \<Rightarrow> 'k key_record option" where
  "key_of_records cry records = (case records of [] \<Rightarrow> None
     | txt # _ \<Rightarrow> (case parse_key_record cry txt of Inl e \<Rightarrow> None | Inr key \<Rightarrow> Some key))"

definition valid_report :: "'k selector_assessment \<Rightarrow> bool" where
  "valid_report sa \<longleftrightarrow> (case sl_key sa of None \<Rightarrow> False | Some key \<Rightarrow> length (sl_records sa) = 1 \<and> strong_key key)"

definition selector_ok :: "'k crypto \<Rightarrow> string \<Rightarrow> 'k selector_assessment \<times> observation list \<times> 'e \<Rightarrow> bool" where
  "selector_ok cry provider x = (case x of (sa, fs, err) \<Rightarrow> sl_key sa = key_of_records cry (sl_records sa)
     \<and> (reports_key DKIMKeyValid fs \<longleftrightarrow> valid_report sa) \<and> (reports_key DKIMKeyNotFound fs \<longrightarrow> provider = []))"

lemma selector_answer_ok:
  assumes "sl_key sa0 = None" and "sl_records sa0 = []"
  shows "selector_ok cry provider (selector_answer cry sa0 (if provider = [] then [observe DKIMKeyNotFound name] else []) ans)"
proof (cases ans)
  case (Inl e)
  then show ?thesis
    using assms by (auto simp: selector_answer_def selector_ok_def key_of_records_def valid_report_def not_pass_key)
next
  case (Inr records)
  show ?thesis
  proof (cases records)
    case Nil
    then show ?thesis
      using assms Inr by (auto simp: selector_answer_def selector_ok_def key_of_records_def valid_report_def not_pass_key)
  next
    case (Cons r rs)
    obtain sa fs where g: "grade_records cry sa0 r rs = (sa, fs)" by fastforce
    from grade_records_valid [OF g] show ?thesis
      using assms by (simp add: selector_answer_def selector_ok_def Inr Cons g key_of_records_def valid_report_def split: sum.split)
  qed
qed

lemma assess_selector_ends:
  "ends (\<lambda>n x. n \<le> Suc j \<and> selector_ok cry provider x) (assess_selector cry domain sel provider) j"
  by (simp add: assess_selector_def Let_def selector_answer_ok)
    (auto simp: selector_ok_def key_of_records_def valid_report_def not_pass_key)

lemma guess_loop_ends:
  assumes "tried \<le> max_guessed_selectors" and "list_all (\<lambda>(p, sel). p \<noteq> []) ps"
    and "length (da_selectors a) = tried" and "\<not> reports_key DKIMKeyNotFound (da_findings a)"
  shows "ends (\<lambda>n (a', e). n + tried \<le> j + max_guessed_selectors \<and> length (da_selectors a') \<le> max_guessed_selectors
     \<and> \<not> reports_key DKIMKeyNotFound (da_findings a')) (guess_loop cry domain ps seen tried a infra) j"
  using assms
proof (induction ps arbitrary: seen tried a infra j)
  case (Cons p ps)
  obtain provider sel where p: "p = (provider, sel)" by (cases p)
  show ?case
  proof (cases "sel \<in> set seen \<or> tried = max_guessed_selectors")
    case True
    then show ?thesis using Cons.IH Cons.prems by (simp add: p)
  next
    case False
    have prov: "provider \<noteq> []" using Cons.prems(2) by (simp add: p)
    show ?thesis unfolding p guess_loop.simps if_not_P [OF False]
    proof (rule ends_bindI [OF assess_selector_ends], goal_cases)
      case (1 n x)
      obtain sa fs err where x: "x = (sa, fs, err)" by (cases x)
      have "\<not> reports_key DKIMKeyNotFound fs" using 1 prov by (simp add: x selector_ok_def)
      then show ?case unfolding x prod.case
        by (intro ends_mono [OF Cons.IH]) (use Cons.prems False 1 in \<open>auto simp: x add_selector_def\<close>)
    qed
  qed
qed simp

lemma detected_names: "list_all (\<lambda>p. pm_provider p \<noteq> []) (detect mx_hosts spf_targets)"
proof -
  have "list_all (\<lambda>p. pv_name p \<noteq> []) known_providers" by (simp add: known_providers_def)
  moreover have "list_all (\<lambda>p. pv_name p \<noteq> []) ps \<Longrightarrow> list_all (\<lambda>m. pm_provider m \<noteq> []) (List.map_filter (\<lambda>p. map_option (\<lambda>e.
     \<lparr>pm_provider = pv_name p, pm_evidence = e, pm_dkim_selectors = pv_dkim_selectors p, pm_dkim_note = pv_dkim_note p\<rparr>)
     (provider_evidence mx_hosts spf_targets p)) ps)" for ps
    by (induction ps) (auto simp: map_filter_simps split: option.split)
  ultimately show ?thesis by (simp add: detect_def)
qed

lemma guessed_pairs_named:
  "list_all (\<lambda>p. pm_provider p \<noteq> []) ps \<Longrightarrow> list_all (\<lambda>(p, sel). p \<noteq> []) (guessed_pairs ps)"
  by (auto simp: guessed_pairs_def list_all_iff)

text \<open>
  Claim C25. Whatever the DNS answers, a selector is reported to have a valid key exactly when its name has a single
  TXT record and that record parses to a strong key: not revoked, usable for e-mail, with SHA-256, not in testing
  mode, and an Ed25519 key or an RSA key of 2048 to 4096 bits in the usual encoding.
\<close>

theorem valid_key_reported_iff_strong:
  "on_every_answer (\<lambda>(sa, fs, err). sl_key sa = key_of_records cry (sl_records sa)
     \<and> (reports_key DKIMKeyValid fs \<longleftrightarrow> valid_report sa)) (assess_selector cry domain sel provider)"
  by (rule ends_mono [OF assess_selector_ends]) (auto simp: selector_ok_def)

text \<open>
  Without selectors given by the user, the audit asks for at most 16 keys, however many providers were
  detected, and a key that is missing under such a guessed selector is not reported as missing.
\<close>

theorem guessing_is_bounded:
  "ends (\<lambda>n (a, err). n \<le> 16 \<and> length (da_selectors a) \<le> 16 \<and> \<not> reports_key DKIMKeyNotFound (da_findings a))
     (assess_dkim cry domain [] (detect mx_hosts spf_targets)) 0"
proof -
  let ?a = "\<lparr>da_providers = detect mx_hosts spf_targets, da_selectors = [], da_findings = []\<rparr> :: 'a dkim_assessment"
  have "ends (\<lambda>n (a, e). n \<le> 16 \<and> length (da_selectors a) \<le> 16 \<and> \<not> reports_key DKIMKeyNotFound (da_findings a))
      (guess cry (trim_name domain) ?a) 0"
    unfolding guess_def
    by (rule ends_bindI [OF guess_loop_ends])
      (auto simp: guessed_pairs_named detected_names max_guessed_selectors_def not_high_rule)
  then show ?thesis by (simp add: assess_dkim_def Let_def)
qed

end
