(* ===== verification/Mx.thy ===== *)
theory Mx
  imports DnsBudget NetUtil FindingsCatalog
begin

section \<open>Mail exchangers of a domain (internal/mx/mx.go)\<close>

text \<open>
  The lookup of the MX records, the resolution of each host and the findings on them.  A host's error is a
  constructor instead of a text; the map \<^verbatim>\<open>seen\<close> is the list of the names met, with repetitions.
\<close>

definition max_hosts :: nat where "max_hosts = 32"

datatype host_error = NoHostError | TargetIsAddress | HostLookup dns_error | NoAddressRecords | HostNotExisting

record exchanger =
  hx_name :: string
  hx_preference :: "16 word"
  hx_cname :: string
  hx_ipv4 :: "addr list"
  hx_ipv6 :: "addr list"
  hx_error :: host_error

record mx_result =
  mr_domain :: string
  mr_hosts :: "exchanger list"
  mr_null_mx :: bool
  mr_implicit :: bool
  mr_findings :: "observation list"

definition new_host :: "string \<Rightarrow> 16 word \<Rightarrow> exchanger" where
  "new_host name pref = \<lparr>hx_name = name, hx_preference = pref, hx_cname = [], hx_ipv4 = [], hx_ipv6 = [], hx_error = NoHostError\<rparr>"

subsection \<open>Addresses\<close>

text \<open>\<^verbatim>\<open>netip.Addr.Compare\<close> compares the length, the value and the zone.\<close>

fun addr_value :: "addr \<Rightarrow> int" where
  "addr_value AddrZero = 0"
| "addr_value (Addr4 w) = uint w"
| "addr_value (Addr6 w z) = uint w"

definition addr_compare :: "addr \<Rightarrow> addr \<Rightarrow> int" where
  "addr_compare a b = cmp_or [cmp_compare (bit_len a) (bit_len b), cmp_compare (addr_value a) (addr_value b),
     cmp_compare (zone a) (zone b)]"

definition sort_addrs :: "addr list \<Rightarrow> addr list" where
  "sort_addrs as = remdups_adj (sort_stable addr_compare as)"

definition answered :: "'a list answer \<Rightarrow> 'a list" where
  "answered ans = (case ans of Inl e \<Rightarrow> [] | Inr xs \<Rightarrow> xs)"

definition error_of :: "'a answer \<Rightarrow> dns_error option" where
  "error_of ans = (case ans of Inl e \<Rightarrow> Some e | Inr _ \<Rightarrow> None)"

definition temporary :: "dns_error option \<Rightarrow> bool" where
  "temporary err = (case err of Some e \<Rightarrow> is_temporary e | None \<Rightarrow> False)"

definition nxdomain :: "dns_error option \<Rightarrow> bool" where
  "nxdomain err = (case err of Some e \<Rightarrow> is_nxdomain e | None \<Rightarrow> False)"

definition address_error :: "dns_error option \<Rightarrow> dns_error option \<Rightarrow> dns_error option" where
  "address_error err4 err6 = (if temporary err4 then err4 else if temporary err6 then err6 else if nxdomain err4 then err4 else err6)"

definition resolve_addresses :: "exchanger \<Rightarrow> (exchanger \<times> dns_error option) dns" where
  "resolve_addresses h = AskA (hx_name h) (\<lambda>v4. AskAAAA (hx_name h) (\<lambda>v6.
     Ret (h\<lparr>hx_ipv4 := sort_addrs (answered v4), hx_ipv6 := sort_addrs (answered v6)\<rparr>, address_error (error_of v4) (error_of v6))))"

subsection \<open>One host\<close>

definition addresses :: "exchanger \<Rightarrow> addr list" where
  "addresses h = hx_ipv4 h @ hx_ipv6 h"

definition set_cname :: "string answer \<Rightarrow> exchanger \<Rightarrow> exchanger \<times> observation list" where
  "set_cname ans h = (case ans of
     Inl e \<Rightarrow> (h, [])
   | Inr cname \<Rightarrow> if cname = [] then (h, []) else (h\<lparr>hx_cname := cname\<rparr>, [observe MXCNAME (hx_name h)]))"

definition grade_addresses :: "exchanger \<Rightarrow> dns_error option \<Rightarrow> exchanger \<times> observation list \<times> dns_error option" where
  "grade_addresses h err =
     (if temporary err then (h\<lparr>hx_error := HostLookup (the err)\<rparr>, [observe MXLookupInconsistent (hx_name h)], err)
      else if addresses h = [] then
        (h\<lparr>hx_error := if nxdomain err then HostNotExisting else NoAddressRecords\<rparr>, [observe MXNoAddress (hx_name h)], None)
      else (h, if list_ex is_non_public (addresses h) then [observe MXNonPublicAddress (hx_name h)] else [], None))"

definition assess_host :: "exchanger \<Rightarrow> (exchanger \<times> observation list \<times> dns_error option) dns" where
  "assess_host h = (
     if parse_addr (trim_set (hx_name h) ''[]'') \<noteq> None
     then Ret (h\<lparr>hx_error := TargetIsAddress\<rparr>, [observe MXIPLiteral (hx_name h)], None)
     else AskCNAME (hx_name h) (\<lambda>ans.
       let bad = (if is_hostname (hx_name h) then [] else [observe MXInvalidHostname (hx_name h)]);
           (h, alias) = set_cname ans h
       in and_then (resolve_addresses h) (\<lambda>(h, err).
          let (h, fs, err) = grade_addresses h err in Ret (h, bad @ alias @ fs, err))))"

subsection \<open>The assessment\<close>

definition null_record :: "mx_record \<Rightarrow> bool" where
  "null_record rec \<longleftrightarrow> mx_host rec = ''.'' \<or> mx_host rec = []"

definition mx_compare :: "mx_record \<Rightarrow> mx_record \<Rightarrow> int" where
  "mx_compare a b = cmp_or [cmp_compare (mx_pref a) (mx_pref b), cmp_compare (mx_host a) (mx_host b)]"

record mx_state =
  xs_seen :: "string list"
  xs_checked :: nat
  xs_hosts :: "exchanger list"
  xs_findings :: "observation list"
  xs_infra :: "dns_error option"

fun host_loop :: "mx_record list \<Rightarrow> mx_state \<Rightarrow> mx_state dns" where
  "host_loop [] st = Ret st"
| "host_loop (rec # recs) st =
     (if null_record rec then host_loop recs (st\<lparr>xs_hosts := xs_hosts st @ [new_host ''.'' (mx_pref rec)]\<rparr>)
      else let name = trim_name (mx_host rec); h = new_host name (mx_pref rec) in
        if name \<in> set (xs_seen st) then host_loop recs (st\<lparr>xs_seen := name # xs_seen st\<rparr>)
        else if max_hosts \<le> xs_checked st
        then host_loop recs (st\<lparr>xs_seen := name # xs_seen st, xs_hosts := xs_hosts st @ [h]\<rparr>)
        else and_then (assess_host h) (\<lambda>(h, fs, err).
          host_loop recs (st\<lparr>xs_seen := name # xs_seen st, xs_checked := xs_checked st + 1, xs_hosts := xs_hosts st @ [h],
            xs_findings := xs_findings st @ fs,
            xs_infra := (case err of Some e \<Rightarrow> if is_infrastructure e then Some e else xs_infra st | None \<Rightarrow> xs_infra st)\<rparr>)))"

definition summarize :: "mx_result \<Rightarrow> mx_result" where
  "summarize res = (
     let named = filter (\<lambda>h. hx_name h \<noteq> ''.'') (mr_hosts res);
         usable = length (filter (\<lambda>h. addresses h \<noteq> []) named);
         v6 = length (filter (\<lambda>h. hx_ipv6 h \<noteq> []) named)
     in if named = [] then res
        else if usable = 0 then
          res\<lparr>mr_findings := map (\<lambda>f. if ob_rule f = MXNoAddress then f\<lparr>ob_severity := SeverityHigh\<rparr> else f) (mr_findings res)\<rparr>
        else
          let fs = mr_findings res
              @ (if v6 = 0 then [observe MXIPv4Only (mr_domain res)] else [])
              @ (if length named = 1 then [observe MXSingleHost (mr_domain res)] else [])
          in res\<lparr>mr_findings := (if list_ex (\<lambda>f. SeverityLow \<le> ob_severity f) fs then fs
               else fs @ [observe MXValid (mr_domain res)])\<rparr>)"

definition assess_implicit :: "mx_result \<Rightarrow> (mx_result \<times> dns_error option) dns" where
  "assess_implicit res = and_then (resolve_addresses (new_host (mr_domain res) 0)) (\<lambda>(h, err). Ret (
     if temporary err then (res\<lparr>mr_findings := mr_findings res @ [observe DNSLookupFailed (mr_domain res)]\<rparr>, err)
     else if addresses h = [] then (res\<lparr>mr_findings := mr_findings res @ [observe MXNoMailHost (mr_domain res)]\<rparr>, None)
     else (res\<lparr>mr_implicit := True, mr_hosts := mr_hosts res @ [h],
             mr_findings := mr_findings res @ [observe MXNone (mr_domain res)]\<rparr>, None)))"

text \<open>The part of \<^verbatim>\<open>Assess\<close> after the records are known and sorted.\<close>

definition assess_records :: "string \<Rightarrow> mx_record list \<Rightarrow> (mx_result \<times> dns_error option) dns" where
  "assess_records domain records = (
     let null = filter null_record records;
         prefs = map (\<lambda>_. observe MXNullPreference domain) (filter (\<lambda>rec. mx_pref rec \<noteq> 0) null);
         mixed = (if null \<noteq> [] then [observe MXNullMixed domain] else [])
     in if null \<noteq> [] \<and> length null = length records then
          Ret (\<lparr>mr_domain = domain, mr_hosts = map (\<lambda>rec. new_host ''.'' (mx_pref rec)) records, mr_null_mx = True,
                mr_implicit = False, mr_findings = prefs @ [observe MXNullMX domain]\<rparr>, None)
        else and_then (host_loop records
            \<lparr>xs_seen = [], xs_checked = 0, xs_hosts = [], xs_findings = prefs @ mixed, xs_infra = None\<rparr>) (\<lambda>st.
          let many = (if max_hosts \<le> xs_checked st \<and> max_hosts < length (remdups (xs_seen st))
                then [observe MXTooMany domain] else []);
              dups = map (\<lambda>h. observe MXDuplicateHost (hx_name h))
                (filter (\<lambda>h. 1 < count_list (xs_seen st) (hx_name h)) (xs_hosts st))
          in Ret (summarize \<lparr>mr_domain = domain, mr_hosts = xs_hosts st, mr_null_mx = null \<noteq> [], mr_implicit = False,
               mr_findings = xs_findings st @ many @ dups\<rparr>, xs_infra st)))"

definition assess_mx :: "string \<Rightarrow> (mx_result \<times> dns_error option) dns" where
  "assess_mx domain0 = (
     let domain = trim_name domain0;
         res = \<lparr>mr_domain = domain, mr_hosts = [], mr_null_mx = False, mr_implicit = False, mr_findings = []\<rparr>
     in AskMX domain (\<lambda>ans. case ans of
          Inl e \<Rightarrow>
            if is_nxdomain e then Ret (res\<lparr>mr_findings := [observe MXDomainNotFound domain]\<rparr>, None)
            else Ret (res\<lparr>mr_findings := [observe DNSLookupFailed domain]\<rparr>, Some e)
        | Inr records \<Rightarrow>
            if records = [] then assess_implicit res
            else assess_records domain (sort_stable mx_compare records)))"

end
