(* ===== verification/MxProps.thy ===== *)
theory MxProps
  imports Mx
begin

section \<open>Properties of the MX assessment\<close>

text \<open>A host that is fit to receive mail.\<close>

definition sound_host :: "exchanger \<Rightarrow> bool" where
  "sound_host h \<longleftrightarrow> hx_error h = NoHostError \<and> is_hostname (hx_name h) \<and> hx_cname h = [] \<and> addresses h \<noteq> []
     \<and> list_all (\<lambda>a. \<not> is_non_public a) (addresses h)"

definition quiet :: "observation list \<Rightarrow> bool" where
  "quiet fs \<longleftrightarrow> list_all (\<lambda>f. ob_severity f \<le> SeverityInfo \<and> ob_rule f \<noteq> MXValid) fs"

definition silent :: "observation list \<Rightarrow> bool" where
  "silent fs \<longleftrightarrow> list_all (\<lambda>f. ob_rule f \<noteq> MXValid) fs"

lemma not_valid_rule: "rl_severity r \<noteq> SeverityPass \<Longrightarrow> r \<noteq> MXValid"
  by auto

lemma quiet_simps [simp]:
  "quiet []" "quiet (fs @ gs) \<longleftrightarrow> quiet fs \<and> quiet gs"
  "quiet (observe r s # fs) \<longleftrightarrow> rl_severity r \<le> SeverityInfo \<and> r \<noteq> MXValid \<and> quiet fs"
  by (auto simp: quiet_def)

lemma silent_simps [simp]:
  "silent []" "silent (fs @ gs) \<longleftrightarrow> silent fs \<and> silent gs"
  "silent (observe r s # fs) \<longleftrightarrow> r \<noteq> MXValid \<and> silent fs"
  by (auto simp: silent_def)

lemma silent_map [simp]: "r \<noteq> MXValid \<Longrightarrow> silent (map (\<lambda>x. observe r (f x)) xs)"
  by (simp add: silent_def list_all_iff)

lemma quiet_map [simp]: "\<not> rl_severity r \<le> SeverityInfo \<Longrightarrow> quiet (map (\<lambda>x. observe r (f x)) xs) \<longleftrightarrow> xs = []"
  by (cases xs) simp_all

subsection \<open>One host\<close>

lemma assess_host_ends:
  assumes "hx_error h = NoHostError" and "hx_cname h = []"
  shows "ends (\<lambda>n (h', fs, err). n \<le> j + 3 \<and> hx_name h' = hx_name h \<and> hx_preference h' = hx_preference h
     \<and> (quiet fs \<longleftrightarrow> sound_host h') \<and> silent fs) (assess_host h) j"
  using assms
  by (auto simp: assess_host_def Let_def resolve_addresses_def set_cname_def grade_addresses_def sound_host_def
      not_valid_rule list_ex_iff list_all_iff addresses_def split: sum.split)

subsection \<open>The loop over the records\<close>

definition good_state :: "mx_record list \<Rightarrow> mx_state \<Rightarrow> bool" where
  "good_state recs st \<longleftrightarrow> list_all (\<lambda>rec. \<not> null_record rec) recs
     \<and> list_all sound_host (take max_hosts (xs_hosts st))
     \<and> xs_checked st = min max_hosts (length (xs_hosts st))
     \<and> distinct (map hx_name (xs_hosts st)) \<and> set (map hx_name (xs_hosts st)) = set (xs_seen st)"

definition loop_inv :: "bool \<Rightarrow> mx_record list \<Rightarrow> mx_state \<Rightarrow> bool" where
  "loop_inv start recs st \<longleftrightarrow> silent (xs_findings st) \<and> xs_checked st \<le> max_hosts
     \<and> (quiet (xs_findings st) \<longrightarrow> start \<and> good_state recs st)
     \<and> sorted (map hx_preference (xs_hosts st) @ map mx_pref recs)"

lemma new_host_simps [simp]:
  "hx_name (new_host n p) = n" "hx_preference (new_host n p) = p" "hx_error (new_host n p) = NoHostError"
  "hx_cname (new_host n p) = []"
  by (simp_all add: new_host_def)

lemma sorted_skip: "sorted (xs @ y # ys) \<Longrightarrow> sorted (xs @ ys)"
  by (auto simp: sorted_append)

lemma sorted_move: "sorted (xs @ y # ys) \<Longrightarrow> sorted ((xs @ [y]) @ ys)"
  by simp

lemma take_sound: "list_all P (take k (xs @ [x])) \<longleftrightarrow> list_all P (take k xs) \<and> (length xs < k \<longrightarrow> P x)"
  by (cases "k - length xs") auto

text \<open>The three ways in which the state changes without a lookup keep the invariant, and so does the assessment of a host.\<close>

lemma loop_inv_null:
  "loop_inv start (rec # recs) st \<Longrightarrow> null_record rec \<Longrightarrow>
    loop_inv start recs (st\<lparr>xs_hosts := xs_hosts st @ [new_host ''.'' (mx_pref rec)]\<rparr>)"
  by (simp add: loop_inv_def good_state_def)

lemma loop_inv_seen:
  "loop_inv start (rec # recs) st \<Longrightarrow> \<not> null_record rec \<Longrightarrow> trim_name (mx_host rec) \<in> set (xs_seen st) \<Longrightarrow>
    loop_inv start recs (st\<lparr>xs_seen := trim_name (mx_host rec) # xs_seen st\<rparr>)"
  by (auto simp: loop_inv_def good_state_def insert_absorb dest: sorted_skip)

lemma loop_inv_full:
  "loop_inv start (rec # recs) st \<Longrightarrow> \<not> null_record rec \<Longrightarrow> trim_name (mx_host rec) \<notin> set (xs_seen st) \<Longrightarrow>
    max_hosts \<le> xs_checked st \<Longrightarrow>
    loop_inv start recs (st\<lparr>xs_seen := trim_name (mx_host rec) # xs_seen st,
      xs_hosts := xs_hosts st @ [new_host (trim_name (mx_host rec)) (mx_pref rec)]\<rparr>)"
  by (auto simp: loop_inv_def good_state_def take_sound)

lemma loop_inv_host:
  "loop_inv start (rec # recs) st \<Longrightarrow> \<not> null_record rec \<Longrightarrow> trim_name (mx_host rec) \<notin> set (xs_seen st) \<Longrightarrow>
    \<not> max_hosts \<le> xs_checked st \<Longrightarrow> hx_name h = trim_name (mx_host rec) \<Longrightarrow> hx_preference h = mx_pref rec \<Longrightarrow>
    (quiet fs \<longleftrightarrow> sound_host h) \<Longrightarrow> silent fs \<Longrightarrow>
    loop_inv start recs (st\<lparr>xs_seen := trim_name (mx_host rec) # xs_seen st, xs_checked := xs_checked st + 1,
      xs_hosts := xs_hosts st @ [h], xs_findings := xs_findings st @ fs, xs_infra := infra\<rparr>)"
  by (auto simp: loop_inv_def good_state_def take_sound)

lemma host_loop_ends:
  "loop_inv start recs st \<Longrightarrow> ends (\<lambda>n st'. n \<le> j + 3 * (max_hosts - xs_checked st) \<and> loop_inv start [] st') (host_loop recs st) j"
proof (induction recs arbitrary: st j)
  case Nil
  then show ?case by simp
next
  case (Cons rec recs)
  let ?name = "trim_name (mx_host rec)"
  let ?bound = "\<lambda>n st'. n \<le> j + 3 * (max_hosts - xs_checked st) \<and> loop_inv start [] st'"
  consider (null) "null_record rec" | (seen) "\<not> null_record rec" "?name \<in> set (xs_seen st)"
    | (full) "\<not> null_record rec" "?name \<notin> set (xs_seen st)" "max_hosts \<le> xs_checked st"
    | (host) "\<not> null_record rec" "?name \<notin> set (xs_seen st)" "\<not> max_hosts \<le> xs_checked st" by blast
  then show ?case
  proof cases
    case null
    then show ?thesis using Cons.IH [OF loop_inv_null [OF Cons.prems null], of j] by simp
  next
    case seen
    then show ?thesis using Cons.IH [OF loop_inv_seen [OF Cons.prems seen], of j] by simp
  next
    case full
    then show ?thesis using Cons.IH [OF loop_inv_full [OF Cons.prems full], of j] by (simp add: Let_def)
  next
    case host
    have "ends ?bound (host_loop recs (st\<lparr>xs_seen := ?name # xs_seen st, xs_checked := xs_checked st + 1,
          xs_hosts := xs_hosts st @ [h], xs_findings := xs_findings st @ fs, xs_infra := infra\<rparr>)) i"
      if "i \<le> j + 3" and "hx_name h = ?name" and "hx_preference h = mx_pref rec" and "quiet fs \<longleftrightarrow> sound_host h" and "silent fs"
      for h fs infra i
      by (rule ends_mono [OF Cons.IH [OF loop_inv_host [OF Cons.prems host that(2-5)]]])
        (use that(1) host(3) in \<open>auto simp: loop_inv_def\<close>)
    then show ?thesis
      unfolding host_loop.simps if_not_P [OF host(1)] Let_def if_not_P [OF host(2)] if_not_P [OF host(3)]
      by (intro ends_bindI [OF assess_host_ends]) auto
  qed
qed

subsection \<open>The result\<close>

definition fit_result :: "mx_result \<Rightarrow> bool" where
  "fit_result res \<longleftrightarrow> \<not> mr_null_mx res \<and> \<not> mr_implicit res \<and> mr_hosts res \<noteq> []
     \<and> list_all sound_host (take max_hosts (mr_hosts res)) \<and> distinct (map hx_name (mr_hosts res))"

definition reports_valid :: "mx_result \<Rightarrow> bool" where
  "reports_valid res \<longleftrightarrow> list_ex (\<lambda>f. ob_rule f = MXValid) (mr_findings res)"

lemma silent_reports: "silent (mr_findings res) \<Longrightarrow> \<not> reports_valid res"
  by (simp add: reports_valid_def silent_def list_ex_iff list_all_iff)

lemma summarize_reports:
  assumes "silent (mr_findings res)"
  shows "reports_valid (summarize res) \<Longrightarrow> quiet (mr_findings res) \<and> mr_hosts res \<noteq> []"
    and "mr_hosts (summarize res) = mr_hosts res" "mr_null_mx (summarize res) = mr_null_mx res"
      "mr_implicit (summarize res) = mr_implicit res"
proof -
  have sev: "\<not> SeverityLow \<le> s \<longleftrightarrow> s \<le> SeverityInfo" for s
    by (cases s) (simp_all add: less_eq_severity_def)
  show "mr_hosts (summarize res) = mr_hosts res" "mr_null_mx (summarize res) = mr_null_mx res"
      "mr_implicit (summarize res) = mr_implicit res"
    by (simp_all add: summarize_def Let_def)
  assume "reports_valid (summarize res)"
  then show "quiet (mr_findings res) \<and> mr_hosts res \<noteq> []"
    using assms unfolding summarize_def Let_def
    by (auto simp: reports_valid_def silent_def list_ex_iff list_all_iff quiet_def not_valid_rule sev
        split: if_splits)
qed

lemma host_loop_start:
  "sorted (map mx_pref records) \<Longrightarrow> start \<and> list_all (\<lambda>rec. \<not> null_record rec) records \<or> \<not> quiet fs \<Longrightarrow> silent fs
    \<Longrightarrow> loop_inv start records \<lparr>xs_seen = [], xs_checked = 0, xs_hosts = [], xs_findings = fs, xs_infra = None\<rparr>"
  by (auto simp: loop_inv_def good_state_def)

lemma null_partition: "filter null_record records = [] \<longleftrightarrow> list_all (\<lambda>rec. \<not> null_record rec) records"
  by (auto simp: filter_empty_conv list_all_iff)

lemma assess_records_ends:
  assumes "sorted (map mx_pref records)" and "records \<noteq> []"
  shows "ends (\<lambda>n (res, err). n \<le> j + 96 \<and> (reports_valid res \<longrightarrow> fit_result res)
     \<and> sorted (map hx_preference (mr_hosts res))) (assess_records domain records) j"
proof (cases "filter null_record records \<noteq> [] \<and> length (filter null_record records) = length records")
  case True
  then show ?thesis
    using assms(1) by (auto simp: assess_records_def Let_def silent_reports not_valid_rule comp_def)
next
  case False
  let ?null = "filter null_record records"
  let ?fs = "map (\<lambda>_. observe MXNullPreference domain) (filter (\<lambda>rec. mx_pref rec \<noteq> 0) ?null)
      @ (if ?null \<noteq> [] then [observe MXNullMixed domain] else [])"
  have start: "loop_inv (?null = []) records \<lparr>xs_seen = [], xs_checked = 0, xs_hosts = [], xs_findings = ?fs, xs_infra = None\<rparr>"
    using assms(1) by (intro host_loop_start) (auto simp: not_valid_rule simp flip: null_partition)
  show ?thesis
    unfolding assess_records_def Let_def if_not_P [OF False]
  proof (rule ends_bindI [OF host_loop_ends [OF start]], goal_cases)
    case (1 n st)
    let ?many = "if max_hosts \<le> xs_checked st \<and> max_hosts < length (remdups (xs_seen st)) then [observe MXTooMany domain] else []"
    let ?dups = "map (\<lambda>h. observe MXDuplicateHost (hx_name h)) (filter (\<lambda>h. 1 < count_list (xs_seen st) (hx_name h)) (xs_hosts st))"
    let ?res = "\<lparr>mr_domain = domain, mr_hosts = xs_hosts st, mr_null_mx = ?null \<noteq> [], mr_implicit = False,
      mr_findings = xs_findings st @ ?many @ ?dups\<rparr>"
    have silent: "silent (mr_findings ?res)"
      using 1 by (simp add: loop_inv_def not_valid_rule)
    have "fit_result (summarize ?res)" if "reports_valid (summarize ?res)"
      using summarize_reports(1) [OF silent that] summarize_reports(2-) [OF silent] 1
      by (auto simp: loop_inv_def good_state_def fit_result_def)
    then show ?case
      using 1 summarize_reports(2) [OF silent] by (simp add: loop_inv_def max_hosts_def)
  qed
qed

definition mx_key :: "mx_record \<Rightarrow> 16 word \<times> string" where
  "mx_key rec = (mx_pref rec, mx_host rec)"

lemma mx_compare_le: "mx_compare a b \<le> 0 \<longleftrightarrow> mx_key a \<le> mx_key b"
  unfolding mx_compare_def
  by (simp only: cmp_or_lex cmp_or_single cmp_compare_le mx_key_def less_eq_prod_def fst_conv snd_conv)

lemma sorted_records: "sorted (map mx_pref (sort_stable mx_compare records))"
proof -
  have "sorted (map mx_key (sort_key mx_key records))" by simp
  then show ?thesis
    unfolding sort_stable_sort_key [OF mx_compare_le] sorted_map
    by (rule sorted_wrt_mono_rel [rotated]) (auto simp: mx_key_def less_eq_prod_def)
qed

lemma sort_stable_Nil: "sort_stable mx_compare records = [] \<longleftrightarrow> records = []"
  unfolding sort_stable_sort_key [OF mx_compare_le] by (metis length_0_conv length_sort)

lemma assess_mx_ends:
  "ends (\<lambda>n (res, err). n \<le> 97 \<and> (reports_valid res \<longrightarrow> fit_result res)
     \<and> sorted (map hx_preference (mr_hosts res))) (assess_mx domain) 0"
proof -
  have early: "ends (\<lambda>n (res, err). n \<le> 97 \<and> (reports_valid res \<longrightarrow> fit_result res)
     \<and> sorted (map hx_preference (mr_hosts res))) (assess_implicit res) (Suc 0)" if "silent (mr_findings res)" "mr_hosts res = []" for res
    using that by (simp add: assess_implicit_def resolve_addresses_def silent_reports not_valid_rule)
  have "ends (\<lambda>n (res, err). n \<le> 97 \<and> (reports_valid res \<longrightarrow> fit_result res)
     \<and> sorted (map hx_preference (mr_hosts res))) (assess_records (trim_name domain) (sort_stable mx_compare records)) (Suc 0)"
    if "records \<noteq> []" for records
    by (rule ends_mono [OF assess_records_ends [OF sorted_records]]) (use that in \<open>auto simp: sort_stable_Nil\<close>)
  then show ?thesis
    unfolding assess_mx_def Let_def ends.simps
    by (intro allI) (simp only: split: sum.split if_split, auto simp: silent_reports not_valid_rule intro: early [simplified])
qed

text \<open>
  Claim C27. Whatever the DNS answers, the assessment reports the MX configuration as valid only when the domain
  publishes MX records without a null MX, each host once, and every host that is resolved (the first 32 at least)
  has a valid host name, is no alias and no address literal, and has addresses all of which are public; and the
  hosts of the result stand in the order of preference.
\<close>

theorem valid_mx_is_sound:
  "on_every_answer (\<lambda>(res, err). (if reports_valid res then fit_result res else True)
     \<and> sorted (map hx_preference (mr_hosts res))) (assess_mx domain)"
  by (rule ends_mono [OF assess_mx_ends]) auto

text \<open>
  The assessment asks at most 97 questions: one for the MX records and three for each of the first 32 hosts,
  however many records the domain publishes.
\<close>

theorem mx_question_bound: "asks_at_most 97 (assess_mx domain)"
  by (rule ends_mono [OF assess_mx_ends]) auto

end
