(* ===== verification/MtaSts.thy ===== *)
theory MtaSts
  imports DnsBudget NetUtil FindingsCatalog
begin

section \<open>MTA-STS (internal/mtasts)\<close>

text \<open>
  The parsers of the TXT record and of the policy file (\<^verbatim>\<open>policy.go\<close>), the fetch of the policy with its guard against
  non-public addresses (\<^verbatim>\<open>fetch.go\<close>) and the assessment (\<^verbatim>\<open>assess.go\<close>).  The network is a parameter of the fetch: how a
  connection to an address comes about, and what the exchange over a connection gives.  \<^verbatim>\<open>mime.ParseMediaType\<close> is the
  parameter \<open>media_type\<close>.  Times are in nanoseconds.
\<close>

subsection \<open>The TXT record\<close>

datatype sts_error = StsNotRecord | StsMalformed string | StsDuplicate string | StsBadId string | StsNoId

record sts_record =
  st_raw :: string
  st_id :: string
  st_extensions :: "string \<Rightarrow> string option"

definition is_sts_record :: "string \<Rightarrow> bool" where
  "is_sts_record s \<longleftrightarrow> has_prefix s ''v=STSv1;'' \<or> s = ''v=STSv1'' \<or> has_prefix s ''v=STSv1 ''"

definition alnum :: "char \<Rightarrow> bool" where
  "alnum c \<longleftrightarrow> is_lower c \<or> is_upper c \<or> is_digit c"

definition is_alnum :: "string \<Rightarrow> bool" where
  "is_alnum s \<longleftrightarrow> list_all alnum s"

definition sts_field :: "nat \<Rightarrow> string \<Rightarrow> string list \<times> sts_record \<Rightarrow> sts_error + (string list \<times> sts_record)" where
  "sts_field i part0 st = (case st of (seen, r) \<Rightarrow>
     let part = trim_set part0 wsp in
     if part = [] then Inr (seen, r)
     else let (name, val, ok) = cut part (CHR ''='') in
       if \<not> ok \<or> name = [] then Inl (StsMalformed part)
       else if name \<in> set seen then Inl (StsDuplicate name)
       else if i = 0 then Inr (name # seen, r)
       else if name = ''id'' then
         (if val = [] \<or> 32 < length val \<or> \<not> is_alnum val then Inl (StsBadId val)
          else Inr (name # seen, r\<lparr>st_id := val\<rparr>))
       else Inr (name # seen, r\<lparr>st_extensions := (st_extensions r)(name \<mapsto> val)\<rparr>))"

fun sts_fields :: "nat \<Rightarrow> string list \<Rightarrow> string list \<times> sts_record \<Rightarrow> sts_error + (string list \<times> sts_record)" where
  "sts_fields i [] st = Inr st"
| "sts_fields i (p # ps) st = (case sts_field i p st of Inl e \<Rightarrow> Inl e | Inr st \<Rightarrow> sts_fields (Suc i) ps st)"

definition parse_sts_record :: "string \<Rightarrow> sts_error + sts_record" where
  "parse_sts_record s = (
     if \<not> is_sts_record s then Inl StsNotRecord
     else case sts_fields 0 (split_byte (CHR '';'') s) ([], \<lparr>st_raw = s, st_id = [], st_extensions = Map.empty\<rparr>) of
       Inl e \<Rightarrow> Inl e
     | Inr (seen, r) \<Rightarrow> if st_id r = [] then Inl StsNoId else Inr r)"

subsection \<open>The policy file\<close>

definition mode_enforce :: string where "mode_enforce = ''enforce''"
definition mode_testing :: string where "mode_testing = ''testing''"
definition mode_none :: string where "mode_none = ''none''"

definition max_max_age :: int where "max_max_age = 31557600"

datatype policy_error = PolicyNoPair string | PolicyDuplicate string | PolicyMaxAge string | PolicyPattern string
  | PolicyVersion string | PolicyMode string | PolicyNoMaxAge | PolicyNoPattern

record sts_policy =
  po_version :: string
  po_mode :: string
  po_max_age :: int
  po_mx :: "string list"
  po_lf_only :: bool
  po_unknown_keys :: "string list"

fun replace_crlf :: "string \<Rightarrow> string" where
  "replace_crlf (a # b # s) = (if a = cr \<and> b = lf then lf # replace_crlf s else a # replace_crlf (b # s))"
| "replace_crlf s = s"

definition pattern_byte :: "char \<Rightarrow> bool" where
  "pattern_byte c \<longleftrightarrow> is_lower c \<or> is_upper c \<or> is_digit c \<or> c = CHR ''-''"

definition valid_mx_pattern :: "string \<Rightarrow> bool" where
  "valid_mx_pattern s0 = (let s = trim_prefix (trim_suffix s0 ''.'') ''*.'' in
     s \<noteq> [] \<and> \<not> contains_byte s (CHR ''*'') \<and> contains_byte s (CHR ''.'')
     \<and> list_all (\<lambda>l. l \<noteq> [] \<and> length l \<le> 63 \<and> list_all pattern_byte l) (split_byte (CHR ''.'') s))"

definition read_max_age :: "string \<Rightarrow> int option" where
  "read_max_age val = (case parse_int64 val of
     None \<Rightarrow> None
   | Some n \<Rightarrow> if n < 0 \<or> max_max_age < n \<or> 10 < length val then None else Some n)"

definition policy_line :: "string \<Rightarrow> string list \<times> sts_policy \<Rightarrow> policy_error + (string list \<times> sts_policy)" where
  "policy_line line st = (case st of (seen, p) \<Rightarrow>
     if trim_space line = [] then Inr (seen, p)
     else let (k, v, ok) = cut line (CHR '':'') in
       if \<not> ok then Inl (PolicyNoPair line)
       else let key = trim_space k; val = trim_space v in
         if key \<noteq> ''mx'' \<and> key \<in> set seen then Inl (PolicyDuplicate key)
         else let seen = key # seen in
           if key = ''version'' then Inr (seen, p\<lparr>po_version := val\<rparr>)
           else if key = ''mode'' then Inr (seen, p\<lparr>po_mode := val\<rparr>)
           else if key = ''max_age'' then
             (case read_max_age val of None \<Rightarrow> Inl (PolicyMaxAge val) | Some n \<Rightarrow> Inr (seen, p\<lparr>po_max_age := n\<rparr>))
           else if key = ''mx'' then
             (if \<not> valid_mx_pattern val then Inl (PolicyPattern val)
              else Inr (seen, p\<lparr>po_mx := po_mx p @ [to_lower (trim_suffix val ''.'')]\<rparr>))
           else Inr (seen, p\<lparr>po_unknown_keys := po_unknown_keys p @ [key]\<rparr>))"

fun policy_lines :: "string list \<Rightarrow> string list \<times> sts_policy \<Rightarrow> policy_error + (string list \<times> sts_policy)" where
  "policy_lines [] st = Inr st"
| "policy_lines (l # ls) st = (case policy_line l st of Inl e \<Rightarrow> Inl e | Inr st \<Rightarrow> policy_lines ls st)"

definition check_policy :: "sts_policy \<Rightarrow> policy_error option" where
  "check_policy p = (
     if po_version p \<noteq> ''STSv1'' then Some (PolicyVersion (po_version p))
     else if po_mode p \<noteq> mode_enforce \<and> po_mode p \<noteq> mode_testing \<and> po_mode p \<noteq> mode_none then Some (PolicyMode (po_mode p))
     else if po_max_age p < 0 then Some PolicyNoMaxAge
     else if po_mx p = [] \<and> po_mode p \<noteq> mode_none then Some PolicyNoPattern
     else None)"

definition parse_sts_policy :: "string \<Rightarrow> policy_error + sts_policy" where
  "parse_sts_policy body = (
     let p = \<lparr>po_version = [], po_mode = [], po_max_age = -1, po_mx = [],
              po_lf_only = contains_byte body lf \<and> index_sub body crlf = None, po_unknown_keys = []\<rparr>
     in case policy_lines (split_byte lf (replace_crlf body)) ([], p) of
          Inl e \<Rightarrow> Inl e
        | Inr (seen, p) \<Rightarrow> (case check_policy p of Some e \<Rightarrow> Inl e | None \<Rightarrow> Inr p))"

definition matches :: "string \<Rightarrow> string \<Rightarrow> bool" where
  "matches pattern0 host0 = (
     let host = to_lower (trim_suffix host0 ''.''); pattern = to_lower (trim_suffix pattern0 ''.'')
     in if has_prefix pattern ''*.'' then
          (let (label, rest, found) = cut host (CHR ''.'') in found \<and> label \<noteq> [] \<and> rest = trim_prefix pattern ''*.'')
        else host = pattern)"

definition covers :: "sts_policy \<Rightarrow> string \<Rightarrow> bool" where
  "covers p host \<longleftrightarrow> list_ex (\<lambda>pat. matches pat host) (po_mx p)"

subsection \<open>The fetch of the policy\<close>

definition max_policy_size :: nat where "max_policy_size = 65536"

record certificate =
  ct_subject :: string
  ct_issuer :: string
  ct_dns_names :: "string list"
  ct_not_after :: int

record sts_response =
  rs_url :: string
  rs_status :: int
  rs_content_type :: string
  rs_body :: string
  rs_certificate :: "certificate option"

datatype fetch_kind = FetchNetwork | FetchCertificate | FetchRedirect | FetchStatus | FetchTooLarge
  | FetchForbiddenAddress | FetchDNS

text \<open>The wrapped cause matters only for the kind \<open>FetchDNS\<close>.\<close>

datatype fetch_error = FetchError (fe_kind: fetch_kind) (fe_cause: "dns_error option")

text \<open>The result of a fetch: an error, with the response as far as it came about, or a response.\<close>

type_synonym fetched = "(fetch_error \<times> sts_response option) + sts_response"

type_synonym sts_fetcher = "string \<Rightarrow> fetched dns"

definition policy_url :: "string \<Rightarrow> string" where
  "policy_url domain = ''https://mta-sts.'' @ trim_suffix domain ''.'' @ ''/.well-known/mta-sts.txt''"

definition lookup_failure :: "string \<Rightarrow> addr list answer \<Rightarrow> addr list answer \<Rightarrow> dns_error" where
  "lookup_failure host v4 v6 = (case v4 of Inl e \<Rightarrow> e | Inr _ \<Rightarrow>
     (case v6 of Inl e \<Rightarrow> e | Inr _ \<Rightarrow> OtherError (host @ '' has no A or AAAA records'')))"

definition addrs_of :: "addr list answer \<Rightarrow> addr list" where
  "addrs_of ans = (case ans of Inl e \<Rightarrow> [] | Inr as \<Rightarrow> as)"

definition choose_addrs :: "bool \<Rightarrow> string \<Rightarrow> addr list answer \<Rightarrow> addr list answer \<Rightarrow> fetch_error + addr list" where
  "choose_addrs allow_non_public host v4 v6 = (
     let addrs = addrs_of v4 @ addrs_of v6; public = filter (\<lambda>a. \<not> is_non_public a) addrs in
     if addrs = [] then Inl (FetchError FetchDNS (Some (lookup_failure host v4 v6)))
     else if allow_non_public then Inr addrs
     else if public = [] then Inl (FetchError FetchForbiddenAddress None)
     else Inr public)"

definition resolve_host :: "bool \<Rightarrow> string \<Rightarrow> (fetch_error + addr list) dns" where
  "resolve_host allow_non_public host =
     AskA host (\<lambda>v4. AskAAAA host (\<lambda>v6. Ret (choose_addrs allow_non_public host v4 v6)))"

text \<open>
  What the network does: \<open>nw_connect\<close> opens a connection to an address, or fails; \<open>nw_exchange\<close> is the TLS handshake
  and the request for the URL over a connection.  It fails, with the certificate of the server where that was the reason,
  or gives a reply; \<open>ry_body\<close> is what the body's reader delivers and \<open>ry_broken\<close> says that it ends with an error.
\<close>

record reply =
  ry_status :: int
  ry_content_type :: string
  ry_certificate :: "certificate option"
  ry_body :: string
  ry_broken :: bool

datatype exchange_failure = BadCertificate "certificate option" | BrokenConnection

record 'c network =
  nw_connect :: "addr \<Rightarrow> 'c option"
  nw_exchange :: "'c \<Rightarrow> string \<Rightarrow> exchange_failure + reply"

fun dial :: "'c network \<Rightarrow> addr list \<Rightarrow> 'c option" where
  "dial net [] = None"
| "dial net (a # as) = (case nw_connect net a of Some c \<Rightarrow> Some c | None \<Rightarrow> dial net as)"

definition read_reply :: "sts_response \<Rightarrow> reply \<Rightarrow> fetched" where
  "read_reply resp0 r = (
     let resp = resp0\<lparr>rs_certificate := ry_certificate r, rs_status := ry_status r, rs_content_type := ry_content_type r\<rparr>
     in if 300 \<le> ry_status r \<and> ry_status r < 400 then Inl (FetchError FetchRedirect None, Some resp)
        else if ry_status r \<noteq> 200 then Inl (FetchError FetchStatus None, Some resp)
        else if length (ry_body r) \<le> max_policy_size \<and> ry_broken r then Inl (FetchError FetchNetwork None, Some resp)
        else if max_policy_size < length (ry_body r) then Inl (FetchError FetchTooLarge None, Some resp)
        else Inr (resp\<lparr>rs_body := ry_body r\<rparr>))"

definition http_fetch :: "'c network \<Rightarrow> bool \<Rightarrow> sts_fetcher" where
  "http_fetch net allow_non_public domain = (
     let resp = \<lparr>rs_url = policy_url domain, rs_status = 0, rs_content_type = [], rs_body = [], rs_certificate = None\<rparr>
     in and_then (resolve_host allow_non_public (''mta-sts.'' @ trim_name domain)) (\<lambda>addrs. Ret (case addrs of
          Inl e \<Rightarrow> Inl (e, Some resp)
        | Inr as \<Rightarrow> (case dial net as of
            None \<Rightarrow> Inl (FetchError FetchNetwork None, Some resp)
          | Some c \<Rightarrow> (case nw_exchange net c (rs_url resp) of
              Inl (BadCertificate ct) \<Rightarrow> Inl (FetchError FetchCertificate None, Some (resp\<lparr>rs_certificate := ct\<rparr>))
            | Inl BrokenConnection \<Rightarrow> Inl (FetchError FetchNetwork None, Some resp)
            | Inr r \<Rightarrow> read_reply resp r)))))"

definition is_text_plain :: "(string \<Rightarrow> string option) \<Rightarrow> string \<Rightarrow> bool" where
  "is_text_plain media_type ct \<longleftrightarrow> media_type ct = Some ''text/plain''"

subsection \<open>The assessment\<close>

datatype sts_failure = NoStsError | RecordError sts_error | FetchFailure fetch_error | PolicyFailure policy_error

record sts_assessment =
  sa_domain :: string
  sa_records :: "string list"
  sa_record :: "sts_record option"
  sa_response :: "sts_response option"
  sa_policy :: "sts_policy option"
  sa_error :: sts_failure
  sa_findings :: "observation list"

definition sts_found :: "observation list \<Rightarrow> sts_assessment \<Rightarrow> sts_assessment" where
  "sts_found fs a = a\<lparr>sa_findings := sa_findings a @ fs\<rparr>"

definition expiring :: "int \<Rightarrow> sts_response option \<Rightarrow> bool" where
  "expiring now resp = (case resp of None \<Rightarrow> False | Some r \<Rightarrow> (case rs_certificate r of
     None \<Rightarrow> False
   | Some c \<Rightarrow> let left = ct_not_after c - now in 0 < left \<and> left < 14 * 24 * 3600 * 1000000000))"

definition fetch_failed :: "string \<Rightarrow> fetch_error \<Rightarrow> sts_assessment \<Rightarrow> sts_assessment \<times> dns_error option" where
  "fetch_failed domain e a0 = (
     let a = a0\<lparr>sa_error := FetchFailure e\<rparr>; url = policy_url domain; host = ''mta-sts.'' @ domain in
     case fe_kind e of
       FetchDNS \<Rightarrow> (case fe_cause e of
           Some err \<Rightarrow> if is_infrastructure err then (sts_found [observe DNSLookupFailed host] a, Some err)
                        else (sts_found [observe MTASTSFetchFailed url] a, None)
         | None \<Rightarrow> (sts_found [observe MTASTSFetchFailed url] a, None))
     | FetchCertificate \<Rightarrow> (sts_found [observe MTASTSCertificate host] a, None)
     | FetchRedirect \<Rightarrow> (sts_found [observe MTASTSRedirect url] a, None)
     | FetchTooLarge \<Rightarrow> (sts_found [observe MTASTSPolicyTooLarge url] a, None)
     | _ \<Rightarrow> (sts_found [observe MTASTSFetchFailed url] a, None))"

definition uncovered :: "sts_policy \<Rightarrow> string list \<Rightarrow> string list" where
  "uncovered pol hosts = filter (\<lambda>h. h \<noteq> ''.'' \<and> h \<noteq> [] \<and> \<not> covers pol h) hosts"

text \<open>The findings on a policy that parsed, in the order of the code.\<close>

definition grade_policy :: "string \<Rightarrow> string list \<Rightarrow> sts_policy \<Rightarrow> string \<Rightarrow> observation list" where
  "grade_policy domain hosts pol url =
     (if po_lf_only pol then [observe MTASTSLineEndings url] else [])
     @ (if po_mode pol = mode_testing then [observe MTASTSTesting domain]
        else if po_mode pol = mode_none then [observe MTASTSModeNone domain] else [])
     @ (if po_max_age pol < 86400 \<and> po_mode pol \<noteq> mode_none then [observe MTASTSShortMaxAge domain] else [])
     @ (if uncovered pol hosts \<noteq> [] \<and> po_mode pol \<noteq> mode_none
        then [if po_mode pol = mode_testing then observe_at SeverityMedium MTASTSMXMismatch domain
              else observe MTASTSMXMismatch domain] else [])"

definition assess_response :: "(string \<Rightarrow> string option) \<Rightarrow> string \<Rightarrow> string list \<Rightarrow> sts_response \<Rightarrow> sts_assessment
    \<Rightarrow> sts_assessment" where
  "assess_response media_type domain hosts resp a0 = (
     let a = (if is_text_plain media_type (rs_content_type resp) then a0
              else sts_found [observe MTASTSContentType (rs_url resp)] a0)
     in case parse_sts_policy (rs_body resp) of
          Inl e \<Rightarrow> sts_found [observe MTASTSInvalidPolicy (rs_url resp)] (a\<lparr>sa_error := PolicyFailure e\<rparr>)
        | Inr pol \<Rightarrow>
            let a = sts_found (grade_policy domain hosts pol (rs_url resp)) (a\<lparr>sa_policy := Some pol\<rparr>)
            in if observed_max (sa_findings a) \<le> SeverityInfo \<and> po_mode pol = mode_enforce
               then sts_found [observe MTASTSValid domain] a else a)"

text \<open>No record: an orphaned policy is looked for when the policy host has an address.\<close>

definition assess_orphan :: "sts_fetcher option \<Rightarrow> string \<Rightarrow> sts_assessment \<Rightarrow> (sts_assessment \<times> dns_error option) dns" where
  "assess_orphan fetcher domain a = (
     let host = ''mta-sts.'' @ domain; missing = (sts_found [observe MTASTSMissing domain] a, None)
     in AskA host (\<lambda>v4. AskAAAA host (\<lambda>v6.
          case fetcher of
            None \<Rightarrow> Ret missing
          | Some fetch \<Rightarrow>
              if addrs_of v4 @ addrs_of v6 = [] then Ret missing
              else and_then (fetch domain) (\<lambda>res. Ret (case res of
                Inl _ \<Rightarrow> missing
              | Inr resp \<Rightarrow>
                  if rs_status resp = 200
                  then (sts_found [observe MTASTSPolicyWithoutRecord domain] (a\<lparr>sa_response := Some resp\<rparr>), None)
                  else missing)))))"

definition assess_fetched :: "(string \<Rightarrow> string option) \<Rightarrow> int \<Rightarrow> string \<Rightarrow> string list \<Rightarrow> sts_assessment \<Rightarrow> fetched
    \<Rightarrow> sts_assessment \<times> dns_error option" where
  "assess_fetched media_type now domain hosts a0 res = (
     let resp = (case res of Inl (e, r) \<Rightarrow> r | Inr r \<Rightarrow> Some r);
         a1 = a0\<lparr>sa_response := resp\<rparr>;
         a = (if expiring now resp then sts_found [observe MTASTSCertExpiring (''mta-sts.'' @ domain)] a1 else a1)
     in case res of
          Inl (e, r) \<Rightarrow> fetch_failed domain e a
        | Inr r \<Rightarrow> (assess_response media_type domain hosts r a, None))"

definition assess_mtasts :: "sts_fetcher option \<Rightarrow> (string \<Rightarrow> string option) \<Rightarrow> int \<Rightarrow> string list \<Rightarrow> string
    \<Rightarrow> (sts_assessment \<times> dns_error option) dns" where
  "assess_mtasts fetcher media_type now hosts domain0 = (
     let domain = trim_name domain0; name = ''_mta-sts.'' @ domain;
         a0 = \<lparr>sa_domain = domain, sa_records = [], sa_record = None, sa_response = None, sa_policy = None,
               sa_error = NoStsError, sa_findings = []\<rparr>
     in AskTXT name (\<lambda>ans.
       if (case ans of Inl e \<Rightarrow> \<not> is_nxdomain e | Inr _ \<Rightarrow> False)
       then Ret (sts_found [observe DNSLookupFailed name] a0, case ans of Inl e \<Rightarrow> Some e | Inr _ \<Rightarrow> None)
       else
         let records = filter is_sts_record (case ans of Inl e \<Rightarrow> [] | Inr txts \<Rightarrow> txts); a = a0\<lparr>sa_records := records\<rparr>
         in case records of
              [] \<Rightarrow> assess_orphan fetcher domain a
            | r # rs \<Rightarrow>
                if rs \<noteq> [] then Ret (sts_found [observe MTASTSInvalidRecord name] a, None)
                else (case parse_sts_record r of
                  Inl e \<Rightarrow> Ret (sts_found [observe MTASTSInvalidRecord name] (a\<lparr>sa_error := RecordError e\<rparr>), None)
                | Inr rec \<Rightarrow>
                    let a = a\<lparr>sa_record := Some rec\<rparr> in
                    case fetcher of
                      None \<Rightarrow> Ret (a, None)
                    | Some fetch \<Rightarrow> and_then (fetch domain) (\<lambda>res.
                        Ret (assess_fetched media_type now domain hosts a res)))))"

end
