(* ===== verification/MtaStsProps.thy ===== *)
theory MtaStsProps
  imports MtaSts
begin

section \<open>Properties of MTA-STS\<close>

subsection \<open>Matching of host names\<close>

definition norm_host :: "string \<Rightarrow> string" where
  "norm_host s = to_lower (trim_suffix s ''.'')"

lemma matches_iff: "matches pat host \<longleftrightarrow> (if has_prefix (norm_host pat) ''*.''
    then \<exists>label. label \<noteq> [] \<and> CHR ''.'' \<notin> set label \<and> norm_host host = label @ ''.'' @ drop 2 (norm_host pat)
    else norm_host host = norm_host pat)"
proof (cases "has_prefix (norm_host pat) ''*.''")
  case True
  then have t: "trim_prefix (norm_host pat) ''*.'' = drop 2 (norm_host pat)" by (simp add: trim_prefix_def numeral_2_eq_2)
  obtain a b f where c: "cut (norm_host host) (CHR ''.'') = (a, b, f)" by (cases "cut (norm_host host) (CHR ''.'')") auto
  have "(f \<and> a \<noteq> [] \<and> b = drop 2 (norm_host pat)) \<longleftrightarrow>
      (\<exists>label. label \<noteq> [] \<and> CHR ''.'' \<notin> set label \<and> norm_host host = label @ ''.'' @ drop 2 (norm_host pat))"
  proof
    assume "f \<and> a \<noteq> [] \<and> b = drop 2 (norm_host pat)"
    then show "\<exists>label. label \<noteq> [] \<and> CHR ''.'' \<notin> set label \<and> norm_host host = label @ ''.'' @ drop 2 (norm_host pat)"
      using cut_True [of "norm_host host" "CHR ''.''" a b] c by auto
  next
    assume "\<exists>label. label \<noteq> [] \<and> CHR ''.'' \<notin> set label \<and> norm_host host = label @ ''.'' @ drop 2 (norm_host pat)"
    then obtain label where l: "label \<noteq> []" "CHR ''.'' \<notin> set label" "norm_host host = label @ CHR ''.'' # drop 2 (norm_host pat)"
      by auto
    then show "f \<and> a \<noteq> [] \<and> b = drop 2 (norm_host pat)"
      using cut_found [OF l(2), of "drop 2 (norm_host pat)"] c by simp
  qed
  then show ?thesis using True c by (simp add: matches_def norm_host_def [symmetric] t)
qed (simp add: matches_def norm_host_def)

text \<open>
  A pattern with the prefix \<^verbatim>\<open>*.\<close> matches a host exactly when the host has one more label, which is not
  empty, in front of the rest of the pattern; any other pattern matches the same host only.  Case and a final dot
  do not matter.
\<close>

theorem wildcard_matches_one_label:
  "matches pat host \<longleftrightarrow> (if has_prefix (norm_host pat) ''*.''
    then \<exists>label. label \<noteq> [] \<and> CHR ''.'' \<notin> set label \<and> norm_host host = label @ ''.'' @ drop 2 (norm_host pat)
    else norm_host host = norm_host pat)"
  by (rule matches_iff)

subsection \<open>Records and policies that parse\<close>

definition host_byte :: "char \<Rightarrow> bool" where
  "host_byte c \<longleftrightarrow> is_lower c \<or> is_digit c \<or> c = CHR ''-''"

definition pattern_ok :: "string \<Rightarrow> bool" where
  "pattern_ok q \<longleftrightarrow> (let s = trim_prefix q ''*.'' in contains_byte s (CHR ''.'')
     \<and> list_all (\<lambda>l. l \<noteq> [] \<and> length l \<le> 63 \<and> list_all host_byte l) (split_byte (CHR ''.'') s))"

definition policy_ok :: "sts_policy \<Rightarrow> bool" where
  "policy_ok p \<longleftrightarrow> po_version p = ''STSv1'' \<and> (po_mode p = mode_enforce \<or> po_mode p = mode_testing \<or> po_mode p = mode_none)
     \<and> 0 \<le> po_max_age p \<and> po_max_age p \<le> max_max_age \<and> (po_mx p = [] \<longrightarrow> po_mode p = mode_none)
     \<and> list_all pattern_ok (po_mx p)"

lemma lower_byte_eq:
  assumes "\<not> is_upper d" "\<not> is_lower d"
  shows "lower_byte c = d \<longleftrightarrow> c = d"
proof (cases "is_upper c")
  case True
  then have "is_lower (lower_byte c)"
    by (auto simp: lower_byte_def is_upper_def is_lower_def)
  then show ?thesis using assms True by auto
qed (simp add: lower_byte_def)

lemma lower_byte_dot [simp]: "lower_byte c = CHR ''.'' \<longleftrightarrow> c = CHR ''.''" "lower_byte c = CHR ''*'' \<longleftrightarrow> c = CHR ''*''"
  by (rule lower_byte_eq; simp add: is_upper_def is_lower_def)+

lemma trim_prefix_to_lower: "trim_prefix (to_lower s) ''*.'' = to_lower (trim_prefix s ''*.'')"
proof -
  have "has_prefix (to_lower s) ''*.'' \<longleftrightarrow> has_prefix s ''*.''"
  proof (cases s)
    case (Cons a t)
    then show ?thesis by (cases t) (auto simp: has_prefix_def to_lower_def)
  qed simp
  then show ?thesis by (simp add: trim_prefix_def to_lower_def drop_map)
qed

lemma host_byte_lower: "pattern_byte c \<Longrightarrow> host_byte (lower_byte c)"
  by (auto simp: pattern_byte_def host_byte_def lower_byte_def is_upper_def is_lower_def is_digit_def)

lemma dot_to_lower: "contains_byte (to_lower s) (CHR ''.'') = contains_byte s (CHR ''.'')"
  by (induction s) (simp_all add: contains_byte_def to_lower_def eq_commute [of "CHR ''.''"])

lemma label_to_lower: "list_all pattern_byte l \<Longrightarrow> list_all host_byte (to_lower l)"
  by (induction l) (simp_all add: to_lower_def host_byte_lower)

lemma valid_pattern_ok: "valid_mx_pattern s \<Longrightarrow> pattern_ok (to_lower (trim_suffix s ''.''))"
  unfolding valid_mx_pattern_def pattern_ok_def Let_def trim_prefix_to_lower split_to_lower dot_to_lower list.pred_map comp_def
  by (auto elim!: list.pred_mono_strong intro: label_to_lower)

lemma policy_line_keeps:
  "policy_line l (seen, p) = Inr (seen', p') \<Longrightarrow> list_all pattern_ok (po_mx p) \<Longrightarrow> po_max_age p \<le> max_max_age
    \<Longrightarrow> list_all pattern_ok (po_mx p') \<and> po_max_age p' \<le> max_max_age"
  by (auto simp: policy_line_def Let_def case_prod_unfold read_max_age_def valid_pattern_ok split: if_splits option.splits)

lemma policy_lines_keep:
  "policy_lines ls (seen, p) = Inr (seen', p') \<Longrightarrow> list_all pattern_ok (po_mx p) \<Longrightarrow> po_max_age p \<le> max_max_age
    \<Longrightarrow> list_all pattern_ok (po_mx p') \<and> po_max_age p' \<le> max_max_age"
proof (induction ls arbitrary: seen p)
  case (Cons l ls)
  then obtain seen1 p1 where s: "policy_line l (seen, p) = Inr (seen1, p1)" "policy_lines ls (seen1, p1) = Inr (seen', p')"
    by (auto split: sum.splits)
  from Cons.IH [OF s(2)] policy_line_keeps [OF s(1)] Cons.prems(2,3) show ?case by blast
qed simp

lemma parse_sts_policy_ok: "parse_sts_policy body = Inr p \<Longrightarrow> policy_ok p"
proof -
  assume a: "parse_sts_policy body = Inr p"
  let ?p = "\<lparr>po_version = [], po_mode = [], po_max_age = -1, po_mx = [],
              po_lf_only = contains_byte body lf \<and> index_sub body crlf = None, po_unknown_keys = []\<rparr>"
  from a obtain seen where l: "policy_lines (split_byte lf (replace_crlf body)) ([], ?p) = Inr (seen, p)"
    and c: "check_policy p = None"
    by (auto simp: parse_sts_policy_def Let_def split: sum.splits option.splits)
  from policy_lines_keep [OF l] c show ?thesis
    by (auto simp: policy_ok_def check_policy_def max_max_age_def split: if_splits)
qed

lemma sts_field_id:
  "sts_field i s (seen, r) = Inr (seen', r') \<Longrightarrow> length (st_id r) \<le> 32 \<Longrightarrow> is_alnum (st_id r)
    \<Longrightarrow> length (st_id r') \<le> 32 \<and> is_alnum (st_id r')"
  by (auto simp: sts_field_def Let_def case_prod_unfold split: if_splits)

lemma sts_fields_id:
  "sts_fields i ps (seen, r) = Inr (seen', r') \<Longrightarrow> length (st_id r) \<le> 32 \<Longrightarrow> is_alnum (st_id r)
    \<Longrightarrow> length (st_id r') \<le> 32 \<and> is_alnum (st_id r')"
proof (induction ps arbitrary: i seen r)
  case (Cons p ps)
  then obtain seen1 r1 where s: "sts_field i p (seen, r) = Inr (seen1, r1)" "sts_fields (Suc i) ps (seen1, r1) = Inr (seen', r')"
    by (auto split: sum.splits)
  from Cons.IH [OF s(2)] sts_field_id [OF s(1)] Cons.prems(2,3) show ?case by blast
qed simp

definition sts_record_ok :: "sts_record \<Rightarrow> bool" where
  "sts_record_ok r \<longleftrightarrow> st_id r \<noteq> [] \<and> length (st_id r) \<le> 32 \<and> is_alnum (st_id r)"

lemma parse_sts_record_ok: "parse_sts_record s = Inr r \<Longrightarrow> sts_record_ok r"
  by (auto simp: parse_sts_record_def sts_record_ok_def is_alnum_def split: if_splits sum.splits dest!: sts_fields_id)

text \<open>
  Every policy that parses is complete and in range: version STSv1, one of the three modes, a maximal age
  between 0 and one year, at least one pattern unless the mode is none, and every pattern in lower case with two or
  more labels of letters, digits and hyphens, possibly behind a single \<^verbatim>\<open>*.\<close>; and every record that parses has an
  identifier of 1 to 32 letters and digits.
\<close>

theorem parsed_policy_well_formed:
  "(case parse_sts_policy body of Inl e \<Rightarrow> True | Inr p \<Rightarrow> policy_ok p)
   \<and> (case parse_sts_record s of Inl e \<Rightarrow> True | Inr r \<Rightarrow> sts_record_ok r)"
  by (simp add: parse_sts_policy_ok parse_sts_record_ok split: sum.split)

subsection \<open>The fetch\<close>

text \<open>A network without the addresses that are not public.\<close>

definition public_part :: "'c network \<Rightarrow> 'c network" where
  "public_part net = net\<lparr>nw_connect := \<lambda>a. if is_non_public a then None else nw_connect net a\<rparr>"

lemma dial_public: "list_all (\<lambda>a. \<not> is_non_public a) as \<Longrightarrow> dial (public_part net) as = dial net as"
  by (induction as) (simp_all add: public_part_def split: option.split)

lemma choose_public: "choose_addrs False host v4 v6 = Inr as \<Longrightarrow> list_all (\<lambda>a. \<not> is_non_public a) as"
  by (auto simp: choose_addrs_def Let_def list_all_iff split: if_splits)

lemma http_fetch_public: "http_fetch (public_part net) False domain = http_fetch net False domain"
proof -
  have "dial (public_part net) as = dial net as" if "choose_addrs False host v4 v6 = Inr as" for host v4 v6 as
    using that by (intro dial_public choose_public)
  moreover have "nw_exchange (public_part net) = nw_exchange net" by (simp add: public_part_def)
  ultimately show ?thesis
    by (auto simp: http_fetch_def Let_def resolve_host_def fun_eq_iff split: sum.split option.split)
qed

lemma read_reply_size: "read_reply resp r = Inr resp' \<Longrightarrow> length (rs_body resp') \<le> max_policy_size \<and> rs_status resp' = 200"
  by (auto simp: read_reply_def Let_def split: if_splits)

text \<open>
  Claim C7. The fetch of a policy does not reach into internal networks: whatever addresses the DNS gives for the
  policy host, the result is the same as in a network where the addresses that are not public cannot be connected to.
  A policy comes from an answer with status 200 and has at most 64 KiB.
\<close>

theorem fetch_stays_public:
  "http_fetch net False domain = http_fetch (public_part net) False domain
   \<and> on_every_answer (\<lambda>res. case res of Inl e \<Rightarrow> True | Inr r \<Rightarrow> rs_status r = 200 \<and> length (rs_body r) \<le> 65536)
       (http_fetch net False domain)"
  unfolding http_fetch_public
  by (auto simp: http_fetch_def Let_def resolve_host_def max_policy_size_def
      split: sum.split option.split exchange_failure.split dest: read_reply_size)

subsection \<open>The assessment\<close>

definition reports_sts :: "rule \<Rightarrow> observation list \<Rightarrow> bool" where
  "reports_sts r fs \<longleftrightarrow> list_ex (\<lambda>f. ob_rule f = r) fs"

lemma reports_sts_simps [simp]:
  "\<not> reports_sts r []" "reports_sts r (fs @ gs) \<longleftrightarrow> reports_sts r fs \<or> reports_sts r gs"
  "reports_sts r (observe r' s # fs) \<longleftrightarrow> r' = r \<or> reports_sts r fs"
  "reports_sts r (observe_at v r' s # fs) \<longleftrightarrow> r' = r \<or> reports_sts r fs"
  by (auto simp: reports_sts_def)

lemma not_pass_sts: "rl_severity r \<noteq> SeverityPass \<Longrightarrow> r \<noteq> MTASTSValid"
  by auto

lemma sts_found_simps [simp]:
  "sa_findings (sts_found fs a) = sa_findings a @ fs" "sa_policy (sts_found fs a) = sa_policy a"
  "sa_response (sts_found fs a) = sa_response a" "sa_domain (sts_found fs a) = sa_domain a"
  by (simp_all add: sts_found_def)

text \<open>A policy that protects the hosts now: it is enforced, lasts a day, covers them all, and is served as it should.\<close>

definition protects :: "(string \<Rightarrow> string option) \<Rightarrow> int \<Rightarrow> string list \<Rightarrow> sts_assessment \<Rightarrow> bool" where
  "protects media_type now hosts a \<longleftrightarrow> (case (sa_response a, sa_policy a) of
     (Some resp, Some pol) \<Rightarrow> parse_sts_policy (rs_body resp) = Inr pol \<and> po_mode pol = mode_enforce
       \<and> 86400 \<le> po_max_age pol \<and> uncovered pol hosts = [] \<and> is_text_plain media_type (rs_content_type resp)
       \<and> \<not> expiring now (Some resp)
   | _ \<Rightarrow> False)"

lemma protects_no_policy [simp]: "sa_policy a = None \<Longrightarrow> \<not> protects media_type now hosts a"
  by (simp add: protects_def split: option.split)

lemma modes_distinct [simp]:
  "mode_enforce \<noteq> mode_testing" "mode_enforce \<noteq> mode_none" "mode_testing \<noteq> mode_enforce" "mode_none \<noteq> mode_enforce"
  "mode_testing \<noteq> mode_none" "mode_none \<noteq> mode_testing"
  by (simp_all add: mode_enforce_def mode_testing_def mode_none_def)

lemma grade_policy_silent: "\<not> reports_sts MTASTSValid (grade_policy domain hosts pol url)"
  by (simp add: grade_policy_def not_pass_sts)

lemma grade_policy_clean:
  "po_mode pol = mode_enforce \<Longrightarrow> list_all (\<lambda>f. ob_severity f \<le> SeverityInfo) (grade_policy domain hosts pol url)
     \<longleftrightarrow> 86400 \<le> po_max_age pol \<and> uncovered pol hosts = []"
  unfolding grade_policy_def list_all_append list_all_if by (simp add: not_less)

lemma fetch_failed_silent:
  "\<not> reports_sts MTASTSValid (sa_findings a) \<Longrightarrow> \<not> reports_sts MTASTSValid (sa_findings (fst (fetch_failed domain e a)))
    \<and> sa_policy (fst (fetch_failed domain e a)) = sa_policy a"
  by (simp add: fetch_failed_def Let_def not_pass_sts split: fetch_kind.split option.split)

lemma assess_response_valid:
  assumes "sa_findings a0 = (if expiring now (Some resp) then [observe MTASTSCertExpiring subject] else [])"
    and "sa_response a0 = Some resp" and "sa_policy a0 = None"
  shows "reports_sts MTASTSValid (sa_findings (assess_response media_type domain hosts resp a0))
    \<longleftrightarrow> protects media_type now hosts (assess_response media_type domain hosts resp a0)"
proof (cases "parse_sts_policy (rs_body resp)")
  case (Inl e)
  then show ?thesis
    using assms by (simp add: assess_response_def Let_def protects_def not_pass_sts)
next
  case (Inr pol)
  show ?thesis
  proof (cases "po_mode pol = mode_enforce")
    case False
    then show ?thesis
      using assms Inr by (simp add: assess_response_def Let_def protects_def not_pass_sts grade_policy_silent)
  next
    case True
    then show ?thesis
      using assms Inr
      by (simp add: assess_response_def Let_def protects_def not_pass_sts grade_policy_silent grade_policy_clean observed_max_le)
  qed
qed

lemma assess_fetched_valid:
  assumes "sa_findings a0 = []" and "sa_policy a0 = None"
  shows "case assess_fetched media_type now domain hosts a0 res of (a, err) \<Rightarrow>
    reports_sts MTASTSValid (sa_findings a) \<longleftrightarrow> protects media_type now hosts a"
proof (cases res)
  case (Inl x)
  obtain e r where x: "x = (e, r)" by (cases x)
  let ?a = "if expiring now r then sts_found [observe MTASTSCertExpiring (''mta-sts.'' @ domain)] (a0\<lparr>sa_response := r\<rparr>)
    else a0\<lparr>sa_response := r\<rparr>"
  have s: "\<not> reports_sts MTASTSValid (sa_findings ?a)" "sa_policy ?a = None"
    using assms by (simp_all add: not_pass_sts)
  obtain a err where f: "fetch_failed domain e ?a = (a, err)" by (cases "fetch_failed domain e ?a")
  from fetch_failed_silent [OF s(1), of domain e] f s(2)
  have "\<not> reports_sts MTASTSValid (sa_findings a)" "sa_policy a = None" by simp_all
  then show ?thesis
    using f by (simp add: assess_fetched_def Let_def Inl x protects_def split: option.split)
next
  case (Inr r)
  have "reports_sts MTASTSValid (sa_findings (assess_response media_type domain hosts r b))
      \<longleftrightarrow> protects media_type now hosts (assess_response media_type domain hosts r b)"
    if "b = (if expiring now (Some r) then sts_found [observe MTASTSCertExpiring (''mta-sts.'' @ domain)]
        (a0\<lparr>sa_response := Some r\<rparr>) else a0\<lparr>sa_response := Some r\<rparr>)" for b
    by (rule assess_response_valid [where subject = "''mta-sts.'' @ domain"]) (simp_all add: that assms)
  then show ?thesis by (simp add: assess_fetched_def Let_def Inr)
qed

lemma assess_orphan_valid:
  assumes "sa_findings a0 = []" and "sa_policy a0 = None"
  shows "ends (\<lambda>n (a, err). reports_sts MTASTSValid (sa_findings a) \<longleftrightarrow> protects media_type now hosts a) (assess_orphan fetcher domain a0) j"
  using assms
  by (auto simp: assess_orphan_def Let_def not_pass_sts split: option.split sum.split intro!: ends_bindI [OF ends_trivial])

lemma assess_mtasts_ends:
  "ends (\<lambda>n (a, err). reports_sts MTASTSValid (sa_findings a) \<longleftrightarrow> protects media_type now hosts a)
     (assess_mtasts fetcher media_type now hosts domain) j"
proof -
  have fetched: "ends (\<lambda>n (a, err). reports_sts MTASTSValid (sa_findings a) \<longleftrightarrow> protects media_type now hosts a)
      (and_then (fetch domain) (\<lambda>res. Ret (assess_fetched media_type now domain hosts a0 res))) i"
    if "sa_findings a0 = []" "sa_policy a0 = None" for fetch :: sts_fetcher and domain a0 i
    by (rule ends_bindI [OF ends_trivial]) (use assess_fetched_valid [OF that] in simp)
  show ?thesis
    unfolding assess_mtasts_def Let_def ends.simps
    by (intro allI, rule if_split [THEN iffD2], intro conjI impI)
      (auto simp: not_pass_sts intro!: assess_orphan_valid fetched split: list.split sum.split option.split)
qed

text \<open>
  Claim C28. Whatever the DNS answers and the policy host serves, MTA-STS is reported as valid exactly when the fetched
  policy protects the domain: the body parses to a policy in mode enforce that lasts at least a day and covers every
  MX host, it is served as text/plain, and the certificate does not expire within 14 days.
\<close>

theorem valid_sts_iff_protects:
  "on_every_answer (\<lambda>(a, err). reports_sts MTASTSValid (sa_findings a) \<longleftrightarrow> protects media_type now hosts a)
     (assess_mtasts fetcher media_type now hosts domain)"
  by (rule assess_mtasts_ends)

text \<open>A domain with an MTA-STS record whose policy host has neither an A nor an AAAA record.\<close>

definition sample_sts_zone :: zone where
  "sample_sts_zone = \<lparr>z_txt = \<lambda>n. if n = ''_mta-sts.example.org'' then Inr [''v=STSv1; id=1''] else Inr [],
     z_mx = \<lambda>n. Inr [], z_a = \<lambda>n. Inr [], z_aaaa = \<lambda>n. Inr [], z_cname = \<lambda>n. Inr [], z_ptr = \<lambda>a. Inr []\<rparr>"

text \<open>
  A policy host without addresses is reported as a failure of the DNS, although the lookups succeeded: the
  error that \<^verbatim>\<open>resolve\<close> makes up for it is not a lookup error, and such errors count as infrastructure errors.  The
  finding that the policy cannot be fetched is not made, and the assessment as a whole fails.
\<close>

theorem missing_policy_host_counts_as_dns_failure:
  "(case fst (run (assess_mtasts (Some (http_fetch net False)) media_type now hosts ''example.org'')
      (zone_resolver sample_sts_zone) ()) of
     (a, err) \<Rightarrow> sa_findings a = [observe DNSLookupFailed ''mta-sts.example.org'']
       \<and> err = Some (OtherError ''mta-sts.example.org has no A or AAAA records''))"
proof -
  have r: "parse_sts_record ''v=STSv1; id=1'' = Inr \<lparr>st_raw = ''v=STSv1; id=1'', st_id = ''1'', st_extensions = Map.empty\<rparr>"
    by (simp add: parse_sts_record_def is_sts_record_def has_prefix_def sts_field_def trim_defs cut_def index_byte_def
        is_alnum_def alnum_def is_lower_def is_upper_def is_digit_def)
  have t: "trim_name ''example.org'' = ''example.org''"
    by (simp add: trim_name_def str_eval)
  have k: "is_sts_record ''v=STSv1; id=1''"
    by (simp add: is_sts_record_def has_prefix_def)
  show ?thesis
    by (simp add: assess_mtasts_def t k r sample_sts_zone_def zone_resolver_def http_fetch_def resolve_host_def choose_addrs_def
        addrs_of_def lookup_failure_def assess_fetched_def fetch_failed_def expiring_def is_infrastructure_def Let_def)
qed

end
