(* ===== verification/SpfAnalyze.thy ===== *)
theory SpfAnalyze
  imports SpfEval FindingsCatalog
begin

section \<open>The static analysis of SPF policies (internal/spf/analyze.go)\<close>

text \<open>
  The analyzer walks every include and redirect of a policy and adds up the lookups a receiver may need.  The walk is a
  recursive function on the stack of domains; its state (the findings, their number per rule, the number of records
  fetched and the last infrastructure error) is passed along.  A finding is added at most 20 times per rule.
\<close>

subsection \<open>The dependency tree\<close>

datatype node_error = NoNodeError | NodeSyntax "term_error list" | NodeLoop | NodeNotFollowed | NodeInvalidDomain
  | NodeLookup eval_error | NodeSeveral eval_error | NodeNoRecord | NodeRecords nat

datatype spf_node = Node (nd_domain: string) (nd_via: string) (nd_record: string) (nd_lookups: int)
  (nd_total: int) (nd_voids: int) (nd_error: node_error) (nd_loop: bool) (nd_dynamic: bool) (nd_children: "spf_node list")

definition leaf_node :: "string \<Rightarrow> string \<Rightarrow> string \<Rightarrow> node_error \<Rightarrow> bool \<Rightarrow> bool \<Rightarrow> spf_node" where
  "leaf_node domain via txt err loop dyn = Node domain via txt 0 0 0 err loop dyn []"

fun sum_voids :: "spf_node \<Rightarrow> int" where
  "sum_voids (Node d v r l t vo e lo dy cs) = vo + sum_list (map sum_voids cs)"

subsection \<open>The state of the analysis\<close>

record analysis_state =
  az_findings :: "observation list"
  az_infra :: "eval_error option"
  az_per_rule :: "string \<Rightarrow> nat"
  az_nodes :: nat

definition max_analysis_nodes :: nat where "max_analysis_nodes = 64"
definition max_findings_per_rule :: nat where "max_findings_per_rule = 20"

definition add_finding :: "observation \<Rightarrow> analysis_state \<Rightarrow> analysis_state" where
  "add_finding f st0 = (
     let i = rl_id (ob_rule f); n = az_per_rule st0 i + 1;
         st = st0\<lparr>az_per_rule := (az_per_rule st0)(i := n)\<rparr>
     in if max_findings_per_rule < n then st else st\<lparr>az_findings := az_findings st @ [f]\<rparr>)"

definition add_findings :: "observation list \<Rightarrow> analysis_state \<Rightarrow> analysis_state" where
  "add_findings fs st = fold add_finding fs st"

text \<open>The notes on dropped findings, from the last finding backwards: the rule and how many were dropped.\<close>

fun note_loop :: "observation list \<Rightarrow> (string \<Rightarrow> nat) \<Rightarrow> (string \<times> nat) list" where
  "note_loop [] counts = []"
| "note_loop (f # fs) counts = (let i = rl_id (ob_rule f) in
     if max_findings_per_rule < counts i
     then (i, counts i - max_findings_per_rule) # note_loop fs (counts(i := 0))
     else note_loop fs counts)"

definition note_suppressed :: "analysis_state \<Rightarrow> (string \<times> nat) list" where
  "note_suppressed st = note_loop (rev (az_findings st)) (az_per_rule st)"

subsection \<open>Checks of a term\<close>

definition uses_letter :: "macro_string \<Rightarrow> char \<Rightarrow> bool" where
  "uses_letter m letter \<longleftrightarrow> list_ex (\<lambda>t. mt_letter t = letter) m"

definition dynamic_letters :: string where "dynamic_letters = ''slopih''"

definition dynamic :: "macro_string \<Rightarrow> bool" where
  "dynamic m \<longleftrightarrow> list_ex (\<lambda>t. mt_letter t \<noteq> no_letter \<and> mt_letter t \<in> set dynamic_letters) m"

definition check_modifier :: "spf_term \<Rightarrow> string \<Rightarrow> observation list" where
  "check_modifier t domain = (
     if tm_name t = mod_redirect then []
     else if tm_name t = mod_exp then [observe SPFExp domain]
     else [observe SPFUnknownModifier domain])"

definition broad_range_severity :: "int \<Rightarrow> int \<Rightarrow> severity" where
  "broad_range_severity bits max_bits = (
     if max_bits = 32 then
       (if bits = 0 then SeverityCritical else if bits \<le> 8 then SeverityHigh
        else if bits \<le> 16 then SeverityMedium else SeverityZero)
     else if bits = 0 then SeverityCritical else if bits \<le> 16 then SeverityHigh
     else if bits \<le> 32 then SeverityMedium else SeverityZero)"

definition term_widths :: "spf_term \<Rightarrow> (int \<times> int) list" where
  "term_widths t = (
     if tm_name t = mech_ip4 \<or> tm_name t = mech_ip6 then [(pf_bits (tm_network t), bit_len (pf_addr (tm_network t)))]
     else (if 0 \<le> tm_cidr4 t then [(tm_cidr4 t, 32)] else []) @ (if 0 \<le> tm_cidr6 t then [(tm_cidr6 t, 128)] else []))"

definition check_directive :: "string \<Rightarrow> spf_term \<Rightarrow> string \<Rightarrow> observation list" where
  "check_directive root t domain = (
     if tm_name t = mech_all then
       (if tm_qualifier t = qualifier_pass then [observe SPFPassAll domain]
        else if tm_qualifier t = qualifier_neutral \<and> equal_fold domain root then [observe SPFNeutralAll domain]
        else if tm_qualifier t = qualifier_soft_fail \<and> equal_fold domain root then [observe SPFSoftFailAll domain]
        else [])
     else if tm_name t = mech_ptr then [observe SPFPTR domain]
     else if tm_name t \<in> {mech_ip4, mech_ip6, mech_a, mech_mx} then
       (if tm_qualifier t = qualifier_fail \<or> tm_qualifier t = qualifier_soft_fail then []
        else map (\<lambda>(bits, max_bits). observe_at (broad_range_severity bits max_bits) SPFBroadRange domain)
               (filter (\<lambda>(bits, max_bits). broad_range_severity bits max_bits \<noteq> SeverityZero) (term_widths t)))
     else [])"

text \<open>The macro context of the analysis has the domain only.\<close>

definition static_context :: "string \<Rightarrow> unit macro_context" where
  "static_context domain = \<lparr>mc_ip = AddrZero, mc_sender = [], mc_domain = domain, mc_helo = [], mc_receiver = [],
     mc_now = 0, mc_ptr = None\<rparr>"

subsection \<open>Void targets\<close>

definition answer_items :: "'a list answer \<Rightarrow> 'a list" where
  "answer_items ans = (case ans of Inl e \<Rightarrow> [] | Inr xs \<Rightarrow> xs)"

definition temporary_error :: "'a answer \<Rightarrow> bool" where
  "temporary_error ans = (case ans of Inl e \<Rightarrow> is_temporary e | Inr _ \<Rightarrow> False)"

text \<open>What follows the lookups of a and mx terms: a failed lookup is reported, a missing target too.\<close>

definition void_result :: "string \<Rightarrow> string \<Rightarrow> bool \<Rightarrow> bool \<Rightarrow> analysis_state \<Rightarrow> bool \<times> analysis_state" where
  "void_result domain target unsure gone st =
     (if unsure then (False, add_finding (observe SPFTempError target) st)
      else if gone then (True, add_finding (observe SPFVoidTarget domain) st)
      else (False, st))"

definition is_void :: "limits \<Rightarrow> spf_term \<Rightarrow> string \<Rightarrow> analysis_state \<Rightarrow> (bool \<times> analysis_state) dns" where
  "is_void lim t domain st = (
     if dynamic (tm_macro t) then Ret (False, add_finding (observe SPFDynamic domain) st)
     else and_then (expand_domain t (static_context domain) ()) (\<lambda>(target, _).
       if tm_name t = mech_a then
         AskA target (\<lambda>a. AskAAAA target (\<lambda>aaaa.
           Ret (void_result domain target (temporary_error a \<or> temporary_error aaaa)
             (answer_items a = [] \<and> answer_items aaaa = []) st)))
       else if tm_name t = mech_mx then
         AskMX target (\<lambda>ans.
           Ret (void_result domain target (temporary_error ans) (answer_items ans = [])
             (if max_mx_names lim < int (length (answer_items ans)) then add_finding (observe SPFMXLimit domain) st else st)))
       else
         AskA target (\<lambda>ans.
           Ret (if answer_items ans = [] then (True, st) else void_result domain target (temporary_error ans) False st))))"

subsection \<open>Following a reference\<close>

text \<open>
  An error of \<^verbatim>\<open>fetchRecord\<close> is an \<^verbatim>\<open>*evalError\<close>, which does not wrap the error of the lookup; for \<^verbatim>\<open>IsInfrastructure\<close> it
  is some other error.
\<close>

definition as_dns_error :: "eval_error \<Rightarrow> dns_error" where
  "as_dns_error e = OtherError []"

type_synonym walker = "string \<Rightarrow> string \<Rightarrow> analysis_state \<Rightarrow> (spf_node \<times> analysis_state) dns"

definition follow_record :: "string \<Rightarrow> string \<Rightarrow> string \<Rightarrow> walker \<Rightarrow> eval_error + string option \<Rightarrow> analysis_state
    \<Rightarrow> (spf_node \<times> analysis_state) dns" where
  "follow_record parent target via wk res st = (case res of
     Inl e \<Rightarrow>
       if ee_result e = ResultTempError then
         let st = add_finding (observe SPFTempError target) st;
             st = (if is_infrastructure (as_dns_error e) then st\<lparr>az_infra := Some e\<rparr> else st)
         in Ret (leaf_node target via [] (NodeLookup e) False False, st)
       else Ret (leaf_node target via [] (NodeSeveral e) False False, add_finding (observe SPFMultiple target) st)
   | Inr None \<Rightarrow> Ret (leaf_node target via [] NodeNoRecord False False, add_finding (observe SPFIncludeNoRecord target) st)
   | Inr (Some txt) \<Rightarrow> wk target txt st)"

definition follow_target :: "limits \<Rightarrow> string \<Rightarrow> string list \<Rightarrow> string \<Rightarrow> string \<Rightarrow> walker \<Rightarrow> string \<Rightarrow> analysis_state
    \<Rightarrow> (spf_node \<times> analysis_state) dns" where
  "follow_target lim root stack parent via wk target0 st = (let target = to_lower target0 in
     if target \<in> set stack
     then Ret (leaf_node target via [] NodeLoop True False, add_finding (observe SPFLoop root) st)
     else if max_depth lim < int (length stack) \<or> max_analysis_nodes \<le> az_nodes st
     then Ret (leaf_node target via [] NodeNotFollowed False False, st)
     else let st = st\<lparr>az_nodes := az_nodes st + 1\<rparr> in
       if \<not> valid_initial_domain target
       then Ret (leaf_node target via [] NodeInvalidDomain False False, add_finding (observe SPFSyntax parent) st)
       else and_then (fetch_record target) (\<lambda>res. follow_record parent target via wk res st))"

definition follow_term :: "limits \<Rightarrow> string \<Rightarrow> string list \<Rightarrow> string \<Rightarrow> walker \<Rightarrow> spf_term \<Rightarrow> analysis_state
    \<Rightarrow> (spf_node \<times> analysis_state) dns" where
  "follow_term lim root stack parent wk t st = (
     if dynamic (tm_macro t)
     then Ret (leaf_node (tm_domain t) (tm_raw t) [] NoNodeError False True, add_finding (observe SPFDynamic parent) st)
     else and_then (expand_domain t (static_context parent) ()) (\<lambda>(target, _).
       follow_target lim root stack parent (tm_raw t) wk target st))"

subsection \<open>The walk\<close>

record walk =
  wk_all_seen :: bool
  wk_after_all :: "string list"
  wk_lookups :: int
  wk_voids :: int
  wk_children :: "spf_node list"

definition start_walk :: walk where
  "start_walk = \<lparr>wk_all_seen = False, wk_after_all = [], wk_lookups = 0, wk_voids = 0, wk_children = []\<rparr>"

type_synonym follower = "spf_term \<Rightarrow> analysis_state \<Rightarrow> (spf_node \<times> analysis_state) dns"

definition add_child :: "spf_node \<Rightarrow> walk \<Rightarrow> walk" where
  "add_child c w = w\<lparr>wk_children := wk_children w @ [c]\<rparr>"

text \<open>One directive in front of all: its checks, its count, and what its mechanism asks for.\<close>

definition walk_mechanism :: "limits \<Rightarrow> string \<Rightarrow> follower \<Rightarrow> spf_term \<Rightarrow> walk \<Rightarrow> analysis_state
    \<Rightarrow> (walk \<times> analysis_state) dns" where
  "walk_mechanism lim domain fol t w st = (
     if tm_name t = mech_all then Ret (w\<lparr>wk_all_seen := True\<rparr>, st)
     else if tm_name t = mech_include then and_then (fol t st) (\<lambda>(c, st). Ret (add_child c w, st))
     else if tm_name t = mech_a \<or> tm_name t = mech_mx \<or> tm_name t = mech_exists then
       and_then (is_void lim t domain st) (\<lambda>(void, st). Ret (if void then w\<lparr>wk_voids := wk_voids w + 1\<rparr> else w, st))
     else Ret (w, st))"

definition walk_directive :: "limits \<Rightarrow> string \<Rightarrow> string \<Rightarrow> follower \<Rightarrow> spf_term \<Rightarrow> walk \<Rightarrow> analysis_state
    \<Rightarrow> (walk \<times> analysis_state) dns" where
  "walk_directive lim root domain fol t w st = walk_mechanism lim domain fol t
     (if counts_lookup t then w\<lparr>wk_lookups := wk_lookups w + 1\<rparr> else w)
     (add_findings (check_directive root t domain
        @ (if uses_letter (tm_macro t) (CHR ''p'') then [observe SPFPMacro domain] else [])) st)"

fun walk_terms :: "limits \<Rightarrow> string \<Rightarrow> string \<Rightarrow> follower \<Rightarrow> spf_term list \<Rightarrow> walk \<Rightarrow> analysis_state
    \<Rightarrow> (walk \<times> analysis_state) dns" where
  "walk_terms lim root domain fol [] w st = Ret (w, st)"
| "walk_terms lim root domain fol (t # ts) w st =
     (if \<not> tm_modifier t \<and> wk_all_seen w
      then walk_terms lim root domain fol ts (w\<lparr>wk_after_all := wk_after_all w @ [tm_raw t]\<rparr>) st
      else if tm_modifier t then walk_terms lim root domain fol ts w (add_findings (check_modifier t domain) st)
      else and_then (walk_directive lim root domain fol t w st) (\<lambda>(w, st). walk_terms lim root domain fol ts w st))"

definition walk_redirect :: "string \<Rightarrow> follower \<Rightarrow> spf_record \<Rightarrow> walk \<Rightarrow> analysis_state \<Rightarrow> (walk \<times> analysis_state) dns" where
  "walk_redirect domain fol rec w st = (case rec_redirect rec of
     None \<Rightarrow> Ret (w, st)
   | Some t \<Rightarrow>
       if wk_all_seen w then Ret (w, add_finding (observe SPFRedirectIgnored domain) st)
       else and_then (fol t st) (\<lambda>(c, st). Ret (add_child c (w\<lparr>wk_lookups := wk_lookups w + 1\<rparr>), st)))"

definition finish_walk :: "string \<Rightarrow> string \<Rightarrow> string \<Rightarrow> walk \<Rightarrow> spf_node" where
  "finish_walk domain via txt w = Node domain via txt (wk_lookups w)
     (wk_lookups w + sum_list (map nd_total (wk_children w))) (wk_voids w) NoNodeError False False (wk_children w)"

text \<open>\<open>stack\<close> includes the domain of the record.\<close>

definition walk_record :: "limits \<Rightarrow> string \<Rightarrow> string \<Rightarrow> string \<Rightarrow> string \<Rightarrow> string list \<Rightarrow> follower \<Rightarrow> analysis_state
    \<Rightarrow> (spf_node \<times> analysis_state) dns" where
  "walk_record lim root domain via txt stack fol st0 = (
     let st = (if 450 < length txt then add_finding (observe SPFRecordTooLong domain) st0 else st0)
     in case parse_record txt of
          (Some rec, []) \<Rightarrow>
            and_then (walk_terms lim root domain fol (rec_terms rec) start_walk st) (\<lambda>(w, st).
            let st = (if wk_after_all w \<noteq> [] then add_finding (observe SPFTermsAfterAll domain) st else st) in
            and_then (walk_redirect domain fol rec w st) (\<lambda>(w, st).
            Ret (finish_walk domain via txt w,
              if \<not> wk_all_seen w \<and> rec_redirect rec = None
              then add_finding (if 1 < length stack then observe_at SeverityInfo SPFNoAll domain else observe SPFNoAll domain) st
              else st)))
        | (_, errs) \<Rightarrow> Ret (leaf_node domain via txt (NodeSyntax errs) False False, add_finding (observe SPFSyntax domain) st))"

lemma follow_term_cong [fundef_cong]:
  assumes "\<And>target txt st. \<not> max_depth lim < int (length stack) \<Longrightarrow> wk target txt st = wk' target txt st"
  shows "follow_term lim root stack parent wk t st = follow_term lim root stack parent wk' t st"
proof (cases "max_depth lim < int (length stack)")
  case True
  then have "follow_target lim root stack parent via wk target st = follow_target lim root stack parent via wk' target st"
    for via target by (simp add: follow_target_def Let_def)
  then show ?thesis by (simp add: follow_term_def)
next
  case False
  have "wk = wk'" by (intro ext) (rule assms [OF False])
  then show ?thesis by simp
qed

lemma walk_record_cong [fundef_cong]:
  assumes "\<And>t st. fol t st = fol' t st"
  shows "walk_record lim root domain via txt stack fol st = walk_record lim root domain via txt stack fol' st"
proof -
  have "fol = fol'" by (intro ext) (rule assms)
  then show ?thesis by simp
qed

function walk_node :: "limits \<Rightarrow> string \<Rightarrow> string \<Rightarrow> string \<Rightarrow> string \<Rightarrow> string list \<Rightarrow> analysis_state
    \<Rightarrow> (spf_node \<times> analysis_state) dns" where
  "walk_node lim root domain via txt stack0 st = (let stack = stack0 @ [to_lower domain] in
     walk_record lim root domain via txt stack (\<lambda>t st.
       follow_term lim root stack domain (\<lambda>target txt st. walk_node lim root target (tm_raw t) txt stack st) t st) st)"
  by auto
termination
  by (relation "measure (\<lambda>(lim, root, domain, via, txt, stack, st). nat (max_depth lim + 1 - int (length stack)))") auto

declare walk_node.simps [simp del]

subsection \<open>The analysis\<close>

record analysis =
  an_domain :: string
  an_record :: string
  an_tree :: "spf_node option"
  an_total_lookups :: int
  an_void_lookups :: int
  an_findings :: "observation list"
  an_suppressed :: "(string \<times> nat) list"

definition finish_analysis :: "limits \<Rightarrow> string \<Rightarrow> string \<Rightarrow> spf_node \<times> analysis_state \<Rightarrow> analysis \<times> dns_error option" where
  "finish_analysis lim domain txt x = (case x of (tree, st0) \<Rightarrow>
     let total = nd_total tree; voids = sum_voids tree;
         st1 = (if max_lookups lim < total then add_finding (observe SPFLookupLimit domain) st0
                else if max_lookups lim - 2 \<le> total then add_finding (observe SPFLookupsNearLimit domain) st0 else st0);
         st2 = (if max_void_lookups lim < voids then add_finding (observe SPFVoidLimit domain) st1 else st1);
         st = (if observed_max (az_findings st2) < SeverityMedium then add_finding (observe SPFValid domain) st2 else st2)
     in (\<lparr>an_domain = domain, an_record = txt, an_tree = Some tree, an_total_lookups = total, an_void_lookups = voids,
          an_findings = az_findings st, an_suppressed = note_suppressed st\<rparr>, map_option as_dns_error (az_infra st)))"

definition analyze_spf :: "limits \<Rightarrow> string \<Rightarrow> (analysis \<times> dns_error option) dns" where
  "analyze_spf lim0 domain0 = (
     let lim = (if lim0 = zero_limits then default_limits else lim0); domain = trim_name domain0;
         st = \<lparr>az_findings = [], az_infra = None, az_per_rule = \<lambda>_. 0, az_nodes = 0\<rparr>;
         res = (\<lambda>f tree. \<lparr>an_domain = domain, an_record = [], an_tree = tree, an_total_lookups = 0, an_void_lookups = 0,
                 an_findings = [observe f domain], an_suppressed = []\<rparr>)
     in AskTXT domain (\<lambda>ans.
          if (case ans of Inl e \<Rightarrow> \<not> is_nxdomain e | Inr _ \<Rightarrow> False)
          then Ret (res DNSLookupFailed None, case ans of Inl e \<Rightarrow> Some e | Inr _ \<Rightarrow> None)
          else (case filter is_spf (answer_items ans) of
            [] \<Rightarrow> Ret (res SPFMissing None, None)
          | [txt] \<Rightarrow> and_then (walk_node lim domain domain [] txt [] st) (\<lambda>x. Ret (finish_analysis lim domain txt x))
          | records \<Rightarrow> Ret (res SPFMultiple (Some (leaf_node domain [] [] (NodeRecords (length records)) False False)), None))))"

end
