(* ===== verification/SpfAnalyzeProps.thy ===== *)
theory SpfAnalyzeProps
  imports SpfAnalyze
begin

section \<open>Properties of the static analysis\<close>

subsection \<open>The tree\<close>

fun totals_ok :: "spf_node \<Rightarrow> bool" where
  "totals_ok (Node d v r l t vo e lo dy cs) \<longleftrightarrow> 0 \<le> l \<and> 0 \<le> vo \<and> t = l + sum_list (map nd_total cs) \<and> list_all totals_ok cs"

fun node_height :: "spf_node \<Rightarrow> nat" where
  "node_height (Node d v r l t vo e lo dy cs) = Suc (fold max (map node_height cs) 0)"

fun records_read :: "spf_node \<Rightarrow> nat" where
  "records_read (Node d v r l t vo e lo dy cs) = (if r = [] then 0 else 1) + sum_list (map records_read cs)"

fun sum_lookups :: "spf_node \<Rightarrow> int" where
  "sum_lookups (Node d v r l t vo e lo dy cs) = l + sum_list (map sum_lookups cs)"

lemma totals_sum: "totals_ok n \<Longrightarrow> nd_total n = sum_lookups n"
proof (induction n rule: totals_ok.induct)
  case (1 d v r l t vo e lo dy cs)
  have eq: "map sum_lookups cs = map nd_total cs"
    using 1 by (auto simp: list_all_iff)
  show ?case using "1.prems" by (simp add: eq)
qed

lemma fold_max_le: "fold max xs m \<le> (h :: nat) \<longleftrightarrow> m \<le> h \<and> list_all (\<lambda>x. x \<le> h) xs"
  by (induction xs arbitrary: m) auto

lemma leaf_node_simps [simp]:
  "totals_ok (leaf_node d v r e lo dy)" "node_height (leaf_node d v r e lo dy) = 1"
  "records_read (leaf_node d v r e lo dy) = (if r = [] then 0 else 1)"
  by (simp_all add: leaf_node_def)

subsection \<open>The state\<close>

definition of_rule :: "string \<Rightarrow> observation list \<Rightarrow> nat" where
  "of_rule i fs = length (filter (\<lambda>f. rl_id (ob_rule f) = i) fs)"

definition capped :: "analysis_state \<Rightarrow> bool" where
  "capped st \<longleftrightarrow> (\<forall>i. of_rule i (az_findings st) = min max_findings_per_rule (az_per_rule st i))"

definition grows :: "analysis_state \<Rightarrow> analysis_state \<Rightarrow> bool" where
  "grows st st' \<longleftrightarrow> (capped st \<longrightarrow> capped st') \<and> az_nodes st \<le> az_nodes st'
     \<and> (az_nodes st \<le> max_analysis_nodes \<longrightarrow> az_nodes st' \<le> max_analysis_nodes)"

lemma grows_refl [simp]: "grows st st"
  by (simp add: grows_def)

lemma grows_trans: "grows st st' \<Longrightarrow> grows st' st'' \<Longrightarrow> grows st st''"
  by (auto simp: grows_def)

lemma capped_add_finding: "capped st \<Longrightarrow> capped (add_finding f st)"
  by (auto simp: capped_def add_finding_def Let_def of_rule_def)

lemma add_finding_nodes [simp]: "az_nodes (add_finding f st) = az_nodes st"
  by (simp add: add_finding_def Let_def)

lemma add_findings_nodes [simp]: "az_nodes (add_findings fs st) = az_nodes st"
  unfolding add_findings_def by (induction fs arbitrary: st) simp_all

lemma capped_add_findings: "capped st \<Longrightarrow> capped (add_findings fs st)"
  unfolding add_findings_def by (induction fs arbitrary: st) (simp_all add: capped_add_finding)

lemma grows_add [simp]: "grows st (add_finding f st)" "grows st (add_findings fs st)"
  by (simp_all add: grows_def capped_add_finding capped_add_findings)

lemma grows_add_to: "grows st st' \<Longrightarrow> grows st (add_finding f st')"
  by (erule grows_trans) simp

lemma grows_infra: "grows st st' \<Longrightarrow> grows st (st'\<lparr>az_infra := e\<rparr>)"
  by (simp add: grows_def capped_def)

lemma capped_nodes [simp]: "capped (st\<lparr>az_nodes := n\<rparr>) = capped st"
  by (simp add: capped_def)

subsection \<open>Following and walking\<close>

text \<open>What a walk of a record gives, and what following a reference gives; \<open>h\<close> bounds the height of the tree.\<close>

definition walked :: "nat \<Rightarrow> analysis_state \<Rightarrow> spf_node \<times> analysis_state \<Rightarrow> bool" where
  "walked h st x \<longleftrightarrow> (case x of (n, st') \<Rightarrow> grows st st' \<and> totals_ok n \<and> node_height n \<le> h
     \<and> records_read n + az_nodes st \<le> Suc (az_nodes st'))"

definition followed :: "nat \<Rightarrow> analysis_state \<Rightarrow> spf_node \<times> analysis_state \<Rightarrow> bool" where
  "followed h st x \<longleftrightarrow> (case x of (n, st') \<Rightarrow> grows st st' \<and> totals_ok n \<and> node_height n \<le> h
     \<and> records_read n + az_nodes st \<le> az_nodes st')"

definition collected :: "nat \<Rightarrow> walk \<Rightarrow> analysis_state \<Rightarrow> walk \<times> analysis_state \<Rightarrow> bool" where
  "collected h w st x \<longleftrightarrow> (case x of (w', st') \<Rightarrow> grows st st'
     \<and> (0 \<le> wk_lookups w \<and> 0 \<le> wk_voids w \<and> list_all totals_ok (wk_children w) \<and> list_all (\<lambda>n. node_height n \<le> h) (wk_children w)
       \<longrightarrow> 0 \<le> wk_lookups w' \<and> 0 \<le> wk_voids w' \<and> list_all totals_ok (wk_children w') \<and> list_all (\<lambda>n. node_height n \<le> h) (wk_children w'))
     \<and> sum_list (map records_read (wk_children w')) + az_nodes st \<le> sum_list (map records_read (wk_children w)) + az_nodes st')"

lemma collected_trans: "collected h w st (w', st') \<Longrightarrow> collected h w' st' x \<Longrightarrow> collected h w st x"
  by (cases x) (auto simp: collected_def intro: grows_trans)

lemma follow_target_ends:
  assumes "\<And>target txt st j. int (length stack) \<le> max_depth lim \<Longrightarrow> ends (\<lambda>_. walked h st) (wk target txt st) j" and "1 \<le> h"
  shows "ends (\<lambda>_. followed h st) (follow_target lim root stack parent via wk target st) j"
proof -
  have rec: "ends (\<lambda>_. followed h st) (follow_record parent target via wk res (st\<lparr>az_nodes := Suc (az_nodes st)\<rparr>)) i"
    if "int (length stack) \<le> max_depth lim" "az_nodes st < max_analysis_nodes" for target res i
  proof -
    have g: "grows st (st\<lparr>az_nodes := Suc (az_nodes st)\<rparr>)" using that(2) by (simp add: grows_def)
    have wk: "ends (\<lambda>_. followed h st) (wk target t (st\<lparr>az_nodes := Suc (az_nodes st)\<rparr>)) i" for t
      by (rule ends_mono [OF assms(1) [OF that(1)]]) (auto simp: walked_def followed_def intro: grows_trans [OF g])
    show ?thesis
      using assms(2) by (auto simp: follow_record_def followed_def grows_add_to [OF g] grows_infra Let_def wk split: sum.split option.split)
  qed
  show ?thesis
    unfolding follow_target_def Let_def
    using assms(2)
    by (auto simp: followed_def not_less not_le grows_add_to grows_def capped_add_finding intro!: ends_bindI [OF ends_trivial] rec)
qed

lemma follow_term_ends:
  assumes "\<And>target txt st j. int (length stack) \<le> max_depth lim \<Longrightarrow> ends (\<lambda>_. walked h st) (wk target txt st) j" and "1 \<le> h"
  shows "ends (\<lambda>_. followed h st) (follow_term lim root stack parent wk t st) j"
proof (cases "dynamic (tm_macro t)")
  case True
  then show ?thesis using assms(2) by (simp add: follow_term_def followed_def)
next
  case False
  then show ?thesis
    unfolding follow_term_def if_not_P [OF False]
    by (intro ends_bindI [OF ends_trivial]) (auto intro: follow_target_ends [OF assms])
qed

lemma is_void_ends: "ends (\<lambda>_ (void, st'). grows st st' \<and> az_nodes st' = az_nodes st) (is_void lim t domain st) j"
  unfolding is_void_def
  by (auto simp: void_result_def grows_add_to intro!: ends_bindI [OF ends_trivial])

definition keeps :: "walk \<Rightarrow> analysis_state \<Rightarrow> walk \<Rightarrow> analysis_state \<Rightarrow> bool" where
  "keeps w st w' st' \<longleftrightarrow> grows st st' \<and> az_nodes st' = az_nodes st \<and> wk_children w' = wk_children w
    \<and> (0 \<le> wk_lookups w \<longrightarrow> 0 \<le> wk_lookups w') \<and> (0 \<le> wk_voids w \<longrightarrow> 0 \<le> wk_voids w')"

lemma walk_mechanism_ends:
  assumes "\<And>t st j. ends (\<lambda>_. followed h st) (fol t st) j" and k: "keeps w0 st0 w st"
  shows "ends (\<lambda>_. collected h w0 st0) (walk_mechanism lim domain fol t w st) j"
proof -
  have fol: "ends (\<lambda>_. collected h w0 st0) (and_then (fol t st) (\<lambda>(c, st). Ret (add_child c w, st))) j"
    using k by (intro ends_bindI [OF assms(1)]) (auto simp: keeps_def collected_def followed_def add_child_def intro: grows_trans)
  have void: "ends (\<lambda>_. collected h w0 st0) (and_then (is_void lim t domain st) (\<lambda>(void, st).
      Ret (if void then w\<lparr>wk_voids := wk_voids w + 1\<rparr> else w, st))) j"
    using k by (intro ends_bindI [OF is_void_ends]) (auto simp: keeps_def collected_def intro: grows_trans)
  show ?thesis
    using k by (simp add: walk_mechanism_def fol void) (simp add: keeps_def collected_def)
qed

lemma walk_directive_ends:
  assumes "\<And>t st j. ends (\<lambda>_. followed h st) (fol t st) j"
  shows "ends (\<lambda>_. collected h w st) (walk_directive lim root domain fol t w st) j"
  unfolding walk_directive_def by (rule walk_mechanism_ends [OF assms]) (simp add: keeps_def)

lemma walk_terms_ends:
  assumes "\<And>t st j. ends (\<lambda>_. followed h st) (fol t st) j"
  shows "ends (\<lambda>_. collected h w st) (walk_terms lim root domain fol ts w st) j"
proof (induction ts arbitrary: w st j)
  case Nil
  then show ?case by (simp add: collected_def)
next
  case (Cons t ts)
  have skip: "ends (\<lambda>_. collected h w st) (walk_terms lim root domain fol ts w' st') j"
    if "collected h w st (w', st')" for w' st' j
    by (rule ends_mono [OF Cons.IH]) (rule collected_trans [OF that])
  show ?case
    by (auto simp: collected_def [of _ _ _ "(_, _)"] intro!: ends_bindI [OF walk_directive_ends [OF assms]] skip)
qed

lemma walk_redirect_ends:
  assumes "\<And>t st j. ends (\<lambda>_. followed h st) (fol t st) j"
  shows "ends (\<lambda>_. collected h w st) (walk_redirect domain fol rec w st) j"
  unfolding walk_redirect_def
  by (auto simp: collected_def followed_def add_child_def split: option.split intro!: ends_bindI [OF assms])

lemma walk_record_ends:
  assumes "\<And>t st j. ends (\<lambda>_. followed h st) (fol t st) j"
  shows "ends (\<lambda>_. walked (Suc h) st) (walk_record lim root domain via txt stack fol st) j"
proof (cases "\<exists>rec. parse_record txt = (Some rec, [])")
  case False
  then have "walk_record lim root domain via txt stack fol st = Ret (leaf_node domain via txt (NodeSyntax (snd (parse_record txt))) False False,
      add_finding (observe SPFSyntax domain) (if 450 < length txt then add_finding (observe SPFRecordTooLong domain) st else st))"
    by (auto simp: walk_record_def Let_def split: prod.split option.split list.split)
  then show ?thesis by (simp add: walked_def grows_add_to)
next
  case True
  then obtain rec where rec: "parse_record txt = (Some rec, [])" by blast
  let ?st = "if 450 < length txt then add_finding (observe SPFRecordTooLong domain) st else st"
  have g: "grows st ?st" and n: "az_nodes ?st = az_nodes st" by simp_all
  show ?thesis
    unfolding walk_record_def Let_def rec prod.case option.case list.case
  proof (rule ends_bindI [OF walk_terms_ends [OF assms]], goal_cases)
    case (1 i x)
    obtain w st1 where x: "x = (w, st1)" by (cases x)
    let ?st1 = "if wk_after_all w \<noteq> [] then add_finding (observe SPFTermsAfterAll domain) st1 else st1"
    have c1: "collected h start_walk ?st (w, ?st1)" using 1 by (auto simp: x collected_def grows_add_to)
    show ?case unfolding x prod.case
    proof (rule ends_bindI [OF walk_redirect_ends [OF assms]], goal_cases)
      case (1 i y)
      obtain w2 st2 where y: "y = (w2, st2)" by (cases y)
      have "collected h start_walk ?st (w2, st2)" using 1(2) unfolding y by (rule collected_trans [OF c1])
      then show ?case
        by (auto simp: y walked_def collected_def finish_walk_def start_walk_def fold_max_le list_all_iff n
            intro: grows_trans [OF g] grows_add_to [OF grows_trans [OF g]])
    qed
  qed
qed

lemma walk_node_ends:
  "ends (\<lambda>_. walked (nat (max_depth lim - int (length stack)) + 2) st) (walk_node lim root domain via txt stack st) j"
proof (induction lim root domain via "txt" stack st arbitrary: j rule: walk_node.induct)
  case (1 lim root domain via s0 stack0 st)
  let ?stack = "stack0 @ [to_lower domain]"
  let ?h = "nat (max_depth lim - int (length stack0)) + 1"
  have "ends (\<lambda>_. followed ?h st) (follow_term lim root ?stack domain
      (\<lambda>target txt st. walk_node lim root target (tm_raw t) txt ?stack st) t st) j" for t st j
  proof (rule follow_term_ends)
    fix target s st j
    assume d: "int (length ?stack) \<le> max_depth lim"
    have h: "nat (max_depth lim - int (length ?stack)) + 2 = ?h" using d by simp
    have "ends (\<lambda>_. walked (nat (max_depth lim - int (length ?stack)) + 2) st) (walk_node lim root target (tm_raw t) s ?stack st) j"
      using d by (intro "1.IH") auto
    then show "ends (\<lambda>_. walked ?h st) (walk_node lim root target (tm_raw t) s ?stack st) j"
      unfolding h .
  qed simp
  then show ?case
    unfolding walk_node.simps [of lim root domain via s0 stack0] Let_def
    using walk_record_ends [of ?h] by (simp del: length_append)
qed

subsection \<open>Questions and nodes\<close>

text \<open>
  Every question the analysis asks after the first, and every node under the root, belongs to a term that counts as a
  lookup: a term asks at most two questions and gives at most one node.
\<close>

fun count_nodes :: "spf_node \<Rightarrow> nat" where
  "count_nodes (Node d v r l t vo e lo dy cs) = Suc (sum_list (map count_nodes cs))"

lemma count_leaf [simp]: "count_nodes (leaf_node d v r e lo dy) = 1" "nd_total (leaf_node d v r e lo dy) = 0"
  by (simp_all add: leaf_node_def)

definition frugal :: "nat \<Rightarrow> nat \<Rightarrow> spf_node \<times> analysis_state \<Rightarrow> bool" where
  "frugal j n x \<longleftrightarrow> int n \<le> int j + 2 * nd_total (fst x) \<and> 0 \<le> nd_total (fst x) \<and> int (count_nodes (fst x)) \<le> 1 + nd_total (fst x)"

definition cost :: "walk \<Rightarrow> int" where
  "cost w = wk_lookups w + sum_list (map nd_total (wk_children w))"

definition nodes_in :: "walk \<Rightarrow> int" where
  "nodes_in w = int (sum_list (map count_nodes (wk_children w)))"

definition spent :: "nat \<Rightarrow> walk \<Rightarrow> nat \<Rightarrow> walk \<times> analysis_state \<Rightarrow> bool" where
  "spent j w n x \<longleftrightarrow> int n + 2 * cost w \<le> int j + 2 * cost (fst x) \<and> cost w \<le> cost (fst x)
     \<and> nodes_in (fst x) - nodes_in w \<le> cost (fst x) - cost w"

lemma spent_refl [simp]: "spent j w j (w, st)"
  by (simp add: spent_def)

lemma spent_trans: "spent j w n (w', st') \<Longrightarrow> spent n w' i x \<Longrightarrow> spent j w i x"
  by (auto simp: spent_def)

lemma static_expansion_silent: "ends (\<lambda>i _. i = j) (expand_domain t (static_context d) ()) j"
  using expand_domain_ends [of "\<lambda>i _. i = j" "static_context d" j "()" t] by (simp add: static_context_def)

lemma follow_target_frugal:
  assumes "\<And>target txt st j. int (length stack) \<le> max_depth lim \<Longrightarrow> ends (frugal j) (wk target txt st) j"
  shows "ends (frugal (Suc j)) (follow_target lim root stack parent via wk target st) j"
  using assms
  by (auto simp: follow_target_def Let_def frugal_def fetch_record_def follow_record_def split: sum.split option.split)

lemma follow_term_frugal:
  assumes "\<And>target txt st j. int (length stack) \<le> max_depth lim \<Longrightarrow> ends (frugal j) (wk target txt st) j"
  shows "ends (frugal (Suc j)) (follow_term lim root stack parent wk t st) j"
proof (cases "dynamic (tm_macro t)")
  case True
  then show ?thesis by (simp add: follow_term_def frugal_def)
next
  case False
  then show ?thesis
    unfolding follow_term_def if_not_P [OF False]
    by (intro ends_bindI [OF static_expansion_silent]) (auto intro: follow_target_frugal [OF assms])
qed

lemma is_void_two: "ends (\<lambda>n _. n \<le> j + 2) (is_void lim t domain st) j"
  unfolding is_void_def by (auto intro!: ends_bindI [OF static_expansion_silent])

lemma walk_directive_spent:
  assumes fol: "\<And>t st j. ends (frugal (Suc j)) (fol t st) j" and "\<not> tm_modifier t"
  shows "ends (spent j w) (walk_directive lim root domain fol t w st) j"
proof -
  have void: "ends (spent j w) (and_then (is_void lim t domain st') (\<lambda>(void, st).
      Ret (if void then w'\<lparr>wk_voids := wk_voids w' + 1\<rparr> else w', st))) j" if "w' = w\<lparr>wk_lookups := wk_lookups w + 1\<rparr>" for w' st'
    using that by (intro ends_bindI [OF is_void_two]) (auto simp: spent_def cost_def nodes_in_def)
  have incl: "ends (spent j w) (and_then (fol t st') (\<lambda>(c, st). Ret (add_child c w', st))) j"
    if "w' = w\<lparr>wk_lookups := wk_lookups w + 1\<rparr>" for w' st'
    using that by (intro ends_bindI [OF fol]) (auto simp: spent_def cost_def nodes_in_def add_child_def frugal_def)
  have rest: "spent j w j (w'\<lparr>wk_all_seen := b\<rparr>, st')" "spent j w j (w', st')"
    if "w' = w \<or> w' = w\<lparr>wk_lookups := wk_lookups w + 1\<rparr>" for w' b st'
    using that by (auto simp: spent_def cost_def nodes_in_def)
  show ?thesis
    using assms(2) unfolding walk_directive_def walk_mechanism_def
    by (simp add: counts_lookup_def void incl rest)
qed

lemma walk_terms_spent:
  assumes "\<And>t st j. ends (frugal (Suc j)) (fol t st) j"
  shows "ends (spent j w) (walk_terms lim root domain fol ts w st) j"
proof (induction ts arbitrary: w st j)
  case Nil
  then show ?case by simp
next
  case (Cons t ts)
  have skip: "ends (spent j w) (walk_terms lim root domain fol ts w' st') n" if "spent j w n (w', st')" for n w' st'
    by (rule ends_mono [OF Cons.IH]) (rule spent_trans [OF that])
  have after: "spent j w j (w\<lparr>wk_after_all := a\<rparr>, st)" for a by (simp add: spent_def cost_def nodes_in_def)
  show ?case
    by (auto intro!: ends_bindI [OF walk_directive_spent [OF assms]] skip after)
qed

lemma walk_redirect_spent:
  assumes "\<And>t st j. ends (frugal (Suc j)) (fol t st) j"
  shows "ends (spent j w) (walk_redirect domain fol rec w st) j"
  unfolding walk_redirect_def
  by (auto simp: spent_def cost_def nodes_in_def add_child_def frugal_def split: option.split intro!: ends_bindI [OF assms])

lemma walk_record_frugal:
  assumes "\<And>t st j. ends (frugal (Suc j)) (fol t st) j"
  shows "ends (frugal j) (walk_record lim root domain via txt stack fol st) j"
proof (cases "\<exists>rec. parse_record txt = (Some rec, [])")
  case False
  then show ?thesis
    by (auto simp: walk_record_def Let_def frugal_def split: prod.split option.split list.split)
next
  case True
  then obtain rec where rec: "parse_record txt = (Some rec, [])" by blast
  show ?thesis
    unfolding walk_record_def Let_def rec prod.case option.case list.case
  proof (rule ends_bindI [OF walk_terms_spent [OF assms]], goal_cases)
    case (1 i x)
    obtain w st1 where x: "x = (w, st1)" by (cases x)
    show ?case unfolding x prod.case
    proof (rule ends_bindI [OF walk_redirect_spent [OF assms]], goal_cases)
      case (1 n y)
      obtain w2 st2 where y: "y = (w2, st2)" by (cases y)
      have "spent j start_walk n (w2, st2)"
        using 1(2) \<open>spent j start_walk i x\<close> unfolding x y by (blast intro: spent_trans)
      then show ?case
        by (simp add: y spent_def frugal_def finish_walk_def start_walk_def cost_def nodes_in_def)
    qed
  qed
qed

lemma walk_node_frugal: "ends (frugal j) (walk_node lim root domain via txt stack st) j"
proof (induction lim root domain via "txt" stack st arbitrary: j rule: walk_node.induct)
  case (1 lim root domain via s0 stack0 st)
  have "ends (frugal (Suc j)) (follow_term lim root (stack0 @ [to_lower domain]) domain
      (\<lambda>target txt st. walk_node lim root target (tm_raw t) txt (stack0 @ [to_lower domain]) st) t st) j" for t st j
    by (rule follow_term_frugal) (intro "1.IH", auto)
  then show ?case
    unfolding walk_node.simps [of lim root domain via s0 stack0] Let_def
    by (intro walk_record_frugal)
qed

subsection \<open>The result\<close>

text \<open>The reported totals are those of the tree, and the tree and the findings are small.\<close>

definition analysis_ok :: "analysis \<Rightarrow> bool" where
  "analysis_ok a \<longleftrightarrow> (\<forall>i. of_rule i (an_findings a) \<le> 20) \<and> (case an_tree a of
     None \<Rightarrow> an_total_lookups a = 0 \<and> an_void_lookups a = 0
   | Some t \<Rightarrow> an_total_lookups a = sum_lookups t \<and> an_void_lookups a = sum_voids t \<and> 0 \<le> an_void_lookups a
       \<and> node_height t \<le> 18 \<and> records_read t \<le> 65)"

lemma totals_voids: "totals_ok n \<Longrightarrow> 0 \<le> sum_voids n"
proof (induction n rule: totals_ok.induct)
  case (1 d v r l t vo e lo dy cs)
  then have "0 \<le> sum_list (map sum_voids cs)"
    by (intro sum_list_nonneg) (auto simp: list_all_iff)
  then show ?case using "1.prems" by simp
qed

lemma finish_analysis_ok:
  assumes "walked 18 st (t, st')" and "capped st" and "az_nodes st = 0"
  shows "case finish_analysis lim domain s (t, st') of (a, err) \<Rightarrow> analysis_ok a"
proof -
  have g: "capped st'" "totals_ok t" "node_height t \<le> 18" "records_read t \<le> 65"
    using assms by (auto simp: walked_def grows_def max_analysis_nodes_def)
  have c: "capped (if b then add_finding f s else s)" if "capped s" for b f s
    using that by (simp add: capped_add_finding)
  let ?st1 = "if max_lookups lim < nd_total t then add_finding (observe SPFLookupLimit domain) st'
    else if max_lookups lim - 2 \<le> nd_total t then add_finding (observe SPFLookupsNearLimit domain) st' else st'"
  let ?st2 = "if max_void_lookups lim < sum_voids t then add_finding (observe SPFVoidLimit domain) ?st1 else ?st1"
  let ?st3 = "if observed_max (az_findings ?st2) < SeverityMedium then add_finding (observe SPFValid domain) ?st2 else ?st2"
  have "capped ?st1" using g(1) by (simp add: capped_add_finding)
  then have "capped ?st3" by (intro c)
  then have "of_rule i (az_findings ?st3) \<le> 20" for i
    unfolding capped_def by (simp only: max_findings_per_rule_def)
  then show ?thesis
    using g totals_sum [OF g(2)] totals_voids [OF g(2)]
    unfolding finish_analysis_def Let_def prod.case analysis_ok_def by simp
qed

lemma single_finding_ok: "of_rule i [f] \<le> 20"
  by (simp add: of_rule_def)

lemma analyze_spf_ends: "ends (\<lambda>_ (a, err). analysis_ok a) (analyze_spf zero_limits domain) j"
proof -
  let ?st = "\<lparr>az_findings = [], az_infra = None, az_per_rule = \<lambda>_. 0, az_nodes = 0\<rparr>"
  have st: "capped ?st" "az_nodes ?st = 0" by (simp_all add: capped_def of_rule_def)
  have depth: "nat (max_depth default_limits - int (length ([] :: string list))) + 2 = 18" by (simp add: default_limits_def)
  have w: "ends (\<lambda>_. walked 18 ?st) (walk_node default_limits (trim_name domain) (trim_name domain) [] s [] ?st) i" for s i
    using walk_node_ends [of default_limits "[]" ?st] unfolding depth .
  have "ends (\<lambda>_ (a, err). analysis_ok a) (and_then (walk_node default_limits (trim_name domain) (trim_name domain) [] s [] ?st)
      (\<lambda>x. Ret (finish_analysis default_limits (trim_name domain) s x))) i" for s i
  proof (rule ends_bindI [OF w], goal_cases)
    case (1 n x)
    then show ?case
      using finish_analysis_ok [OF _ st, of "fst x" "snd x" default_limits "trim_name domain" s] by simp
  qed
  then show ?thesis
    by (auto simp: analyze_spf_def Let_def analysis_ok_def single_finding_ok leaf_node_def split: list.split)
qed

lemma analyze_spf_frugal:
  "ends (\<lambda>n (a, err). case an_tree a of None \<Rightarrow> n \<le> 1
     | Some t \<Rightarrow> int n \<le> 1 + 2 * an_total_lookups a \<and> int (count_nodes t) \<le> 1 + an_total_lookups a) (analyze_spf zero_limits domain) 0"
  by (auto simp: analyze_spf_def Let_def finish_analysis_def frugal_def split: list.split
      intro!: ends_bindI [OF walk_node_frugal [of 1, simplified]])

text \<open>
  Claim C29. The work and the size of the static analysis are bounded, whatever the DNS answers, with the default limits.
  It reads at most 65 records (the root and 64 references), its tree has at most 18 levels and each rule has at most 20
  findings.  The reported totals of lookups and void lookups are the sums over the tree, and the reported total of
  lookups pays for the rest of the work: it asks at most one question more than twice that total, and its tree has at
  most one node more than that total.  The total itself has no fixed bound: it grows with the terms of the 65 records.
\<close>

theorem analysis_is_bounded:
  "ends (\<lambda>questions (a, err). of_rule i (an_findings a) \<le> 20 \<and> (case an_tree a of
     None \<Rightarrow> questions \<le> 1 \<and> an_total_lookups a = 0 \<and> an_void_lookups a = 0
   | Some t \<Rightarrow> an_total_lookups a = sum_lookups t \<and> an_void_lookups a = sum_voids t
       \<and> node_height t \<le> 18 \<and> records_read t \<le> 65
       \<and> int questions \<le> 1 + 2 * an_total_lookups a \<and> int (count_nodes t) \<le> 1 + an_total_lookups a))
     (analyze_spf zero_limits domain) 0"
  by (rule ends_mono [OF iffD2 [OF ends_conj, OF conjI [OF analyze_spf_ends analyze_spf_frugal]]])
    (auto simp: analysis_ok_def split: option.splits)

text \<open>A policy whose include cannot be looked up because the query budget of the scan is used up.\<close>

definition budget_zone :: zone where
  "budget_zone = \<lparr>z_txt = \<lambda>n. if n = ''a.org'' then Inr [''v=spf1 include:b.org -all'']
       else Inl (DnsError KindBudget n ''TXT''),
     z_mx = \<lambda>n. Inr [], z_a = \<lambda>n. Inr [], z_aaaa = \<lambda>n. Inr [], z_cname = \<lambda>n. Inr [], z_ptr = \<lambda>a. Inr []\<rparr>"

text \<open>
  The analysis of that policy returns an error that \<^verbatim>\<open>IsInfrastructure\<close> accepts, although an exhausted budget is none.
\<close>

theorem exhausted_budget_counts_as_infrastructure:
  "\<not> is_infrastructure (DnsError KindBudget ''b.org'' ''TXT'')
   \<and> snd (fst (run (analyze_spf zero_limits ''a.org'') (zone_resolver budget_zone) ())) \<noteq> None"
  by code_simp

text \<open>A policy with an \<^verbatim>\<open>exists\<close> term whose target cannot be looked up.\<close>

definition failing_zone :: zone where
  "failing_zone = \<lparr>z_txt = \<lambda>n. Inr [''v=spf1 exists:b.org -all''], z_mx = \<lambda>n. Inr [],
     z_a = \<lambda>n. Inl (DnsError KindTemporary n ''A''), z_aaaa = \<lambda>n. Inr [], z_cname = \<lambda>n. Inr [], z_ptr = \<lambda>a. Inr []\<rparr>"

text \<open>
  The analysis of that policy counts the failed lookup as a void one and reports nothing about the failure.
\<close>

theorem failed_exists_counts_as_void:
  "case fst (run (analyze_spf zero_limits ''a.org'') (zone_resolver failing_zone) ()) of
     (a, err) \<Rightarrow> err = None \<and> an_void_lookups a = 1 \<and> rl_id SPFTempError \<notin> set (map (\<lambda>f. rl_id (ob_rule f)) (an_findings a))"
  by code_simp

end
