(* ===== verification/SpfMessage.thy ===== *)
theory SpfMessage
  imports SpfEval FindingsCatalog
begin

section \<open>SPF of a message (internal/spf/message.go)\<close>

text \<open>
  The choice of the identity that is checked and the finding on its result.  The provenance of an input is
  a constructor; the evidence and the texts are not modelled.
\<close>

datatype input_source = SourceFlag | SourceReceived | SourceReceivedSPF | SourceReturnPath

record spf_input =
  si_value :: string
  si_source :: input_source
  si_inferred :: bool

record message_inputs =
  in_ip :: "spf_input option"
  in_helo :: "spf_input option"
  in_mail_from :: "spf_input option"
  in_null_sender :: bool

text \<open>\<open>ck_result\<close> is no value when SPF could not be evaluated.\<close>

record message_check =
  ck_inputs :: message_inputs
  ck_mail_from :: "evaluation option"
  ck_helo :: "evaluation option"
  ck_result :: "spf_result option"
  ck_domain :: string
  ck_findings :: "observation list"

definition inferred :: "spf_input option \<Rightarrow> bool" where
  "inferred i = (case i of None \<Rightarrow> False | Some v \<Rightarrow> si_inferred v)"

definition found :: "observation \<Rightarrow> message_check \<Rightarrow> message_check" where
  "found f mc = mc\<lparr>ck_findings := ck_findings mc @ [f]\<rparr>"

definition result_finding :: "evaluation \<Rightarrow> spf_result option \<Rightarrow> string \<Rightarrow> observation list" where
  "result_finding ev res domain = (case res of
     Some ResultPass \<Rightarrow> [observe SPFMessagePass domain]
   | Some ResultFail \<Rightarrow> [observe SPFMessageFail domain]
   | Some ResultSoftFail \<Rightarrow> [observe SPFMessageSoftFail domain]
   | Some ResultNeutral \<Rightarrow> [observe SPFMessageNeutral domain]
   | Some ResultNone \<Rightarrow> [observe SPFMessageNeutral domain]
   | Some _ \<Rightarrow> [if ev_loop_detected ev \<or> ev_limit_exceeded ev
                then observe_at SeverityHigh SPFMessageError domain else observe SPFMessageError domain]
   | None \<Rightarrow> [])"

definition with_result :: "evaluation \<Rightarrow> message_check \<Rightarrow> message_check" where
  "with_result ev mc0 = (let mc = mc0\<lparr>ck_result := ev_result ev, ck_domain := ev_domain ev\<rparr>
     in mc\<lparr>ck_findings := ck_findings mc @ result_finding ev (ck_result mc) (ck_domain mc)\<rparr>)"

definition request_for :: "addr \<Rightarrow> string \<Rightarrow> string \<Rightarrow> string \<Rightarrow> request" where
  "request_for ip sender helo domain = \<lparr>rq_ip = ip, rq_sender = sender, rq_helo = helo, rq_domain = domain,
     rq_receiver = [], rq_now = None\<rparr>"

text \<open>The check of the HELO identity, when one is known.\<close>

definition check_helo :: "limits \<Rightarrow> int \<Rightarrow> addr \<Rightarrow> spf_input option \<Rightarrow> (string \<times> evaluation option) dns" where
  "check_helo lim clock ip h = (case h of
     None \<Rightarrow> Ret ([], None)
   | Some v \<Rightarrow> let helo = trim_name (si_value v) in
       and_then (check_host_request lim (request_for ip (''postmaster@'' @ helo) helo helo) clock) (\<lambda>ev. Ret (helo, Some ev)))"

definition check_identities :: "limits \<Rightarrow> int \<Rightarrow> addr \<Rightarrow> message_inputs \<Rightarrow> message_check \<Rightarrow> message_check dns" where
  "check_identities lim clock ip inp mc0 = and_then (check_helo lim clock ip (in_helo inp)) (\<lambda>(helo, hev).
     let mc = mc0\<lparr>ck_helo := hev\<rparr> in
     case (in_null_sender inp, in_mail_from inp, hev) of
       (False, Some from, _) \<Rightarrow> and_then (check_host_request lim (request_for ip (si_value from) helo []) clock) (\<lambda>ev.
          Ret (with_result ev (mc\<lparr>ck_mail_from := Some ev\<rparr>)))
     | (True, _, Some ev) \<Rightarrow> Ret (with_result ev mc)
     | (True, _, None) \<Rightarrow> Ret (found (observe SPFNotEvaluated []) mc)
     | (False, None, _) \<Rightarrow> Ret (found (observe SPFNotEvaluated []) mc))"

definition check_message :: "limits \<Rightarrow> int \<Rightarrow> message_inputs \<Rightarrow> message_check dns" where
  "check_message lim clock inp = (
     let mc = \<lparr>ck_inputs = inp, ck_mail_from = None, ck_helo = None, ck_result = None, ck_domain = [], ck_findings = []\<rparr>;
         not_evaluated = Ret (found (observe SPFNotEvaluated []) mc)
     in case in_ip inp of
          None \<Rightarrow> not_evaluated
        | Some v \<Rightarrow> (case parse_addr (si_value v) of
            None \<Rightarrow> not_evaluated
          | Some ip \<Rightarrow>
              if in_mail_from inp = None \<and> in_helo inp = None \<and> \<not> in_null_sender inp then not_evaluated
              else check_identities lim clock ip inp
                (if inferred (in_ip inp) \<or> inferred (in_helo inp) \<or> inferred (in_mail_from inp)
                 then found (observe SPFInputsInferred []) mc else mc)))"

end
