(* ===== verification/TlsRpt.thy ===== *)
theory TlsRpt
  imports DnsBudget FindingsCatalog
begin

section \<open>TLS reporting records (internal/tlsrpt)\<close>

text \<open>
  The record parser and the assessment.  The library parsers are a record of functions: \<open>up_address\<close> is
  \<^verbatim>\<open>mail.ParseAddress\<close> (the address of the mailbox), \<open>up_url\<close> is \<^verbatim>\<open>url.Parse\<close> (the host, and whether there is user
  information); no value stands for an error.
\<close>

record uri_parsers =
  up_address :: "string \<Rightarrow> string option"
  up_url :: "string \<Rightarrow> (string \<times> bool) option"

record tls_record =
  tr_raw :: string
  tr_rua :: "string list"
  tr_invalid_uris :: "string list"
  tr_extensions :: "string \<Rightarrow> string option"

datatype tls_error = TlsNotRecord | TlsMalformed string | TlsDuplicate string | TlsNoRua

definition is_tlsrpt :: "string \<Rightarrow> bool" where
  "is_tlsrpt s \<longleftrightarrow> trim_space (fst (cut s (CHR '';''))) = ''v=TLSRPTv1''"

definition after_last :: "char \<Rightarrow> string \<Rightarrow> string" where
  "after_last c s = (case last_index_byte s c of None \<Rightarrow> s | Some i \<Rightarrow> drop (i + 1) s)"

definition valid_report_uri :: "uri_parsers \<Rightarrow> string \<Rightarrow> bool" where
  "valid_report_uri up s = (
     if has_prefix (to_lower s) ''mailto:'' then
       (let addr = fst (cut (drop 7 s) (CHR 0x3F)) in
        up_address up addr = Some addr \<and> contains_byte (after_last (CHR ''@'') addr) (CHR ''.''))
     else if has_prefix (to_lower s) ''https:'' then
       (case up_url up s of None \<Rightarrow> False | Some (host, user) \<Rightarrow> host \<noteq> [] \<and> \<not> user)
     else False)"

text \<open>The entries of a \<^verbatim>\<open>rua\<close> field go to the valid or the invalid ones, in order.\<close>

fun add_uris :: "uri_parsers \<Rightarrow> string list \<Rightarrow> tls_record \<Rightarrow> tls_record" where
  "add_uris up [] r = r"
| "add_uris up (u0 # us) r = (let u = trim_space u0 in
     add_uris up us (if valid_report_uri up u then r\<lparr>tr_rua := tr_rua r @ [u]\<rparr> else r\<lparr>tr_invalid_uris := tr_invalid_uris r @ [u]\<rparr>))"

definition tls_field :: "uri_parsers \<Rightarrow> nat \<Rightarrow> string \<Rightarrow> string list \<times> tls_record \<Rightarrow> tls_error + (string list \<times> tls_record)" where
  "tls_field up i part0 st = (case st of (seen, r) \<Rightarrow>
     let part = trim_set part0 wsp in
     if part = [] \<or> i = 0 then Inr (seen, r)
     else let (n, val, ok) = cut part (CHR ''=''); name = trim_space n in
       if \<not> ok \<or> name = [] then Inl (TlsMalformed part)
       else if name \<in> set seen then Inl (TlsDuplicate name)
       else if name \<noteq> ''rua'' then Inr (name # seen, r\<lparr>tr_extensions := (tr_extensions r)(name \<mapsto> trim_space val)\<rparr>)
       else Inr (name # seen, add_uris up (split_byte (CHR '','') val) r))"

fun tls_fields :: "uri_parsers \<Rightarrow> nat \<Rightarrow> string list \<Rightarrow> string list \<times> tls_record \<Rightarrow> tls_error + (string list \<times> tls_record)" where
  "tls_fields up i [] st = Inr st"
| "tls_fields up i (p # ps) st = (case tls_field up i p st of Inl e \<Rightarrow> Inl e | Inr st \<Rightarrow> tls_fields up (Suc i) ps st)"

definition parse_tlsrpt :: "uri_parsers \<Rightarrow> string \<Rightarrow> tls_error + tls_record" where
  "parse_tlsrpt up s = (
     if \<not> is_tlsrpt s then Inl TlsNotRecord
     else case tls_fields up 0 (split_byte (CHR '';'') s)
         ([], \<lparr>tr_raw = s, tr_rua = [], tr_invalid_uris = [], tr_extensions = Map.empty\<rparr>) of
       Inl e \<Rightarrow> Inl e
     | Inr (seen, r) \<Rightarrow> if ''rua'' \<notin> set seen then Inl TlsNoRua else Inr r)"

subsection \<open>The assessment\<close>

record tls_assessment =
  ta_name :: string
  ta_records :: "string list"
  ta_record :: "tls_record option"
  ta_findings :: "observation list"

definition grade_tlsrpt :: "string \<Rightarrow> tls_record \<Rightarrow> observation list" where
  "grade_tlsrpt name rec = (
     let fs = (if tr_invalid_uris rec = [] then []
           else if tr_rua rec = [] then [observe_at SeverityHigh TLSRPTInvalidURI name]
           else [observe TLSRPTInvalidURI name])
     in if tr_rua rec \<noteq> [] \<and> observed_max fs \<le> SeverityInfo then fs @ [observe TLSRPTValid name] else fs)"

definition assess_tlsrpt :: "uri_parsers \<Rightarrow> string \<Rightarrow> bool \<Rightarrow> (tls_assessment \<times> dns_error option) dns" where
  "assess_tlsrpt up domain0 uses_mtasts = (
     let domain = trim_name domain0; name = ''_smtp._tls.'' @ domain;
         a = \<lparr>ta_name = name, ta_records = [], ta_record = None, ta_findings = []\<rparr>
     in AskTXT name (\<lambda>ans. Ret (
          if (case ans of Inl e \<Rightarrow> \<not> is_nxdomain e | Inr _ \<Rightarrow> False)
          then (a\<lparr>ta_findings := [observe DNSLookupFailed name]\<rparr>, case ans of Inl e \<Rightarrow> Some e | Inr _ \<Rightarrow> None)
          else
            let records = filter is_tlsrpt (case ans of Inl e \<Rightarrow> [] | Inr txts \<Rightarrow> txts); a = a\<lparr>ta_records := records\<rparr>
            in (case records of
                 [] \<Rightarrow> a\<lparr>ta_findings := [if uses_mtasts then observe TLSRPTMissing domain else observe_at SeverityInfo TLSRPTMissing domain]\<rparr>
               | r # rs \<Rightarrow>
                   if rs \<noteq> [] then a\<lparr>ta_findings := [observe TLSRPTInvalid name]\<rparr>
                   else (case parse_tlsrpt up r of
                     Inl e \<Rightarrow> a\<lparr>ta_findings := [observe TLSRPTInvalid name]\<rparr>
                   | Inr rec \<Rightarrow> a\<lparr>ta_record := Some rec, ta_findings := grade_tlsrpt name rec\<rparr>), None))))"

subsection \<open>What is reported\<close>

text \<open>
  The reference, on the text of a record: its fields are the parts after the first semicolon, trimmed, without the empty
  ones; each has an equals sign, and they have different names that are not empty.  Its reports arrive when
  there is a field \<^verbatim>\<open>rua\<close> whose entries between commas are all usable addresses.
\<close>

definition text_fields :: "string list \<Rightarrow> string list" where
  "text_fields parts = filter (\<lambda>f. f \<noteq> []) (map (\<lambda>p. trim_set p wsp) parts)"

definition field_name :: "string \<Rightarrow> string" where
  "field_name f = trim_space (takeWhile (\<lambda>c. c \<noteq> CHR ''='') f)"

definition field_entries :: "string \<Rightarrow> string list" where
  "field_entries f = map trim_space (split_byte (CHR '','') (tl (dropWhile (\<lambda>c. c \<noteq> CHR ''='') f)))"

definition fields_ok :: "string list \<Rightarrow> bool" where
  "fields_ok fs \<longleftrightarrow> list_all (\<lambda>f. CHR ''='' \<in> set f \<and> field_name f \<noteq> []) fs \<and> distinct (map field_name fs)"

definition reports_arrive :: "uri_parsers \<Rightarrow> string \<Rightarrow> bool" where
  "reports_arrive up s \<longleftrightarrow> (let fs = text_fields (tl (split_byte (CHR '';'') s)) in
     fields_ok fs \<and> list_ex (\<lambda>f. field_name f = ''rua'' \<and> list_all (valid_report_uri up) (field_entries f)) fs)"

lemma cut_field:
  "cut f (CHR ''='') = (n, val, ok) \<Longrightarrow> (ok \<longleftrightarrow> CHR ''='' \<in> set f)
     \<and> (if ok then trim_space n = field_name f \<and> map trim_space (split_byte (CHR '','') val) = field_entries f else True)"
proof -
  assume c: "cut f (CHR ''='') = (n, val, ok)"
  show ?thesis
  proof (cases "CHR ''='' \<in> set f")
    case True
    then obtain a b where f: "f = a @ CHR ''='' # b" "CHR ''='' \<notin> set a" by (blast dest: split_list_first)
    then have "takeWhile (\<lambda>c. c \<noteq> CHR ''='') f = a" "dropWhile (\<lambda>c. c \<noteq> CHR ''='') f = CHR ''='' # b"
      by (auto simp: takeWhile_append dropWhile_append)
    then show ?thesis using c cut_found [OF f(2), of b] True by (simp add: f(1) field_name_def field_entries_def)
  next
    case False
    then show ?thesis using c cut_absent [OF False] by simp
  qed
qed

lemma add_uris_spec:
  "(tr_invalid_uris (add_uris up us r) = [] \<longleftrightarrow> tr_invalid_uris r = [] \<and> list_all (valid_report_uri up) (map trim_space us))
   \<and> (tr_rua (add_uris up us r) = [] \<longleftrightarrow> tr_rua r = [] \<and> \<not> list_ex (valid_report_uri up) (map trim_space us))"
  by (induction us arbitrary: r) (auto simp: Let_def)

text \<open>What the loop over the fields finds, from names \<open>seen\<close> and a record \<open>r\<close> on.\<close>

definition fresh_fields :: "string list \<Rightarrow> string list \<Rightarrow> bool" where
  "fresh_fields fs seen \<longleftrightarrow> fields_ok fs \<and> field_name ` set fs \<inter> set seen = {}"

definition rua_all :: "(string list \<Rightarrow> bool) \<Rightarrow> string list \<Rightarrow> bool" where
  "rua_all P fs \<longleftrightarrow> list_all (\<lambda>f. if field_name f = ''rua'' then P (field_entries f) else True) fs"

definition found_fields :: "uri_parsers \<Rightarrow> string list \<Rightarrow> string list \<Rightarrow> tls_record \<Rightarrow> tls_error + (string list \<times> tls_record) \<Rightarrow> bool" where
  "found_fields up fs seen r out \<longleftrightarrow> (case out of
     Inl _ \<Rightarrow> \<not> fresh_fields fs seen
   | Inr (seen', r') \<Rightarrow> fresh_fields fs seen \<and> set seen' = field_name ` set fs \<union> set seen
       \<and> (tr_invalid_uris r' = [] \<longleftrightarrow> tr_invalid_uris r = [] \<and> rua_all (list_all (valid_report_uri up)) fs)
       \<and> (tr_rua r' = [] \<longleftrightarrow> tr_rua r = [] \<and> rua_all (\<lambda>us. \<not> list_ex (valid_report_uri up) us) fs))"

lemma rua_all_append [simp]: "rua_all P (fs @ gs) \<longleftrightarrow> rua_all P fs \<and> rua_all P gs"
  by (simp add: rua_all_def)

lemma fresh_append:
  "set seen' = field_name ` set fs \<union> set seen \<Longrightarrow> fresh_fields (fs @ gs) seen \<longleftrightarrow> fresh_fields fs seen \<and> fresh_fields gs seen'"
  by (auto simp: fresh_fields_def fields_ok_def)

lemma tls_field_found:
  "found_fields up (text_fields [p]) seen r (tls_field up (Suc i) p (seen, r))"
proof (cases "trim_set p wsp = []")
  case True
  then show ?thesis by (simp add: tls_field_def found_fields_def text_fields_def fields_ok_def fresh_fields_def rua_all_def)
next
  case False
  let ?f = "trim_set p wsp"
  obtain n val ok where c: "cut ?f (CHR ''='') = (n, val, ok)" by (metis prod_cases3)
  have uris: "tr_invalid_uris (add_uris up (split_byte (CHR '','') val) r) = [] \<longleftrightarrow>
        tr_invalid_uris r = [] \<and> list_all (valid_report_uri up) (map trim_space (split_byte (CHR '','') val))"
      "tr_rua (add_uris up (split_byte (CHR '','') val) r) = [] \<longleftrightarrow>
        tr_rua r = [] \<and> \<not> list_ex (valid_report_uri up) (map trim_space (split_byte (CHR '','') val))"
    using add_uris_spec by blast+
  have f: "text_fields [p] = [?f]" using False by (simp add: text_fields_def)
  show ?thesis
  proof (cases "ok \<and> trim_space n \<noteq> [] \<and> trim_space n \<notin> set seen")
    case True
    then have n: "trim_space n = field_name ?f" "map trim_space (split_byte (CHR '','') val) = field_entries ?f"
        "CHR ''='' \<in> set ?f" using cut_field [OF c] by simp_all
    have fresh: "fresh_fields [?f] seen" using True n by (simp add: fresh_fields_def fields_ok_def)
    show ?thesis using True False
      by (simp add: tls_field_def c Let_def found_fields_def f fresh rua_all_def uris n)
  next
    case bad: False
    then have "\<exists>e. tls_field up (Suc i) p (seen, r) = Inl e" using False by (auto simp: tls_field_def c Let_def)
    moreover have "\<not> fresh_fields [?f] seen" using bad cut_field [OF c] by (auto simp: fresh_fields_def fields_ok_def)
    ultimately show ?thesis by (auto simp: found_fields_def f)
  qed
qed

lemma found_fields_Cons:
  assumes "found_fields up fs seen r (Inr (seen1, r1))" and "found_fields up gs seen1 r1 out"
  shows "found_fields up (fs @ gs) seen r out"
proof -
  have one: "fresh_fields fs seen" "set seen1 = field_name ` set fs \<union> set seen"
      "tr_invalid_uris r1 = [] \<longleftrightarrow> tr_invalid_uris r = [] \<and> rua_all (list_all (valid_report_uri up)) fs"
      "tr_rua r1 = [] \<longleftrightarrow> tr_rua r = [] \<and> rua_all (\<lambda>us. \<not> list_ex (valid_report_uri up) us) fs"
    using assms(1) unfolding found_fields_def by simp_all
  note fresh = fresh_append [OF one(2), of gs]
  show ?thesis
  proof (cases out)
    case (Inl e)
    then show ?thesis using assms(2) one(1) fresh by (simp add: found_fields_def)
  next
    case (Inr x)
    obtain seen2 r2 where x: "x = (seen2, r2)" by fastforce
    show ?thesis using assms(2) one fresh by (simp add: found_fields_def Inr x) (simp add: image_Un Un_assoc Un_left_commute)
  qed
qed

lemma found_fields_stop: "found_fields up fs seen r (Inl e) \<Longrightarrow> found_fields up (fs @ gs) seen r (Inl e)"
  by (auto simp: found_fields_def fresh_fields_def fields_ok_def)

lemma tls_fields_found: "found_fields up (text_fields ps) seen r (tls_fields up (Suc i) ps (seen, r))"
proof (induction ps arbitrary: i seen r)
  case Nil
  then show ?case by (simp add: found_fields_def text_fields_def fields_ok_def fresh_fields_def rua_all_def)
next
  case (Cons p ps)
  have split: "text_fields (p # ps) = text_fields [p] @ text_fields ps" by (simp add: text_fields_def)
  show ?case
  proof (cases "tls_field up (Suc i) p (seen, r)")
    case (Inl e)
    then show ?thesis using tls_field_found [of up p seen r i] by (simp add: split found_fields_stop)
  next
    case (Inr st)
    then obtain seen1 r1 where st: "tls_field up (Suc i) p (seen, r) = Inr (seen1, r1)" by (cases st) auto
    then show ?thesis
      using found_fields_Cons [OF tls_field_found [of up p seen r i, unfolded st] Cons.IH [of seen1 r1 "Suc i"]] by (simp add: split)
  qed
qed

lemma field_entries_nonempty: "field_entries f \<noteq> []"
  by (simp add: field_entries_def)

lemma parse_tlsrpt_arrives:
  assumes "is_tlsrpt s"
  shows "reports_arrive up s \<longleftrightarrow> (case parse_tlsrpt up s of Inl _ \<Rightarrow> False | Inr rec \<Rightarrow> tr_rua rec \<noteq> [] \<and> tr_invalid_uris rec = [])"
proof -
  let ?r = "\<lparr>tr_raw = s, tr_rua = [], tr_invalid_uris = [], tr_extensions = Map.empty\<rparr>"
  obtain fs where fs: "text_fields (tl (split_byte (CHR '';'') s)) = fs" by simp
  have arrive: "reports_arrive up s \<longleftrightarrow>
      fields_ok fs \<and> list_ex (\<lambda>f. field_name f = ''rua'' \<and> list_all (valid_report_uri up) (field_entries f)) fs"
    by (simp add: reports_arrive_def Let_def fs)
  obtain p ps where ps: "split_byte (CHR '';'') s = p # ps" by (cases "split_byte (CHR '';'') s") auto
  have first: "tls_fields up 0 (p # ps) ([], ?r) = tls_fields up (Suc 0) ps ([], ?r)" by (simp add: tls_field_def)
  have found: "found_fields up fs [] ?r (tls_fields up 0 (split_byte (CHR '';'') s) ([], ?r))"
    using tls_fields_found [of up ps "[]" ?r 0] by (simp only: ps first list.sel flip: fs)
  show ?thesis
  proof (cases "tls_fields up 0 (split_byte (CHR '';'') s) ([], ?r)")
    case (Inl e)
    then show ?thesis using found assms by (simp add: found_fields_def arrive parse_tlsrpt_def fresh_fields_def Let_def)
  next
    case (Inr st)
    obtain seen r where st: "st = (seen, r)" by fastforce
    have out: "parse_tlsrpt up s = (if ''rua'' \<notin> set seen then Inl TlsNoRua else Inr r)"
      using assms by (simp add: parse_tlsrpt_def Inr st)
    have ok: "fields_ok fs" "set seen = field_name ` set fs"
      "tr_invalid_uris r = [] \<longleftrightarrow> rua_all (list_all (valid_report_uri up)) fs"
      "tr_rua r = [] \<longleftrightarrow> rua_all (\<lambda>us. \<not> list_ex (valid_report_uri up) us) fs"
      using found by (simp_all add: Inr st found_fields_def fresh_fields_def)
    show ?thesis
    proof (cases "''rua'' \<in> set seen")
      case False
      then have "\<forall>f\<in>set fs. field_name f \<noteq> ''rua''" using ok(2) by (metis image_eqI)
      then show ?thesis using False by (auto simp: out arrive list_ex_iff)
    next
      case True
      then obtain f where f: "f \<in> set fs" "field_name f = ''rua''" using ok(2) by (metis imageE)
      have one: "g = f" if "g \<in> set fs" "field_name g = ''rua''" for g
      proof -
        have "inj_on field_name (set fs)" using ok(1) by (simp add: fields_ok_def distinct_map)
        then show ?thesis by (rule inj_onD) (use f that in simp_all)
      qed
      have rua: "rua_all P fs \<longleftrightarrow> P (field_entries f)" for P
        using f unfolding rua_all_def list_all_iff by (auto dest: one)
      have "reports_arrive up s \<longleftrightarrow> list_all (valid_report_uri up) (field_entries f)"
        using ok(1) f unfolding arrive list_ex_iff by (auto dest: one)
      moreover have "list_all (valid_report_uri up) (field_entries f) \<Longrightarrow> list_ex (valid_report_uri up) (field_entries f)"
        using field_entries_nonempty [of f] by (cases "field_entries f") auto
      ultimately show ?thesis using True ok(3,4) by (auto simp: out rua)
    qed
  qed
qed

lemma not_pass_tls: "rl_severity r \<noteq> SeverityPass \<Longrightarrow> r \<noteq> TLSRPTValid"
  by auto

lemma grade_tlsrpt_valid:
  "list_ex (\<lambda>f. ob_rule f = TLSRPTValid) (grade_tlsrpt name rec) \<longleftrightarrow> tr_rua rec \<noteq> [] \<and> tr_invalid_uris rec = []"
  by (simp add: grade_tlsrpt_def Let_def not_pass_tls observed_max_le)

text \<open>
  Claim C30. Whatever the DNS answers, TLS reporting is reported as valid exactly when the answer for \<^verbatim>\<open>_smtp._tls\<close> of the domain has a
  single TLS reporting record, and its text consists of fields with different names, one of them \<^verbatim>\<open>rua\<close> with
  nothing but usable addresses: \<^verbatim>\<open>mailto\<close> with a plain address or \<^verbatim>\<open>https\<close> with a host and no user.
\<close>

theorem valid_tlsrpt_iff_reports_arrive:
  "list_ex (\<lambda>f. ob_rule f = TLSRPTValid) (ta_findings (fst (fst (run (assess_tlsrpt up domain uses_mtasts) r s)))) \<longleftrightarrow>
     (case fst (lookup_txt r s (''_smtp._tls.'' @ trim_name domain)) of
        Inl _ \<Rightarrow> False
      | Inr txts \<Rightarrow> (case filter is_tlsrpt txts of [record_text] \<Rightarrow> reports_arrive up record_text | _ \<Rightarrow> False))"
proof -
  obtain a s' where a: "lookup_txt r s (''_smtp._tls.'' @ trim_name domain) = (a, s')" by fastforce
  have single: "is_tlsrpt t" if "filter is_tlsrpt txts = [t]" for t txts
    using that by (metis filter_set list.set_intros(1) mem_Collect_eq set_filter)
  show ?thesis
  proof (cases a)
    case (Inl e)
    then show ?thesis using a by (simp add: assess_tlsrpt_def Let_def not_pass_tls)
  next
    case (Inr txts)
    show ?thesis
    proof (cases "filter is_tlsrpt txts")
      case Nil
      then show ?thesis using a Inr by (simp add: assess_tlsrpt_def Let_def not_pass_tls)
    next
      case (Cons t ts)
      show ?thesis
      proof (cases ts)
        case Nil
        then show ?thesis using a Inr Cons parse_tlsrpt_arrives [OF single, of txts t up]
          by (cases "parse_tlsrpt up t") (simp_all add: assess_tlsrpt_def Let_def not_pass_tls grade_tlsrpt_valid)
      next
        case (Cons t' ts')
        then show ?thesis using a Inr \<open>filter is_tlsrpt txts = t # ts\<close> by (simp add: assess_tlsrpt_def Let_def not_pass_tls)
      qed
    qed
  qed
qed

end
