(* ===== verification/MailMime.thy ===== *)
theory MailMime
  imports MailMessage
begin

section \<open>The MIME structure of a message (internal/mailparser/mime.go)\<close>

text \<open>
  The walk over the parts of a message with its limits on parts, depth and bytes.  \<open>ml_media\<close> is
  \<^verbatim>\<open>mime.ParseMediaType\<close>: an error, or a type, its parameters (the empty string stands for a missing one) and whether
  they are valid.  \<open>ml_reader\<close> is \<^verbatim>\<open>multipart.Reader\<close>: the parts that \<^verbatim>\<open>NextRawPart\<close> returns for a body and a boundary, and
  whether an error other than the end of the body follows them; a part is truncated when reading it fails.
  The state of the walk holds the defects it found, newest last.
\<close>

datatype media_answer = MediaError | MediaAnswer (media_type_of: string) (media_params: "string \<Rightarrow> string") (media_valid: bool)

record raw_part =
  rp_header :: "string \<Rightarrow> string"
  rp_content :: string
  rp_truncated :: bool

record mime_lib =
  ml_media :: "string \<Rightarrow> media_answer"
  ml_reader :: "string \<Rightarrow> string \<Rightarrow> raw_part list \<times> bool"

record mime_fields =
  mf_content_type :: string
  mf_charset :: string
  mf_boundary :: string
  mf_disposition :: string
  mf_filename :: string
  mf_encoding :: string
  mf_size :: nat
  mf_depth :: nat

datatype mime_part = MimePart (part_fields: mime_fields) (part_parts: "mime_part list")

record mime_state =
  mw_defects :: "defect_kind list"
  mw_parts :: nat
  mw_examined :: nat
  mw_stopped :: bool

fun attachments :: "mime_part \<Rightarrow> mime_fields list" where
  "attachments (MimePart f ps) =
     (if mf_filename f \<noteq> [] \<or> mf_disposition f = ''attachment'' then [f] else []) @ concat (map attachments ps)"

subsection \<open>The header fields of a part\<close>

definition noted :: "defect_kind \<Rightarrow> mime_state \<Rightarrow> mime_state" where
  "noted k st = st\<lparr>mw_defects := mw_defects st @ [k]\<rparr>"

definition stop_walk :: "defect_kind \<Rightarrow> mime_state \<Rightarrow> mime_state" where
  "stop_walk k st = (noted k st)\<lparr>mw_stopped := True\<rparr>"

definition set_media :: "media_answer \<Rightarrow> mime_fields \<Rightarrow> mime_fields" where
  "set_media a f = f\<lparr>mf_content_type := media_type_of a, mf_charset := media_params a ''charset'',
     mf_boundary := media_params a ''boundary'',
     mf_filename := (if media_params a ''name'' \<noteq> [] then media_params a ''name'' else mf_filename f)\<rparr>"

definition read_content_type :: "mime_lib \<Rightarrow> string \<Rightarrow> mime_fields \<Rightarrow> mime_fields \<times> defect_kind list" where
  "read_content_type lib ct f = (
     if ct = [] then (f, [])
     else case ml_media lib ct of
       MediaError \<Rightarrow> (f, [DefectMIMEInvalidContentType])
     | MediaAnswer t ps valid \<Rightarrow>
         (set_media (MediaAnswer t ps valid) f, if valid then [] else [DefectMIMEInvalidContentType]))"

definition read_disposition :: "mime_lib \<Rightarrow> string \<Rightarrow> mime_fields \<Rightarrow> mime_fields" where
  "read_disposition lib cd f = (
     if cd = [] then f
     else case ml_media lib cd of
       MediaError \<Rightarrow> f
     | MediaAnswer t ps valid \<Rightarrow>
         if valid then f\<lparr>mf_disposition := t, mf_filename := (if ps ''filename'' \<noteq> [] then ps ''filename'' else mf_filename f)\<rparr>
         else f)"

definition known_encodings :: "string list" where
  "known_encodings = [''7bit'', ''8bit'', ''binary'', ''quoted-printable'', ''base64'']"

definition read_encoding :: "string \<Rightarrow> mime_fields \<Rightarrow> mime_fields \<times> defect_kind list" where
  "read_encoding val f = (let cte = to_lower (trim_space val) in
     if cte = [] then (f, [])
     else (f\<lparr>mf_encoding := cte\<rparr>, if cte \<in> set known_encodings then [] else [DefectMIMEBadEncoding]))"

definition read_fields :: "mime_lib \<Rightarrow> (string \<Rightarrow> string) \<Rightarrow> string \<Rightarrow> nat \<Rightarrow> mime_fields \<times> defect_kind list" where
  "read_fields lib h body depth = (
     let f0 = \<lparr>mf_content_type = ''text/plain'', mf_charset = [], mf_boundary = [], mf_disposition = [], mf_filename = [],
                mf_encoding = [], mf_size = length body, mf_depth = depth\<rparr>;
         (f1, ds1) = read_content_type lib (h ''Content-Type'') f0;
         f2 = read_disposition lib (h ''Content-Disposition'') f1;
         (f3, ds3) = read_encoding (h ''Content-Transfer-Encoding'') f2
     in (f3, ds1 @ ds3))"

subsection \<open>The walk\<close>

text \<open>The loop over the parts that the reader returns; \<open>wk\<close> is the walk of one part.\<close>

type_synonym part_walker = "(string \<Rightarrow> string) \<Rightarrow> string \<Rightarrow> mime_state \<Rightarrow> mime_part \<times> mime_state"

definition out_of_parts :: "mail_limits \<Rightarrow> mime_state \<Rightarrow> bool" where
  "out_of_parts lim st \<longleftrightarrow> max_mime_parts lim \<le> int (mw_parts st)"

fun part_loop :: "part_walker \<Rightarrow> mail_limits \<Rightarrow> nat \<Rightarrow> raw_part list \<Rightarrow> bool \<Rightarrow> mime_state \<Rightarrow> mime_part list \<times> mime_state" where
  "part_loop wk lim mx [] malformed st =
     (if mw_stopped st then ([], st)
      else if out_of_parts lim st then ([], stop_walk DefectMIMEPartsExceeded st)
      else ([], if malformed then noted DefectMIMEUnterminated st else st))"
| "part_loop wk lim mx (r # rs) malformed st =
     (if mw_stopped st then ([], st)
      else if out_of_parts lim st then ([], stop_walk DefectMIMEPartsExceeded st)
      else
        let content = take (mx - mw_examined st + 1) (rp_content r);
            st1 = st\<lparr>mw_examined := mw_examined st + length content\<rparr>
        in if mx < mw_examined st1 then ([], stop_walk DefectMIMESizeExceeded st1)
           else if rp_truncated r then
             (case wk (rp_header r) content (noted DefectMIMEUnterminated st1) of (p, st2) \<Rightarrow> ([p], st2))
           else (case wk (rp_header r) content st1 of (p, st2) \<Rightarrow>
             (case part_loop wk lim mx rs malformed st2 of (ps, st3) \<Rightarrow> (p # ps, st3))))"

lemma part_loop_cong [fundef_cong]:
  assumes "\<And>h c st. wk h c st = wk' h c st"
  shows "part_loop wk lim mx rs malformed st = part_loop wk' lim mx rs malformed st"
proof -
  have "wk = wk'" by (intro ext) (rule assms)
  then show ?thesis by simp
qed

function walk_part :: "mime_lib \<Rightarrow> mail_limits \<Rightarrow> nat \<Rightarrow> nat \<Rightarrow> part_walker" where
  "walk_part lib lim mx depth h body st = (case read_fields lib h body depth of (f, ds) \<Rightarrow>
     let st1 = st\<lparr>mw_parts := mw_parts st + 1, mw_defects := mw_defects st @ ds\<rparr> in
     if \<not> has_prefix (mf_content_type f) ''multipart/'' then (MimePart f [], st1)
     else if max_mime_depth lim \<le> int depth then
       (MimePart f [], if mw_stopped st1 then st1 else stop_walk DefectMIMEDepthExceeded st1)
     else if mf_boundary f = [] then (MimePart f [], noted DefectMIMEMissingBoundary st1)
     else if \<not> contains_sub body (''--'' @ mf_boundary f) then (MimePart f [], noted DefectMIMENoParts st1)
     else case ml_reader lib body (mf_boundary f) of (rs, malformed) \<Rightarrow>
       (case part_loop (walk_part lib lim mx (depth + 1)) lim mx rs malformed st1 of (ps, st2) \<Rightarrow>
         (MimePart f ps, if ps = [] \<and> \<not> mw_stopped st2 then noted DefectMIMENoParts st2 else st2)))"
  by auto
termination
  by (relation "measure (\<lambda>(lib, lim, mx, depth, h, body, st). nat (max_mime_depth lim - int depth))") auto

declare walk_part.simps [simp del]

definition max_examined :: "message \<Rightarrow> nat" where
  "max_examined m = 2 * length (ms_body m) + 1048576"

definition parse_mime :: "mime_lib \<Rightarrow> mail_limits \<Rightarrow> message \<Rightarrow> mime_part \<times> message" where
  "parse_mime lib lim m = (
     if first_header m ''Content-Type'' = None then
       (MimePart \<lparr>mf_content_type = ''text/plain'', mf_charset = ''us-ascii'', mf_boundary = [], mf_disposition = [],
          mf_filename = [], mf_encoding = [], mf_size = length (ms_body m), mf_depth = 0\<rparr> [], m)
     else
       let get = (\<lambda>key. case first_header m key of None \<Rightarrow> [] | Some v \<Rightarrow> v);
           (p, st) = walk_part lib lim (max_examined m) 0 get (ms_body m)
             \<lparr>mw_defects = [], mw_parts = 0, mw_examined = 0, mw_stopped = False\<rparr>;
           m1 = m\<lparr>ms_defects := ms_defects m @ mw_defects st\<rparr>
       in (p, if first_header m ''MIME-Version'' = None \<and> has_prefix (mf_content_type (part_fields p)) ''multipart/''
              then defect DefectMIMEMissingVersion m1 else m1))"

end
