(* ===== verification/MailMimeProps.thy ===== *)
theory MailMimeProps
  imports MailMime
begin

section \<open>What the walk over MIME parts guarantees\<close>

text \<open>The size of a tree of parts, its depth, and how many bytes its inner parts hold.\<close>

fun count_parts :: "mime_part \<Rightarrow> nat" where
  "count_parts (MimePart f ps) = 1 + sum_list (map count_parts ps)"

fun nested_size :: "mime_part \<Rightarrow> nat" where
  "nested_size (MimePart f ps) = sum_list (map (\<lambda>p. mf_size (part_fields p) + nested_size p) ps)"

fun depths_within :: "int \<Rightarrow> mime_part \<Rightarrow> bool" where
  "depths_within d (MimePart f ps) \<longleftrightarrow> int (mf_depth f) \<le> d \<and> list_all (depths_within d) ps"

text \<open>
  The tree without limits: a multipart body has the parts that the reader finds in it, up to one that is cut off.
\<close>

definition opens_multipart :: "mime_fields \<Rightarrow> string \<Rightarrow> bool" where
  "opens_multipart f body \<longleftrightarrow> has_prefix (mf_content_type f) ''multipart/'' \<and> mf_boundary f \<noteq> []
     \<and> contains_sub body (''--'' @ mf_boundary f)"

fun up_to_truncated :: "raw_part list \<Rightarrow> raw_part list" where
  "up_to_truncated [] = []"
| "up_to_truncated (r # rs) = r # (if rp_truncated r then [] else up_to_truncated rs)"

inductive mime_tree :: "mime_lib \<Rightarrow> (string \<Rightarrow> string) \<Rightarrow> string \<Rightarrow> nat \<Rightarrow> mime_part \<Rightarrow> bool" for lib where
  leaf: "\<not> opens_multipart (fst (read_fields lib h body depth)) body
    \<Longrightarrow> mime_tree lib h body depth (MimePart (fst (read_fields lib h body depth)) [])"
| multi: "opens_multipart (fst (read_fields lib h body depth)) body
    \<Longrightarrow> list_all2 (\<lambda>r p. mime_tree lib (rp_header r) (rp_content r) (depth + 1) p)
          (up_to_truncated (fst (ml_reader lib body (mf_boundary (fst (read_fields lib h body depth)))))) ps
    \<Longrightarrow> mime_tree lib h body depth (MimePart (fst (read_fields lib h body depth)) ps)"

definition is_limit_defect :: "defect_kind \<Rightarrow> bool" where
  "is_limit_defect k \<longleftrightarrow> k \<in> {DefectMIMEDepthExceeded, DefectMIMEPartsExceeded, DefectMIMESizeExceeded}"

subsection \<open>The invariant\<close>

definition room :: "nat \<Rightarrow> mime_state \<Rightarrow> bool" where
  "room mx st \<longleftrightarrow> (if mw_stopped st then list_ex is_limit_defect (mw_defects st) else mw_examined st \<le> mx)"

definition part_ok :: "mime_lib \<Rightarrow> mail_limits \<Rightarrow> nat \<Rightarrow> nat \<Rightarrow> (string \<Rightarrow> string) \<Rightarrow> string \<Rightarrow> mime_state \<Rightarrow> mime_part \<Rightarrow> mime_state \<Rightarrow> bool" where
  "part_ok lib lim mx depth h body st p st' \<longleftrightarrow>
     mw_parts st' = mw_parts st + count_parts p
     \<and> int (mw_parts st') \<le> max (int (mw_parts st) + 1) (max_mime_parts lim)
     \<and> depths_within (max (int depth) (max_mime_depth lim)) p
     \<and> mw_examined st + nested_size p \<le> min mx (mw_examined st')
     \<and> room mx st' \<and> mf_size (part_fields p) = length body
     \<and> (mw_stopped st' \<or> mime_tree lib h body depth p)"

definition parts_ok :: "mime_lib \<Rightarrow> mail_limits \<Rightarrow> nat \<Rightarrow> nat \<Rightarrow> raw_part list \<Rightarrow> mime_state \<Rightarrow> mime_part list \<Rightarrow> mime_state \<Rightarrow> bool" where
  "parts_ok lib lim mx depth rs st ps st' \<longleftrightarrow>
     mw_parts st' = mw_parts st + sum_list (map count_parts ps)
     \<and> int (mw_parts st') \<le> max (int (mw_parts st)) (max_mime_parts lim)
     \<and> list_all (depths_within (max (int depth) (max_mime_depth lim))) ps
     \<and> mw_examined st + sum_list (map (\<lambda>p. mf_size (part_fields p) + nested_size p) ps) \<le> min mx (mw_examined st')
     \<and> room mx st'
     \<and> (mw_stopped st' \<or> list_all2 (\<lambda>r p. mime_tree lib (rp_header r) (rp_content r) depth p) (up_to_truncated rs) ps)"

lemma noted_simps [simp]:
  "mw_defects (noted k st) = mw_defects st @ [k]" "mw_parts (noted k st) = mw_parts st"
  "mw_examined (noted k st) = mw_examined st" "mw_stopped (noted k st) = mw_stopped st"
  "mw_defects (stop_walk k st) = mw_defects st @ [k]" "mw_parts (stop_walk k st) = mw_parts st"
  "mw_examined (stop_walk k st) = mw_examined st" "mw_stopped (stop_walk k st)"
  by (simp_all add: noted_def stop_walk_def)

lemma limit_defects [simp]:
  "is_limit_defect DefectMIMEDepthExceeded" "is_limit_defect DefectMIMEPartsExceeded" "is_limit_defect DefectMIMESizeExceeded"
  by (simp_all add: is_limit_defect_def)

lemma room_noted [simp]: "room mx st \<Longrightarrow> room mx (noted k st)"
  by (auto simp: room_def)

lemma room_stop: "is_limit_defect k \<Longrightarrow> room mx (stop_walk k st)"
  by (simp add: room_def)

lemma read_fields_size [simp]:
  "mf_size (fst (read_fields lib h body depth)) = length body" "mf_depth (fst (read_fields lib h body depth)) = depth"
  by (auto simp: read_fields_def read_content_type_def read_disposition_def read_encoding_def set_media_def Let_def
      case_prod_unfold split: media_answer.split)

lemma part_loop_stopped: "mw_stopped st \<Longrightarrow> part_loop wk lim mx rs e st = ([], st)"
  by (cases rs) auto

text \<open>The parts that a loop reads, after the counter has been raised by the bytes of the first.\<close>

lemma parts_ok_single:
  assumes "part_ok lib lim mx depth (rp_header r) (rp_content r) st1 p st2" and "rp_truncated r"
    and "mw_parts st1 = mw_parts st" "mw_examined st1 = mw_examined st + length (rp_content r)" "\<not> out_of_parts lim st"
  shows "parts_ok lib lim mx depth (r # rs) st [p] st2"
  using assms by (auto simp: parts_ok_def part_ok_def out_of_parts_def)

lemma parts_ok_stopped:
  assumes "part_ok lib lim mx depth (rp_header r) (rp_content r) st1 p st2" and "mw_stopped st2"
    and "mw_parts st1 = mw_parts st" "mw_examined st1 = mw_examined st + length (rp_content r)" "\<not> out_of_parts lim st"
  shows "parts_ok lib lim mx depth (r # rs) st [p] st2"
  using assms by (auto simp: parts_ok_def part_ok_def out_of_parts_def)

lemma parts_ok_Cons:
  assumes "part_ok lib lim mx depth (rp_header r) (rp_content r) st1 p st2" and "\<not> mw_stopped st2"
    and "parts_ok lib lim mx depth rs st2 ps st3" and "\<not> rp_truncated r"
    and "mw_parts st1 = mw_parts st" "mw_examined st1 = mw_examined st + length (rp_content r)" "\<not> out_of_parts lim st"
  shows "parts_ok lib lim mx depth (r # rs) st (p # ps) st3"
  using assms by (auto simp: parts_ok_def part_ok_def out_of_parts_def)

lemma part_loop_ok:
  assumes wk: "\<And>h c st. \<not> mw_stopped st \<Longrightarrow> mw_examined st \<le> mx
      \<Longrightarrow> part_ok lib lim mx depth h c st (fst (wk h c st)) (snd (wk h c st))"
  shows "\<not> mw_stopped st \<Longrightarrow> mw_examined st \<le> mx
    \<Longrightarrow> parts_ok lib lim mx depth rs st (fst (part_loop wk lim mx rs e st)) (snd (part_loop wk lim mx rs e st))"
proof (induction rs arbitrary: st)
  case Nil
  then show ?case by (simp add: parts_ok_def room_def out_of_parts_def)
next
  case (Cons r rs)
  let ?content = "take (mx - mw_examined st + 1) (rp_content r)"
  let ?st1 = "st\<lparr>mw_examined := mw_examined st + length ?content\<rparr>"
  show ?case
  proof (cases "out_of_parts lim st \<or> mx < mw_examined ?st1")
    case True
    then show ?thesis using Cons.prems by (auto simp: parts_ok_def room_def Let_def out_of_parts_def)
  next
    case False
    then have whole: "?content = rp_content r" by (auto simp: min_def split: if_splits)
    note start = False [unfolded whole] Cons.prems
    let ?st1 = "st\<lparr>mw_examined := mw_examined st + length (rp_content r)\<rparr>"
    show ?thesis
    proof (cases "rp_truncated r")
      case True
      let ?st = "noted DefectMIMEUnterminated ?st1"
      have "part_ok lib lim mx depth (rp_header r) (rp_content r) ?st (fst (wk (rp_header r) (rp_content r) ?st))
          (snd (wk (rp_header r) (rp_content r) ?st))" using start by (intro wk) auto
      then have "parts_ok lib lim mx depth (r # rs) st [fst (wk (rp_header r) (rp_content r) ?st)] (snd (wk (rp_header r) (rp_content r) ?st))"
        by (rule parts_ok_single [OF _ True]) (use start in auto)
      then show ?thesis using start True whole by (simp add: Let_def case_prod_unfold)
    next
      case whole_part: False
      obtain p st2 where w: "wk (rp_header r) (rp_content r) ?st1 = (p, st2)" by fastforce
      have p: "part_ok lib lim mx depth (rp_header r) (rp_content r) ?st1 p st2"
        using wk [of ?st1 "rp_header r" "rp_content r"] start w by simp
      have "parts_ok lib lim mx depth (r # rs) st (p # fst (part_loop wk lim mx rs e st2)) (snd (part_loop wk lim mx rs e st2))"
      proof (cases "mw_stopped st2")
        case True
        then show ?thesis using parts_ok_stopped [OF p True] start by (simp add: part_loop_stopped)
      next
        case running: False
        then show ?thesis using p start whole_part
          by (intro parts_ok_Cons [OF p running Cons.IH [OF running]]) (auto simp: part_ok_def room_def)
      qed
      then show ?thesis using start whole whole_part w by (simp add: Let_def case_prod_unfold)
    qed
  qed
qed

lemma walk_part_ok:
  "\<not> mw_stopped st \<Longrightarrow> mw_examined st \<le> mx
    \<Longrightarrow> part_ok lib lim mx depth h body st (fst (walk_part lib lim mx depth h body st)) (snd (walk_part lib lim mx depth h body st))"
proof (induction lib lim mx depth h body st rule: walk_part.induct)
  case (1 lib lim mx depth h body st)
  let ?f = "fst (read_fields lib h body depth)"
  define st1 where "st1 = st\<lparr>mw_parts := mw_parts st + 1, mw_defects := mw_defects st @ snd (read_fields lib h body depth)\<rparr>"
  have st1: "mw_parts st1 = mw_parts st + 1" "\<not> mw_stopped st1" "mw_examined st1 = mw_examined st"
    using "1.prems" by (simp_all add: st1_def)
  have leaf: "part_ok lib lim mx depth h body st (MimePart ?f []) st'"
    if "mw_parts st' = mw_parts st1" "mw_examined st' = mw_examined st1" "room mx st'"
      "mw_stopped st' \<or> \<not> opens_multipart ?f body" for st'
    using that st1 "1.prems" by (auto simp: part_ok_def intro: mime_tree.leaf)
  show ?case
  proof (cases "opens_multipart ?f body \<and> \<not> max_mime_depth lim \<le> int depth")
    case False
    then show ?thesis
      using leaf [of st1] leaf [of "stop_walk DefectMIMEDepthExceeded st1"] leaf [of "noted DefectMIMEMissingBoundary st1"]
        leaf [of "noted DefectMIMENoParts st1"] st1 "1.prems"
      unfolding walk_part.simps [of lib lim mx depth h body st] case_prod_unfold st1_def [symmetric] opens_multipart_def
      by (auto simp: room_def Let_def)
  next
    case True
    define rs where "rs = fst (ml_reader lib body (mf_boundary ?f))"
    define e where "e = snd (ml_reader lib body (mf_boundary ?f))"
    obtain ps st2 where l: "part_loop (walk_part lib lim mx (depth + 1)) lim mx rs e st1 = (ps, st2)" by fastforce
    have run: "walk_part lib lim mx depth h body st
        = (MimePart ?f ps, if ps = [] \<and> \<not> mw_stopped st2 then noted DefectMIMENoParts st2 else st2)"
      using True l unfolding walk_part.simps [of lib lim mx depth h body st] case_prod_unfold st1_def [symmetric]
        opens_multipart_def rs_def e_def by (simp add: Let_def)
    have inner: "part_ok lib lim mx (depth + 1) h c s (fst (walk_part lib lim mx (depth + 1) h c s))
        (snd (walk_part lib lim mx (depth + 1) h c s))" if "\<not> mw_stopped s" "mw_examined s \<le> mx" for h c s
      using True that by (intro "1.IH" [OF prod.collapse st1_def _ _ _ _ prod.collapse]) (auto simp: opens_multipart_def)
    have "parts_ok lib lim mx (depth + 1) rs st1 ps st2"
      using part_loop_ok [OF inner, of st1 rs e] st1 "1.prems" l by simp
    moreover have "max (int (depth + 1)) (max_mime_depth lim) = max (int depth) (max_mime_depth lim)"
      using True by simp
    moreover have "mime_tree lib h body depth (MimePart ?f ps)"
      if "list_all2 (\<lambda>r p. mime_tree lib (rp_header r) (rp_content r) (depth + 1) p) (up_to_truncated rs) ps"
      using mime_tree.multi [of lib h body depth ps] True that unfolding rs_def by simp
    ultimately show ?thesis using st1 "1.prems" unfolding run
      by (auto simp: parts_ok_def part_ok_def)
  qed
qed

subsection \<open>The structure of a message\<close>

definition header_value :: "message \<Rightarrow> string \<Rightarrow> string" where
  "header_value m key = (case first_header m key of None \<Rightarrow> [] | Some v \<Rightarrow> v)"

text \<open>The structure of a message when nothing is left out.\<close>

definition full_structure :: "mime_lib \<Rightarrow> message \<Rightarrow> mime_part \<Rightarrow> bool" where
  "full_structure lib m p \<longleftrightarrow> (if first_header m ''Content-Type'' = None
     then mf_content_type (part_fields p) = ''text/plain'' \<and> mf_filename (part_fields p) = []
        \<and> mf_size (part_fields p) = length (ms_body m) \<and> part_parts p = []
     else mime_tree lib (header_value m) (ms_body m) 0 p)"

definition new_defects :: "message \<Rightarrow> message \<Rightarrow> defect_kind list" where
  "new_defects m m' = drop (length (ms_defects m)) (ms_defects m')"

lemma parse_mime_ok:
  "case parse_mime lib lim m of (p, m') \<Rightarrow>
     int (count_parts p) \<le> max 1 (max_mime_parts lim)
     \<and> depths_within (max 0 (max_mime_depth lim)) p
     \<and> nested_size p \<le> 2 * length (ms_body m) + 1048576
     \<and> (list_ex is_limit_defect (new_defects m m') \<or> full_structure lib m p)"
proof (cases "first_header m ''Content-Type''")
  case None
  then show ?thesis by (simp add: parse_mime_def full_structure_def)
next
  case (Some ct)
  let ?st = "\<lparr>mw_defects = [], mw_parts = 0, mw_examined = 0, mw_stopped = False\<rparr>"
  obtain p st where w: "walk_part lib lim (max_examined m) 0 (header_value m) (ms_body m) ?st = (p, st)" by fastforce
  have ok: "part_ok lib lim (max_examined m) 0 (header_value m) (ms_body m) ?st p st"
    using walk_part_ok [of ?st "max_examined m" lib lim 0 "header_value m" "ms_body m"] w by simp
  have "(\<lambda>key. case first_header m key of None \<Rightarrow> [] | Some v \<Rightarrow> v) = header_value m"
    by (simp add: fun_eq_iff header_value_def)
  then show ?thesis using ok w Some
    by (auto simp: parse_mime_def Let_def part_ok_def room_def new_defects_def full_structure_def max_examined_def
        defect_def header_value_def)
qed

text \<open>
  Claim C36. Whatever the content types and the reader of the parts return, the tree of a message has at most the allowed number
  of parts and levels, and the inner parts hold at most twice the body and one mebibyte.
\<close>

theorem mime_walk_is_bounded:
  "case parse_mime lib lim m of (p, m') \<Rightarrow>
     int (count_parts p) \<le> max 1 (max_mime_parts lim)
     \<and> depths_within (max 0 (max_mime_depth lim)) p
     \<and> nested_size p \<le> 2 * length (ms_body m) + 1048576"
  using parse_mime_ok [where lib = lib and lim = lim and m = m] by (simp add: case_prod_unfold)

text \<open>
  The tree is the whole structure of the message as the reader finds it, or the message has a defect that says which
  limit was met: no part is left out silently.
\<close>

theorem mime_structure_complete:
  "case parse_mime lib lim m of (p, m') \<Rightarrow> list_ex is_limit_defect (new_defects m m') \<or> full_structure lib m p"
  using parse_mime_ok [where lib = lib and lim = lim and m = m] by (simp add: case_prod_unfold)

subsection \<open>The bytes of a message\<close>

lemma parse_mime_keeps:
  "ms_headers (snd (parse_mime lib lim m)) = ms_headers m" "ms_body (snd (parse_mime lib lim m)) = ms_body m"
  "set (ms_defects m) \<subseteq> set (ms_defects (snd (parse_mime lib lim m)))"
  by (auto simp: parse_mime_def Let_def defect_def split: prod.split)

text \<open>
  Claim C26. Parsing a message, with its MIME parts or only its header section, loses no byte, as the verification of DKIM
  signatures needs it.  The bytes of a message that is accepted are, in this order: continuation lines before the first
  field, which no field keeps (if there are any, a defect says so), the raw bytes of the header fields, the line break
  that ends the header section, which no field keeps either, and the body; the line break may be missing only when there is no
  body or a defect says that the header section has no end.  Every field has a valid name, which stands before its first
  colon, and its value is what follows, unfolded; and there are at most as many fields as the limit allows.
\<close>

theorem message_bytes_kept:
  "case parse_bytes (\<lambda>lim m. snd (parse_mime lib lim m)) headers_only lim data of Inl _ \<Rightarrow> True
   | Inr m \<Rightarrow> list_all header_ok (ms_headers m) \<and> int (length (ms_headers m)) \<le> max_headers (with_defaults lim)
     \<and> (\<exists>skipped sep. data = skipped @ concat (map hd_raw (ms_headers m)) @ sep @ ms_body m
          \<and> continuations skipped \<and> (if skipped = [] then True else DefectLeadingContinuation \<in> set (ms_defects m))
          \<and> (if sep = [] then ms_body m = [] \<or> DefectNoBodySeparator \<in> set (ms_defects m) else sep \<in> {[lf], crlf, [cr]}))"
proof -
  let ?walk = "\<lambda>lim m. snd (parse_mime lib lim m)"
  have only: "divides data (with_defaults lim) m" if "parse_bytes ?walk True lim data = Inr m" for m
    using that by (rule parse_bytes_divides)
  have "divides data (with_defaults lim) m" if parsed: "parse_bytes ?walk headers_only lim data = Inr m" for m
  proof (cases headers_only)
    case True
    then show ?thesis using only parsed by simp
  next
    case False
    then obtain m0 where "parse_bytes ?walk True lim data = Inr m0"
        "m = snd (parse_mime lib (with_defaults lim) (m0\<lparr>ms_body_available := True\<rparr>))"
      using parsed by (cases "parse_bytes ?walk True lim data") (auto simp: parse_bytes_full)
    then show ?thesis
      using parse_mime_keeps [where lib = lib and lim = "with_defaults lim" and m = "m0\<lparr>ms_body_available := True\<rparr>"]
      by (intro divides_mono [OF only]) auto
  qed
  then show ?thesis unfolding divides_def [symmetric] by (simp split: sum.split)
qed

end
