(* ===== verification/Received.thy ===== *)
theory Received
  imports Netip Findings
begin

section \<open>Received header fields (internal/received/received.go)\<close>

text \<open>
  The tokenizer, the clauses, and what is read from them.  The date is read by \<open>parse_date\<close>, a parameter that stands for
  \<^verbatim>\<open>mail.ParseDate\<close>: the time in nanoseconds since the epoch, or no value.  A value carries its provenance; a problem
  is a constructor with the text it quotes.
\<close>

datatype provenance = Stated | Inferred

record traced =
  tv_value :: string
  tv_source :: provenance

abbreviation stated :: "string \<Rightarrow> traced" where "stated v \<equiv> \<lparr>tv_value = v, tv_source = Stated\<rparr>"
abbreviation deduced :: "string \<Rightarrow> traced" where "deduced v \<equiv> \<lparr>tv_value = v, tv_source = Inferred\<rparr>"

record hop_tls =
  ht_used :: bool
  ht_version :: string
  ht_cipher :: string
  ht_source :: provenance

datatype hop_problem = UnparseableDate string | MissingDate | TextBeforeClause string | MissingBy | NoClauses | EmptyFrom

record hop =
  hop_index :: nat
  hop_raw :: string
  hop_from_host :: "traced option"
  hop_helo :: "traced option"
  hop_reverse_dns :: "traced option"
  hop_ip :: "traced option"
  hop_by :: "traced option"
  hop_via :: string
  hop_protocol :: string
  hop_id :: string
  hop_for :: string
  hop_timestamp :: "int option"
  hop_tls_info :: "hop_tls option"
  hop_delay :: "int option"
  hop_problems :: "hop_problem list"

definition hop_addr :: "hop \<Rightarrow> addr option" where
  "hop_addr h = (case hop_ip h of None \<Rightarrow> None | Some f \<Rightarrow> parse_addr (tv_value f))"

subsection \<open>Tokens\<close>

datatype received_token = WordTok (tok_text: string) | CommentTok (tok_text: string)

text \<open>How many bytes there are before the parenthesis that closes the comment, or up to the end of the text.\<close>

fun comment_len :: "nat \<Rightarrow> string \<Rightarrow> nat" where
  "comment_len d [] = 0"
| "comment_len d [c] = (if c = CHR '')'' \<and> d = 1 then 0 else 1)"
| "comment_len d (c # e # s) =
     (if c = CHR 0x5C then 2 + comment_len d s
      else if c = CHR ''('' then 1 + comment_len (d + 1) (e # s)
      else if c = CHR '')'' then (if d = 1 then 0 else 1 + comment_len (d - 1) (e # s))
      else 1 + comment_len d (e # s))"

text \<open>The same for the quotation mark that ends a quoted string.\<close>

fun quoted_len :: "string \<Rightarrow> nat" where
  "quoted_len [] = 0"
| "quoted_len [c] = (if c = CHR 0x22 then 0 else 1)"
| "quoted_len (c # e # s) = (if c = CHR 0x22 then 0 else if c = CHR 0x5C then 2 + quoted_len s else 1 + quoted_len (e # s))"

definition plain_byte :: "char \<Rightarrow> bool" where
  "plain_byte c \<longleftrightarrow> c \<notin> set fws \<and> c \<noteq> CHR ''(''"

function tokenize :: "string \<Rightarrow> received_token list" where
  "tokenize [] = []"
| "tokenize (c # s) =
     (if c \<in> set fws then tokenize s
      else if c = CHR ''('' then
        (let n = comment_len 1 s in CommentTok (trim_space (take n s)) # tokenize (drop (n + 1) s))
      else if c = CHR 0x22 then
        (let n = quoted_len s in WordTok (c # take (n + 1) s) # tokenize (drop (n + 1) s))
      else WordTok (c # takeWhile plain_byte s) # tokenize (dropWhile plain_byte s))"
  by pat_completeness auto
termination
proof (relation "measure length", goal_cases)
  case (5 c s)
  then show ?case using length_dropWhile_le [of plain_byte s] by simp
qed auto

declare tokenize.simps(2) [simp del]

subsection \<open>Clauses\<close>

definition clause_keywords :: "string list" where
  "clause_keywords = [''from'', ''by'', ''via'', ''with'', ''id'', ''for'']"

record clause =
  cl_name :: string
  cl_words :: "string list"
  cl_comments :: "string list"
  cl_words_before_comment :: nat

text \<open>The state of the loop over the tokens: \<open>cs_cur\<close> is the last clause.\<close>

record clause_state =
  cs_done :: "clause list"
  cs_cur :: "clause option"
  cs_comments :: "string list"
  cs_problems :: "hop_problem list"

definition new_clause :: "string \<Rightarrow> clause" where
  "new_clause name = \<lparr>cl_name = name, cl_words = [], cl_comments = [], cl_words_before_comment = 0\<rparr>"

definition all_clauses :: "clause_state \<Rightarrow> clause list" where
  "all_clauses st = cs_done st @ (case cs_cur st of None \<Rightarrow> [] | Some c \<Rightarrow> [c])"

definition open_clause :: "string \<Rightarrow> clause_state \<Rightarrow> clause_state" where
  "open_clause name st = st\<lparr>cs_done := all_clauses st, cs_cur := Some (new_clause name)\<rparr>"

definition add_comment :: "string \<Rightarrow> clause \<Rightarrow> clause" where
  "add_comment s c = c\<lparr>cl_words_before_comment := (if cl_comments c = [] then length (cl_words c) else cl_words_before_comment c),
     cl_comments := cl_comments c @ [s]\<rparr>"

definition starts_clause :: "string \<Rightarrow> clause option \<Rightarrow> bool" where
  "starts_clause kw cur \<longleftrightarrow> kw \<in> set clause_keywords
     \<and> (case cur of None \<Rightarrow> True | Some c \<Rightarrow> cl_words c \<noteq> [] \<or> kw \<noteq> cl_name c)"

fun clause_step :: "received_token \<Rightarrow> clause_state \<Rightarrow> clause_state" where
  "clause_step (CommentTok s) st = st\<lparr>cs_comments := cs_comments st @ [s], cs_cur := map_option (add_comment s) (cs_cur st)\<rparr>"
| "clause_step (WordTok s) st =
     (if starts_clause (to_lower s) (cs_cur st) then open_clause (to_lower s) st
      else
        let st1 = (if cs_cur st = None
              then open_clause ''?'' (st\<lparr>cs_problems := cs_problems st @ [TextBeforeClause s]\<rparr>) else st)
        in st1\<lparr>cs_cur := map_option (\<lambda>c. c\<lparr>cl_words := cl_words c @ [s]\<rparr>) (cs_cur st1)\<rparr>)"

subsection \<open>The from clause\<close>

definition address_literal :: "string \<Rightarrow> addr option" where
  "address_literal s0 = (let s = trim_right s0 [CHR '';'', CHR '','']  in
     if \<not> has_prefix s ''['' \<or> \<not> has_suffix s '']'' then None
     else let inner = take (length s - 2) (drop 1 s);
              inner = (if 5 < length inner \<and> equal_fold (take 5 inner) ''ipv6:'' then drop 5 inner else inner)
          in map_option unmap (parse_addr inner))"

definition set_ip :: "addr \<Rightarrow> hop \<Rightarrow> hop" where
  "set_ip ip h = h\<lparr>hop_ip := Some (stated (addr_string ip))\<rparr>"

definition from_word :: "string \<Rightarrow> hop \<Rightarrow> hop" where
  "from_word word h = (
     if has_prefix (to_lower word) ''helo='' then h\<lparr>hop_helo := Some (stated (drop 5 word))\<rparr>
     else if hop_ip h \<noteq> None then h
     else case address_literal word of
            Some ip \<Rightarrow> set_ip ip h
          | None \<Rightarrow> (case parse_addr (trim_set word [CHR ''['', CHR '']'']) of
              Some ip \<Rightarrow> set_ip (unmap ip) h
            | None \<Rightarrow> h))"

definition comment_words :: "string \<Rightarrow> string list" where
  "comment_words c = fields_func (\<lambda>b. b = CHR '' '' \<or> b = tab \<or> b = CHR '','') c []"

text \<open>One comment of the from clause; the second component is the reverse name found so far.\<close>

definition from_comment :: "string \<Rightarrow> hop \<times> string \<Rightarrow> hop \<times> string" where
  "from_comment c st = (case st of (h0, rdns) \<Rightarrow>
     let h = fold from_word (comment_words c) h0; f = space_fields c;
         h = (if length f = 2 \<and> (equal_fold (f ! 0) ''HELO'' \<or> equal_fold (f ! 0) ''EHLO'')
              then h\<lparr>hop_helo := Some (stated (f ! 1))\<rparr> else h);
         rdns = (if 2 \<le> length f \<and> has_prefix (f ! (length f - 1)) ''['' \<and> rdns = []
                   \<and> address_literal (f ! (length f - 1)) \<noteq> None \<and> \<not> contains_sub (to_lower c) ''helo''
                 then trim_suffix (to_lower (f ! 0)) ''.'' else rdns)
     in (h, rdns))"

definition finish_from :: "string \<Rightarrow> hop \<Rightarrow> hop" where
  "finish_from rdns h = (
     if (case hop_helo h of None \<Rightarrow> False | Some f \<Rightarrow> tv_source f = Stated) then
       (case hop_from_host h of None \<Rightarrow> h | Some f \<Rightarrow> h\<lparr>hop_reverse_dns := Some (deduced (tv_value f))\<rparr>)
     else
       let h = (case (hop_from_host h, hop_helo h) of
             (Some f, None) \<Rightarrow> h\<lparr>hop_helo := Some (deduced (tv_value f))\<rparr>
           | _ \<Rightarrow> h)
       in if rdns \<noteq> [] \<and> rdns \<noteq> ''unknown'' then h\<lparr>hop_reverse_dns := Some (deduced rdns)\<rparr> else h)"

definition parse_from :: "string \<Rightarrow> string list \<Rightarrow> hop \<Rightarrow> hop" where
  "parse_from word comments h = (
     if word = [] then h\<lparr>hop_problems := hop_problems h @ [EmptyFrom]\<rparr>
     else
       let h = (case address_literal word of
             Some ip \<Rightarrow> (set_ip ip h)\<lparr>hop_helo := Some (deduced word)\<rparr>
           | None \<Rightarrow> h\<lparr>hop_from_host := Some (stated (to_lower (trim_suffix word ''.'')))\<rparr>);
           (h, rdns) = fold from_comment comments (h, [])
       in finish_from rdns h)"

subsection \<open>Transport encryption\<close>

definition tls_word :: "string \<Rightarrow> hop_tls \<Rightarrow> hop_tls" where
  "tls_word w t = (let wl = to_lower w in
     if has_prefix wl ''version='' then t\<lparr>ht_version := drop 8 w\<rparr>
     else if has_prefix wl ''cipher='' then t\<lparr>ht_cipher := drop 7 w\<rparr>
     else if has_prefix wl ''tlsv1'' \<or> has_prefix wl ''tls1'' then (if ht_version t = [] then t\<lparr>ht_version := w\<rparr> else t)
     else if has_prefix wl ''tls_'' \<or> has_prefix wl ''ecdhe'' \<or> contains_sub wl ''-gcm-'' \<or> contains_sub wl ''_gcm_'' then
       (if ht_cipher t = [] then t\<lparr>ht_cipher := w\<rparr> else t)
     else t)"

fun tls_comments :: "string list \<Rightarrow> hop_tls option" where
  "tls_comments [] = None"
| "tls_comments (c # cs) =
     (if \<not> contains_sub (to_lower c) ''tls'' then tls_comments cs
      else
        let t = fold tls_word (fields_func (\<lambda>b. b = CHR '' '' \<or> b = CHR '','' \<or> b = CHR ''('' \<or> b = CHR '')'') c [])
              \<lparr>ht_used = True, ht_version = [], ht_cipher = [], ht_source = Stated\<rparr>
        in if ht_version t \<noteq> [] \<or> ht_cipher t \<noteq> [] then Some t else tls_comments cs)"

definition tls_by_protocol :: "bool \<Rightarrow> hop_tls" where
  "tls_by_protocol b = \<lparr>ht_used = b, ht_version = [], ht_cipher = [], ht_source = Inferred\<rparr>"

definition detect_tls :: "string \<Rightarrow> string list \<Rightarrow> hop_tls option" where
  "detect_tls protocol comments = (case tls_comments comments of
     Some t \<Rightarrow> Some t
   | None \<Rightarrow> (case space_fields protocol of
       [] \<Rightarrow> None
     | f # _ \<Rightarrow> let p = to_upper f in
         if has_suffix p ''SMTPS'' \<or> has_suffix p ''SMTPSA'' \<or> p = ''LMTPS'' \<or> p = ''LMTPSA'' then Some (tls_by_protocol True)
         else if p \<in> {''SMTP'', ''ESMTP'', ''ESMTPA'', ''LMTP'', ''UTF8SMTP'', ''UTF8SMTPA''} then Some (tls_by_protocol False)
         else None))"

subsection \<open>A header field\<close>

definition apply_clause :: "clause \<Rightarrow> hop \<Rightarrow> hop" where
  "apply_clause c h = (
     let word = (case cl_words c of [] \<Rightarrow> [] | w # ws \<Rightarrow> trim_set w [CHR '';'', CHR '','']) in
     if cl_name c = ''from'' then parse_from word (cl_comments c) h
     else if cl_name c = ''by'' then (if word \<noteq> [] then h\<lparr>hop_by := Some (stated (to_lower word))\<rparr> else h)
     else if cl_name c = ''via'' then h\<lparr>hop_via := word\<rparr>
     else if cl_name c = ''with'' then
       h\<lparr>hop_protocol := join '' '' (if cl_comments c \<noteq> [] then take (cl_words_before_comment c) (cl_words c) else cl_words c)\<rparr>
     else if cl_name c = ''id'' then h\<lparr>hop_id := word\<rparr>
     else if cl_name c = ''for'' then h\<lparr>hop_for := trim_set word [CHR ''<'', CHR ''>'']\<rparr>
     else h)"

text \<open>Only the first clause of each kind counts.\<close>

fun apply_clauses :: "clause list \<Rightarrow> string list \<Rightarrow> hop \<Rightarrow> hop" where
  "apply_clauses [] seen h = h"
| "apply_clauses (c # cs) seen h =
     (if cl_name c \<in> set seen \<and> cl_name c \<noteq> ''?'' then apply_clauses cs seen h
      else apply_clauses cs (cl_name c # seen) (apply_clause c h))"

definition new_hop :: "string \<Rightarrow> hop" where
  "new_hop s = \<lparr>hop_index = 0, hop_raw = s, hop_from_host = None, hop_helo = None, hop_reverse_dns = None, hop_ip = None,
     hop_by = None, hop_via = [], hop_protocol = [], hop_id = [], hop_for = [], hop_timestamp = None, hop_tls_info = None,
     hop_delay = None, hop_problems = []\<rparr>"

definition parse_received :: "(string \<Rightarrow> int option) \<Rightarrow> string \<Rightarrow> hop" where
  "parse_received parse_date s = (
     let (body, h) = (case last_index_byte s (CHR '';'') of
           Some i \<Rightarrow> let date_text = trim_space (drop (i + 1) s) in
             (take i s, case parse_date (trim_space date_text) of
                Some t \<Rightarrow> (new_hop s)\<lparr>hop_timestamp := Some t\<rparr>
              | None \<Rightarrow> (new_hop s)\<lparr>hop_problems := [UnparseableDate date_text]\<rparr>)
         | None \<Rightarrow> (s, (new_hop s)\<lparr>hop_problems := [MissingDate]\<rparr>));
         st = fold clause_step (tokenize body) \<lparr>cs_done = [], cs_cur = None, cs_comments = [], cs_problems = []\<rparr>;
         clauses = all_clauses st;
         h = h\<lparr>hop_problems := hop_problems h @ cs_problems st\<rparr>;
         h = apply_clauses clauses [] h;
         h = (if hop_by h = None \<and> clauses \<noteq> [] then h\<lparr>hop_problems := hop_problems h @ [MissingBy]\<rparr> else h);
         h = (if clauses = [] then h\<lparr>hop_problems := hop_problems h @ [NoClauses]\<rparr> else h)
     in h\<lparr>hop_tls_info := detect_tls (hop_protocol h) (cs_comments st)\<rparr>)"

end
