(* ===== verification/ReceivedChain.thy ===== *)
theory ReceivedChain
  imports Received NetUtil FindingsCatalog
begin

section \<open>The transport path (internal/received/chain.go)\<close>

text \<open>
  The chain of hops in transport order, the findings on it, and the guess at the client that handed over the
  message.  Times and durations are in nanoseconds; a difference of times saturates at 64 bits.
\<close>

definition max_hops :: nat where "max_hops = 100"
definition clock_skew :: int where "clock_skew = 5 * 60 * 1000000000"
definition one_hour :: int where "one_hour = 60 * 60 * 1000000000"

record chain =
  ch_hops :: "hop list"
  ch_truncated :: bool
  ch_findings :: "observation list"

definition hop_subject :: "hop \<Rightarrow> string" where
  "hop_subject h = (case hop_by h of Some f \<Rightarrow> tv_value f | None \<Rightarrow> ''hop #'' @ show_nat (hop_index h))"

text \<open>\<^verbatim>\<open>time.Time.Sub\<close>.\<close>

definition time_sub :: "int \<Rightarrow> int \<Rightarrow> int" where
  "time_sub t u = max (- (2 ^ 63)) (min (2 ^ 63 - 1) (t - u))"

definition hop_delay_since :: "hop option \<Rightarrow> hop \<Rightarrow> int option" where
  "hop_delay_since prev h = (case prev of None \<Rightarrow> None | Some p \<Rightarrow>
     (case (hop_timestamp p, hop_timestamp h) of (Some u, Some t) \<Rightarrow> Some (time_sub t u) | _ \<Rightarrow> None))"

definition problem_rule :: "hop_problem \<Rightarrow> rule" where
  "problem_rule p = (if p = MissingDate then RcvdNoDate else RcvdUnparseable)"

definition delay_findings :: "hop \<Rightarrow> int option \<Rightarrow> observation list" where
  "delay_findings h delay = (case delay of None \<Rightarrow> [] | Some d \<Rightarrow>
     if d < - clock_skew then [observe RcvdTimeTravel (hop_subject h)]
     else if one_hour < d then [observe RcvdDelay (hop_subject h)]
     else [])"

definition tls_findings :: "hop \<Rightarrow> observation list" where
  "tls_findings h = (case hop_tls_info h of None \<Rightarrow> [] | Some t \<Rightarrow>
     if \<not> ht_used t \<and> (case hop_addr h of None \<Rightarrow> True | Some ip \<Rightarrow> \<not> is_loopback ip)
     then [observe RcvdNoTLS (hop_subject h)] else [])"

text \<open>The second loop: \<open>prev\<close> is the hop before; the hop is kept with its delay.\<close>

fun chain_loop :: "hop option \<Rightarrow> hop list \<Rightarrow> hop list \<times> observation list" where
  "chain_loop prev [] = ([], [])"
| "chain_loop prev (h0 # hs) = (
     let h = h0\<lparr>hop_delay := hop_delay_since prev h0\<rparr>; (hops, fs) = chain_loop (Some h) hs
     in (h # hops, map (\<lambda>p. observe (problem_rule p) (hop_subject h)) (hop_problems h)
          @ delay_findings h (hop_delay h) @ tls_findings h @ fs))"

text \<open>The first loop: the values are parsed from the last to the first and numbered from 1.\<close>

definition number_hops :: "hop list \<Rightarrow> hop list" where
  "number_hops hs = map (\<lambda>(i, h). h\<lparr>hop_index := i + 1\<rparr>) (List.enumerate 0 hs)"

definition build_chain :: "(string \<Rightarrow> int option) \<Rightarrow> string list \<Rightarrow> chain" where
  "build_chain parse_date vals0 = (
     if vals0 = [] then \<lparr>ch_hops = [], ch_truncated = False, ch_findings = [observe RcvdNone []]\<rparr>
     else
       let too_many = max_hops < length vals0; vals = (if too_many then take max_hops vals0 else vals0);
           (hops, fs) = chain_loop None (number_hops (map (parse_received parse_date) (rev vals)))
       in \<lparr>ch_hops = hops, ch_truncated = too_many,
           ch_findings = (if too_many then [observe RcvdTooMany []] else []) @ fs\<rparr>)"

subsection \<open>The client\<close>

record smtp_source =
  sc_ip :: string
  sc_helo :: string
  sc_hop_index :: nat

definition public_client :: "hop \<Rightarrow> bool" where
  "public_client h = (case hop_addr h of None \<Rightarrow> False | Some ip \<Rightarrow> \<not> is_non_public ip)"

fun source_loop :: "hop list \<Rightarrow> smtp_source option" where
  "source_loop [] = None"
| "source_loop (h # hs) = (case hop_addr h of
     None \<Rightarrow> source_loop hs
   | Some ip \<Rightarrow> if is_non_public ip then source_loop hs
       else Some \<lparr>sc_ip = addr_string ip, sc_helo = (case hop_helo h of None \<Rightarrow> [] | Some f \<Rightarrow> tv_value f),
         sc_hop_index = hop_index h\<rparr>)"

definition infer_source :: "chain \<Rightarrow> smtp_source option" where
  "infer_source c = source_loop (rev (ch_hops c))"

end
