(* ===== verification/ReceivedProps.thy ===== *)
theory ReceivedProps
  imports ReceivedChain
begin

section \<open>What the Received chain shows\<close>

subsection \<open>Tokens\<close>

text \<open>
  Clean tokens: words without white space and parentheses, quoted words without quotation marks or backslashes
  inside, and comments whose parentheses are balanced.
\<close>

fun show_received_token :: "received_token \<Rightarrow> string" where
  "show_received_token (WordTok w) = w"
| "show_received_token (CommentTok c) = CHR ''('' # c @ '')''"

fun nesting :: "nat \<Rightarrow> string \<Rightarrow> nat option" where
  "nesting d [] = Some d"
| "nesting d (c # s) =
     (if c = CHR 0x5C then None
      else if c = CHR ''('' then nesting (d + 1) s
      else if c = CHR '')'' then (if d = 0 then None else nesting (d - 1) s)
      else nesting d s)"

definition quoted_word :: "string \<Rightarrow> bool" where
  "quoted_word w \<longleftrightarrow> 2 \<le> length w \<and> hd w = CHR 0x22 \<and> last w = CHR 0x22
     \<and> list_all (\<lambda>c. c \<noteq> CHR 0x22 \<and> c \<noteq> CHR 0x5C) (butlast (tl w))"

fun clean_token :: "received_token \<Rightarrow> bool" where
  "clean_token (WordTok w) \<longleftrightarrow> w \<noteq> [] \<and> (quoted_word w \<or> hd w \<noteq> CHR 0x22 \<and> list_all plain_byte w)"
| "clean_token (CommentTok c) \<longleftrightarrow> nesting 0 c = Some 0 \<and> trim_space c = c"

lemma comment_len_step:
  "t \<noteq> [] \<Longrightarrow> comment_len d (c # t) =
     (if c = CHR 0x5C then 2 + comment_len d (tl t)
      else if c = CHR ''('' then 1 + comment_len (d + 1) t
      else if c = CHR '')'' then (if d = 1 then 0 else 1 + comment_len (d - 1) t)
      else 1 + comment_len d t)"
  by (cases t) auto

lemma comment_len_close: "comment_len (Suc 0) (CHR '')'' # s) = 0"
  by (cases s) auto

lemma comment_len_balanced: "nesting d c = Some 0 \<Longrightarrow> comment_len (d + 1) (c @ CHR '')'' # s) = length c"
proof (induction c arbitrary: d)
  case Nil
  then show ?case by (simp add: comment_len_close)
next
  case (Cons x c)
  have "comment_len (d + 1) (x # c @ CHR '')'' # s) = 1 + length c"
    using Cons.prems Cons.IH [of d] Cons.IH [of "d + 1"] Cons.IH [of "d - 1"]
    by (subst comment_len_step) (auto split: if_splits)
  then show ?case by simp
qed

lemma quoted_len_step:
  "t \<noteq> [] \<Longrightarrow> c \<noteq> CHR 0x22 \<Longrightarrow> c \<noteq> CHR 0x5C \<Longrightarrow> quoted_len (c # t) = 1 + quoted_len t"
  by (cases t) auto

lemma quoted_len_plain:
  "list_all (\<lambda>c. c \<noteq> CHR 0x22 \<and> c \<noteq> CHR 0x5C) w \<Longrightarrow> quoted_len (w @ CHR 0x22 # s) = length w"
proof (induction w)
  case Nil
  then show ?case by (cases s) auto
next
  case (Cons c w)
  then show ?case by (simp add: quoted_len_step)
qed

lemma tokenize_space: "tokenize (CHR '' '' # s) = tokenize s"
  by (simp add: tokenize.simps(2))

lemma tokenize_comment: "nesting 0 c = Some 0 \<Longrightarrow> trim_space c = c \<Longrightarrow> tokenize (CHR ''('' # c @ CHR '')'' # s) = CommentTok c # tokenize s"
  using comment_len_balanced [of 0 c s] by (simp add: tokenize.simps(2) Let_def)

lemma tokenize_quoted:
  assumes "quoted_word w"
  shows "tokenize (w @ s) = WordTok w # tokenize s"
proof -
  obtain u where u: "w = CHR 0x22 # u" "u \<noteq> []" using assms by (cases w; cases "tl w") (auto simp: quoted_word_def)
  have "last u = CHR 0x22" using assms u by (simp add: quoted_word_def)
  then have u2: "u = butlast u @ [CHR 0x22]" using append_butlast_last_id [OF u(2)] by simp
  have plain: "list_all (\<lambda>c. c \<noteq> CHR 0x22 \<and> c \<noteq> CHR 0x5C) (butlast u)" using assms u(1) by (simp add: quoted_word_def)
  have "quoted_len (u @ s) = length (butlast u)"
    by (subst u2) (simp only: append_assoc append_Cons append_Nil quoted_len_plain [OF plain])
  then have "take (quoted_len (u @ s) + 1) (u @ s) = u" "drop (quoted_len (u @ s) + 1) (u @ s) = s"
    using u(2) by (simp_all add: Suc_diff_Suc)
  then show ?thesis unfolding u(1) append_Cons tokenize.simps(2) Let_def by simp
qed

lemma tokenize_word:
  assumes "w \<noteq> []" "hd w \<noteq> CHR 0x22" "list_all plain_byte w" "s = [] \<or> \<not> plain_byte (hd s)"
  shows "tokenize (w @ s) = WordTok w # tokenize s"
proof -
  obtain c v where w: "w = c # v" using assms(1) by (cases w) auto
  have "takeWhile plain_byte (v @ s) = v" "dropWhile plain_byte (v @ s) = s"
    using assms(3,4) unfolding w by (cases s; auto simp: list_all_iff takeWhile_append dropWhile_append)+
  then show ?thesis using assms(2,3) unfolding w by (simp add: tokenize.simps(2) plain_byte_def)
qed

lemma tokenize_show:
  assumes "list_all clean_token ts"
  shows "tokenize (join '' '' (map show_received_token ts)) = ts"
  using assms
proof (induction ts)
  case (Cons t ts)
  have one: "tokenize (show_received_token t @ s) = t # tokenize s" if "s = [] \<or> hd s = CHR '' ''" for s
  proof (cases t)
    case (WordTok w)
    then show ?thesis using Cons.prems that tokenize_quoted [of w s] tokenize_word [of w s]
      by (auto simp: plain_byte_def)
  next
    case (CommentTok c)
    then show ?thesis using Cons.prems tokenize_comment [of c s] by simp
  qed
  show ?case
  proof (cases ts)
    case Nil
    then show ?thesis using one [of "[]"] by simp
  next
    case (Cons u us)
    then show ?thesis using one [of "'' '' @ join '' '' (map show_received_token ts)"] Cons.IH Cons.prems
      by (simp add: tokenize_space)
  qed
qed simp

text \<open>
  Clean tokens that are written one after the other, separated by a space, are the tokens that are read again.
\<close>

theorem tokenize_reads_tokens:
  assumes "list_all clean_token ts"
  shows "tokenize (join '' '' (map show_received_token ts)) = ts"
  by (rule tokenize_show [OF assms])

theorem tokenize_reads_tokens_witness:
  "tokenize ''from mail.example.org (mail.example.org [192.0.2.1] (may be forged)) by'' =
     [WordTok ''from'', WordTok ''mail.example.org'', CommentTok ''mail.example.org [192.0.2.1] (may be forged)'', WordTok ''by'']"
proof -
  have "list_all clean_token [WordTok ''from'', WordTok ''mail.example.org'',
      CommentTok ''mail.example.org [192.0.2.1] (may be forged)'', WordTok ''by'']"
    by code_simp
  from tokenize_reads_tokens [OF this] show ?thesis by simp
qed

subsection \<open>The chain\<close>

lemma chain_loop_hops:
  "map hop_raw (fst (chain_loop prev hs)) = map hop_raw hs"
  "map hop_index (fst (chain_loop prev hs)) = map hop_index hs"
  "map hop_timestamp (fst (chain_loop prev hs)) = map hop_timestamp hs"
  by (induction hs arbitrary: prev) (simp_all add: Let_def case_prod_unfold)

lemma number_hops_simps:
  "map hop_raw (number_hops hs) = map hop_raw hs"
  "map hop_index (number_hops hs) = map Suc [0..<length hs]"
  "map hop_timestamp (number_hops hs) = map hop_timestamp hs"
  by (auto simp: number_hops_def case_prod_unfold nth_enumerate_eq intro: nth_equalityI)

text \<open>A hop that is dated more than five minutes before the hop in front of it.\<close>

definition backwards :: "int option \<Rightarrow> int option \<Rightarrow> bool" where
  "backwards a b = (case (a, b) of (Some u, Some t) \<Rightarrow> t - u < - clock_skew | _ \<Rightarrow> False)"

definition dated_backwards :: "hop \<Rightarrow> hop \<Rightarrow> bool" where
  "dated_backwards p h = backwards (hop_timestamp p) (hop_timestamp h)"

definition reports_time_travel :: "observation list \<Rightarrow> bool" where
  "reports_time_travel fs = list_ex (\<lambda>f. ob_rule f = RcvdTimeTravel) fs"

lemma received_rules_differ:
  "RcvdNoDate \<noteq> RcvdTimeTravel" "RcvdUnparseable \<noteq> RcvdTimeTravel" "RcvdDelay \<noteq> RcvdTimeTravel"
  "RcvdNoTLS \<noteq> RcvdTimeTravel" "RcvdTooMany \<noteq> RcvdTimeTravel" "RcvdNone \<noteq> RcvdTimeTravel"
  by (rule other_id, simp add: RcvdNoDate_def RcvdUnparseable_def RcvdDelay_def RcvdNoTLS_def RcvdTooMany_def RcvdNone_def
      RcvdTimeTravel_def)+

lemma reports_time_travel_append [simp]:
  "reports_time_travel (fs @ gs) \<longleftrightarrow> reports_time_travel fs \<or> reports_time_travel gs" "\<not> reports_time_travel []"
  by (simp_all add: reports_time_travel_def)

lemma other_findings [simp]:
  "\<not> reports_time_travel (map (\<lambda>p. observe (problem_rule p) s) ps)" "\<not> reports_time_travel (tls_findings h)"
  "\<not> reports_time_travel [observe RcvdTooMany []]" "\<not> reports_time_travel [observe RcvdNone []]"
  by (auto simp: reports_time_travel_def list_ex_iff problem_rule_def tls_findings_def received_rules_differ split: option.splits)

lemma delay_finding [simp]:
  "reports_time_travel (delay_findings h (hop_delay_since prev h0)) \<longleftrightarrow>
     (case prev of None \<Rightarrow> False | Some p \<Rightarrow> dated_backwards p h0)"
  by (auto simp: delay_findings_def hop_delay_since_def dated_backwards_def backwards_def time_sub_def reports_time_travel_def
      received_rules_differ clock_skew_def one_hour_def split: option.splits)

lemma dated_backwards_pairs:
  "list_ex (\<lambda>(p, h). dated_backwards p h) (zip hs (tl hs)) =
     list_ex (\<lambda>(u, t). backwards u t) (zip (map hop_timestamp hs) (tl (map hop_timestamp hs)))"
  by (simp add: map_tl [symmetric] zip_map_map Bex_set [symmetric] dated_backwards_def split_beta)

lemma dated_backwards_timestamps:
  "hop_timestamp p = hop_timestamp p' \<Longrightarrow> hop_timestamp h = hop_timestamp h' \<Longrightarrow> dated_backwards p h = dated_backwards p' h'"
  by (simp add: dated_backwards_def)

lemma chain_loop_time_travel:
  "reports_time_travel (snd (chain_loop prev hs)) \<longleftrightarrow>
     (case prev of None \<Rightarrow> False | Some p \<Rightarrow> (case hs of [] \<Rightarrow> False | h # _ \<Rightarrow> dated_backwards p h))
     \<or> list_ex (\<lambda>(p, h). dated_backwards p h) (zip hs (tl hs))"
proof (induction hs arbitrary: prev)
  case (Cons h hs)
  let ?h = "h\<lparr>hop_delay := hop_delay_since prev h\<rparr>"
  have "dated_backwards ?h k = dated_backwards h k" for k by (rule dated_backwards_timestamps) simp_all
  then show ?case using Cons.IH [of "Some ?h"]
    by (cases hs) (auto simp: Let_def case_prod_unfold split: option.splits)
qed (auto split: option.split)

lemma parse_received_raw [simp]: "hop_raw (parse_received pd s) = s"
proof -
  have w: "hop_raw (from_word x h) = hop_raw h" for x h
    by (auto simp: from_word_def set_ip_def split: option.split)
  have ws: "hop_raw (fold from_word xs h) = hop_raw h" for xs h
    by (induction xs arbitrary: h) (simp_all add: w)
  have "hop_raw (fst (from_comment c x)) = hop_raw (fst x)" for c x
    by (simp add: from_comment_def case_prod_unfold Let_def ws)
  then have cs: "hop_raw (fst (fold from_comment cs x)) = hop_raw (fst x)" for cs x
    by (induction cs arbitrary: x) simp_all
  have fin: "hop_raw (finish_from rdns h) = hop_raw h" for rdns h
    by (auto simp: finish_from_def Let_def split: option.split prod.split)
  have frm: "hop_raw (parse_from v cs h) = hop_raw h" for v cs h
    by (auto simp: parse_from_def Let_def case_prod_unfold fin cs set_ip_def split: option.split)
  have "hop_raw (apply_clause c h) = hop_raw h" for c h
    by (simp add: apply_clause_def Let_def frm)
  then have cl: "hop_raw (apply_clauses cs seen h) = hop_raw h" for cs seen h
    by (induction cs arbitrary: seen h) simp_all
  show ?thesis
    by (simp add: parse_received_def Let_def case_prod_unfold cl new_hop_def split: option.split)
qed

lemma build_chain_hops:
  "ch_hops (build_chain pd vs) = fst (chain_loop None (number_hops (map (parse_received pd) (rev (take max_hops vs)))))"
  by (auto simp: build_chain_def Let_def case_prod_unfold number_hops_def)

text \<open>
  Claim C37. The chain holds the hundred most recent headers in transport order, oldest first, numbered from one; it says when it
  left older ones out.
\<close>

theorem chain_in_transport_order:
  "map hop_raw (ch_hops (build_chain pd vs)) = rev (take 100 vs)
   \<and> map hop_index (ch_hops (build_chain pd vs)) = [1..<Suc (min 100 (length vs))]
   \<and> ch_truncated (build_chain pd vs) = (100 < length vs)"
proof -
  have "map hop_raw (ch_hops (build_chain pd vs)) = rev (take 100 vs)"
    by (simp add: build_chain_hops chain_loop_hops number_hops_simps max_hops_def comp_def)
  moreover have "map hop_index (ch_hops (build_chain pd vs)) = map Suc [0..<min 100 (length vs)]"
    by (simp add: build_chain_hops chain_loop_hops number_hops_simps max_hops_def min.commute)
  moreover have "ch_truncated (build_chain pd vs) = (100 < length vs)"
    by (simp add: build_chain_def Let_def case_prod_unfold max_hops_def)
  ultimately show ?thesis by (simp add: map_Suc_upt)
qed

text \<open>
  A chain is reported to go backwards in time exactly when a hop in it is dated more than five minutes before the hop in
  front of it; that differences of times saturate makes no difference.
\<close>

theorem time_travel_reported_iff:
  "list_ex (\<lambda>f. ob_rule f = RcvdTimeTravel) (ch_findings (build_chain pd vs)) \<longleftrightarrow>
     list_ex (\<lambda>(p, h). dated_backwards p h) (zip (ch_hops (build_chain pd vs)) (tl (ch_hops (build_chain pd vs))))"
proof -
  define hs where "hs = number_hops (map (parse_received pd) (rev (take max_hops vs)))"
  define gs where "gs = fst (chain_loop None hs)"
  have ts: "map hop_timestamp gs = map hop_timestamp hs" by (simp add: gs_def chain_loop_hops)
  have "list_ex (\<lambda>(p, h). dated_backwards p h) (zip gs (tl gs)) = list_ex (\<lambda>(p, h). dated_backwards p h) (zip hs (tl hs))"
    using ts by (simp only: dated_backwards_pairs)
  moreover have "reports_time_travel (ch_findings (build_chain pd vs)) = reports_time_travel (snd (chain_loop None hs))"
    by (auto simp: build_chain_def Let_def case_prod_unfold hs_def number_hops_def)
  ultimately show ?thesis
    unfolding build_chain_hops hs_def [symmetric] gs_def [symmetric] reports_time_travel_def [symmetric]
    by (simp add: chain_loop_time_travel)
qed

subsection \<open>The client\<close>

lemma source_loop_latest:
  "case source_loop hs of
     None \<Rightarrow> list_all (\<lambda>h. \<not> public_client h) hs
   | Some s \<Rightarrow> \<exists>later h earlier. hs = later @ h # earlier \<and> list_all (\<lambda>h. \<not> public_client h) later
        \<and> public_client h \<and> map_option addr_string (hop_addr h) = Some (sc_ip s) \<and> sc_hop_index s = hop_index h"
proof (induction hs)
  case (Cons h hs)
  show ?case
  proof (cases "public_client h")
    case True
    then obtain ip where ip: "hop_addr h = Some ip" "\<not> is_non_public ip" by (auto simp: public_client_def split: option.splits)
    then have "source_loop (h # hs) = Some \<lparr>sc_ip = addr_string ip,
        sc_helo = (case hop_helo h of None \<Rightarrow> [] | Some f \<Rightarrow> tv_value f), sc_hop_index = hop_index h\<rparr>" by simp
    then show ?thesis unfolding option.case using ip True
      by (simp only: option.case) (intro exI [of _ "[]"] exI [of _ h] exI [of _ hs], simp)
  next
    case False
    then have skip: "source_loop (h # hs) = source_loop hs" by (auto simp: public_client_def split: option.splits)
    show ?thesis
    proof (cases "source_loop hs")
      case None
      then show ?thesis using Cons False unfolding skip by simp
    next
      case (Some s)
      then obtain later k earlier where "hs = later @ k # earlier" "list_all (\<lambda>h. \<not> public_client h) later"
        "public_client k" "map_option addr_string (hop_addr k) = Some (sc_ip s)" "sc_hop_index s = hop_index k"
        using Cons by auto
      then show ?thesis using False unfolding skip Some option.case
        by (intro exI [of _ "h # later"] exI [of _ k] exI [of _ earlier]) simp
    qed
  qed
qed simp

text \<open>
  Claim C38. The inferred client is the client of the most recent hop with a public address, and there is none only when no hop
  has one.
\<close>

theorem inferred_client_is_latest_public:
  "case infer_source c of
     None \<Rightarrow> list_all (\<lambda>h. \<not> public_client h) (ch_hops c)
   | Some s \<Rightarrow> \<exists>earlier h later. ch_hops c = earlier @ h # later \<and> list_all (\<lambda>h. \<not> public_client h) later
        \<and> public_client h \<and> map_option addr_string (hop_addr h) = Some (sc_ip s) \<and> sc_hop_index s = hop_index h"
proof (cases "source_loop (rev (ch_hops c))")
  case None
  then show ?thesis using source_loop_latest [of "rev (ch_hops c)"] by (simp add: infer_source_def)
next
  case (Some s)
  then obtain later h earlier where "rev (ch_hops c) = later @ h # earlier" and rest: "list_all (\<lambda>h. \<not> public_client h) later"
    "public_client h" "map_option addr_string (hop_addr h) = Some (sc_ip s)" "sc_hop_index s = hop_index h"
    using source_loop_latest [of "rev (ch_hops c)"] by auto
  then have "ch_hops c = rev earlier @ h # rev later" by (simp add: rev_swap)
  then show ?thesis using rest unfolding infer_source_def Some option.case
    by (intro exI [of _ "rev earlier"] exI [of _ h] exI [of _ "rev later"]) simp
qed

end
