(* ===== verification/AuthRes.thy ===== *)
theory AuthRes
  imports GoStrings
begin

section \<open>Authentication-Results and Received-SPF (internal/authres/authres.go)\<close>

text \<open>
  The parsers of the two header fields.  A map of Go is a partial function; a missing property reads as the empty
  string.  The errors are constructors; where a message quotes a part of the input, so does the constructor.
\<close>

datatype ar_error = CommentsTooDeep | UnterminatedQuote | UnterminatedComment | NoAuthServID | TextAfterID
  | EmptyResult string | InvalidMethodResult string | InvalidProperty string | UnknownSPFResult string
  | UnterminatedSPFComment

record ar_result =
  re_method :: string
  re_version :: string
  re_result :: string
  re_reason :: string
  re_props :: "string \<Rightarrow> string option"

definition prop_of :: "ar_result \<Rightarrow> string \<Rightarrow> string" where
  "prop_of r name = (case re_props r (to_lower name) of None \<Rightarrow> [] | Some v \<Rightarrow> v)"

record ar_header =
  ah_id :: string
  ah_version :: string
  ah_results :: "ar_result list"
  ah_none :: bool

definition by_method :: "ar_header \<Rightarrow> string \<Rightarrow> ar_result list" where
  "by_method h method = filter (\<lambda>r. equal_fold (re_method r) method) (ah_results h)"

subsection \<open>Lexical structure\<close>

text \<open>\<^verbatim>\<open>stripComments\<close>: the depth of comments, whether a quoted string is open, and the output so far.\<close>

definition max_comment_depth :: nat where "max_comment_depth = 32"

fun strip_comments_loop :: "nat \<Rightarrow> bool \<Rightarrow> string \<Rightarrow> string \<Rightarrow> ar_error + string" where
  "strip_comments_loop d q out [] =
     (if q then Inl UnterminatedQuote else if 0 < d then Inl UnterminatedComment else Inr out)"
| "strip_comments_loop d q out (c # s) =
     (if c = CHR 0x5C \<and> s \<noteq> [] then strip_comments_loop d q (if d = 0 then out @ [c, hd s] else out) (tl s)
       else if c = CHR 0x22 \<and> d = 0 then strip_comments_loop d (\<not> q) (out @ [c]) s
       else if c = CHR ''('' \<and> \<not> q then
         (if max_comment_depth < d + 1 then Inl CommentsTooDeep else strip_comments_loop (d + 1) q out s)
       else if c = CHR '')'' \<and> \<not> q \<and> 0 < d then strip_comments_loop (d - 1) q (out @ '' '') s
       else strip_comments_loop d q (if d = 0 then out @ [c] else out) s)"

definition strip_comments :: "string \<Rightarrow> ar_error + string" where
  "strip_comments s = strip_comments_loop 0 False [] s"

text \<open>\<^verbatim>\<open>splitUnquoted\<close>, with the part that is being collected.\<close>

fun split_unquoted_loop :: "char \<Rightarrow> bool \<Rightarrow> string \<Rightarrow> string \<Rightarrow> string list" where
  "split_unquoted_loop sep q cur [] = [cur]"
| "split_unquoted_loop sep q cur (c # s) =
     (if c = CHR 0x5C \<and> q then (if s = [] then [cur @ [c]] else split_unquoted_loop sep q (cur @ [c, hd s]) (tl s))
      else if c = CHR 0x22 then split_unquoted_loop sep (\<not> q) (cur @ [c]) s
      else if c = sep \<and> \<not> q then cur # split_unquoted_loop sep q [] s
      else split_unquoted_loop sep q (cur @ [c]) s)"

definition split_unquoted :: "string \<Rightarrow> char \<Rightarrow> string list" where
  "split_unquoted s sep = split_unquoted_loop sep False [] s"

fun unescape :: "string \<Rightarrow> string" where
  "unescape [] = []"
| "unescape (c # s) = (if c = CHR 0x5C \<and> s \<noteq> [] then hd s # unescape (tl s) else c # unescape s)"

definition unquote :: "string \<Rightarrow> string" where
  "unquote s = (if 2 \<le> length s \<and> hd s = CHR 0x22 \<and> last s = CHR 0x22 then unescape (butlast (tl s)) else s)"

definition flush_word :: "string \<Rightarrow> string list" where
  "flush_word cur = (if cur = [] then [] else [cur])"

text \<open>The two loops of \<^verbatim>\<open>tokenizeAssignments\<close>: words and equals signs, then assignments.\<close>

fun assignment_words :: "bool \<Rightarrow> string \<Rightarrow> string \<Rightarrow> string list" where
  "assignment_words q cur [] = flush_word cur"
| "assignment_words q cur (c # s) =
     (if c = CHR 0x5C \<and> q \<and> s \<noteq> [] then assignment_words q (cur @ [c, hd s]) (tl s)
       else if c = CHR 0x22 then assignment_words (\<not> q) (cur @ [c]) s
       else if \<not> q \<and> c \<in> set fws then flush_word cur @ assignment_words q [] s
       else if \<not> q \<and> c = CHR ''='' then flush_word cur @ ''='' # assignment_words q [] s
       else assignment_words q (cur @ [c]) s)"

fun join_assignments :: "string list \<Rightarrow> string list" where
  "join_assignments (a # e # b # ws) =
     (if e = ''='' \<and> a \<noteq> ''='' \<and> b \<noteq> ''='' then (a @ ''='' @ b) # join_assignments ws else a # join_assignments (e # b # ws))"
| "join_assignments ws = ws"

definition tokenize_assignments :: "string \<Rightarrow> string list" where
  "tokenize_assignments s = join_assignments (assignment_words False [] s)"

definition keyword_byte :: "char \<Rightarrow> bool" where
  "keyword_byte c \<longleftrightarrow> is_lower c \<or> is_digit c \<or> c = CHR ''-'' \<or> c = CHR ''_''"

definition is_keyword :: "string \<Rightarrow> bool" where
  "is_keyword s \<longleftrightarrow> s \<noteq> [] \<and> list_all keyword_byte s"

subsection \<open>Authentication-Results\<close>

fun apply_props :: "string list \<Rightarrow> ar_result \<Rightarrow> ar_error + ar_result" where
  "apply_props [] r = Inr r"
| "apply_props (tok # toks) r = (case cut tok (CHR ''='') of (name0, val0, ok) \<Rightarrow>
     if \<not> ok then Inl (InvalidProperty tok)
     else let name = to_lower name0; val = unquote val0 in
       apply_props toks
         (if name = ''reason'' then r\<lparr>re_reason := val\<rparr>
          else if re_props r name = None then r\<lparr>re_props := (re_props r)(name \<mapsto> val)\<rparr>
          else r))"

definition parse_res_info :: "string \<Rightarrow> ar_error + ar_result" where
  "parse_res_info s = (case tokenize_assignments s of
     [] \<Rightarrow> Inl (EmptyResult (trim_space s))
   | tok # toks \<Rightarrow> (case cut tok (CHR ''='') of (method, result, ok) \<Rightarrow>
       if \<not> ok \<or> method = [] \<or> result = [] then Inl (InvalidMethodResult tok)
       else case cut (to_lower method) (CHR ''/'') of (name, version, _) \<Rightarrow>
         let res = to_lower (unquote result) in
         if \<not> is_keyword name \<or> \<not> is_keyword res then Inl (InvalidMethodResult tok)
         else apply_props toks \<lparr>re_method = name, re_version = version, re_result = res, re_reason = [], re_props = Map.empty\<rparr>))"

fun parse_results :: "string list \<Rightarrow> ar_error + ar_result list" where
  "parse_results [] = Inr []"
| "parse_results (part # parts) =
     (if trim_space part = [] then parse_results parts
      else case parse_res_info part of
        Inl e \<Rightarrow> Inl e
      | Inr r \<Rightarrow> (case parse_results parts of Inl e \<Rightarrow> Inl e | Inr rs \<Rightarrow> Inr (r # rs)))"

definition parse_auth_results :: "string \<Rightarrow> ar_error + ar_header" where
  "parse_auth_results s = (case strip_comments s of
     Inl e \<Rightarrow> Inl e
   | Inr clean \<Rightarrow>
       let parts = split_unquoted clean (CHR '';''); head = space_fields (hd parts) in
       if head = [] then Inl NoAuthServID
       else
         let no_id = contains_byte (hd head) (CHR ''='');
             rest = (if no_id then parts else tl parts);
             aid = (if no_id then [] else to_lower (unquote (hd head)));
             h = \<lparr>ah_id = aid, ah_version = (if aid \<noteq> [] \<and> 1 < length head then head ! 1 else []), ah_results = [], ah_none = False\<rparr>
         in if aid \<noteq> [] \<and> 2 < length head then Inl TextAfterID
            else if length rest = 1 \<and> equal_fold (trim_space (hd rest)) ''none'' then Inr (h\<lparr>ah_none := True\<rparr>)
            else case parse_results rest of Inl e \<Rightarrow> Inl e | Inr rs \<Rightarrow> Inr (h\<lparr>ah_results := rs\<rparr>))"

subsection \<open>Received-SPF\<close>

record received_spf =
  rs_result :: string
  rs_comment :: string
  rs_params :: "string \<Rightarrow> string option"

definition spf_result_words :: "string list" where
  "spf_result_words = [''pass'', ''fail'', ''softfail'', ''neutral'', ''none'', ''temperror'', ''permerror'']"

text \<open>The text in front of the parenthesis that closes the outermost comment, and the text behind it.\<close>

fun spf_comment :: "nat \<Rightarrow> string \<Rightarrow> (string \<times> string) option" where
  "spf_comment d [] = None"
| "spf_comment d (c # s) =
     (if c = CHR '')'' \<and> d \<le> 1 then Some ([], s)
      else map_option (\<lambda>(a, b). (c # a, b))
        (spf_comment (if c = CHR ''('' then d + 1 else if c = CHR '')'' then d - 1 else d) s))"

definition spf_param :: "string \<Rightarrow> (string \<Rightarrow> string option) \<Rightarrow> (string \<Rightarrow> string option)" where
  "spf_param part0 ps = (let part = trim_space part0 in
     if part = [] then ps
     else case cut part (CHR ''='') of (name, val, ok) \<Rightarrow>
       if \<not> ok then ps else ps(to_lower (trim_space name) \<mapsto> unquote (trim_space val)))"

definition spf_params :: "string \<Rightarrow> string \<Rightarrow> string \<Rightarrow> ar_error + received_spf" where
  "spf_params result comment rest = (case strip_comments rest of
     Inl e \<Rightarrow> Inl e
   | Inr clean \<Rightarrow> Inr \<lparr>rs_result = result, rs_comment = comment,
       rs_params = fold spf_param (split_unquoted clean (CHR '';'')) Map.empty\<rparr>)"

definition parse_received_spf :: "string \<Rightarrow> ar_error + received_spf" where
  "parse_received_spf s = (case cut (trim_space s) (CHR '' '') of (word, rest0, _) \<Rightarrow>
     let result = to_lower (trim_right word '';''); rest = trim_space rest0 in
     if result \<notin> set spf_result_words then Inl (UnknownSPFResult word)
     else if has_prefix rest ''('' then
       (case spf_comment 1 (tl rest) of
          None \<Rightarrow> Inl UnterminatedSPFComment
        | Some (comment, rest) \<Rightarrow> spf_params result comment rest)
     else spf_params result [] rest)"

end
