(* ===== verification/AuthCompare.thy ===== *)
theory AuthCompare
  imports AuthRes FindingsCatalog
begin

section \<open>Comparing Authentication-Results with computed results (internal/authres/compare.go)\<close>

text \<open>
  The claims that the header fields of a message make are compared with each other and with the computed results.  What
  the code writes as lists of differences and agreements is one list of comparisons.  The code goes through the keys of
  a map, whose order is not defined; the model takes the order in which they first appear.
\<close>

record computed_dkim =
  cd_domain :: string
  cd_selector :: string
  cd_header_b :: string
  cd_result :: string

record computed_results =
  cp_spf :: string
  cp_spf_inferred :: bool
  cp_dkim_evaluated :: bool
  cp_dkim :: "computed_dkim list"
  cp_dmarc :: string

record parsed_header =
  pa_index :: nat
  pa_header :: "ar_header option"
  pa_error :: "ar_error option"
  pa_raw :: string

definition parse_one :: "nat \<Rightarrow> string \<Rightarrow> parsed_header" where
  "parse_one i s = (case parse_auth_results s of
     Inl e \<Rightarrow> \<lparr>pa_index = i, pa_header = None, pa_error = Some e, pa_raw = s\<rparr>
   | Inr h \<Rightarrow> \<lparr>pa_index = i, pa_header = Some h, pa_error = None, pa_raw = s\<rparr>)"

definition parse_all :: "string list \<Rightarrow> parsed_header list" where
  "parse_all vals = map (\<lambda>(i, s). parse_one (i + 1) s) (List.enumerate 0 vals)"

fun first_non_empty :: "string list \<Rightarrow> string" where
  "first_non_empty [] = []"
| "first_non_empty (v # vs) = (if v \<noteq> [] then v else first_non_empty vs)"

definition display_id :: "string \<Rightarrow> string" where
  "display_id i = (if i = [] then ''(no authserv-id)'' else i)"

definition normalize_result :: "string \<Rightarrow> string" where
  "normalize_result r0 = (let r = to_lower r0 in
     if r = ''hardfail'' then ''fail'' else if r = ''bestguesspass'' then ''pass'' else r)"

subsection \<open>Conflicts between the header fields\<close>

record ar_claim =
  ac_id :: string
  ac_key :: string
  ac_result :: string
  ac_index :: nat

definition claim_key :: "ar_result \<Rightarrow> string" where
  "claim_key r = (if re_method r = ''dkim''
     then re_method r @ '' '' @ first_non_empty [prop_of r ''header.b'', prop_of r ''header.d'', prop_of r ''header.i'']
     else re_method r)"

definition claims_of :: "parsed_header \<Rightarrow> ar_claim list" where
  "claims_of p = (case pa_header p of None \<Rightarrow> [] | Some h \<Rightarrow>
     map (\<lambda>r. \<lparr>ac_id = ah_id h, ac_key = claim_key r, ac_result = re_result r, ac_index = pa_index p\<rparr>) (ah_results h))"

definition claims_for :: "string \<Rightarrow> string \<Rightarrow> ar_claim list \<Rightarrow> ar_claim list" where
  "claims_for i key cs = filter (\<lambda>c. ac_id c = i \<and> ac_key c = key) cs"

definition keys_of :: "string \<Rightarrow> ar_claim list \<Rightarrow> string list" where
  "keys_of i cs = rev (remdups (rev (map ac_key (filter (\<lambda>c. ac_id c = i) cs))))"

text \<open>A conflict is reported with the header in which the first of the claims stands.\<close>

definition key_conflict :: "nat \<Rightarrow> ar_claim list \<Rightarrow> bool" where
  "key_conflict index cs = (case cs of
     [] \<Rightarrow> False
   | c # others \<Rightarrow> others \<noteq> [] \<and> ac_index c = index \<and> list_ex (\<lambda>d. ac_result d \<noteq> ac_result c) others)"

definition header_conflicts :: "ar_claim list \<Rightarrow> parsed_header \<Rightarrow> observation list" where
  "header_conflicts cs p = (case pa_header p of None \<Rightarrow> [] | Some h \<Rightarrow>
     map (\<lambda>k. observe ARConflict (display_id (ah_id h)))
       (filter (\<lambda>k. key_conflict (pa_index p) (claims_for (ah_id h) k cs)) (keys_of (ah_id h) cs)))"

subsection \<open>Comparison with the computed results\<close>

datatype comparison = Agreed string string | Differs string string string | PhantomSignature

definition match_by_b :: "string \<Rightarrow> computed_dkim list \<Rightarrow> computed_dkim option" where
  "match_by_b b computed = (
     if length b < 8 then None
     else case filter (\<lambda>c. cd_header_b c \<noteq> [] \<and> (has_prefix (cd_header_b c) b \<or> has_prefix b (cd_header_b c))) computed of
       [c] \<Rightarrow> Some c
     | _ \<Rightarrow> None)"

definition match_dkim :: "ar_result \<Rightarrow> computed_dkim list \<Rightarrow> computed_dkim option" where
  "match_dkim r computed = (let b = prop_of r ''header.b'' in
     if b \<noteq> [] then match_by_b b computed
     else
       let d0 = to_lower (prop_of r ''header.d''); i = prop_of r ''header.i'';
           d = (if d0 = [] \<and> i \<noteq> [] then to_lower (case last_index_byte i (CHR ''@'') of None \<Rightarrow> i | Some n \<Rightarrow> drop (n + 1) i)
                else d0);
           s = to_lower (prop_of r ''header.s'')
       in find (\<lambda>c. d \<noteq> [] \<and> equal_fold (cd_domain c) d \<and> (s = [] \<or> equal_fold (cd_selector c) s)) computed)"

definition check_claim :: "string \<Rightarrow> string \<Rightarrow> string \<Rightarrow> comparison list" where
  "check_claim method claimed computed = (
     if claimed = [] \<or> computed = [] \<or> computed = ''temperror'' then []
     else if normalize_result claimed = normalize_result computed then [Agreed method computed]
     else [Differs method claimed computed])"

definition check_first :: "string \<Rightarrow> ar_header \<Rightarrow> string \<Rightarrow> comparison list" where
  "check_first method h computed = (case by_method h method of [] \<Rightarrow> [] | r # _ \<Rightarrow> check_claim method (re_result r) computed)"

definition check_signature_claim :: "computed_results \<Rightarrow> ar_result \<Rightarrow> comparison list" where
  "check_signature_claim c r = (case match_dkim r (cp_dkim c) of
     Some d \<Rightarrow> check_claim (''dkim d='' @ cd_domain d) (re_result r) (cd_result d)
   | None \<Rightarrow> if re_result r = ''pass'' then [PhantomSignature] else [])"

definition compare_top :: "ar_header \<Rightarrow> computed_results \<Rightarrow> comparison list" where
  "compare_top h c = check_first ''spf'' h (cp_spf c) @ check_first ''dmarc'' h (cp_dmarc c)
     @ (if cp_dkim_evaluated c then concat (map (check_signature_claim c) (by_method h ''dkim'')) else [])"

fun agrees_with :: "comparison \<Rightarrow> bool" where
  "agrees_with (Agreed m r) = True"
| "agrees_with _ = False"

definition comparison_findings :: "string \<Rightarrow> comparison list \<Rightarrow> observation list" where
  "comparison_findings subject cs = (
     if list_ex (\<lambda>c. \<not> agrees_with c) cs then [observe ARMismatch subject]
     else if list_ex agrees_with cs then [observe ARConsistent subject]
     else [])"

definition top_header :: "parsed_header list \<Rightarrow> ar_header option" where
  "top_header ps = find (\<lambda>h. \<not> ah_none h) (List.map_filter pa_header ps)"

definition compare_headers :: "parsed_header list \<Rightarrow> computed_results \<Rightarrow> observation list" where
  "compare_headers parsed c = (
     if parsed = [] then [observe ARNone []]
     else
       let claims = concat (map claims_of parsed)
       in concat (map (\<lambda>p. if pa_header p = None then [observe ARUnparseable []] else []) parsed)
          @ concat (map (header_conflicts claims) parsed)
          @ (case top_header parsed of
               None \<Rightarrow> []
             | Some h \<Rightarrow> comparison_findings (display_id (ah_id h)) (compare_top h c)))"

end
