(* ===== verification/AuthProps.thy ===== *)
theory AuthProps
  imports AuthCompare
begin

section \<open>What the parsers and the comparison guarantee\<close>

subsection \<open>Well-formed results\<close>

definition lower_case :: "string \<Rightarrow> bool" where
  "lower_case s \<longleftrightarrow> to_lower s = s"

definition result_ok :: "ar_result \<Rightarrow> bool" where
  "result_ok r \<longleftrightarrow> is_keyword (re_method r) \<and> is_keyword (re_result r) \<and> re_props r ''reason'' = None
     \<and> (\<forall>k v. re_props r k = Some v \<longrightarrow> lower_case k)"

lemma apply_props_keeps:
  "apply_props toks r = Inr r' \<Longrightarrow> result_ok r \<Longrightarrow> result_ok r' \<and> re_method r' = re_method r"
proof (induction toks arbitrary: r)
  case (Cons tok toks)
  obtain n v ok where c: "cut tok (CHR ''='') = (n, v, ok)" by (cases "cut tok (CHR ''='')")
  define r1 where "r1 = (if to_lower n = ''reason'' then r\<lparr>re_reason := unquote v\<rparr>
      else if re_props r (to_lower n) = None then r\<lparr>re_props := (re_props r)(to_lower n \<mapsto> unquote v)\<rparr> else r)"
  have "apply_props toks r1 = Inr r'" using Cons.prems(1) c by (simp add: Let_def r1_def del: not_None_eq split: if_splits)
  moreover have "result_ok r1" "re_method r1 = re_method r"
    using Cons.prems(2) by (auto simp: r1_def result_ok_def lower_case_def)
  ultimately show ?case using Cons.IH [of r1] by simp
qed simp

lemma parse_res_info_ok: "parse_res_info s = Inr r \<Longrightarrow> result_ok r"
  by (auto simp: parse_res_info_def Let_def result_ok_def split: list.splits prod.splits if_splits
      dest!: apply_props_keeps)

lemma parse_results_ok: "parse_results ps = Inr rs \<Longrightarrow> list_all result_ok rs"
  by (induction ps arbitrary: rs) (auto split: if_splits sum.splits simp: parse_res_info_ok)

text \<open>
  A header field that parses has a lower-case identifier, and every result in it has a method and a result that are
  keywords, also when they were quoted, and properties with lower-case names; a header field that says none has no
  results.
\<close>

theorem parsed_auth_results_well_formed:
  "case parse_auth_results s of
     Inl e \<Rightarrow> True
   | Inr h \<Rightarrow> lower_case (ah_id h) \<and> list_all result_ok (ah_results h) \<and> (if ah_none h then ah_results h = [] else True)"
  by (auto simp: parse_auth_results_def Let_def lower_case_def parse_results_ok split: sum.split if_splits)

subsection \<open>Conflicts\<close>

definition reports_conflict :: "observation list \<Rightarrow> bool" where
  "reports_conflict fs = list_ex (\<lambda>f. ob_rule f = ARConflict) fs"

lemma conflict_rules_differ:
  "ARNone \<noteq> ARConflict" "ARUnparseable \<noteq> ARConflict" "ARMismatch \<noteq> ARConflict" "ARConsistent \<noteq> ARConflict"
  by (rule other_id, simp add: ARNone_def ARUnparseable_def ARMismatch_def ARConsistent_def ARConflict_def)+

lemma key_conflictD:
  "key_conflict i cs \<Longrightarrow> \<exists>c \<in> set cs. \<exists>d \<in> set cs. ac_result d \<noteq> ac_result c"
  by (auto simp: key_conflict_def list_ex_iff split: list.splits)

lemma key_conflictI:
  assumes "c \<in> set cs" "d \<in> set cs" "ac_result d \<noteq> ac_result c"
  shows "key_conflict (ac_index (hd cs)) cs"
proof (cases cs)
  case (Cons a as)
  then have "\<exists>x \<in> set as. ac_result x \<noteq> ac_result a" using assms by (cases "ac_result c = ac_result a") auto
  then show ?thesis using Cons by (auto simp: key_conflict_def list_ex_iff)
qed (use assms in simp)

lemma claims_of_header: "c \<in> set (claims_of p) \<Longrightarrow> \<exists>h. pa_header p = Some h \<and> ah_id h = ac_id c \<and> pa_index p = ac_index c"
  by (cases "pa_header p") (auto simp: claims_of_def)

text \<open>Two claims that the same server makes about the same thing, with different results.\<close>

definition contradict :: "ar_claim \<Rightarrow> ar_claim \<Rightarrow> bool" where
  "contradict a b \<longleftrightarrow> ac_id a = ac_id b \<and> ac_key a = ac_key b \<and> ac_result a \<noteq> ac_result b"

lemma header_conflicts_iff:
  assumes "claims = concat (map claims_of ps)"
  shows "(\<exists>p \<in> set ps. header_conflicts claims p \<noteq> []) \<longleftrightarrow> (\<exists>a \<in> set claims. \<exists>b \<in> set claims. contradict a b)"
proof
  assume "\<exists>p \<in> set ps. header_conflicts claims p \<noteq> []"
  then obtain p where "header_conflicts claims p \<noteq> []" by blast
  then obtain i k where "key_conflict (pa_index p) (claims_for i k claims)"
    by (cases "pa_header p") (auto simp: header_conflicts_def filter_empty_conv)
  then obtain c d where "c \<in> set (claims_for i k claims)" "d \<in> set (claims_for i k claims)" "ac_result d \<noteq> ac_result c"
    using key_conflictD by blast
  then show "\<exists>a \<in> set claims. \<exists>b \<in> set claims. contradict a b"
    by (auto simp: claims_for_def contradict_def)
next
  assume "\<exists>a \<in> set claims. \<exists>b \<in> set claims. contradict a b"
  then obtain a b where ab: "a \<in> set claims" "b \<in> set claims" "contradict a b" by blast
  let ?cs = "claims_for (ac_id a) (ac_key a) claims"
  have in_cs: "a \<in> set ?cs" "b \<in> set ?cs" using ab by (auto simp: claims_for_def contradict_def)
  have conflict: "key_conflict (ac_index (hd ?cs)) ?cs"
    using key_conflictI [OF in_cs(2,1)] ab(3) by (simp add: contradict_def)
  have "hd ?cs \<in> set ?cs" using in_cs(1) by (cases ?cs) auto
  then have first: "hd ?cs \<in> set claims" "ac_id (hd ?cs) = ac_id a" by (auto simp: claims_for_def)
  then obtain p where p: "p \<in> set ps" "hd ?cs \<in> set (claims_of p)" using assms by auto
  then obtain h where h: "pa_header p = Some h" "ah_id h = ac_id a" "pa_index p = ac_index (hd ?cs)"
    using claims_of_header first(2) by fastforce
  have "ac_key a \<in> set (keys_of (ah_id h) claims)" using ab(1) h(2) by (auto simp: keys_of_def)
  then have "header_conflicts claims p \<noteq> []"
    using conflict h by (auto simp: header_conflicts_def filter_empty_conv)
  then show "\<exists>p \<in> set ps. header_conflicts claims p \<noteq> []" using p(1) by blast
qed

lemma reports_conflict_parts:
  "reports_conflict (header_conflicts cs p) \<longleftrightarrow> header_conflicts cs p \<noteq> []"
  "\<not> reports_conflict (comparison_findings s xs)" "\<not> reports_conflict [observe ARNone []]"
  by (auto simp: reports_conflict_def header_conflicts_def comparison_findings_def conflict_rules_differ list_ex_iff
      filter_empty_conv split: option.splits)

lemma reports_conflict_concat: "reports_conflict (concat xss) \<longleftrightarrow> list_ex reports_conflict xss"
  by (auto simp: reports_conflict_def list_ex_iff)

lemma reports_conflict_append: "reports_conflict (fs @ gs) \<longleftrightarrow> reports_conflict fs \<or> reports_conflict gs"
  by (simp add: reports_conflict_def)

lemma reports_conflict_unparseable: "\<not> reports_conflict [observe ARUnparseable []]" "\<not> reports_conflict []"
  by (simp_all add: reports_conflict_def conflict_rules_differ)

lemma compare_conflict:
  "reports_conflict (compare_headers ps c) \<longleftrightarrow> (\<exists>p \<in> set ps. header_conflicts (concat (map claims_of ps)) p \<noteq> [])"
  by (simp add: compare_headers_def Let_def reports_conflict_append reports_conflict_concat reports_conflict_parts
      reports_conflict_unparseable list_ex_iff split: option.split) (auto simp: reports_conflict_unparseable)

text \<open>
  Claim C39. A conflict between header fields is reported exactly when two results of the same server about the same thing
  differ, wherever they stand.
\<close>

theorem conflict_reported_iff:
  "list_ex (\<lambda>f. ob_rule f = ARConflict) (compare_headers ps c) \<longleftrightarrow>
     (let claims = concat (map claims_of ps) in list_ex (\<lambda>a. list_ex (contradict a) claims) claims)"
  using compare_conflict [of ps c] header_conflicts_iff [OF refl, of ps]
  unfolding reports_conflict_def Let_def list_ex_iff by blast

end
