(* ===== verification/Arc.thy ===== *)
theory Arc
  imports MailMessage FindingsCatalog
begin

section \<open>ARC header sets (internal/arc/arc.go)\<close>

text \<open>
  The structure of the ARC chain of a message.  The map from instance numbers to sets is a partial function; its keys lie
  between 1 and the largest number allowed, so going through that range visits them in order.
\<close>

definition max_instances :: int where "max_instances = 50"

record arc_set =
  aset_instance :: int
  aset_cv :: string
  aset_domain :: string
  aset_selector :: string
  aset_seal :: bool
  aset_signature :: bool
  aset_results :: bool

datatype arc_kind = ArcSeal | ArcSignature | ArcResults

datatype arc_problem = InvalidInstance arc_kind | RepeatedHeader arc_kind int | NotConsecutive int | IncompleteInstance int
  | FirstCV string | InvalidCV int string

record arc_summary =
  arc_sets :: "arc_set list"
  arc_valid :: bool
  arc_problems :: "arc_problem list"
  arc_findings :: "observation list"

definition add_tag :: "string \<Rightarrow> (string \<Rightarrow> string) \<Rightarrow> (string \<Rightarrow> string)" where
  "add_tag part tags = (case cut part (CHR ''='') of (name, val, ok) \<Rightarrow>
     if ok then tags(to_lower (trim_space name) := trim_space val) else tags)"

definition instance_of :: "string \<Rightarrow> int \<times> (string \<Rightarrow> string)" where
  "instance_of s = (let tags = fold add_tag (split_byte (CHR '';'') s) (\<lambda>_. []) in
     (case parse_int64 (tags ''i'') of None \<Rightarrow> 0 | Some n \<Rightarrow> n, tags))"

definition new_set :: "int \<Rightarrow> arc_set" where
  "new_set i = \<lparr>aset_instance = i, aset_cv = [], aset_domain = [], aset_selector = [], aset_seal = False,
     aset_signature = False, aset_results = False\<rparr>"

fun mark_set :: "arc_kind \<Rightarrow> (string \<Rightarrow> string) \<Rightarrow> arc_set \<Rightarrow> arc_set \<times> bool" where
  "mark_set ArcSeal tags s = (s\<lparr>aset_seal := True, aset_cv := to_lower (tags ''cv''), aset_domain := tags ''d'',
     aset_selector := tags ''s''\<rparr>, aset_seal s)"
| "mark_set ArcSignature tags s = (s\<lparr>aset_signature := True\<rparr>, aset_signature s)"
| "mark_set ArcResults tags s = (s\<lparr>aset_results := True\<rparr>, aset_results s)"

type_synonym arc_state = "(int \<Rightarrow> arc_set option) \<times> arc_problem list"

definition arc_header :: "arc_kind \<Rightarrow> string \<Rightarrow> arc_state \<Rightarrow> arc_state" where
  "arc_header k s st = (case st of (m, ps) \<Rightarrow>
     (case instance_of s of (i, tags) \<Rightarrow>
       if i < 1 \<or> max_instances < i then (m, ps @ [InvalidInstance k])
       else (case mark_set k tags (case m i of None \<Rightarrow> new_set i | Some x \<Rightarrow> x) of (x, dup) \<Rightarrow>
         (m(i \<mapsto> x), if dup then ps @ [RepeatedHeader k i] else ps))))"

definition arc_headers :: "arc_kind \<Rightarrow> string list \<Rightarrow> arc_state \<Rightarrow> arc_state" where
  "arc_headers k vals st = fold (arc_header k) vals st"

definition set_problems :: "int \<Rightarrow> arc_set \<Rightarrow> arc_problem list" where
  "set_problems position s = (let k = aset_instance s in
     (if k \<noteq> position then [NotConsecutive k] else [])
     @ (if \<not> aset_seal s \<or> \<not> aset_signature s \<or> \<not> aset_results s then [IncompleteInstance k] else [])
     @ (if k = 1 \<and> aset_seal s \<and> aset_cv s \<noteq> ''none'' then [FirstCV (aset_cv s)]
        else if 1 < k \<and> aset_seal s \<and> aset_cv s \<noteq> ''pass'' \<and> aset_cv s \<noteq> ''fail'' then [InvalidCV k (aset_cv s)]
        else []))"

fun sets_problems :: "int \<Rightarrow> arc_set list \<Rightarrow> arc_problem list" where
  "sets_problems position [] = []"
| "sets_problems position (s # ss) = set_problems position s @ sets_problems (position + 1) ss"

definition ordered_sets :: "(int \<Rightarrow> arc_set option) \<Rightarrow> arc_set list" where
  "ordered_sets m = List.map_filter m [1..max_instances]"

definition arc_verdict :: "arc_set list \<Rightarrow> bool \<Rightarrow> observation list" where
  "arc_verdict sets valid = (
     if \<not> valid then [observe ARCInvalid []]
     else let s = last sets in
       if aset_cv s = ''fail'' then [observe ARCFail (aset_domain s)] else [observe ARCPresent (aset_domain s)])"

definition summarize_arc :: "message \<Rightarrow> arc_summary option" where
  "summarize_arc msg = (
     let vals = (\<lambda>name. map hd_value (get_headers msg name));
         seals = vals ''ARC-Seal''; sigs = vals ''ARC-Message-Signature''; results = vals ''ARC-Authentication-Results''
     in if length seals + length sigs + length results = 0 then None
        else
          let (m, ps) = arc_headers ArcResults results (arc_headers ArcSignature sigs (arc_headers ArcSeal seals (Map.empty, [])));
              sets = ordered_sets m;
              problems = ps @ sets_problems 1 sets;
              valid = (problems = [] \<and> 0 < length sets)
          in Some \<lparr>arc_sets = sets, arc_valid = valid, arc_problems = problems, arc_findings = arc_verdict sets valid\<rparr>)"

end
