(* ===== verification/ArcProps.thy ===== *)
theory ArcProps
  imports Arc
begin

section \<open>When an ARC chain is structurally valid\<close>

text \<open>
  A declarative reading: the three headers occur once each for the instances from 1 to some number, the first seal says
  that there was nothing to validate, and the later ones how the validation went.
\<close>

definition instance_no :: "string \<Rightarrow> int" where
  "instance_no v = fst (instance_of v)"

definition seal_cv :: "string \<Rightarrow> string" where
  "seal_cv v = to_lower (snd (instance_of v) ''cv'')"

definition seal_ok :: "string \<Rightarrow> bool" where
  "seal_ok v \<longleftrightarrow> (if instance_no v = 1 then seal_cv v = ''none'' else seal_cv v = ''pass'' \<or> seal_cv v = ''fail'')"

definition instances_up_to :: "int \<Rightarrow> string list \<Rightarrow> bool" where
  "instances_up_to n vals \<longleftrightarrow> mset (map instance_no vals) = mset [1..n]"

definition well_formed_chain :: "string list \<Rightarrow> string list \<Rightarrow> string list \<Rightarrow> bool" where
  "well_formed_chain seals sigs results \<longleftrightarrow> list_all seal_ok seals \<and>
     list_ex (\<lambda>n. instances_up_to n seals \<and> instances_up_to n sigs \<and> instances_up_to n results) [1..max_instances]"

subsection \<open>Collecting the headers\<close>

fun has_kind :: "arc_kind \<Rightarrow> arc_set \<Rightarrow> bool" where
  "has_kind ArcSeal s = aset_seal s"
| "has_kind ArcSignature s = aset_signature s"
| "has_kind ArcResults s = aset_results s"

definition marked :: "arc_kind \<Rightarrow> (int \<Rightarrow> arc_set option) \<Rightarrow> int \<Rightarrow> bool" where
  "marked k m i \<longleftrightarrow> (case m i of None \<Rightarrow> False | Some s \<Rightarrow> has_kind k s)"

definition in_range :: "int \<Rightarrow> bool" where
  "in_range i \<longleftrightarrow> 1 \<le> i \<and> i \<le> max_instances"

definition keyed :: "(int \<Rightarrow> arc_set option) \<Rightarrow> bool" where
  "keyed m \<longleftrightarrow> (\<forall>i s. m i = Some s \<longrightarrow> aset_instance s = i \<and> in_range i)"

definition cv_at :: "(int \<Rightarrow> arc_set option) \<Rightarrow> int \<Rightarrow> string" where
  "cv_at m i = (case m i of None \<Rightarrow> [] | Some s \<Rightarrow> aset_cv s)"

lemma mark_set_simps [simp]:
  "aset_instance (fst (mark_set k tags s)) = aset_instance s"
  "has_kind k' (fst (mark_set k tags s)) \<longleftrightarrow> has_kind k' s \<or> k' = k"
  "snd (mark_set k tags s) = has_kind k s"
  "aset_cv (fst (mark_set k tags s)) = (if k = ArcSeal then to_lower (tags ''cv'') else aset_cv s)"
  by (cases k; cases k'; simp)+

lemma new_set_simps [simp]: "aset_instance (new_set i) = i" "\<not> has_kind k (new_set i)" "aset_cv (new_set i) = []"
  by (cases k; simp add: new_set_def)+

text \<open>One header: outside the range it is a problem, inside it marks the set of its instance.\<close>

definition set_at :: "(int \<Rightarrow> arc_set option) \<Rightarrow> int \<Rightarrow> arc_set" where
  "set_at m i = (case m i of None \<Rightarrow> new_set i | Some s \<Rightarrow> s)"

lemma set_at_simps:
  "has_kind k (set_at m i) = marked k m i" "aset_cv (set_at m i) = cv_at m i"
  "keyed m \<Longrightarrow> aset_instance (set_at m i) = i"
  by (auto simp: set_at_def marked_def cv_at_def keyed_def split: option.split)

lemma map_upd_simps [simp]:
  "marked k (m(i \<mapsto> s)) j = (if j = i then has_kind k s else marked k m j)"
  "cv_at (m(i \<mapsto> s)) j = (if j = i then aset_cv s else cv_at m j)"
  by (simp_all add: marked_def cv_at_def)

lemma arc_header_out: "\<not> in_range (instance_no v) \<Longrightarrow> arc_header k v st = (fst st, snd st @ [InvalidInstance k])"
  by (cases "instance_of v") (auto simp: arc_header_def in_range_def instance_no_def case_prod_unfold)

lemma arc_header_in:
  assumes "in_range (instance_no v)"
  shows "arc_header k v st = ((fst st)(instance_no v \<mapsto> fst (mark_set k (snd (instance_of v)) (set_at (fst st) (instance_no v)))),
    if marked k (fst st) (instance_no v) then snd st @ [RepeatedHeader k (instance_no v)] else snd st)"
proof -
  obtain m ps i tags where e: "st = (m, ps)" "instance_of v = (i, tags)" by (metis surj_pair)
  show ?thesis using assms unfolding instance_no_def arc_header_def e prod.case fst_conv snd_conv set_at_def [symmetric]
    by (simp add: in_range_def case_prod_unfold set_at_simps)
qed

lemma arc_headers_simps [simp]:
  "arc_headers k [] st = st" "arc_headers k (v # vs) st = arc_headers k vs (arc_header k v st)"
  by (simp_all add: arc_headers_def)

lemma arc_headers_marked:
  "marked k' (fst (arc_headers k vals st)) i \<longleftrightarrow>
     marked k' (fst st) i \<or> k' = k \<and> in_range i \<and> i \<in> instance_no ` set vals"
proof (induction vals arbitrary: st)
  case (Cons v vals)
  have "marked k' (fst (arc_header k v st)) i \<longleftrightarrow> marked k' (fst st) i \<or> k' = k \<and> in_range i \<and> i = instance_no v"
    by (cases "in_range (instance_no v)") (auto simp: arc_header_out arc_header_in set_at_simps)
  then show ?case using Cons.IH by auto
qed simp

lemma arc_headers_dom:
  "fst (arc_headers k vals st) i \<noteq> None \<longleftrightarrow> fst st i \<noteq> None \<or> in_range i \<and> i \<in> instance_no ` set vals"
proof (induction vals arbitrary: st)
  case (Cons v vals)
  have "fst (arc_header k v st) i \<noteq> None \<longleftrightarrow> fst st i \<noteq> None \<or> in_range i \<and> i = instance_no v"
    by (cases "in_range (instance_no v)") (auto simp: arc_header_out arc_header_in)
  then show ?case using Cons.IH by auto
qed simp

lemma arc_headers_keyed: "keyed (fst st) \<Longrightarrow> keyed (fst (arc_headers k vals st))"
proof (induction vals arbitrary: st)
  case (Cons v vals)
  have "keyed (fst (arc_header k v st))"
    using Cons.prems by (cases "in_range (instance_no v)")
      (auto simp: arc_header_out arc_header_in set_at_simps keyed_def [of "_(_ \<mapsto> _)"] keyed_def [THEN iffD1, rule_format])
  then show ?case using Cons.IH by simp
qed simp

lemma arc_headers_quiet:
  "snd (arc_headers k vals st) = [] \<longleftrightarrow> snd st = [] \<and> list_all in_range (map instance_no vals)
     \<and> distinct (map instance_no vals) \<and> list_all (\<lambda>v. \<not> marked k (fst st) (instance_no v)) vals"
proof (induction vals arbitrary: st)
  case (Cons v vals)
  show ?case
  proof (cases "in_range (instance_no v)")
    case False
    then show ?thesis using Cons.IH [of "arc_header k v st"] by (simp add: arc_header_out)
  next
    case True
    have "marked k (fst (arc_header k v st)) j \<longleftrightarrow> marked k (fst st) j \<or> j = instance_no v" for j
      using True by (auto simp: arc_header_in set_at_simps)
    moreover have "snd (arc_header k v st) = [] \<longleftrightarrow> snd st = [] \<and> \<not> marked k (fst st) (instance_no v)"
      using True by (auto simp: arc_header_in)
    moreover have "instance_no v \<in> instance_no ` set vals \<longleftrightarrow> \<not> (\<forall>x \<in> set vals. instance_no x \<noteq> instance_no v)"
      by (metis (no_types, lifting) image_iff)
    ultimately show ?thesis using True
      unfolding arc_headers_simps Cons.IH [of "arc_header k v st"] list.map distinct.simps list.set_map list_all_iff
      by (simp add: ball_conj_distrib conj_ac)
  qed
qed simp

lemma arc_headers_cv_other:
  "(if k = ArcSeal then i \<notin> instance_no ` set vals else True) \<Longrightarrow> cv_at (fst (arc_headers k vals st)) i = cv_at (fst st) i"
proof (induction vals arbitrary: st)
  case (Cons v vals)
  have "cv_at (fst (arc_header k v st)) i = cv_at (fst st) i"
    using Cons.prems by (cases "in_range (instance_no v)") (auto simp: arc_header_out arc_header_in set_at_simps split: if_splits)
  then show ?case using Cons by (auto split: if_splits)
qed simp

lemma arc_headers_cv:
  "distinct (map instance_no vals) \<Longrightarrow> list_all in_range (map instance_no vals) \<Longrightarrow> v \<in> set vals
    \<Longrightarrow> cv_at (fst (arc_headers ArcSeal vals st)) (instance_no v) = seal_cv v"
proof (induction vals arbitrary: st)
  case (Cons w vals)
  show ?case
  proof (cases "v = w")
    case True
    then have "cv_at (fst (arc_headers ArcSeal (w # vals) st)) (instance_no v) = cv_at (fst (arc_header ArcSeal w st)) (instance_no v)"
      using Cons.prems by (auto intro: arc_headers_cv_other)
    then show ?thesis using True Cons.prems by (simp add: arc_header_in seal_cv_def)
  qed (use Cons in simp)
qed simp

subsection \<open>The sets in order\<close>

definition set_fine :: "(int \<Rightarrow> arc_set option) \<Rightarrow> int \<Rightarrow> bool" where
  "set_fine m i \<longleftrightarrow> marked ArcSeal m i \<and> marked ArcSignature m i \<and> marked ArcResults m i
     \<and> (if i = 1 then cv_at m i = ''none'' else cv_at m i = ''pass'' \<or> cv_at m i = ''fail'')"

lemma set_problems_none:
  "m i = Some s \<Longrightarrow> keyed m \<Longrightarrow> set_problems pos s = [] \<longleftrightarrow> i = pos \<and> set_fine m i"
  using keyed_def [THEN iffD1, rule_format, of m i s]
  by (auto simp: set_problems_def Let_def set_fine_def marked_def cv_at_def in_range_def)

lemma sets_problems_none:
  assumes "keyed m" "\<forall>i \<in> set is. m i \<noteq> None"
  shows "sets_problems pos (List.map_filter m is) = [] \<longleftrightarrow> is = [pos..pos + int (length is) - 1] \<and> list_all (set_fine m) is"
  using assms(2)
proof (induction "is" arbitrary: pos)
  case (Cons i "is")
  then obtain s where s: "m i = Some s" by auto
  have "[pos..pos + int (length (i # is)) - 1] = pos # [pos + 1..(pos + 1) + int (length is) - 1]"
    by (simp add: upto_rec1)
  then show ?case using Cons s set_problems_none [OF s assms(1)]
    by (auto simp: map_filter_simps)
qed (simp add: map_filter_simps)

lemma map_filter_restrict: "List.map_filter m xs = List.map_filter m (filter (\<lambda>i. m i \<noteq> None) xs)"
  by (induction xs) (auto simp: map_filter_simps)

lemma sorted_upto_filter:
  assumes "\<And>i. m i \<noteq> None \<Longrightarrow> in_range i"
  shows "filter (\<lambda>i. m i \<noteq> None) [1..max_instances] = [1..n] \<longleftrightarrow> (\<forall>i. m i \<noteq> None \<longleftrightarrow> 1 \<le> i \<and> i \<le> n)"
proof
  assume eq: "filter (\<lambda>i. m i \<noteq> None) [1..max_instances] = [1..n]"
  have "m i \<noteq> None \<longleftrightarrow> i \<in> set (filter (\<lambda>i. m i \<noteq> None) [1..max_instances])" for i
    using assms [of i] by (auto simp: in_range_def)
  then show "\<forall>i. m i \<noteq> None \<longleftrightarrow> 1 \<le> i \<and> i \<le> n" unfolding eq by simp
next
  assume all: "\<forall>i. m i \<noteq> None \<longleftrightarrow> 1 \<le> i \<and> i \<le> n"
  then have "set (filter (\<lambda>i. m i \<noteq> None) [1..max_instances]) = set [1..n]"
    using assms by (fastforce simp: in_range_def)
  then show "filter (\<lambda>i. m i \<noteq> None) [1..max_instances] = [1..n]"
    by (intro sorted_distinct_set_unique) (simp_all add: sorted_wrt_filter)
qed

lemma arc_headers_of_chain:
  assumes "arc_headers ArcResults results (arc_headers ArcSignature sigs (arc_headers ArcSeal seals (Map.empty, []))) = (m, ps)"
  shows "keyed m"
    and "m i \<noteq> None \<longleftrightarrow> in_range i \<and> i \<in> instance_no ` (set seals \<union> set sigs \<union> set results)"
    and "marked ArcSeal m i \<longleftrightarrow> in_range i \<and> i \<in> instance_no ` set seals"
    and "marked ArcSignature m i \<longleftrightarrow> in_range i \<and> i \<in> instance_no ` set sigs"
    and "marked ArcResults m i \<longleftrightarrow> in_range i \<and> i \<in> instance_no ` set results"
    and "ps = [] \<longleftrightarrow> (\<forall>vals \<in> {seals, sigs, results}. list_all in_range (map instance_no vals) \<and> distinct (map instance_no vals))"
    and "ps = [] \<Longrightarrow> v \<in> set seals \<Longrightarrow> cv_at m (instance_no v) = seal_cv v"
proof -
  let ?st1 = "arc_headers ArcSeal seals (Map.empty, [])"
  let ?st2 = "arc_headers ArcSignature sigs ?st1"
  have m: "m = fst (arc_headers ArcResults results ?st2)" "ps = snd (arc_headers ArcResults results ?st2)"
    using assms by simp_all
  have none: "\<not> marked k Map.empty j" for k j by (simp add: marked_def)
  show "keyed m" unfolding m by (intro arc_headers_keyed) (simp add: keyed_def)
  show "m i \<noteq> None \<longleftrightarrow> in_range i \<and> i \<in> instance_no ` (set seals \<union> set sigs \<union> set results)"
    unfolding m arc_headers_dom by auto
  show "marked ArcSeal m i \<longleftrightarrow> in_range i \<and> i \<in> instance_no ` set seals"
    "marked ArcSignature m i \<longleftrightarrow> in_range i \<and> i \<in> instance_no ` set sigs"
    "marked ArcResults m i \<longleftrightarrow> in_range i \<and> i \<in> instance_no ` set results"
    unfolding m arc_headers_marked by (auto simp: none)
  show quiet: "ps = [] \<longleftrightarrow> (\<forall>vals \<in> {seals, sigs, results}. list_all in_range (map instance_no vals) \<and> distinct (map instance_no vals))"
    unfolding m arc_headers_quiet arc_headers_marked by (auto simp: none list_all_iff)
  show "cv_at m (instance_no v) = seal_cv v" if "ps = []" "v \<in> set seals"
    using that quiet unfolding m by (simp add: arc_headers_cv_other arc_headers_cv)
qed

lemma instances_up_to_iff:
  "instances_up_to n vals \<longleftrightarrow> distinct (map instance_no vals) \<and> instance_no ` set vals = {1..n}"
proof
  assume "instances_up_to n vals"
  then have eq: "mset (map instance_no vals) = mset [1..n]" by (simp add: instances_up_to_def)
  have "distinct (map instance_no vals)" using eq mset_eq_imp_distinct_iff [OF eq] by simp
  moreover have "instance_no ` set vals = {1..n}" using mset_eq_setD [OF eq] by simp
  ultimately show "distinct (map instance_no vals) \<and> instance_no ` set vals = {1..n}" by simp
next
  assume "distinct (map instance_no vals) \<and> instance_no ` set vals = {1..n}"
  then have "mset (map instance_no vals) = mset_set {1..n}" "mset [1..n] = mset_set {1..n}"
    using mset_set_set [of "map instance_no vals"] mset_set_set [of "[1..n]"] by simp_all
  then show "instances_up_to n vals" by (simp add: instances_up_to_def)
qed

text \<open>The sets are those numbered from one up to some number, and each of them is fine.\<close>

definition sets_up_to :: "int \<Rightarrow> (int \<Rightarrow> arc_set option) \<Rightarrow> bool" where
  "sets_up_to n m \<longleftrightarrow> 1 \<le> n \<and> n \<le> max_instances \<and> (\<forall>i. m i \<noteq> None \<longleftrightarrow> i \<in> {1..n}) \<and> (\<forall>i\<in>{1..n}. set_fine m i)"

lemma chain_sets:
  assumes run: "arc_headers ArcResults results (arc_headers ArcSignature sigs (arc_headers ArcSeal seals (Map.empty, []))) = (m, ps)"
  shows "sets_problems 1 (ordered_sets m) = [] \<and> ordered_sets m \<noteq> [] \<longleftrightarrow> (\<exists>n. sets_up_to n m)"
proof -
  note facts = arc_headers_of_chain [OF run]
  define keys where "keys = filter (\<lambda>i. m i \<noteq> None) [1..max_instances]"
  have range: "m i \<noteq> None \<Longrightarrow> in_range i" for i using facts(2) by blast
  have sets: "ordered_sets m = List.map_filter m keys" "\<forall>i \<in> set keys. m i \<noteq> None"
    unfolding ordered_sets_def keys_def by (rule map_filter_restrict) simp
  have none: "ordered_sets m = [] \<longleftrightarrow> keys = []" using sets by (cases keys) (auto simp: map_filter_simps)
  have problems: "sets_problems 1 (ordered_sets m) = [] \<longleftrightarrow> keys = [1..int (length keys)] \<and> list_all (set_fine m) keys"
    using sets_problems_none [OF facts(1) sets(2), of 1] sets(1) by simp
  have keys: "keys = [1..n] \<longleftrightarrow> (\<forall>i. m i \<noteq> None \<longleftrightarrow> i \<in> {1..n})" for n
    unfolding keys_def atLeastAtMost_iff by (rule sorted_upto_filter [OF range])
  show ?thesis
  proof
    assume valid: "sets_problems 1 (ordered_sets m) = [] \<and> ordered_sets m \<noteq> []"
    define n where "n = int (length keys)"
    have n: "keys = [1..n]" "list_all (set_fine m) keys" "keys \<noteq> []" using valid problems none unfolding n_def by simp_all
    have dom: "\<forall>i. m i \<noteq> None \<longleftrightarrow> i \<in> {1..n}" using keys n(1) by blast
    then have "m n \<noteq> None" using n(1,3) by simp
    then have "sets_up_to n m"
      using dom n range [of n] unfolding sets_up_to_def by (simp add: list_all_iff in_range_def)
    then show "\<exists>n. sets_up_to n m" by blast
  next
    assume "\<exists>n. sets_up_to n m"
    then obtain n where n: "1 \<le> n" "\<forall>i. m i \<noteq> None \<longleftrightarrow> i \<in> {1..n}" "\<forall>i\<in>{1..n}. set_fine m i"
      unfolding sets_up_to_def by blast
    then have "keys = [1..n]" using keys by blast
    then show "sets_problems 1 (ordered_sets m) = [] \<and> ordered_sets m \<noteq> []"
      using problems none n(1,3) by (simp add: list_all_iff)
  qed
qed

lemma chain_sound:
  assumes run: "arc_headers ArcResults results (arc_headers ArcSignature sigs (arc_headers ArcSeal seals (Map.empty, []))) = (m, [])"
    and sets: "sets_up_to n m"
  shows "well_formed_chain seals sigs results"
proof -
  note facts = arc_headers_of_chain [OF run]
  have dom: "m i \<noteq> None \<longleftrightarrow> i \<in> {1..n}" and fine: "i \<in> {1..n} \<Longrightarrow> set_fine m i" for i
    using sets unfolding sets_up_to_def by blast+
  have nos: "instance_no ` set vals = {1..n}" if vals: "vals \<in> {seals, sigs, results}" for vals
  proof
    have "in_range i" if "i \<in> instance_no ` set vals" for i
      using that vals facts(6) by (auto simp: list_all_iff)
    then have "m i \<noteq> None" if "i \<in> instance_no ` set vals" for i
      using that vals facts(2) [of i] by blast
    then show "instance_no ` set vals \<subseteq> {1..n}" using dom by blast
    show "{1..n} \<subseteq> instance_no ` set vals"
      using fine facts(3-5) vals unfolding set_fine_def by blast
  qed
  have "seal_ok v" if v: "v \<in> set seals" for v
  proof -
    have "set_fine m (instance_no v)" using fine nos [of seals] v by blast
    then show ?thesis using facts(7) [OF _ v] unfolding set_fine_def seal_ok_def by metis
  qed
  moreover have "instances_up_to n vals" if "vals \<in> {seals, sigs, results}" for vals
    using nos [OF that] facts(6) that by (auto simp: instances_up_to_iff)
  ultimately show ?thesis using sets
    unfolding well_formed_chain_def list_all_iff list_ex_iff sets_up_to_def by (intro conjI bexI [of _ n]) simp_all
qed

lemma chain_complete:
  assumes run: "arc_headers ArcResults results (arc_headers ArcSignature sigs (arc_headers ArcSeal seals (Map.empty, []))) = (m, ps)"
    and well: "well_formed_chain seals sigs results"
  shows "ps = [] \<and> (\<exists>n. sets_up_to n m)"
proof -
  note facts = arc_headers_of_chain [OF run]
  obtain n where n: "1 \<le> n" "n \<le> max_instances" "list_all seal_ok seals"
    and up: "\<forall>vals \<in> {seals, sigs, results}. distinct (map instance_no vals) \<and> instance_no ` set vals = {1..n}"
    using well by (auto simp: well_formed_chain_def list_ex_iff instances_up_to_iff)
  have nos: "instance_no ` set seals = {1..n}" "instance_no ` set sigs = {1..n}" "instance_no ` set results = {1..n}"
    using up by blast+
  have range: "in_range i" if "i \<in> {1..n}" for i using that n(2) by (simp add: in_range_def)
  then have quiet: "ps = []" using up unfolding facts(6) list_all_iff set_map by blast
  have dom: "m i \<noteq> None \<longleftrightarrow> i \<in> {1..n}" for i unfolding facts(2) image_Un nos using range by blast
  have "set_fine m i" if i: "i \<in> {1..n}" for i
  proof -
    obtain v where v: "v \<in> set seals" "i = instance_no v" using i nos(1) by blast
    have "seal_ok v" using n(3) v(1) by (simp add: list_all_iff)
    then have "if i = 1 then cv_at m i = ''none'' else cv_at m i = ''pass'' \<or> cv_at m i = ''fail''"
      using facts(7) [OF quiet v(1)] v(2) unfolding seal_ok_def by metis
    then show ?thesis using i range unfolding set_fine_def facts(3-5) nos by blast
  qed
  then show ?thesis using quiet n dom unfolding sets_up_to_def by blast
qed

lemma chain_valid:
  assumes "arc_headers ArcResults results (arc_headers ArcSignature sigs (arc_headers ArcSeal seals (Map.empty, []))) = (m, ps)"
  shows "ps = [] \<and> sets_problems 1 (ordered_sets m) = [] \<and> ordered_sets m \<noteq> [] \<longleftrightarrow> well_formed_chain seals sigs results"
  unfolding chain_sets [OF assms] using chain_sound chain_complete assms by blast

text \<open>
  Claim C40. The ARC chain of a message is found structurally valid exactly when its headers are those of a well-formed chain, and
  there is no summary exactly when the message has no ARC header.
\<close>

theorem arc_valid_iff_well_formed:
  "case summarize_arc msg of
     None \<Rightarrow> get_headers msg ''ARC-Seal'' @ get_headers msg ''ARC-Message-Signature''
       @ get_headers msg ''ARC-Authentication-Results'' = []
   | Some s \<Rightarrow> arc_valid s \<longleftrightarrow> well_formed_chain (map hd_value (get_headers msg ''ARC-Seal''))
       (map hd_value (get_headers msg ''ARC-Message-Signature'')) (map hd_value (get_headers msg ''ARC-Authentication-Results''))"
proof -
  let ?v = "\<lambda>name. map hd_value (get_headers msg name)"
  obtain m ps where run: "arc_headers ArcResults (?v ''ARC-Authentication-Results'') (arc_headers ArcSignature
      (?v ''ARC-Message-Signature'') (arc_headers ArcSeal (?v ''ARC-Seal'') (Map.empty, []))) = (m, ps)" by fastforce
  show ?thesis using chain_valid [OF run] run by (simp add: summarize_arc_def Let_def)
qed

end
