(* ===== verification/Report.thy ===== *)
theory Report
  imports FindingsCatalog DnsBudget
begin

section \<open>Reports and the sessions (internal/report/report.go, internal/analyzer/analyzer.go)\<close>

text \<open>
  The report with its findings, errors and summary, and the session that collects them.  The details of
  a domain or a message are the results of the checks and are kept by their callers.  The texts of findings are
  not modelled: a check yields observations, and a \<open>wording\<close> gives the description and the evidence of each, by
  its position, when the session takes it over; the theorems hold for every wording.
\<close>

datatype error_kind = ErrorDNS | ErrorInput
datatype report_kind = KindDomain | KindMessage | KindHeaders

record report_error =
  er_kind :: error_kind
  er_component :: string

record report =
  rp_kind :: report_kind
  rp_target :: string
  rp_findings :: "finding list"
  rp_errors :: "report_error list"
  rp_highest :: string
  rp_counts :: "(severity \<times> nat) list"
  rp_dns_queries :: int

definition new_report :: "report_kind \<Rightarrow> string \<Rightarrow> report" where
  "new_report kind target = \<lparr>rp_kind = kind, rp_target = target, rp_findings = [], rp_errors = [], rp_highest = [],
     rp_counts = [], rp_dns_queries = 0\<rparr>"

definition finalize :: "int \<Rightarrow> report \<Rightarrow> report" where
  "finalize queries r = (let fs = sort_findings (rp_findings r); m = max_severity fs in
     r\<lparr>rp_findings := fs, rp_counts := severity_counts fs,
       rp_highest := (if severity_valid m then severity_string m else ''none''), rp_dns_queries := queries\<rparr>)"

definition has_error_kind :: "report \<Rightarrow> error_kind \<Rightarrow> bool" where
  "has_error_kind r kind \<longleftrightarrow> list_ex (\<lambda>e. er_kind e = kind) (rp_errors r)"

subsection \<open>The session\<close>

type_synonym wording = "nat \<Rightarrow> observation \<Rightarrow> string \<times> string list"

definition finding_of :: "wording \<Rightarrow> nat \<Rightarrow> observation \<Rightarrow> finding" where
  "finding_of w i ob = with_severity (rule_new (ob_rule ob) (ob_subject ob) (fst (w i ob)) (snd (w i ob))) (ob_severity ob)"

definition add_observed :: "wording \<Rightarrow> observation list \<Rightarrow> report \<Rightarrow> report" where
  "add_observed w obs r = r\<lparr>rp_findings := rp_findings r @
     map (\<lambda>(i, ob). finding_of w i ob) (List.enumerate (length (rp_findings r)) obs)\<rparr>"

definition add_error :: "error_kind \<Rightarrow> string \<Rightarrow> report \<Rightarrow> report" where
  "add_error kind part r = r\<lparr>rp_errors := rp_errors r @ [\<lparr>er_kind = kind, er_component = part\<rparr>]\<rparr>"

definition dns_error_in :: "string \<Rightarrow> dns_error option \<Rightarrow> report \<Rightarrow> report" where
  "dns_error_in part err r = (case err of
     None \<Rightarrow> r
   | Some e \<Rightarrow> if kind_of e = Some KindBudget then r
       else if is_infrastructure e then add_error ErrorDNS part r
       else r)"

text \<open>How the context of the scan stands at its end.\<close>

datatype context_state = ContextLive | ContextDeadline | ContextCancelled

definition is_budget_evidence :: "string \<Rightarrow> bool" where
  "is_budget_evidence ev \<longleftrightarrow> contains_sub ev (kind_string KindBudget)"

definition refused_by_budget :: "finding \<Rightarrow> bool" where
  "refused_by_budget f \<longleftrightarrow> fd_id f = rl_id DNSLookupFailed \<and> list_ex is_budget_evidence (fd_evidence f)"

definition summarize_refused :: "string \<Rightarrow> report \<Rightarrow> report" where
  "summarize_refused text r = (
     let affected = map fd_subject (filter refused_by_budget (rp_findings r))
     in r\<lparr>rp_findings := filter (\<lambda>f. \<not> refused_by_budget f) (rp_findings r)
          @ [rule_new DNSQueryBudgetExceeded [] text (remdups_adj (sort affected))]\<rparr>)"

definition finish_scan :: "string \<Rightarrow> int \<Rightarrow> 's budget \<Rightarrow> context_state \<Rightarrow> report \<Rightarrow> report" where
  "finish_scan text limit b ctx r0 = (
     let r = (if exhausted limit b then summarize_refused text r0 else r0);
         r = (case ctx of ContextLive \<Rightarrow> r | ContextDeadline \<Rightarrow> add_error ErrorDNS ''scan'' r
              | ContextCancelled \<Rightarrow> add_error ErrorDNS ''scan'' r)
     in finalize (sent limit b) r)"

definition default_query_budget :: int where "default_query_budget = 250"

definition query_limit :: "int \<Rightarrow> int" where
  "query_limit n = (if n \<le> 0 then default_query_budget else n)"

text \<open>What the analyzer returns beside the report: \<^verbatim>\<open>InputError\<close> or another error.\<close>

datatype scan_error = InputFailure | OtherFailure

end
