(* ===== verification/TextReport.thy ===== *)
theory TextReport
  imports Report
begin

section \<open>The report on a terminal (internal/report/text.go)\<close>

text \<open>
  The writer that escapes what it prints, and the parts of the report that do not depend on its kind: the title, the
  findings and the summary.  A call of \<^verbatim>\<open>printf\<close> is a list of pieces: the text of the format,
  arguments that are strings and are escaped, and arguments that are already styled.  What is printed is the value;
  a writer that fails prints less of it.
\<close>

subsection \<open>Runes\<close>

text \<open>
  \<^verbatim>\<open>range\<close> over a string decodes UTF-8 as \<^verbatim>\<open>utf8.DecodeRuneInString\<close> does: a byte that does not start a well-formed
  sequence is a rune error of one byte.
\<close>

definition rune_error :: int where "rune_error = 0xFFFD"

definition continues :: "char \<Rightarrow> bool" where
  "continues c \<longleftrightarrow> 0x80 \<le> byte c \<and> byte c \<le> 0xBF"

definition low3 :: "int \<Rightarrow> int" where "low3 b = (if b = 0xE0 then 0xA0 else 0x80)"
definition high3 :: "int \<Rightarrow> int" where "high3 b = (if b = 0xED then 0x9F else 0xBF)"
definition low4 :: "int \<Rightarrow> int" where "low4 b = (if b = 0xF0 then 0x90 else 0x80)"
definition high4 :: "int \<Rightarrow> int" where "high4 b = (if b = 0xF4 then 0x8F else 0xBF)"

fun decode_tail2 :: "int \<Rightarrow> string \<Rightarrow> int \<times> nat" where
  "decode_tail2 b (c1 # _) = (if continues c1 then ((b - 0xC0) * 64 + (byte c1 - 0x80), 2) else (rune_error, 1))"
| "decode_tail2 b _ = (rune_error, 1)"

fun decode_tail3 :: "int \<Rightarrow> string \<Rightarrow> int \<times> nat" where
  "decode_tail3 b (c1 # c2 # _) = (if low3 b \<le> byte c1 \<and> byte c1 \<le> high3 b \<and> continues c2
     then (((b - 0xE0) * 64 + (byte c1 - 0x80)) * 64 + (byte c2 - 0x80), 3) else (rune_error, 1))"
| "decode_tail3 b _ = (rune_error, 1)"

fun decode_tail4 :: "int \<Rightarrow> string \<Rightarrow> int \<times> nat" where
  "decode_tail4 b (c1 # c2 # c3 # _) = (if low4 b \<le> byte c1 \<and> byte c1 \<le> high4 b \<and> continues c2 \<and> continues c3
     then ((((b - 0xF0) * 64 + (byte c1 - 0x80)) * 64 + (byte c2 - 0x80)) * 64 + (byte c3 - 0x80), 4) else (rune_error, 1))"
| "decode_tail4 b _ = (rune_error, 1)"

fun decode_rune :: "string \<Rightarrow> int \<times> nat" where
  "decode_rune [] = (rune_error, 0)"
| "decode_rune (c # cs) = (let b = byte c in
     if b < 0x80 then (b, 1)
     else if 0xC2 \<le> b \<and> b \<le> 0xDF then decode_tail2 b cs
     else if 0xE0 \<le> b \<and> b \<le> 0xEF then decode_tail3 b cs
     else if 0xF0 \<le> b \<and> b \<le> 0xF4 then decode_tail4 b cs
     else (rune_error, 1))"

text \<open>The runes of a string, each with the bytes it was read from.\<close>

fun runes :: "string \<Rightarrow> (int \<times> string) list" where
  "runes [] = []"
| "runes (c # cs) = (case decode_rune (c # cs) of (r, n) \<Rightarrow> (r, c # take (n - 1) cs) # runes (drop (n - 1) cs))"

text \<open>\<^verbatim>\<open>WriteRune\<close> of a rune that was read.\<close>

definition encode_rune :: "int \<Rightarrow> string" where
  "encode_rune r = (
     if r < 0x80 then [char_of r]
     else if r < 0x800 then [char_of (0xC0 + r div 64), char_of (0x80 + r mod 64)]
     else if r < 0x10000 then [char_of (0xE0 + r div 4096), char_of (0x80 + r div 64 mod 64), char_of (0x80 + r mod 64)]
     else [char_of (0xF0 + r div 262144), char_of (0x80 + r div 4096 mod 64), char_of (0x80 + r div 64 mod 64),
       char_of (0x80 + r mod 64)])"

subsection \<open>Escaping\<close>

definition needs_escape :: "int \<Rightarrow> bool" where
  "needs_escape r \<longleftrightarrow> (
     if r = 9 then False
     else if r < 0x20 \<or> r = 0x7F \<or> 0x80 \<le> r \<and> r \<le> 0x9F then True
     else if 0x202A \<le> r \<and> r \<le> 0x202E \<or> 0x2066 \<le> r \<and> r \<le> 0x2069 \<or> r = 0x200E \<or> r = 0x200F then True
     else r = rune_error)"

definition hex_lower2 :: "int \<Rightarrow> string" where
  "hex_lower2 n = [hex_digit (n div 16 mod 16), hex_digit (n mod 16)]"

definition hex_upper4 :: "int \<Rightarrow> string" where
  "hex_upper4 n = map (\<lambda>d. upper_byte (hex_digit (d mod 16))) [n div 4096, n div 256, n div 16, n]"

definition escape_rune :: "int \<times> string \<Rightarrow> string" where
  "escape_rune p = (case p of (r, bs) \<Rightarrow>
     if r = rune_error \<and> bs \<noteq> encode_rune rune_error then CHR 0x5C # CHR ''x'' # hex_lower2 (byte (hd bs))
     else if r < 0x80 \<and> needs_escape r then CHR 0x5C # CHR ''x'' # hex_lower2 r
     else if needs_escape r then CHR 0x5C # CHR ''u'' # hex_upper4 r
     else encode_rune r)"

definition escape_terminal :: "string \<Rightarrow> string" where
  "escape_terminal s = (if list_ex (\<lambda>p. needs_escape (fst p)) (runes s) then concat (map escape_rune (runes s)) else s)"

subsection \<open>Styles\<close>

record text_options =
  tx_color :: bool
  tx_verbose :: bool
  tx_width :: int

definition ansi :: "string \<Rightarrow> string" where
  "ansi code = CHR 0x1B # ''['' @ code @ ''m''"

definition ansi_reset :: string where "ansi_reset = ansi ''0''"
definition ansi_bold :: string where "ansi_bold = ansi ''1''"
definition ansi_dim :: string where "ansi_dim = ansi ''2''"
definition ansi_red :: string where "ansi_red = ansi ''31''"
definition ansi_green :: string where "ansi_green = ansi ''32''"
definition ansi_yellow :: string where "ansi_yellow = ansi ''33''"
definition ansi_blue :: string where "ansi_blue = ansi ''34''"
definition ansi_mag :: string where "ansi_mag = ansi ''35''"
definition ansi_cyan :: string where "ansi_cyan = ansi ''36''"

datatype piece = Fixed string | Untrusted string | Styled string

fun print_piece :: "piece \<Rightarrow> string" where
  "print_piece (Fixed s) = s"
| "print_piece (Untrusted s) = escape_terminal s"
| "print_piece (Styled s) = s"

definition printf :: "piece list \<Rightarrow> string" where
  "printf ps = concat (map print_piece ps)"

definition plain :: "string \<Rightarrow> string" where
  "plain s = escape_terminal s"

definition style :: "text_options \<Rightarrow> string \<Rightarrow> string \<Rightarrow> string" where
  "style opts code s = (if \<not> tx_color opts \<or> s = [] then plain s else code @ escape_terminal s @ ansi_reset)"

definition newline :: string where "newline = [lf]"

definition heading :: "text_options \<Rightarrow> string \<Rightarrow> string" where
  "heading opts s = printf [Fixed newline, Styled (style opts ansi_bold s), Fixed newline]"

fun severity_color :: "severity \<Rightarrow> string" where
  "severity_color SeverityCritical = ansi_bold @ ansi_red"
| "severity_color SeverityHigh = ansi_red"
| "severity_color SeverityMedium = ansi_yellow"
| "severity_color SeverityLow = ansi_cyan"
| "severity_color SeverityInfo = ansi_blue"
| "severity_color SeverityPass = ansi_green"
| "severity_color SeverityZero = []"

text \<open>The widths of \<^verbatim>\<open>%-8s\<close> and \<^verbatim>\<open>%5d\<close> count runes.\<close>

definition pad_right :: "nat \<Rightarrow> string \<Rightarrow> string" where
  "pad_right n s = s @ replicate (n - length (runes s)) (CHR '' '')"

definition pad_left :: "nat \<Rightarrow> string \<Rightarrow> string" where
  "pad_left n s = replicate (n - length (runes s)) (CHR '' '') @ s"

definition severity_label :: "text_options \<Rightarrow> severity \<Rightarrow> string" where
  "severity_label opts s = style opts (severity_color s) (pad_right 8 (to_upper (severity_string s)))"

definition kv :: "string \<Rightarrow> string \<Rightarrow> string" where
  "kv key value = (if value = [] then [] else
     printf [Fixed ''  '', Fixed (pad_right 18 (key @ '':'')), Fixed '' '', Styled value, Fixed newline])"

definition show_result :: "text_options \<Rightarrow> string \<Rightarrow> string" where
  "show_result opts r = (
     if r = ''pass'' then style opts ansi_green r
     else if r \<in> {''fail'', ''permerror''} then style opts ansi_red r
     else if r \<in> {''softfail'', ''temperror'', ''neutral'', ''quarantine''} then style opts ansi_yellow r
     else if r \<in> {[], ''none''} then style opts ansi_dim ''none''
     else plain r)"

subsection \<open>Wrapping\<close>

fun wrap_words :: "int \<Rightarrow> string \<Rightarrow> string list \<Rightarrow> string list" where
  "wrap_words width cur [] = (if cur \<noteq> [] then [cur] else [])"
| "wrap_words width cur (w # ws) = (
     if cur \<noteq> [] \<and> width < int (length cur) + 1 + int (length w) then cur # wrap_words width w ws
     else wrap_words width (if cur = [] then w else cur @ '' '' @ w) ws)"

definition wrap :: "string \<Rightarrow> int \<Rightarrow> string list" where
  "wrap s width0 = (let width = (if width0 < 20 then 20 else width0) in
     concat (map (\<lambda>para. wrap_words width [] (space_fields para)) (split_byte lf s)))"

subsection \<open>Findings\<close>

definition indent :: string where "indent = replicate 11 (CHR '' '')"

text \<open>The characters that the program itself draws: an ellipsis, a bar and an arrow.\<close>

definition ellipsis :: string where "ellipsis = encode_rune 0x2026"
definition bar :: string where "bar = encode_rune 0x2502"
definition arrow :: string where "arrow = encode_rune 0x2192"

definition finding_text :: "finding \<Rightarrow> string" where
  "finding_text f = (if fd_subject f \<noteq> [] \<and> \<not> contains_sub (fd_description f) (fd_subject f)
     then fd_subject f @ '': '' @ fd_description f else fd_description f)"

definition print_lines :: "string list \<Rightarrow> string" where
  "print_lines ls = concat (map (\<lambda>l. printf [Untrusted indent, Untrusted l, Fixed newline]) ls)"

definition print_evidence :: "text_options \<Rightarrow> string list \<Rightarrow> string" where
  "print_evidence opts evs = (let limit = (if tx_verbose opts then length evs else 5) in
     concat (map (\<lambda>ev. printf [Untrusted indent, Styled (style opts ansi_dim bar), Fixed '' '', Untrusted ev, Fixed newline]) (take limit evs))
     @ (if limit < length evs then printf [Untrusted indent,
          Styled (style opts ansi_dim (ellipsis @ '' '' @ show_nat (length evs - limit) @ '' more (use --verbose)'')), Fixed newline]
        else []))"

definition print_recommendation :: "text_options \<Rightarrow> finding \<Rightarrow> string" where
  "print_recommendation opts f = (if fd_recommendation f \<noteq> [] \<and> SeverityInfo < fd_severity f then
     concat (map (\<lambda>(i, l). printf [Untrusted indent, Styled (if i = 0 then style opts ansi_mag (arrow @ '' '') else ''  ''),
         Untrusted l, Fixed newline])
       (List.enumerate 0 (wrap (fd_recommendation f) (tx_width opts - int (length indent) - 2))))
     else [])"

definition print_finding :: "text_options \<Rightarrow> finding \<Rightarrow> string" where
  "print_finding opts f =
     printf [Fixed ''  '', Styled (severity_label opts (fd_severity f)), Fixed '' '', Styled (style opts ansi_dim (fd_id f)),
       Fixed ''  '', Styled (style opts ansi_bold (fd_title f)), Fixed newline]
     @ print_lines (wrap (finding_text f) (tx_width opts - int (length indent)))
     @ print_evidence opts (fd_evidence f)
     @ print_recommendation opts f
     @ (if tx_verbose opts then concat (map (\<lambda>ref. printf [Untrusted indent, Styled (style opts ansi_dim ref), Fixed newline]) (fd_references f))
        else [])"

definition shown_findings :: "text_options \<Rightarrow> finding list \<Rightarrow> finding list" where
  "shown_findings opts fs = filter (\<lambda>f. \<not> (fd_severity f = SeverityPass \<and> \<not> tx_verbose opts)) fs"

definition print_findings :: "text_options \<Rightarrow> report \<Rightarrow> string" where
  "print_findings opts rep = (let shown = shown_findings opts (rp_findings rep); hidden = length (rp_findings rep) - length shown in
     heading opts ''Findings''
     @ (if shown = [] then printf [Fixed ''  No findings.'', Fixed newline] else [])
     @ concat (map (print_finding opts) shown)
     @ (if 0 < hidden then printf [Fixed ''  '',
          Styled (style opts ansi_dim (show_nat hidden @ '' passing check(s) hidden; use --verbose to show them.'')), Fixed newline]
        else []))"

subsection \<open>The summary\<close>

definition count_of :: "report \<Rightarrow> severity \<Rightarrow> nat" where
  "count_of rep s = (case map_of (rp_counts rep) s of None \<Rightarrow> 0 | Some n \<Rightarrow> n)"

definition count_label :: "text_options \<Rightarrow> report \<Rightarrow> severity \<Rightarrow> string" where
  "count_label opts rep s = (let label = plain (show_nat (count_of rep s) @ '' '' @ severity_string s) in
     if 0 < count_of rep s then style opts (severity_color s) label else label)"

text \<open>The message of an error is a text that the report carries; \<open>texts\<close> gives it.\<close>

definition print_summary :: "(report_error \<Rightarrow> string) \<Rightarrow> text_options \<Rightarrow> report \<Rightarrow> string" where
  "print_summary texts opts rep = heading opts ''Summary''
     @ printf [Fixed ''  '', Styled (join '', '' (map (count_label opts rep) severities)), Fixed newline]
     @ printf [Fixed ''  '', Styled (style opts ansi_dim (show_int (rp_dns_queries rep) @ '' DNS queries'')), Fixed newline]
     @ concat (map (\<lambda>e. printf [Fixed ''  '', Styled (style opts ansi_red ''error''), Fixed '' '', Untrusted (er_component e),
         Fixed '': '', Untrusted (texts e), Fixed newline]) (rp_errors rep))"

definition print_title :: "text_options \<Rightarrow> string \<Rightarrow> report \<Rightarrow> string" where
  "print_title opts kind rep = printf [Styled (style opts ansi_bold ''MailAuthProbe''), Fixed '' '', Untrusted kind, Fixed '': '',
     Styled (style opts ansi_bold (rp_target rep)), Fixed newline]"

definition default_width :: "text_options \<Rightarrow> text_options" where
  "default_width opts = (if tx_width opts \<le> 0 then opts\<lparr>tx_width := 100\<rparr> else opts)"

text \<open>
  The line for one evaluation of SPF; \<open>quote\<close> is \<^verbatim>\<open>strconv.Quote\<close>.  The styled result goes through \<^verbatim>\<open>Sprintf\<close> into a plain
  string, which is escaped again.
\<close>

definition evaluation_line :: "(string \<Rightarrow> string) \<Rightarrow> text_options \<Rightarrow> string \<Rightarrow> string \<Rightarrow> string \<Rightarrow> string" where
  "evaluation_line quote opts domain res matched = (
     let line = domain @ '': '' @ show_result opts res;
         line = (if matched \<noteq> [] then line @ '' via '' @ quote matched else line)
     in printf [Fixed ''  '', Untrusted line, Fixed newline])"

end
