(* ===== verification/AnalyzeDomain.thy ===== *)
theory AnalyzeDomain
  imports Report Mx SpfAnalyze DmarcPolicy DkimAssess MtaSts TlsRpt MailProvider
begin

section \<open>The audit of a domain (internal/analyzer/domain.go)\<close>

text \<open>
  The checks run one after the other on the resolver \<open>R\<close> of the session, whose state is threaded through; SPF runs with
  a query budget of its own on top of it.  What the environment provides is a record: the public suffix list, the
  cryptography, the parsers of the library, the fetcher of policies (\<^verbatim>\<open>HTTPFetcher\<close> over the network, or one that is
  given), the clock and the wording of findings.
\<close>

record 'k environment =
  en_etld1 :: suffix_list
  en_crypto :: "'k crypto"
  en_uri :: uri_parsers
  en_media_type :: "string \<Rightarrow> string option"
  en_fetcher :: sts_fetcher
  en_now :: int
  en_words :: wording

definition spf_query_budget :: int where "spf_query_budget = 120"

text \<open>\<^verbatim>\<open>WithBudget\<close> around a resolver for one check; the state of the resolver below is taken back afterwards.\<close>

definition run_limited :: "'a dns \<Rightarrow> 's resolver \<Rightarrow> int \<Rightarrow> 's \<Rightarrow> 'a \<times> 's" where
  "run_limited m R limit s = (case run m (budget_resolver R limit) (with_budget s) of (x, b) \<Rightarrow> (x, bg_next b))"

definition in_domain :: "string \<Rightarrow> string \<Rightarrow> bool" where
  "in_domain name0 domain0 = (let name = to_lower (trim_name name0); domain = to_lower (trim_name domain0) in
     name = domain \<or> has_suffix name (CHR ''.'' # domain))"

fun node_targets :: "string \<Rightarrow> spf_node \<Rightarrow> string list" where
  "node_targets domain (Node d v r l t vd e lo dy cs) =
     concat (map (\<lambda>c. nd_domain c # (if in_domain (nd_domain c) domain then node_targets domain c else [])) cs)"

definition spf_targets :: "analysis \<Rightarrow> string \<Rightarrow> string list" where
  "spf_targets a domain = (case an_tree a of None \<Rightarrow> [] | Some t \<Rightarrow> node_targets domain t)"

record 'k domain_details =
  dt_name :: string
  dt_mx :: mx_result
  dt_spf :: analysis
  dt_dkim :: "'k dkim_assessment"
  dt_dmarc :: assessment
  dt_mtasts :: "sts_assessment option"
  dt_tlsrpt :: tls_assessment

text \<open>The order of the findings: first those of the four checks, then those of MTA-STS and TLS-RPT, each with its error.\<close>

definition collect_domain :: "'k environment \<Rightarrow> string \<Rightarrow> mx_result \<times> dns_error option \<Rightarrow> analysis \<times> dns_error option
    \<Rightarrow> assessment \<times> dns_error option \<Rightarrow> 'k dkim_assessment \<times> dns_error option \<Rightarrow> report" where
  "collect_domain env domain mx spf dmarc dkim = (
     let w = en_words env;
         r = add_observed w (mr_findings (fst mx)) (new_report KindDomain domain);
         r = add_observed w (an_findings (fst spf)) r;
         r = add_observed w (as_findings (fst dmarc)) r;
         r = add_observed w (da_findings (fst dkim)) r
     in dns_error_in ''dkim'' (snd dkim) (dns_error_in ''dmarc'' (snd dmarc)
          (dns_error_in ''spf'' (snd spf) (dns_error_in ''mx'' (snd mx) r))))"

definition add_mtasts :: "'k environment \<Rightarrow> (sts_assessment \<times> dns_error option) option \<Rightarrow> report \<Rightarrow> report" where
  "add_mtasts env sts r = (case sts of
     None \<Rightarrow> r
   | Some (a, e) \<Rightarrow> dns_error_in ''mta-sts'' e (add_observed (en_words env) (sa_findings a) r))"

definition uses_sts :: "(sts_assessment \<times> dns_error option) option \<Rightarrow> bool" where
  "uses_sts sts = (case sts of None \<Rightarrow> False | Some (a, e) \<Rightarrow> sa_record a \<noteq> None)"

definition check_mtasts :: "'k environment \<Rightarrow> string \<Rightarrow> mx_result \<Rightarrow> 's resolver \<Rightarrow> 's
    \<Rightarrow> (sts_assessment \<times> dns_error option) option \<times> 's" where
  "check_mtasts env domain mx R s = (
     if mr_null_mx mx then (None, s)
     else case run (assess_mtasts (Some (en_fetcher env)) (en_media_type env) (en_now env) (map hx_name (mr_hosts mx)) domain) R s
       of (x, s') \<Rightarrow> (Some x, s'))"

definition audit_domain :: "'k environment \<Rightarrow> string list \<Rightarrow> string \<Rightarrow> 's resolver \<Rightarrow> 's
    \<Rightarrow> ('k domain_details \<times> report) \<times> 's" where
  "audit_domain env selectors domain0 R s0 = (
     let domain = trim_name domain0;
         (mx, s1) = run (assess_mx domain) R s0;
         (spf, s2) = run_limited (analyze_spf zero_limits domain) R spf_query_budget s1;
         (dmarc, s3) = run (assess_dmarc (en_etld1 env) domain) R s2;
         providers = detect (map hx_name (mr_hosts (fst mx))) (spf_targets (fst spf) domain);
         (dkim, s4) = run (assess_dkim (en_crypto env) domain selectors providers) R s3;
         (sts, s5) = check_mtasts env domain (fst mx) R s4;
         (tls, s6) = run (assess_tlsrpt (en_uri env) domain (uses_sts sts)) R s5;
         r = add_mtasts env sts (collect_domain env domain mx spf dmarc dkim);
         r = dns_error_in ''tls-rpt'' (snd tls) (add_observed (en_words env) (ta_findings (fst tls)) r)
     in ((\<lparr>dt_name = domain, dt_mx = fst mx, dt_spf = fst spf, dt_dkim = fst dkim, dt_dmarc = fst dmarc,
           dt_mtasts = map_option fst sts, dt_tlsrpt = fst tls\<rparr>, r), s6))"

text \<open>The whole scan: a session over the client's resolver, the audit, and the report; the state of the client is returned.\<close>

definition scan_domain :: "'k environment \<Rightarrow> int \<Rightarrow> string \<Rightarrow> context_state \<Rightarrow> string list \<Rightarrow> string \<Rightarrow> 's resolver \<Rightarrow> 's
    \<Rightarrow> ('k domain_details \<times> report) \<times> 's" where
  "scan_domain env budget text ctx selectors domain client s0 = (
     let limit = query_limit budget in
     case audit_domain env selectors domain (session_resolver client limit) (new_session s0) of
       ((details, r), s) \<Rightarrow> ((details, finish_scan text limit (ch_next s) ctx r), bg_next (ch_next s)))"

end
