(* ===== verification/AnalyzeMessage.thy ===== *)
theory AnalyzeMessage
  imports AnalyzeDomain SpfMessage DkimVerify MailMime ReceivedChain AuthCompare Arc
begin

section \<open>The analysis of a message (internal/analyzer/message.go)\<close>

text \<open>
  The environment of a message scan has the readers of addresses, dates and MIME parts as well, and the clock that SPF
  reads.  Where the code goes through a map, whose order is not defined, the model takes the order in which the map is
  written; the report sorts its findings.
\<close>

record 'k mail_environment = "'k environment" +
  en_parse_list :: "string \<Rightarrow> mailbox list option"
  en_parse_address :: "string \<Rightarrow> string option"
  en_parse_date :: "string \<Rightarrow> int option"
  en_mime :: mime_lib
  en_clock :: int

definition header_values :: "message \<Rightarrow> string \<Rightarrow> string list" where
  "header_values msg name = map hd_value (get_headers msg name)"

subsection \<open>The structure of the message\<close>

datatype defect_group = HeaderDefects | LineDefects | ByteDefects | LimitDefects | MimeDefects

fun defect_group_of :: "defect_kind \<Rightarrow> defect_group" where
  "defect_group_of DefectBareLF = LineDefects"
| "defect_group_of DefectMixedLineEndings = LineDefects"
| "defect_group_of DefectNULByte = ByteDefects"
| "defect_group_of DefectEightBitHeader = ByteDefects"
| "defect_group_of DefectMIMEDepthExceeded = LimitDefects"
| "defect_group_of DefectMIMEPartsExceeded = LimitDefects"
| "defect_group_of DefectMIMESizeExceeded = LimitDefects"
| "defect_group_of DefectMIMEInvalidContentType = MimeDefects"
| "defect_group_of DefectMIMEMissingBoundary = MimeDefects"
| "defect_group_of DefectMIMEUnterminated = MimeDefects"
| "defect_group_of DefectMIMENoParts = MimeDefects"
| "defect_group_of DefectMIMEBadEncoding = MimeDefects"
| "defect_group_of DefectMIMEMissingVersion = MimeDefects"
| "defect_group_of _ = HeaderDefects"

definition group_findings :: "defect_kind list \<Rightarrow> observation list" where
  "group_findings ds = concat (map (\<lambda>(g, rule). if list_ex (\<lambda>d. defect_group_of d = g) ds then [observe rule []] else [])
     [(HeaderDefects, MsgMalformedHeaders), (MimeDefects, MsgMalformedMIME), (LineDefects, MsgLineEndings),
      (ByteDefects, MsgBadBytes), (LimitDefects, MsgMIMELimit)])"

definition repeatable_headers :: "string list" where
  "repeatable_headers = [''Date'', ''Sender'', ''Reply-To'', ''To'', ''Subject'', ''Message-ID'']"

definition header_findings :: "(string \<Rightarrow> int option) \<Rightarrow> message \<Rightarrow> observation list" where
  "header_findings parse_date msg = (let vals = header_values msg in
     (if vals ''From'' = [] then [observe MsgMissingRequired ''From''] else [])
     @ (case vals ''Date'' of
          [] \<Rightarrow> [observe MsgMissingRequired ''Date'']
        | d # _ \<Rightarrow> if parse_date (trim_space d) = None then [observe MsgInvalidDate ''Date''] else [])
     @ (if vals ''Message-ID'' = [] then [observe MsgMissingMessageID ''Message-ID''] else [])
     @ concat (map (\<lambda>name. if 1 < length (vals name) then [observe MsgDuplicateHeader name] else []) repeatable_headers)
     @ (if 1 < length (vals ''From'') then [observe_at SeverityHigh MsgDuplicateHeader ''From''] else []))"

definition from_domain :: "(string \<Rightarrow> mailbox list option) \<Rightarrow> string list \<Rightarrow> string" where
  "from_domain parse_list froms = (case froms of
     [h] \<Rightarrow> (case parse_list h of Some [m] \<Rightarrow> mb_domain m | _ \<Rightarrow> [])
   | _ \<Rightarrow> [])"

definition other_organization :: "suffix_list \<Rightarrow> string \<Rightarrow> string \<Rightarrow> bool" where
  "other_organization etld1 d from \<longleftrightarrow> organizational_domain etld1 d \<noteq> organizational_domain etld1 from"

definition compare_addresses :: "suffix_list \<Rightarrow> (string \<Rightarrow> mailbox list option) \<Rightarrow> string \<Rightarrow> string list \<Rightarrow> rule \<Rightarrow> string
    \<Rightarrow> observation list" where
  "compare_addresses etld1 parse_list from vals rule label = (case vals of
     [] \<Rightarrow> []
   | v # _ \<Rightarrow> (case parse_list v of
       None \<Rightarrow> []
     | Some ms \<Rightarrow> if list_ex (\<lambda>m. mb_domain m \<noteq> [] \<and> other_organization etld1 (mb_domain m) from) ms
         then [observe rule label] else []))"

definition identity_findings :: "'k mail_environment \<Rightarrow> message \<Rightarrow> observation list" where
  "identity_findings env msg = (
     let etld1 = en_etld1 env; parse_list = en_parse_list env; from = from_domain parse_list (header_values msg ''From'')
     in if from = [] then []
        else compare_addresses etld1 parse_list from (header_values msg ''Reply-To'') MsgReplyToMismatch ''Reply-To''
          @ compare_addresses etld1 parse_list from (header_values msg ''Sender'') MsgSenderMismatch ''Sender''
          @ (case header_values msg ''Return-Path'' of
               [] \<Rightarrow> []
             | v # _ \<Rightarrow> (case parse_return_path (en_parse_address env) v of
                 Inl e \<Rightarrow> []
               | Inr addr \<Rightarrow> if other_organization etld1 (domain_of addr) from
                   then [observe MsgReturnPathMismatch ''Return-Path''] else [])))"

text \<open>\<^verbatim>\<open>path.Ext\<close>: from the last dot of the last element on.\<close>

definition path_ext :: "string \<Rightarrow> string" where
  "path_ext p = (let base = rev (takeWhile (\<lambda>c. c \<noteq> CHR ''/'') (rev p)) in
     case last_index_byte base (CHR ''.'') of None \<Rightarrow> [] | Some i \<Rightarrow> drop i base)"

definition risky_extensions :: "string list" where
  "risky_extensions = [''.exe'', ''.scr'', ''.com'', ''.pif'', ''.bat'', ''.cmd'', ''.vbs'', ''.vbe'', ''.js'', ''.jse'',
     ''.wsf'', ''.hta'', ''.ps1'', ''.msi'', ''.jar'', ''.lnk'', ''.iso'', ''.img'', ''.vhd'', ''.one'', ''.xlsm'', ''.docm'',
     ''.html'', ''.htm'', ''.svg'', ''.zip'', ''.rar'', ''.7z'']"

definition risky :: "mime_fields \<Rightarrow> bool" where
  "risky f \<longleftrightarrow> to_lower (path_ext (mf_filename f)) \<in> set risky_extensions"

definition attachment_findings :: "mime_part option \<Rightarrow> observation list" where
  "attachment_findings mime = (case mime of
     None \<Rightarrow> []
   | Some p \<Rightarrow> if list_ex risky (attachments p) then [observe MsgRiskyAttachment []] else [])"

definition structure_findings :: "'k mail_environment \<Rightarrow> message \<Rightarrow> mime_part option \<Rightarrow> observation list" where
  "structure_findings env msg mime = group_findings (ms_defects msg) @ header_findings (en_parse_date env) msg
     @ identity_findings env msg @ attachment_findings mime"

subsection \<open>Findings on DKIM signatures\<close>

definition verification_subject :: "'k verification \<Rightarrow> string" where
  "verification_subject v = (if vf_key_name v = [] then ''signature #'' @ show_nat (vf_index v) else vf_key_name v)"

definition body_hash_failure :: "dkim_failure \<Rightarrow> bool" where
  "body_hash_failure f \<longleftrightarrow> (case f of FailBodyHash \<Rightarrow> True | FailBodyLength _ _ \<Rightarrow> True | _ \<Rightarrow> False)"

definition expired_failure :: "dkim_failure \<Rightarrow> bool" where
  "expired_failure f \<longleftrightarrow> (case f of FailExpired _ \<Rightarrow> True | _ \<Rightarrow> False)"

definition verification_rule :: "'k verification \<Rightarrow> rule" where
  "verification_rule v = (
     if vf_result v = DkimPass then DKIMSignatureValid
     else if vf_result v = DkimNeutral \<and> vf_signature_ok v = Some True then DKIMHeaderOnlyValid
     else if body_hash_failure (vf_failure v) then DKIMBodyHashMismatch
     else if vf_failure v = FailSignature then DKIMSignatureInvalid
     else if vf_failure v = FailInsecureAlgorithm then DKIMInsecureAlgorithm
     else if expired_failure (vf_failure v) then DKIMExpired
     else if vf_result v = DkimTempError then DKIMVerifyTempError
     else DKIMVerifyPermError)"

definition signature_findings :: "string list \<Rightarrow> 'k verification \<Rightarrow> observation list" where
  "signature_findings seen v = (let subject = verification_subject v in
     [observe (verification_rule v) subject]
     @ (if vf_body_length v \<noteq> None then [observe DKIMBodyLength subject] else [])
     @ (if vf_signed_headers v \<noteq> [] \<and> \<not> contains_fold (vf_signed_headers v) ''subject''
        then [observe DKIMUnsignedHeaders subject] else [])
     @ (case vf_key v of
          None \<Rightarrow> []
        | Some key \<Rightarrow> if vf_key_name v \<in> set seen then []
            else filter (\<lambda>f. rl_id (ob_rule f) \<noteq> rl_id DKIMKeyRevoked) (key_findings (vf_key_name v) key)))"

fun signatures_findings :: "string list \<Rightarrow> 'k verification list \<Rightarrow> observation list" where
  "signatures_findings seen [] = []"
| "signatures_findings seen (v # vs) = signature_findings seen v
     @ signatures_findings (if vf_key v \<noteq> None then vf_key_name v # seen else seen) vs"

definition dkim_message_findings :: "message \<Rightarrow> 'k verification list \<Rightarrow> observation list" where
  "dkim_message_findings msg vs = (let n = length (get_headers msg ''DKIM-Signature'') in
     if n = 0 then [observe DKIMUnsigned []]
     else (if max_signatures < n then [observe DKIMTooManySignatures []] else [])
       @ signatures_findings [] vs
       @ (if \<not> ms_body_available msg then [observe MsgHeadersOnly []] else []))"

definition add_dkim :: "wording \<Rightarrow> message \<Rightarrow> 'k verification list \<Rightarrow> report \<Rightarrow> report" where
  "add_dkim w msg vs r = fold (\<lambda>v. if verification_rule v = DKIMVerifyTempError then add_error ErrorDNS ''dkim'' else id) vs
     (add_observed w (dkim_message_findings msg vs) r)"

subsection \<open>The inputs of SPF\<close>

definition valid_helo :: "string \<Rightarrow> bool" where
  "valid_helo h \<longleftrightarrow> h \<noteq> [] \<and> length h \<le> 253 \<and> valid_domain h"

definition valid_mail_from :: "string \<Rightarrow> bool" where
  "valid_mail_from addr \<longleftrightarrow> (case last_index_byte addr (CHR ''@'') of
     None \<Rightarrow> False
   | Some i \<Rightarrow> 0 < i \<and> i \<le> 64 \<and> length addr \<le> 254 \<and> list_all (\<lambda>c. 0x20 < byte c \<and> byte c < 0x7F) (take i addr)
       \<and> valid_domain (drop (i + 1) addr))"

definition spf_param_of :: "received_spf \<Rightarrow> string \<Rightarrow> string" where
  "spf_param_of rs key = (case rs_params rs key of None \<Rightarrow> [] | Some v \<Rightarrow> v)"

definition flag_input :: "string \<Rightarrow> spf_input" where
  "flag_input v = \<lparr>si_value = v, si_source = SourceFlag, si_inferred = False\<rparr>"

definition inferred_input :: "input_source \<Rightarrow> string \<Rightarrow> spf_input" where
  "inferred_input src v = \<lparr>si_value = v, si_source = src, si_inferred = True\<rparr>"

record operator_values =
  op_source_ip :: string
  op_helo :: string
  op_mail_from :: string

definition operator_inputs :: "operator_values \<Rightarrow> message_inputs" where
  "operator_inputs op = \<lparr>
     in_ip = (if op_source_ip op \<noteq> [] then Some (flag_input (op_source_ip op)) else None),
     in_helo = (if op_helo op \<noteq> [] then Some (flag_input (op_helo op)) else None),
     in_mail_from = (if op_mail_from op \<noteq> [] \<and> op_mail_from op \<noteq> ''<>''
        then Some (flag_input (trim_set (op_mail_from op) [CHR ''<'', CHR ''>''])) else None),
     in_null_sender = (op_mail_from op = ''<>'')\<rparr>"

definition describes_client :: "string \<Rightarrow> received_spf \<Rightarrow> bool" where
  "describes_client client rs = (case parse_addr (spf_param_of rs ''client-ip'') of
     None \<Rightarrow> False | Some ip \<Rightarrow> addr_string (unmap ip) = client)"

definition from_received_spf :: "received_spf list \<Rightarrow> message_inputs \<Rightarrow> message_inputs" where
  "from_received_spf rss inp = (case in_ip inp of
     None \<Rightarrow> inp
   | Some ip \<Rightarrow> (case find (describes_client (si_value ip)) rss of
       None \<Rightarrow> inp
     | Some rs \<Rightarrow>
         let helo = spf_param_of rs ''helo''; from = trim_set (spf_param_of rs ''envelope-from'') [CHR ''<'', CHR ''>''];
             inp = (if in_helo inp = None \<and> valid_helo helo
                    then inp\<lparr>in_helo := Some (inferred_input SourceReceivedSPF helo)\<rparr> else inp)
         in if in_mail_from inp = None \<and> \<not> in_null_sender inp \<and> valid_mail_from from
            then inp\<lparr>in_mail_from := Some (inferred_input SourceReceivedSPF from)\<rparr> else inp))"

definition from_source :: "smtp_source option \<Rightarrow> message_inputs \<Rightarrow> message_inputs" where
  "from_source src inp = (case (src, in_ip inp) of
     (Some s, Some ip) \<Rightarrow>
       if in_helo inp = None \<and> si_value ip = sc_ip s \<and> valid_helo (sc_helo s)
       then inp\<lparr>in_helo := Some (inferred_input SourceReceived (sc_helo s))\<rparr> else inp
   | _ \<Rightarrow> inp)"

definition from_return_path :: "(string \<Rightarrow> string option) \<Rightarrow> string list \<Rightarrow> message_inputs \<Rightarrow> message_inputs" where
  "from_return_path parse_address paths inp = (case paths of
     [] \<Rightarrow> inp
   | p # _ \<Rightarrow>
       if in_mail_from inp = None \<and> \<not> in_null_sender inp then
         (case parse_return_path parse_address p of
            Inl NullReversePath \<Rightarrow> inp\<lparr>in_null_sender := True\<rparr>
          | Inl InvalidReturnPath \<Rightarrow> inp
          | Inr addr \<Rightarrow> if valid_mail_from addr
              then inp\<lparr>in_mail_from := Some (inferred_input SourceReturnPath addr)\<rparr> else inp)
       else inp)"

definition spf_inputs :: "(string \<Rightarrow> string option) \<Rightarrow> operator_values \<Rightarrow> chain \<Rightarrow> received_spf list \<Rightarrow> string list
    \<Rightarrow> message_inputs" where
  "spf_inputs parse_address op path rss return_paths = (
     let inp = operator_inputs op; src = infer_source path;
         inp = (case (in_ip inp, src) of
             (None, Some s) \<Rightarrow> inp\<lparr>in_ip := Some (inferred_input SourceReceived (sc_ip s))\<rparr>
           | _ \<Rightarrow> inp)
     in from_return_path parse_address return_paths (from_source src (from_received_spf rss inp)))"

end
