(* ===== verification/ScanMessage.thy ===== *)
theory ScanMessage
  imports AnalyzeMessage
begin

section \<open>The scan of a message (internal/analyzer/message.go)\<close>

text \<open>The names of results, which the checks hand to each other as strings.\<close>

fun spf_result_name :: "spf_result option \<Rightarrow> string" where
  "spf_result_name None = []"
| "spf_result_name (Some ResultNone) = ''none''"
| "spf_result_name (Some ResultNeutral) = ''neutral''"
| "spf_result_name (Some ResultPass) = ''pass''"
| "spf_result_name (Some ResultFail) = ''fail''"
| "spf_result_name (Some ResultSoftFail) = ''softfail''"
| "spf_result_name (Some ResultTempError) = ''temperror''"
| "spf_result_name (Some ResultPermError) = ''permerror''"

fun dkim_result_name :: "dkim_result \<Rightarrow> string" where
  "dkim_result_name DkimNone = ''none''"
| "dkim_result_name DkimPass = ''pass''"
| "dkim_result_name DkimFail = ''fail''"
| "dkim_result_name DkimNeutral = ''neutral''"
| "dkim_result_name DkimPolicy = ''policy''"
| "dkim_result_name DkimTempError = ''temperror''"
| "dkim_result_name DkimPermError = ''permerror''"

fun dmarc_result_name :: "message_result \<Rightarrow> string" where
  "dmarc_result_name NotEvaluated = []"
| "dmarc_result_name MessagePass = ''pass''"
| "dmarc_result_name MessageFail = ''fail''"
| "dmarc_result_name MessageNone = ''none''"
| "dmarc_result_name MessageTempError = ''temperror''"
| "dmarc_result_name MessagePermError = ''permerror''"
| "dmarc_result_name MessageIndeterminate = ''indeterminate''"

record 'k message_details =
  md_message :: message
  md_mime :: "mime_part option"
  md_received :: chain
  md_received_spf :: "received_spf list"
  md_dkim :: "'k verification list"
  md_spf :: message_check
  md_dmarc :: message_evaluation
  md_arc :: "arc_summary option"
  md_auth_results :: "parsed_header list"

definition received_spfs :: "message \<Rightarrow> received_spf list" where
  "received_spfs msg = List.map_filter (\<lambda>v. case parse_received_spf v of Inl e \<Rightarrow> None | Inr rs \<Rightarrow> Some rs)
     (header_values msg ''Received-SPF'')"

definition ip_inferred :: "message_inputs \<Rightarrow> bool" where
  "ip_inferred inp \<longleftrightarrow> (case in_ip inp of None \<Rightarrow> False | Some v \<Rightarrow> si_inferred v)"

definition spf_temp_error :: "evaluation option \<Rightarrow> report \<Rightarrow> report" where
  "spf_temp_error ev r = (case ev of None \<Rightarrow> r
     | Some e \<Rightarrow> if ev_result e = Some ResultTempError then add_error ErrorDNS ''spf'' r else r)"

definition dmarc_input :: "message \<Rightarrow> message_inputs \<Rightarrow> message_check \<Rightarrow> 'k verification list \<Rightarrow> message_input" where
  "dmarc_input msg inp mc vs = \<lparr>mi_from_headers = header_values msg ''From'', mi_spf_result = spf_result_name (ck_result mc),
     mi_spf_domain = ck_domain mc, mi_spf_inferred = ip_inferred inp,
     mi_dkim = map (\<lambda>v. \<lparr>di_domain = vf_domain v, di_result = dkim_result_name (vf_result v)\<rparr>) vs\<rparr>"

definition computed_of :: "message \<Rightarrow> message_inputs \<Rightarrow> message_check \<Rightarrow> 'k verification list \<Rightarrow> message_evaluation
    \<Rightarrow> computed_results" where
  "computed_of msg inp mc vs ev = \<lparr>cp_spf = spf_result_name (ck_result mc), cp_spf_inferred = ip_inferred inp,
     cp_dkim_evaluated = ms_body_available msg,
     cp_dkim = (if ms_body_available msg then map (\<lambda>v. \<lparr>cd_domain = vf_domain v, cd_selector = vf_selector v,
         cd_header_b = vf_header_b v, cd_result = dkim_result_name (vf_result v)\<rparr>) vs else []),
     cp_dmarc = (if me_result ev = MessagePermError \<or> me_result ev = MessageIndeterminate then []
        else dmarc_result_name (me_result ev))\<rparr>"

text \<open>What the checks contribute to the report, in the order of the code.\<close>

definition collect_message :: "'k mail_environment \<Rightarrow> message_inputs \<Rightarrow> 'k message_details \<Rightarrow> report \<Rightarrow> report" where
  "collect_message env inp d r = (
     let w = en_words env; msg = md_message d; mc = md_spf d; ev = md_dmarc d;
         r = add_observed w (structure_findings env msg (md_mime d)) r;
         r = add_observed w (ch_findings (md_received d)) r;
         r = add_dkim w msg (md_dkim d) r;
         r = add_observed w (ck_findings mc) r;
         r = spf_temp_error (ck_helo mc) (spf_temp_error (ck_mail_from mc) r);
         r = add_observed w (me_findings ev) r;
         r = (if me_result ev = MessageTempError then add_error ErrorDNS ''dmarc'' r else r);
         r = (case md_arc d of None \<Rightarrow> r | Some a \<Rightarrow> add_observed w (arc_findings a) r)
     in add_observed w (compare_headers (md_auth_results d) (computed_of msg inp mc (md_dkim d) ev)) r)"

text \<open>
  The checks of a message on the resolver of the session.  The tree of MIME parts depends on the header fields and the
  body only, so it is computed again from the parsed message.
\<close>

definition analyze_message :: "'k mail_environment \<Rightarrow> operator_values \<Rightarrow> mail_limits \<Rightarrow> message \<Rightarrow> report \<Rightarrow> 's resolver \<Rightarrow> 's
    \<Rightarrow> ('k message_details \<times> report) \<times> 's" where
  "analyze_message env op lim msg r R s0 = (
     let mime = (if ms_body_available msg then Some (fst (parse_mime (en_mime env) (with_defaults lim) msg)) else None);
         path = build_chain (en_parse_date env) (header_values msg ''Received'');
         rss = received_spfs msg;
         (vs, s1) = run (verify_message (en_crypto env) msg (en_now env)) R s0;
         inp = spf_inputs (en_parse_address env) op path rss (header_values msg ''Return-Path'');
         (mc, s2) = run_limited (check_message zero_limits (en_clock env) inp) R spf_query_budget s1;
         (ev, s3) = run (evaluate_message (en_etld1 env) (en_parse_list env) (dmarc_input msg inp mc vs)) R s2;
         d = \<lparr>md_message = msg, md_mime = mime, md_received = path, md_received_spf = rss, md_dkim = vs, md_spf = mc,
              md_dmarc = ev, md_arc = summarize_arc msg,
              md_auth_results = parse_all (header_values msg ''Authentication-Results'')\<rparr>
     in ((d, collect_message env inp d r), s3))"

definition input_error :: "string \<Rightarrow> 's \<Rightarrow> int \<Rightarrow> context_state \<Rightarrow> report \<Rightarrow> report" where
  "input_error text s0 limit ctx r = finish_scan text limit (with_budget s0) ctx (add_error ErrorInput ''message'' r)"

text \<open>What the reader holds; \<open>None\<close> when it could not be read.  A message without header fields is not a message.\<close>

definition read_message :: "'k mail_environment \<Rightarrow> bool \<Rightarrow> mail_limits \<Rightarrow> string option \<Rightarrow> message option" where
  "read_message env headers_only lim input = (case input of
     None \<Rightarrow> None
   | Some s \<Rightarrow> (case parse_reader (\<lambda>lim m. snd (parse_mime (en_mime env) lim m)) headers_only lim s of
       Inl e \<Rightarrow> None
     | Inr msg \<Rightarrow> if ms_headers msg = [] then None else Some msg))"

definition scan_message :: "'k mail_environment \<Rightarrow> operator_values \<Rightarrow> int \<Rightarrow> string \<Rightarrow> context_state \<Rightarrow> mail_limits
    \<Rightarrow> string \<Rightarrow> bool \<Rightarrow> string option \<Rightarrow> 's resolver \<Rightarrow> 's
    \<Rightarrow> ('k message_details option \<times> report \<times> scan_error option) \<times> 's" where
  "scan_message env op budget text ctx lim target headers_only input client s0 = (
     let limit = query_limit budget;
         r0 = new_report (if headers_only then KindHeaders else KindMessage) target
     in case read_message env headers_only lim input of
          None \<Rightarrow> ((None, input_error text s0 limit ctx r0, Some InputFailure), s0)
        | Some msg \<Rightarrow> (case analyze_message env op lim msg r0 (session_resolver client limit) (new_session s0) of
              ((d, r), s) \<Rightarrow> ((Some d, finish_scan text limit (ch_next s) ctx r, None), bg_next (ch_next s))))"

end
