(* ===== verification/TextDetails.thy ===== *)
theory TextDetails
  imports TextReport ScanMessage
begin

section \<open>The details of a scan on a terminal (internal/report/text.go)\<close>

text \<open>
  The sections on a domain and on a message, and the whole text report.  The checks keep their errors, reasons and notes as
  constructors; what the code prints of them is a text, which \<open>texts\<close> gives, as it gives the results of
  \<^verbatim>\<open>strconv.Quote\<close> and of the formatting of times.  Nothing is assumed about any of these texts.
\<close>

record 'k texts =
  ts_host_error :: "host_error \<Rightarrow> string"
  ts_node_error :: "node_error \<Rightarrow> string"
  ts_evidence :: "evidence \<Rightarrow> string"
  ts_selector_error :: "selector_error \<Rightarrow> string"
  ts_sts_failure :: "sts_failure \<Rightarrow> string"
  ts_dkim_reason :: "'k verification \<Rightarrow> string"
  ts_note :: "trace_note \<Rightarrow> string"
  ts_ar_error :: "ar_error option \<Rightarrow> string"
  ts_error :: "report_error \<Rightarrow> string"
  ts_time :: "int \<Rightarrow> string"
  ts_delay :: "int \<Rightarrow> string"
  ts_quote :: "string \<Rightarrow> string"

fun policy_string :: "policy \<Rightarrow> string" where
  "policy_string NoPolicy = []"
| "policy_string PolicyNone = ''none''"
| "policy_string PolicyQuarantine = ''quarantine''"
| "policy_string PolicyReject = ''reject''"

fun mode_string :: "mode \<Rightarrow> string" where
  "mode_string NoMode = []"
| "mode_string ModeRelaxed = ''r''"
| "mode_string ModeStrict = ''s''"

fun provenance_string :: "provenance \<Rightarrow> string" where
  "provenance_string Stated = ''stated''"
| "provenance_string Inferred = ''inferred''"

fun input_source_string :: "input_source \<Rightarrow> string" where
  "input_source_string SourceFlag = ''flag''"
| "input_source_string SourceReceived = ''received''"
| "input_source_string SourceReceivedSPF = ''received-spf''"
| "input_source_string SourceReturnPath = ''return-path''"

fun kind_name :: "report_kind \<Rightarrow> string" where
  "kind_name KindDomain = ''domain''"
| "kind_name KindMessage = ''message''"
| "kind_name KindHeaders = ''headers''"

definition say :: "string \<Rightarrow> string" where
  "say s = printf [Fixed s, Fixed newline]"

subsection \<open>A domain\<close>

definition print_host :: "text_options \<Rightarrow> 'k texts \<Rightarrow> bool \<Rightarrow> exchanger \<Rightarrow> string" where
  "print_host opts tx implicit h = (if hx_name h = ''.'' then [] else
     let addrs = map addr_string (hx_ipv4 h @ hx_ipv6 h);
         pref = (if implicit then ''impl.'' else pad_left 5 (show_nat (unat (hx_preference h))));
         line = plain (trim_right (''  '' @ pref @ ''  '' @ pad_right 32 (hx_name h) @ '' '' @ join '', '' addrs) '' '');
         line = line @ (if hx_cname h \<noteq> [] then style opts ansi_yellow ('' (CNAME '' @ arrow @ '' '' @ hx_cname h @ '')'') else []);
         line = line @ (if hx_error h \<noteq> NoHostError then style opts ansi_red ('' ('' @ ts_host_error tx (hx_error h) @ '')'') else [])
     in printf [Styled line, Fixed newline])"

definition print_mx :: "text_options \<Rightarrow> 'k texts \<Rightarrow> mx_result \<Rightarrow> string" where
  "print_mx opts tx mx = heading opts ''MX''
     @ (if mr_null_mx mx then say ''  null MX (the domain does not accept mail)''
        else if mr_hosts mx = [] then say ''  none'' else [])
     @ concat (map (print_host opts tx (mr_implicit mx)) (mr_hosts mx))"

definition node_counts :: "spf_node \<Rightarrow> string" where
  "node_counts n = show_int (nd_lookups n) @ '' lookup(s)''
     @ (if nd_total n \<noteq> nd_lookups n then '', '' @ show_int (nd_total n) @ '' with includes'' else [])"

definition node_info :: "text_options \<Rightarrow> 'k texts \<Rightarrow> spf_node \<Rightarrow> string" where
  "node_info opts tx n = (
     if nd_loop n then style opts ansi_red ''(loop)''
     else if nd_dynamic n then style opts ansi_dim ''(depends on message data)''
     else if nd_error n \<noteq> NoNodeError then style opts ansi_dim (''('' @ node_counts n @ '', '')
       @ style opts ansi_red (ts_node_error tx (nd_error n)) @ style opts ansi_dim '')''
     else style opts ansi_dim (''('' @ node_counts n @ '')''))"

text \<open>The lines of the tree.\<close>

definition tee :: string where "tee = encode_rune 0x251C @ encode_rune 0x2500 @ '' ''"
definition elbow :: string where "elbow = encode_rune 0x2514 @ encode_rune 0x2500 @ '' ''"

definition node_branch :: "spf_node \<Rightarrow> string \<Rightarrow> bool \<Rightarrow> string" where
  "node_branch n pre at_end = (if pre \<noteq> [] \<or> nd_via n \<noteq> [] then (if at_end then elbow else tee) else [])"

definition child_prefix :: "spf_node \<Rightarrow> string \<Rightarrow> bool \<Rightarrow> string" where
  "child_prefix n pre at_end = (if node_branch n pre at_end \<noteq> [] then pre @ (if at_end then ''   '' else bar @ ''  '') else pre)"

definition node_line :: "text_options \<Rightarrow> 'k texts \<Rightarrow> spf_node \<Rightarrow> string \<Rightarrow> string \<Rightarrow> bool \<Rightarrow> string" where
  "node_line opts tx n margin pre at_end = printf [Untrusted margin, Untrusted pre, Untrusted (node_branch n pre at_end),
     Untrusted (if nd_via n \<noteq> [] then nd_via n else nd_domain n), Fixed '' '', Styled (node_info opts tx n), Fixed newline]"

fun print_node :: "text_options \<Rightarrow> 'k texts \<Rightarrow> string \<Rightarrow> string \<Rightarrow> bool \<Rightarrow> spf_node \<Rightarrow> string"
  and print_nodes :: "text_options \<Rightarrow> 'k texts \<Rightarrow> string \<Rightarrow> string \<Rightarrow> spf_node list \<Rightarrow> string" where
  "print_node opts tx margin pre at_end (Node d v r l t vd e lo dy cs) = (let n = Node d v r l t vd e lo dy cs in
     node_line opts tx n margin pre at_end @ print_nodes opts tx margin (child_prefix n pre at_end) cs)"
| "print_nodes opts tx margin pre [] = []"
| "print_nodes opts tx margin pre (c # cs) = print_node opts tx margin pre (cs = []) c @ print_nodes opts tx margin pre cs"

definition print_spf :: "text_options \<Rightarrow> 'k texts \<Rightarrow> analysis \<Rightarrow> string" where
  "print_spf opts tx a = heading opts ''SPF''
     @ (if an_record a = [] then say ''  no record''
        else printf [Fixed ''  '', Untrusted (an_record a), Fixed newline]
          @ printf [Fixed ''  DNS lookups: '', Fixed (show_int (an_total_lookups a)), Fixed ''/10, void lookups: '',
              Fixed (show_int (an_void_lookups a)), Fixed ''/2'', Fixed newline]
          @ (case an_tree a of None \<Rightarrow> []
             | Some n \<Rightarrow> if nd_children n \<noteq> [] \<or> tx_verbose opts
                 then say ''  Dependency tree:'' @ print_node opts tx ''  '' [] True n else []))"

definition print_policy :: "text_options \<Rightarrow> dmarc_record \<Rightarrow> string" where
  "print_policy opts rec = printf [Fixed ''  policy '', Styled (show_result opts (policy_string (dm_policy rec))),
     Fixed '', subdomains '', Fixed (policy_string (effective_subdomain_policy rec)), Fixed '', pct '', Fixed (show_int (dm_percent rec)),
     Fixed '', adkim='', Fixed (mode_string (dm_adkim rec)), Fixed '', aspf='', Fixed (mode_string (dm_aspf rec)), Fixed newline]"

definition print_dmarc :: "text_options \<Rightarrow> assessment \<Rightarrow> string" where
  "print_dmarc opts a = (let disc = as_discovery a in heading opts ''DMARC''
     @ (if dd_records disc = [] then say ''  no record''
        else concat (map (\<lambda>r. printf [Fixed ''  _dmarc.'', Untrusted (dd_policy_domain disc), Fixed '': '', Untrusted r, Fixed newline])
            (dd_records disc))
          @ (case discovered_policy disc of None \<Rightarrow> [] | Some rec \<Rightarrow> print_policy opts rec)))"

text \<open>Provider defaults without a key are listed only on request.\<close>

definition selector_hidden :: "text_options \<Rightarrow> 'k selector_assessment \<Rightarrow> bool" where
  "selector_hidden opts s \<longleftrightarrow> sl_provider s \<noteq> [] \<and> sl_error s = NoKeyRecord \<and> \<not> tx_verbose opts"

definition print_selector :: "text_options \<Rightarrow> 'k texts \<Rightarrow> 'k selector_assessment \<Rightarrow> string" where
  "print_selector opts tx s = (
     let origin = (if sl_provider s \<noteq> [] then style opts ansi_dim ('' ('' @ sl_provider s @ '' default)'') else []);
         err = ts_selector_error tx (sl_error s)
     in case sl_key s of
       Some key \<Rightarrow> if kr_revoked key
         then printf [Fixed ''  '', Untrusted (sl_name s), Fixed '': revoked'', Styled origin, Fixed newline]
         else printf [Fixed ''  '', Untrusted (sl_name s), Fixed '': '', Untrusted (to_upper (kr_key_type key)), Fixed '' '',
             Fixed (show_int (kr_key_bits key)), Fixed '' bits'', Styled origin, Fixed newline]
     | None \<Rightarrow> if sl_provider s \<noteq> [] \<and> sl_error s = NoKeyRecord
         then printf [Fixed ''  '', Untrusted (sl_name s), Fixed '': '', Untrusted err, Styled origin, Fixed newline]
         else printf [Fixed ''  '', Untrusted (sl_name s), Fixed '': '', Styled (style opts ansi_red err), Styled origin, Fixed newline])"

definition print_selectors :: "text_options \<Rightarrow> 'k texts \<Rightarrow> 'k dkim_assessment \<Rightarrow> string" where
  "print_selectors opts tx a = (let shown = filter (\<lambda>s. \<not> selector_hidden opts s) (da_selectors a) in heading opts ''DKIM''
     @ concat (map (\<lambda>p. printf [Fixed ''  provider '', Untrusted (pm_provider p), Fixed '' ('', Untrusted (ts_evidence tx (pm_evidence p)),
         Fixed '')'', Fixed newline]) (da_providers a))
     @ concat (map (print_selector opts tx) shown)
     @ (if shown \<noteq> [] then []
        else if list_ex (\<lambda>s. sl_provider s \<noteq> []) (da_selectors a)
          then say ''  no keys under provider default selectors (use --dkim-selector)''
        else say ''  no selectors checked (use --dkim-selector)''))"

definition print_sts :: "text_options \<Rightarrow> 'k texts \<Rightarrow> sts_assessment option \<Rightarrow> string" where
  "print_sts opts tx sts = (case sts of
     None \<Rightarrow> []
   | Some a \<Rightarrow> heading opts ''MTA-STS'' @ (case (sa_policy a, sa_records a) of
       (Some p, _) \<Rightarrow> printf [Fixed ''  mode '', Untrusted (po_mode p), Fixed '', max_age '', Fixed (show_int (po_max_age p)),
         Fixed '', mx '', Untrusted (join '', '' (po_mx p)), Fixed newline]
     | (None, r # _) \<Rightarrow> printf [Fixed ''  '', Untrusted r, Fixed newline]
         @ (if sa_error a \<noteq> NoStsError then printf [Fixed ''  '', Styled (style opts ansi_red (ts_sts_failure tx (sa_error a))), Fixed newline]
            else [])
     | (None, []) \<Rightarrow> say ''  not deployed''))"

definition print_tlsrpt :: "text_options \<Rightarrow> tls_assessment \<Rightarrow> string" where
  "print_tlsrpt opts a = heading opts ''TLS-RPT'' @ (case ta_record a of
     Some rec \<Rightarrow> printf [Fixed ''  '', Untrusted (join '', '' (tr_rua rec)), Fixed newline]
   | None \<Rightarrow> if ta_records a \<noteq> [] then printf [Fixed ''  '', Untrusted (join '' | '' (ta_records a)), Fixed newline]
       else say ''  not configured'')"

definition print_domain :: "text_options \<Rightarrow> 'k texts \<Rightarrow> 'k domain_details \<Rightarrow> string" where
  "print_domain opts tx d = print_mx opts tx (dt_mx d) @ print_spf opts tx (dt_spf d) @ print_dmarc opts (dt_dmarc d)
     @ print_selectors opts tx (dt_dkim d) @ print_sts opts tx (dt_mtasts d) @ print_tlsrpt opts (dt_tlsrpt d)"

subsection \<open>A message\<close>

definition first_and_more :: "string list \<Rightarrow> string" where
  "first_and_more vals = (case vals of
     [] \<Rightarrow> []
   | [v] \<Rightarrow> v
   | v # vs \<Rightarrow> v @ ''  (+'' @ show_nat (length vs) @ '' more)'')"

definition header_line :: "message \<Rightarrow> string \<Rightarrow> string" where
  "header_line msg name = kv name (plain (first_and_more (header_values msg name)))"

definition print_headers :: "text_options \<Rightarrow> 'k message_details \<Rightarrow> string" where
  "print_headers opts m = heading opts ''Headers''
     @ concat (map (header_line (md_message m))
         [''From'', ''Sender'', ''Reply-To'', ''Return-Path'', ''To'', ''Subject'', ''Date'', ''Message-ID''])
     @ (case md_mime m of None \<Rightarrow> []
        | Some p \<Rightarrow> if tx_verbose opts then kv ''Content-Type'' (plain (mf_content_type (part_fields p))) else [])"

definition spf_verdict :: "text_options \<Rightarrow> message_check \<Rightarrow> string" where
  "spf_verdict opts mc = (
     if ck_result mc = None then plain ''not evaluated''
     else show_result opts (spf_result_name (ck_result mc)) @ plain ('' ('' @ ck_domain mc @ '')'')
       @ (if ip_inferred (ck_inputs mc) then style opts ansi_dim '' inputs inferred'' else []))"

definition dkim_verdict :: "text_options \<Rightarrow> 'k verification list \<Rightarrow> string" where
  "dkim_verdict opts vs = (if vs = [] then show_result opts ''none'' else
     let passing = length (filter (\<lambda>v. vf_result v = DkimPass) vs) in
     show_result opts (if 0 < passing then ''pass'' else ''fail'')
       @ plain ('' ('' @ show_nat passing @ '' of '' @ show_nat (length vs) @ '' signatures valid)''))"

definition dmarc_verdict :: "text_options \<Rightarrow> message_evaluation \<Rightarrow> string" where
  "dmarc_verdict opts ev = show_result opts (dmarc_result_name (me_result ev))
     @ (if me_from_domain ev = [] then []
        else plain ('' ('' @ me_from_domain ev
          @ (if me_policy ev \<noteq> NoPolicy then '', policy '' @ policy_string (me_policy ev) else []) @ '')''))"

definition print_verdicts :: "text_options \<Rightarrow> 'k message_details \<Rightarrow> string" where
  "print_verdicts opts m = heading opts ''Verdicts'' @ kv ''SPF'' (spf_verdict opts (md_spf m))
     @ kv ''DKIM'' (dkim_verdict opts (md_dkim m)) @ kv ''DMARC'' (dmarc_verdict opts (md_dmarc m))"

definition hop_source :: "hop \<Rightarrow> string" where
  "hop_source h = (
     if hop_helo h = None \<and> hop_from_host h = None \<and> hop_ip h = None then ''(local)''
     else (case hop_helo h of Some v \<Rightarrow> tv_value v
           | None \<Rightarrow> (case hop_from_host h of Some v \<Rightarrow> tv_value v | None \<Rightarrow> ''?''))
       @ (case hop_ip h of None \<Rightarrow> [] | Some v \<Rightarrow> '' ['' @ tv_value v @ '']''))"

definition tls_note :: "hop_tls \<Rightarrow> string" where
  "tls_note t = (if ht_used t then ''TLS'' @ (if ht_version t \<noteq> [] then '' '' @ ht_version t else []) else ''no TLS'')
     @ '' ('' @ provenance_string (ht_source t) @ '')''"

definition hop_notes :: "'k texts \<Rightarrow> hop \<Rightarrow> string list" where
  "hop_notes tx h =
     (if hop_protocol h \<noteq> [] then [''with '' @ hop_protocol h] else [])
     @ (case hop_tls_info h of None \<Rightarrow> [] | Some t \<Rightarrow> [tls_note t])
     @ (case hop_helo h of None \<Rightarrow> [] | Some v \<Rightarrow> [''helo '' @ provenance_string (tv_source v)])
     @ (case hop_reverse_dns h of None \<Rightarrow> []
        | Some v \<Rightarrow> [''rdns '' @ tv_value v @ '' ('' @ provenance_string (tv_source v) @ '')''])
     @ (case hop_delay h of None \<Rightarrow> [] | Some d \<Rightarrow> if d \<noteq> 0 then [''+'' @ ts_delay tx d] else [])"

definition print_hop :: "text_options \<Rightarrow> 'k texts \<Rightarrow> hop \<Rightarrow> string" where
  "print_hop opts tx h = (
     let by_host = (case hop_by h of None \<Rightarrow> ''?'' | Some v \<Rightarrow> tv_value v);
         ts = (case hop_timestamp h of None \<Rightarrow> [] | Some t \<Rightarrow> ts_time tx t);
         notes = hop_notes tx h
     in printf [Fixed ''  #'', Fixed (pad_right 2 (show_nat (hop_index h))), Fixed '' '', Untrusted (hop_source h),
          Fixed ('' '' @ arrow @ '' ''), Untrusted by_host, Fixed ''  '', Styled (style opts ansi_dim ts), Fixed newline]
        @ (if notes = [] then []
           else printf [Fixed ''       '', Styled (style opts ansi_dim (join '', '' notes)), Fixed newline]))"

definition print_path :: "text_options \<Rightarrow> 'k texts \<Rightarrow> chain \<Rightarrow> string" where
  "print_path opts tx c = (if ch_hops c = [] then []
     else heading opts ''Transport path (origin first)'' @ concat (map (print_hop opts tx) (ch_hops c)))"

definition print_signature :: "text_options \<Rightarrow> 'k texts \<Rightarrow> 'k verification \<Rightarrow> string" where
  "print_signature opts tx v =
     printf [Fixed ''  #'', Fixed (show_nat (vf_index v)), Fixed '' '', Styled (show_result opts (dkim_result_name (vf_result v))),
       Fixed '' d='', Untrusted (vf_domain v), Fixed '' s='', Untrusted (vf_selector v), Fixed '' '', Untrusted (vf_algorithm v),
       Fixed '' '', Untrusted (vf_canonicalization v), Fixed newline]
     @ printf [Fixed ''     '', Styled (style opts ansi_dim (ts_dkim_reason tx v)), Fixed newline]
     @ (if tx_verbose opts \<and> vf_signed_headers v \<noteq> []
        then printf [Fixed ''     '', Styled (style opts ansi_dim (''h='' @ join '':'' (vf_signed_headers v))), Fixed newline] else [])"

definition print_signatures :: "text_options \<Rightarrow> 'k texts \<Rightarrow> 'k verification list \<Rightarrow> string" where
  "print_signatures opts tx vs = (if vs = [] then []
     else heading opts ''DKIM signatures'' @ concat (map (print_signature opts tx) vs))"

definition print_input :: "text_options \<Rightarrow> string \<Rightarrow> spf_input option \<Rightarrow> string" where
  "print_input opts name inp = (case inp of None \<Rightarrow> []
     | Some x \<Rightarrow> kv name (plain (si_value x) @ style opts ansi_dim
         ('' ('' @ input_source_string (si_source x) @ (if si_inferred x then '', inferred'' else []) @ '')'')))"

definition print_step :: "text_options \<Rightarrow> 'k texts \<Rightarrow> trace_step \<Rightarrow> string" where
  "print_step opts tx st = printf [Fixed ''     '', Untrusted (concat (replicate (nat (st_depth st)) ''  '')), Untrusted (st_domain st),
     Fixed '' '', Untrusted (st_term st), Fixed '' '', Styled (style opts ansi_dim (ts_note tx (st_note st))), Fixed newline]"

definition print_evaluation :: "text_options \<Rightarrow> 'k texts \<Rightarrow> evaluation option \<Rightarrow> string" where
  "print_evaluation opts tx ev = (case ev of None \<Rightarrow> []
     | Some e \<Rightarrow> evaluation_line (ts_quote tx) opts (ev_domain e) (spf_result_name (ev_result e)) (ev_matched_term e)
         @ (if tx_verbose opts then concat (map (print_step opts tx) (ev_trace e)) else []))"

definition print_check :: "text_options \<Rightarrow> 'k texts \<Rightarrow> message_check \<Rightarrow> string" where
  "print_check opts tx mc = (if ck_result mc = None then [] else
     let inp = ck_inputs mc in heading opts ''SPF''
       @ print_input opts ''client IP'' (in_ip inp) @ print_input opts ''HELO'' (in_helo inp)
       @ print_input opts ''MAIL FROM'' (in_mail_from inp)
       @ (if in_null_sender inp then kv ''MAIL FROM'' ''<> (null sender)'' else [])
       @ print_evaluation opts tx (ck_mail_from mc) @ print_evaluation opts tx (ck_helo mc))"

definition print_auth_header :: "text_options \<Rightarrow> 'k texts \<Rightarrow> parsed_header \<Rightarrow> string" where
  "print_auth_header opts tx p = (case pa_header p of
     None \<Rightarrow> printf [Fixed ''  #'', Fixed (show_nat (pa_index p)), Fixed '' '',
       Styled (style opts ansi_red (''unparseable: '' @ ts_ar_error tx (pa_error p))), Fixed newline]
   | Some h \<Rightarrow> printf [Fixed ''  #'', Fixed (show_nat (pa_index p)), Fixed '' '',
       Untrusted (if ah_id h = [] then ''(no authserv-id)'' else ah_id h), Fixed '': '',
       Styled (join '' '' (map (\<lambda>r. plain (re_method r @ ''='') @ show_result opts (re_result r)) (ah_results h))), Fixed newline])"

definition print_auth_results :: "text_options \<Rightarrow> 'k texts \<Rightarrow> parsed_header list \<Rightarrow> string" where
  "print_auth_results opts tx ps = (if ps = [] then []
     else heading opts ''Authentication-Results (as received)'' @ concat (map (print_auth_header opts tx) ps))"

fun print_mime :: "text_options \<Rightarrow> 'k texts \<Rightarrow> string \<Rightarrow> mime_part \<Rightarrow> string" where
  "print_mime opts tx margin (MimePart f ps) =
     printf [Untrusted margin,
       Untrusted (mf_content_type f @ (if mf_filename f \<noteq> [] then '' '' @ ts_quote tx (mf_filename f) else [])), Fixed '' '',
       Styled (style opts ansi_dim (''('' @ show_nat (mf_size f) @ '' bytes)'')), Fixed newline]
     @ concat (map (print_mime opts tx (margin @ ''  '')) ps)"

definition print_structure :: "text_options \<Rightarrow> 'k texts \<Rightarrow> mime_part option \<Rightarrow> string" where
  "print_structure opts tx mime = (case mime of None \<Rightarrow> []
     | Some p \<Rightarrow> if part_parts p \<noteq> [] \<or> tx_verbose opts then heading opts ''MIME structure'' @ print_mime opts tx ''  '' p else [])"

definition print_message :: "text_options \<Rightarrow> 'k texts \<Rightarrow> 'k message_details \<Rightarrow> string" where
  "print_message opts tx m = print_headers opts m @ print_verdicts opts m @ print_path opts tx (md_received m)
     @ print_signatures opts tx (md_dkim m) @ print_check opts tx (md_spf m) @ print_auth_results opts tx (md_auth_results m)
     @ print_structure opts tx (md_mime m)"

subsection \<open>The report\<close>

datatype 'k details = NoDetails | OfDomain "'k domain_details" | OfMessage "'k message_details"

fun print_details :: "text_options \<Rightarrow> 'k texts \<Rightarrow> 'k details \<Rightarrow> string" where
  "print_details opts tx NoDetails = []"
| "print_details opts tx (OfDomain d) = print_domain opts tx d"
| "print_details opts tx (OfMessage m) = print_message opts tx m"

definition write_text :: "text_options \<Rightarrow> 'k texts \<Rightarrow> 'k details \<Rightarrow> report \<Rightarrow> string" where
  "write_text options tx d rep = (let opts = default_width options in
     print_title opts (kind_name (rp_kind rep)) rep @ print_details opts tx d @ print_findings opts rep
     @ print_summary (ts_error tx) opts rep)"

end
