(* ===== verification/TextProps.thy ===== *)
theory TextProps
  imports TextDetails
begin

section \<open>The terminal is safe\<close>

text \<open>
  Whatever the strings of a report contain, the only escape sequences in what is printed are the styles of the program,
  and there is no other control character but the tabs and the ends of lines.
\<close>

subsection \<open>Decoding\<close>

fun_cases tail2E: "decode_tail2 b cs = (r, n)"
fun_cases tail3E: "decode_tail3 b cs = (r, n)"
fun_cases tail4E: "decode_tail4 b cs = (r, n)"

lemma decode_local:
  assumes "decode_rune (c # cs) = (r, n)" and "r \<noteq> rune_error"
  shows "1 \<le> n \<and> n \<le> Suc (length cs) \<and> decode_rune (c # take (n - 1) cs @ t) = (r, n)"
  using assms
  by (auto simp: Let_def numeral_eq_Suc split: if_splits elim!: tail2E tail3E tail4E)

text \<open>The parts of a rune, as \<^verbatim>\<open>WriteRune\<close> takes it apart again.\<close>

lemma div_mod_64: "0 \<le> b \<Longrightarrow> b < 64 \<Longrightarrow> (a * 64 + b) div 64 = (a :: int)" "0 \<le> b \<Longrightarrow> b < 64 \<Longrightarrow> (a * 64 + b) mod 64 = (b :: int)"
  by auto

lemma div_by_powers: "(r :: int) div 4096 = r div 64 div 64" "(r :: int) div 262144 = r div 64 div 4096"
  by (simp_all add: zdiv_zmult2_eq [symmetric])

lemma encode_two: "2 \<le> q \<Longrightarrow> q < 32 \<Longrightarrow> 0 \<le> k \<Longrightarrow> k < 64 \<Longrightarrow>
    encode_rune (q * 64 + k) = [char_of (0xC0 + q), char_of (0x80 + k)]"
  by (simp add: encode_rune_def div_mod_64)

lemma encode_three: "0x20 \<le> q \<Longrightarrow> q < 0x400 \<Longrightarrow> 0 \<le> k \<Longrightarrow> k < 64 \<Longrightarrow>
    encode_rune (q * 64 + k) = [char_of (0xE0 + q div 64), char_of (0x80 + q mod 64), char_of (0x80 + k)]"
  by (simp add: encode_rune_def div_mod_64 div_by_powers)

lemma encode_four: "0x400 \<le> q \<Longrightarrow> 0 \<le> k \<Longrightarrow> k < 64 \<Longrightarrow>
    encode_rune (q * 64 + k) = [char_of (0xF0 + q div 64 div 64), char_of (0x80 + q div 64 mod 64), char_of (0x80 + q mod 64), char_of (0x80 + k)]"
  by (simp add: encode_rune_def div_mod_64 div_by_powers)

lemma encode_tail2:
  assumes "decode_tail2 (byte c) cs = (r, n)" "r \<noteq> rune_error" "0xC2 \<le> byte c" "byte c \<le> 0xDF"
  shows "encode_rune r = c # take (n - 1) cs"
proof (cases cs)
  case (Cons c1 rest)
  then have "continues c1" "r = (byte c - 0xC0) * 64 + (byte c1 - 0x80)" "n = 2" using assms by (auto split: if_splits)
  then show ?thesis using encode_two [of "byte c - 0xC0" "byte c1 - 0x80"] assms(3,4) Cons by (simp add: continues_def)
qed (use assms in simp)

lemma encode_tail3:
  assumes "decode_tail3 (byte c) cs = (r, n)" "r \<noteq> rune_error" "0xE0 \<le> byte c" "byte c \<le> 0xEF"
  shows "encode_rune r = c # take (n - 1) cs"
proof -
  obtain c1 c2 rest where cs: "cs = c1 # c2 # rest" and c: "low3 (byte c) \<le> byte c1" "byte c1 \<le> high3 (byte c)" "continues c2"
      and r: "r = ((byte c - 0xE0) * 64 + (byte c1 - 0x80)) * 64 + (byte c2 - 0x80)" and n: "n = 3"
    using assms(1,2) by (auto elim!: tail3E split: if_splits)
  have c1: "0x80 \<le> byte c1" "byte c1 \<le> 0xBF" "byte c = 0xE0 \<longrightarrow> 0xA0 \<le> byte c1"
    using c(1,2) by (auto simp: low3_def high3_def split: if_splits)
  have q: "((byte c - 0xE0) * 64 + (byte c1 - 0x80)) div 64 = byte c - 0xE0" "((byte c - 0xE0) * 64 + (byte c1 - 0x80)) mod 64 = byte c1 - 0x80"
    by (rule div_mod_64; use c1 in simp)+
  have "0x20 \<le> (byte c - 0xE0) * 64 + (byte c1 - 0x80)" "(byte c - 0xE0) * 64 + (byte c1 - 0x80) < 0x400"
    using c1 assms(3,4) by (cases "byte c = 0xE0"; simp)+
  from encode_three [OF this, of "byte c2 - 0x80", unfolded q] show ?thesis
    unfolding r cs n using c(3) by (simp add: continues_def numeral_eq_Suc)
qed

lemma encode_tail4:
  assumes "decode_tail4 (byte c) cs = (r, n)" "r \<noteq> rune_error" "0xF0 \<le> byte c" "byte c \<le> 0xF4"
  shows "encode_rune r = c # take (n - 1) cs"
proof -
  obtain c1 c2 c3 rest where cs: "cs = c1 # c2 # c3 # rest" and c: "low4 (byte c) \<le> byte c1" "byte c1 \<le> high4 (byte c)" "continues c2" "continues c3"
      and r: "r = (((byte c - 0xF0) * 64 + (byte c1 - 0x80)) * 64 + (byte c2 - 0x80)) * 64 + (byte c3 - 0x80)" and n: "n = 4"
    using assms(1,2) by (auto elim!: tail4E split: if_splits)
  have c1: "0x80 \<le> byte c1" "byte c1 \<le> 0xBF" "byte c = 0xF0 \<longrightarrow> 0x90 \<le> byte c1"
    using c(1,2) by (auto simp: low4_def high4_def split: if_splits)
  let ?p = "(byte c - 0xF0) * 64 + (byte c1 - 0x80)"
  have p: "?p div 64 = byte c - 0xF0" "?p mod 64 = byte c1 - 0x80"
    by (rule div_mod_64; use c1 in simp)+
  have q: "(?p * 64 + (byte c2 - 0x80)) div 64 = ?p" "(?p * 64 + (byte c2 - 0x80)) mod 64 = byte c2 - 0x80"
    by (rule div_mod_64; use c(3) in \<open>simp add: continues_def\<close>)+
  have "0x10 \<le> ?p" using c1 assms(3,4) by (cases "byte c = 0xF0"; simp)
  then have "0x400 \<le> ?p * 64 + (byte c2 - 0x80)" using c(3) by (simp add: continues_def)
  from encode_four [OF this, of "byte c3 - 0x80", unfolded q p] show ?thesis
    unfolding r cs n using c(4) by (simp add: continues_def numeral_eq_Suc)
qed

lemma decode_encode:
  assumes "decode_rune (c # cs) = (r, n)" and "r \<noteq> rune_error"
  shows "encode_rune r = c # take (n - 1) cs"
proof -
  have "byte c < 0x80 \<Longrightarrow> encode_rune (byte c) = [c]" by (simp add: encode_rune_def)
  then show ?thesis using assms encode_tail2 [of c cs r n] encode_tail3 [of c cs r n] encode_tail4 [of c cs r n]
    by (auto simp: Let_def split: if_splits)
qed

declare decode_rune.simps(2) [simp del] runes.simps(2) [simp del]

text \<open>
  The runes that cannot do harm on a terminal: tabs and everything from the space on, without the controls of the two
  control sets, the marks and overrides that change the direction of text, and the rune that stands for invalid bytes.
\<close>

definition harmless :: "int \<Rightarrow> bool" where
  "harmless r \<longleftrightarrow> (r = 9 \<or> 0x20 \<le> r) \<and> r \<notin> {0x7F..0x9F} \<and> r \<notin> {0x200E..0x200F} \<and> r \<notin> {0x202A..0x202E}
     \<and> r \<notin> {0x2066..0x2069} \<and> r \<noteq> 0xFFFD"

lemma harmless_iff: "harmless r \<longleftrightarrow> \<not> needs_escape r"
  by (auto simp: harmless_def needs_escape_def rune_error_def)

text \<open>A text of harmless runes; in particular it is well-formed UTF-8.\<close>

definition safe :: "string \<Rightarrow> bool" where
  "safe s \<longleftrightarrow> list_all (\<lambda>p. harmless (fst p)) (runes s)"

lemma harmless_error [simp]: "\<not> harmless rune_error"
  by (simp add: harmless_def rune_error_def)

lemma runes_local:
  assumes "decode_rune (c # cs) = (r, n)" and "r \<noteq> rune_error"
  shows "runes (c # take (n - 1) cs @ t) = (r, c # take (n - 1) cs) # runes t"
  using decode_local [OF assms, of t] by (auto simp: runes.simps(2) min_absorb2)

lemma runes_append: "safe s \<Longrightarrow> runes (s @ t) = runes s @ runes t"
proof (induction s rule: runes.induct)
  case (2 c cs)
  obtain r n where d: "decode_rune (c # cs) = (r, n)" by fastforce
  then have "r \<noteq> rune_error" "safe (drop (n - 1) cs)" using 2(2) by (auto simp: safe_def runes.simps(2))
  moreover have "runes ((c # cs) @ t) = (r, c # take (n - 1) cs) # runes (drop (n - 1) cs @ t)"
    using runes_local [OF d calculation(1), of "drop (n - 1) cs @ t"] by (simp flip: append_assoc)
  ultimately show ?case using 2(1) [OF d [symmetric]] d by (simp add: runes.simps(2))
qed simp

lemma safe_Nil [simp]: "safe []"
  by (simp add: safe_def)

lemma safe_append: "safe s \<Longrightarrow> safe t \<Longrightarrow> safe (s @ t)"
  by (simp add: safe_def [of "s @ t"] runes_append) (simp add: safe_def)

definition printable :: "char \<Rightarrow> bool" where
  "printable c \<longleftrightarrow> 0x20 \<le> byte c \<and> byte c < 0x7F"

lemma safe_Cons: "printable c \<Longrightarrow> safe s \<Longrightarrow> safe (c # s)"
  by (auto simp: safe_def printable_def harmless_def runes.simps(2) decode_rune.simps(2))

lemma safe_printable: "list_all printable s \<Longrightarrow> safe s"
  by (induction s) (auto intro: safe_Cons)

lemma safe_concat: "list_all safe ss \<Longrightarrow> safe (concat ss)"
  by (induction ss) (auto intro: safe_append)

lemma printable_hex: "0 \<le> d \<Longrightarrow> d < 16 \<Longrightarrow> printable (hex_digit d) \<and> printable (upper_byte (hex_digit d))"
  by (auto simp: printable_def hex_digit_def upper_byte_def is_lower_def)

lemma runes_elem:
  "p \<in> set (runes s) \<Longrightarrow> \<exists>c cs n. decode_rune (c # cs) = (fst p, n) \<and> snd p = c # take (n - 1) cs"
  by (induction s rule: runes.induct) (auto simp: runes.simps(2) split: prod.splits, metis)

lemma safe_escape_rune: "p \<in> set (runes s) \<Longrightarrow> safe (escape_rune p)"
proof -
  assume "p \<in> set (runes s)"
  then obtain c cs n r where d: "decode_rune (c # cs) = (r, n)" and p: "p = (r, c # take (n - 1) cs)"
    by (metis prod.collapse runes_elem)
  show ?thesis
  proof (cases "harmless r")
    case False
    then show ?thesis
      by (auto simp: p escape_rune_def hex_lower2_def hex_upper4_def printable_hex harmless_iff intro!: safe_printable)
        (auto simp: printable_def)
  next
    case True
    then have "r \<noteq> rune_error" by auto
    then have "encode_rune r = c # take (n - 1) cs" "runes (c # take (n - 1) cs) = [(r, c # take (n - 1) cs)]"
      using decode_encode [OF d] runes_local [OF d, of "[]"] by simp_all
    then show ?thesis using True \<open>r \<noteq> rune_error\<close> by (simp add: p escape_rune_def safe_def harmless_iff)
  qed
qed

lemma safe_escape: "safe (escape_terminal s)"
  by (auto simp: escape_terminal_def list_all_iff safe_escape_rune safe_concat)
    (auto simp: safe_def list_all_iff list_ex_iff harmless_iff)

subsection \<open>What is printed\<close>

definition own_styles :: "string list" where
  "own_styles = [ansi_reset, ansi_bold, ansi_dim, ansi_red, ansi_green, ansi_yellow, ansi_blue, ansi_mag, ansi_cyan]"

inductive terminal_text :: "string \<Rightarrow> bool" where
  terminal_Nil: "terminal_text []"
| terminal_style: "code \<in> set own_styles \<Longrightarrow> terminal_text t \<Longrightarrow> terminal_text (code @ t)"
| terminal_line: "terminal_text t \<Longrightarrow> terminal_text (lf # t)"
| terminal_safe: "safe s \<Longrightarrow> terminal_text t \<Longrightarrow> terminal_text (s @ t)"

named_theorems terminal \<open>what prints safe text\<close>

lemma terminal_append [terminal]: "terminal_text s \<Longrightarrow> terminal_text t \<Longrightarrow> terminal_text (s @ t)"
  by (induction rule: terminal_text.induct) (auto intro: terminal_text.intros)

lemma terminal_of_safe: "safe s \<Longrightarrow> terminal_text s"
  using terminal_safe [of s "[]"] terminal_Nil by simp

lemma terminal_escape [terminal]: "terminal_text (escape_terminal s)" "terminal_text (plain s)"
  by (simp_all add: terminal_of_safe safe_escape plain_def)

lemma terminal_printable: "list_all printable s \<Longrightarrow> terminal_text s"
  by (simp add: terminal_of_safe safe_printable)

lemma terminal_newline [terminal]: "terminal_text newline"
  using terminal_line [OF terminal_Nil] by (simp add: newline_def)

lemma terminal_empty [terminal]: "terminal_text []"
  by (rule terminal_Nil)

lemma terminal_concat [terminal]: "list_all terminal_text ss \<Longrightarrow> terminal_text (concat ss)"
  by (induction ss) (auto intro: terminal)

lemma terminal_code: "code \<in> set own_styles \<Longrightarrow> terminal_text code"
  using terminal_style [OF _ terminal_Nil] by simp

lemma terminal_codes [terminal]: "terminal_text ansi_reset" "terminal_text ansi_bold" "terminal_text ansi_dim"
  "terminal_text ansi_red" "terminal_text ansi_green" "terminal_text ansi_yellow" "terminal_text ansi_blue"
  "terminal_text ansi_mag" "terminal_text ansi_cyan"
  by (rule terminal_code, simp add: own_styles_def)+

lemma terminal_color [terminal]: "terminal_text (severity_color sev)"
  by (cases sev; simp; intro terminal)

lemma terminal_styled [terminal]: "terminal_text code \<Longrightarrow> terminal_text (style opts code s)"
  unfolding style_def by (simp split: if_split) (intro impI conjI terminal)

lemma terminal_printf [terminal]:
  "list_all (\<lambda>p. case p of Fixed s \<Rightarrow> terminal_text s | Untrusted _ \<Rightarrow> True | Styled s \<Rightarrow> terminal_text s) ps \<Longrightarrow> terminal_text (printf ps)"
  by (induction ps) (auto simp: printf_def intro!: terminal split: piece.splits)

lemma printable_literals [terminal]:
  "terminal_text '' ''" "terminal_text ''  ''" "terminal_text '': ''" "terminal_text ''  No findings.''"
  by (auto intro!: terminal_printable simp: printable_def)

lemma terminal_join [terminal]: "list_all terminal_text ss \<Longrightarrow> terminal_text (join '', '' ss)"
proof (induction ss rule: induct_list012)
  case (3 x y zs)
  have "terminal_text '', ''" by (simp add: terminal_printable printable_def)
  then have "terminal_text ('', '' @ join '', '' (y # zs))" using 3 by (intro terminal_append) auto
  with 3 show ?case by (auto intro: terminal_append)
qed (auto intro: terminal)

lemma terminal_heading [terminal]: "terminal_text (heading opts s)"
  by (auto simp: heading_def intro!: terminal)

lemma terminal_finding [terminal]: "terminal_text (print_finding opts f)"
  by (auto simp: print_finding_def print_lines_def print_evidence_def print_recommendation_def severity_label_def Let_def
      list_all_iff intro!: terminal)

lemma terminal_findings [terminal]: "terminal_text (print_findings opts rep)"
  by (auto simp: print_findings_def Let_def list_all_iff intro!: terminal)

lemma terminal_count [terminal]: "terminal_text (count_label opts rep s)"
  by (auto simp: count_label_def Let_def intro!: terminal)

lemma terminal_summary [terminal]: "terminal_text (print_summary texts opts rep)"
  by (auto simp: print_summary_def Let_def list_all_iff intro!: terminal)

lemma terminal_title [terminal]: "terminal_text (print_title opts kind rep)"
  by (auto simp: print_title_def intro!: terminal)

subsection \<open>The details\<close>

lemma terminal_Cons [terminal]: "printable c \<Longrightarrow> terminal_text s \<Longrightarrow> terminal_text (c # s)"
  using terminal_safe [of "[c]" s] safe_printable [of "[c]"] by simp

lemma printable_digits: "list_all printable (show_nat n)"
  using show_nat_digits [of n] by (auto simp: list_all_iff printable_def is_digit_def)

lemma terminal_numbers [terminal]: "terminal_text (show_nat n)" "terminal_text (show_int i)"
  by (auto simp: terminal_printable printable_digits show_int_def printable_def intro!: terminal_Cons)

lemma terminal_spaces: "terminal_text (replicate n (CHR '' ''))"
  by (auto intro!: terminal_printable simp: list_all_iff printable_def)

lemma terminal_pad [terminal]: "terminal_text s \<Longrightarrow> terminal_text (pad_right n s)" "terminal_text s \<Longrightarrow> terminal_text (pad_left n s)"
  by (simp_all add: pad_right_def pad_left_def terminal_spaces terminal_append)

lemma terminal_arrow [terminal]: "terminal_text arrow"
proof -
  have "safe arrow" by code_simp
  then show ?thesis by (rule terminal_of_safe)
qed

lemma terminal_policy [terminal]: "terminal_text (policy_string p)"
  by (cases p) (auto simp: printable_def intro!: terminal)

lemma terminal_mode [terminal]: "terminal_text (mode_string m)"
  by (cases m) (auto simp: printable_def intro!: terminal)

lemma terminal_result [terminal]: "terminal_text (show_result opts r)"
  by (simp add: show_result_def terminal split: if_split)

lemma terminal_say [terminal]: "terminal_text s \<Longrightarrow> terminal_text (say s)"
  by (auto simp: say_def intro!: terminal)

lemma terminal_kv [terminal]: "terminal_text key \<Longrightarrow> terminal_text value \<Longrightarrow> terminal_text (kv key value)"
  by (auto simp: kv_def printable_def intro!: terminal)

lemma terminal_join_space [terminal]: "list_all terminal_text ss \<Longrightarrow> terminal_text (join '' '' ss)"
  by (induction ss rule: induct_list012) (auto simp: printable_def intro!: terminal)

lemma terminal_host [terminal]: "terminal_text (print_host opts tx implicit h)"
  by (auto simp: print_host_def Let_def printable_def intro!: terminal)

lemma terminal_mx [terminal]: "terminal_text (print_mx opts tx mx)"
  by (auto simp: print_mx_def list_all_iff printable_def intro!: terminal)

lemma terminal_node_line [terminal]: "terminal_text (node_line opts tx n margin pre at_end)"
  by (auto simp: node_line_def node_info_def printable_def intro!: terminal)

lemma terminal_node [terminal]: "terminal_text (print_node opts tx margin pre at_end n)"
  and terminal_nodes [terminal]: "terminal_text (print_nodes opts tx margin pre ns)"
  by (induction opts tx margin pre at_end n and opts tx margin pre ns rule: print_node_print_nodes.induct)
    (auto simp: Let_def intro!: terminal)

lemma terminal_spf [terminal]: "terminal_text (print_spf opts tx a)"
  by (auto simp: print_spf_def printable_def intro!: terminal split: option.split)

lemma terminal_print_policy [terminal]: "terminal_text (print_policy opts rec)"
  by (auto simp: print_policy_def printable_def intro!: terminal)

lemma terminal_dmarc [terminal]: "terminal_text (print_dmarc opts a)"
  by (auto simp: print_dmarc_def Let_def list_all_iff printable_def intro!: terminal split: option.split)

lemma terminal_selector [terminal]: "terminal_text (print_selector opts tx s)"
  by (auto simp: print_selector_def Let_def printable_def intro!: terminal split: option.split)

lemma terminal_selectors [terminal]: "terminal_text (print_selectors opts tx a)"
  by (auto simp: print_selectors_def Let_def list_all_iff printable_def intro!: terminal)

lemma terminal_sts [terminal]: "terminal_text (print_sts opts tx sts)"
  by (auto simp: print_sts_def printable_def intro!: terminal split: option.split list.split)

lemma terminal_tlsrpt [terminal]: "terminal_text (print_tlsrpt opts a)"
  by (auto simp: print_tlsrpt_def printable_def intro!: terminal split: option.split)

lemma terminal_domain [terminal]: "terminal_text (print_domain opts tx d)"
  by (simp add: print_domain_def terminal)

lemma terminal_headers [terminal]: "terminal_text (print_headers opts m)"
  by (auto simp: print_headers_def header_line_def printable_def intro!: terminal split: option.split)

lemma terminal_verdict [terminal]: "terminal_text (spf_verdict opts mc)" "terminal_text (dkim_verdict opts vs)"
    "terminal_text (dmarc_verdict opts ev)"
  by (simp_all add: spf_verdict_def dkim_verdict_def dmarc_verdict_def Let_def terminal split: if_split)

lemma terminal_verdicts [terminal]: "terminal_text (print_verdicts opts m)"
  by (simp add: print_verdicts_def terminal printable_def)

lemma terminal_path [terminal]: "terminal_text (print_path opts tx c)"
  by (auto simp: print_path_def print_hop_def Let_def list_all_iff printable_def intro!: terminal)

lemma terminal_signatures [terminal]: "terminal_text (print_signatures opts tx vs)"
  by (auto simp: print_signatures_def print_signature_def list_all_iff printable_def intro!: terminal)

lemma terminal_input [terminal]: "terminal_text name \<Longrightarrow> terminal_text (print_input opts name inp)"
  by (auto simp: print_input_def intro!: terminal split: option.split)

lemma terminal_evaluation [terminal]: "terminal_text (print_evaluation opts tx ev)"
  by (auto simp: print_evaluation_def print_step_def evaluation_line_def Let_def list_all_iff printable_def intro!: terminal
      split: option.split)

lemma terminal_check [terminal]: "terminal_text (print_check opts tx mc)"
  by (auto simp: print_check_def Let_def printable_def intro!: terminal)

lemma terminal_auth_header [terminal]: "terminal_text (print_auth_header opts tx p)"
  by (auto simp: print_auth_header_def list_all_iff printable_def intro!: terminal split: option.split)

lemma terminal_auth_results [terminal]: "terminal_text (print_auth_results opts tx ps)"
  by (auto simp: print_auth_results_def list_all_iff intro!: terminal)

lemma terminal_mime [terminal]: "terminal_text (print_mime opts tx margin p)"
  by (induction opts tx margin p rule: print_mime.induct) (auto simp: list_all_iff printable_def intro!: terminal)

lemma terminal_structure [terminal]: "terminal_text (print_structure opts tx mime)"
  by (auto simp: print_structure_def intro!: terminal split: option.split)

lemma terminal_message [terminal]: "terminal_text (print_message opts tx m)"
  by (simp add: print_message_def terminal)

lemma terminal_details [terminal]: "terminal_text (print_details opts tx d)"
  by (cases d; simp; intro terminal)

subsection \<open>Properties\<close>

text \<open>
  Claim C8. Nothing that a message, a DNS record or a policy contains can reach the terminal as a control character: whatever
  strings the details and findings of a report hold, whatever texts the errors and notes have, the whole report is printed
  as text in which every rune is harmless, with line ends and the program's own styles as the only exceptions; the text
  is well-formed UTF-8.
\<close>

theorem terminal_output_safe: "terminal_text (write_text opts tx details rep)"
  by (simp add: write_text_def Let_def terminal)

text \<open>Text that needs no escape is printed as it is, and escaped text is not escaped again.\<close>

theorem escape_idempotent: "escape_terminal (escape_terminal s) = escape_terminal s"
proof -
  have "\<not> list_ex (\<lambda>p. needs_escape (fst p)) (runes (escape_terminal s))"
    using safe_escape [of s] by (simp add: safe_def list_all_iff list_ex_iff harmless_iff)
  then show ?thesis by (simp add: escape_terminal_def [of "escape_terminal s"])
qed

subsection \<open>Wrapping\<close>

definition fits :: "int \<Rightarrow> string list \<Rightarrow> bool" where
  "fits width g \<longleftrightarrow> g \<noteq> [] \<and> (length g = 1 \<or> int (length (join '' '' g)) \<le> width)"

lemma join_snoc: "g \<noteq> [] \<Longrightarrow> join '' '' (g @ [w]) = join '' '' g @ '' '' @ w"
  by (induction g rule: induct_list012) auto

lemma join_not_Nil: "g \<noteq> [] \<Longrightarrow> list_all (\<lambda>w. w \<noteq> []) g \<Longrightarrow> join sep g \<noteq> []"
  by (induction sep g rule: join.induct) auto

lemma wrap_words_groups:
  "list_all (\<lambda>w. w \<noteq> []) ws \<Longrightarrow> fits width g \<Longrightarrow> list_all (\<lambda>w. w \<noteq> []) g \<Longrightarrow>
    \<exists>gs. wrap_words width (join '' '' g) ws = map (join '' '') gs \<and> concat gs = g @ ws \<and> list_all (fits width) gs"
proof (induction ws arbitrary: g)
  case Nil
  then show ?case using join_not_Nil [of g] by (intro exI [of _ "[g]"]) (auto simp: fits_def)
next
  case (Cons w ws)
  have cur: "join '' '' g \<noteq> []" and g: "g \<noteq> []" using Cons.prems join_not_Nil by (auto simp: fits_def)
  show ?case
  proof (cases "width < int (length (join '' '' g)) + 1 + int (length w)")
    case True
    have "fits width [w]" by (simp add: fits_def)
    then obtain gs where "wrap_words width w ws = map (join '' '') gs" "concat gs = w # ws" "list_all (fits width) gs"
      using Cons.IH [of "[w]"] Cons.prems by auto
    then show ?thesis using True cur Cons.prems by (intro exI [of _ "g # gs"]) simp
  next
    case False
    then have "fits width (g @ [w])" using g by (simp add: fits_def join_snoc)
    then show ?thesis using False cur g Cons.prems Cons.IH [of "g @ [w]"] by (simp add: join_snoc)
  qed
qed

lemma space_fields_words: "list_all (\<lambda>w. w \<noteq> []) (space_fields s)"
proof -
  have "list_all (\<lambda>w. w \<noteq> []) (fields_func D s cur)" for D cur
    by (induction s arbitrary: cur) auto
  then show ?thesis by (simp add: space_fields_def)
qed

lemma wrap_para:
  assumes "list_all (\<lambda>w. w \<noteq> []) ws"
  shows "\<exists>gs. wrap_words width [] ws = map (join '' '') gs \<and> concat gs = ws \<and> list_all (fits width) gs"
proof (cases ws)
  case (Cons w ws')
  have "fits width [w]" by (simp add: fits_def)
  then show ?thesis using wrap_words_groups [of ws' width "[w]"] assms Cons by simp
qed (intro exI [of _ "[]"], simp)

lemma wrap_paras:
  "\<exists>gs. concat (map (\<lambda>para. wrap_words width [] (space_fields para)) ps) = map (join '' '') gs
    \<and> concat gs = concat (map space_fields ps) \<and> list_all (fits width) gs"
proof (induction ps)
  case (Cons p ps)
  obtain gs where gs: "wrap_words width [] (space_fields p) = map (join '' '') gs" "concat gs = space_fields p" "list_all (fits width) gs"
    using wrap_para [OF space_fields_words] by blast
  from Cons.IH obtain hs where "concat (map (\<lambda>para. wrap_words width [] (space_fields para)) ps) = map (join '' '') hs"
    "concat hs = concat (map space_fields ps)" "list_all (fits width) hs" by blast
  then show ?case using gs by (intro exI [of _ "gs @ hs"]) simp
qed (intro exI [of _ "[]"], simp)

text \<open>
  Wrapping loses nothing: the lines are the words of the text in their order, joined by single spaces, and every line
  that has more than one word fits the width (which is at least 20).
\<close>

theorem wrap_keeps_words:
  "\<exists>groups. wrap s width = map (join '' '') groups \<and> concat groups = concat (map space_fields (split_byte lf s))
     \<and> list_all (fits (max 20 width)) groups"
proof -
  have "(if width < 20 then 20 else width) = max 20 width" by simp
  then show ?thesis using wrap_paras [of "max 20 width" "split_byte lf s"] by (simp add: wrap_def Let_def)
qed

text \<open>
  With colors on, the line for an evaluation shows the codes of the color as text: a backslash stands where the code was.
\<close>

theorem evaluation_line_shows_codes:
  "let line = evaluation_line quote \<lparr>tx_color = True, tx_verbose = False, tx_width = 100\<rparr> ''a.org'' ''pass'' [] in
   CHR 0x1B \<notin> set line \<and> CHR 0x5C \<in> set line"
  by code_simp

end
