(* ===== verification/DnsClientProps.thy ===== *)
theory DnsClientProps
  imports DnsClient
begin

section \<open>What the DNS client guarantees\<close>

subsection \<open>Responses that are taken\<close>

text \<open>A response to the question: it carries the identifier of the query and is not about anything else.\<close>

definition responds :: "16 word \<Rightarrow> dns_question \<Rightarrow> dns_message \<Rightarrow> bool" where
  "responds qid q msg \<longleftrightarrow> dg_id msg = qid \<and> dg_response msg \<and> (dg_questions msg = [] \<or> question_ok q msg)"

text \<open>An answer that decides a lookup: complete, and to exactly the question.\<close>

definition decides :: "dns_question \<Rightarrow> dns_message \<Rightarrow> bool" where
  "decides q msg \<longleftrightarrow> dg_response msg \<and> \<not> dg_truncated msg \<and> question_ok q msg
     \<and> dg_rcode msg \<in> {RCodeSuccess, RCodeNameError}"

lemma parse_response_responds: "parse_response codec b qid q = Inr msg \<Longrightarrow> dc_unpack codec b = Some msg \<and> responds qid q msg"
  by (auto simp: parse_response_def responds_def split: option.splits if_splits)

lemma parse_response_decides:
  "parse_response codec b qid q = Inr msg \<Longrightarrow> \<not> dg_truncated msg \<Longrightarrow> dg_rcode msg \<in> {RCodeSuccess, RCodeNameError} \<Longrightarrow>
    decides q msg"
  by (auto simp: parse_response_def decides_def split: option.splits if_splits)

text \<open>What holds of every message that \<open>parse_response\<close> takes holds of what an exchange returns.\<close>

lemma read_udp_Inr: "read_udp codec qid q m e ds = Inr msg \<Longrightarrow> \<exists>b. parse_response codec b qid q = Inr msg"
  by (induction ds) (auto simp: Let_def split: if_splits sum.splits)

lemma exchange_udp_Inr: "exchange_udp codec conn qid q m = Inr msg \<Longrightarrow> \<exists>b. parse_response codec b qid q = Inr msg"
  by (auto simp: exchange_udp_def dest: read_udp_Inr split: option.splits)

lemma exchange_tcp_Inr:
  "exchange_tcp codec conn qid q m = Inr msg \<Longrightarrow> \<not> dg_truncated msg \<and> (\<exists>b. parse_response codec b qid q = Inr msg)"
  by (auto simp: exchange_tcp_def Let_def split: option.splits if_splits sum.splits)

lemma round_trip_Inr:
  "round_trip codec net c tr server qid q s = (Inr msg, s') \<Longrightarrow>
    (\<exists>b. parse_response codec b qid q = Inr msg) \<and> (tr = Tcp \<longrightarrow> \<not> dg_truncated msg)"
  by (auto simp: round_trip_def split: option.splits prod.splits transport.splits dest: exchange_udp_Inr exchange_tcp_Inr)

lemma map_sum_simps [simp]:
  "map_sum f id r = Inr msg \<longleftrightarrow> r = Inr msg" "map_sum Some id r = Inl (Some k) \<longleftrightarrow> r = Inl k"
  by (cases r; simp)+

lemma exchange_once_Inr:
  "exchange_once codec net c server q s = (Inr msg, s') \<Longrightarrow> \<not> dg_truncated msg \<and> (\<exists>qid b. parse_response codec b qid q = Inr msg)"
  by (auto simp: exchange_once_def split: option.splits prod.splits sum.splits if_splits dest!: round_trip_Inr)

text \<open>Some server of the client gave this message.\<close>

definition answered_by :: "dns_codec \<Rightarrow> 'n dns_network \<Rightarrow> client \<Rightarrow> string list \<Rightarrow> dns_question \<Rightarrow> dns_message \<Rightarrow> bool" where
  "answered_by codec net c servers q msg \<longleftrightarrow> (\<exists>server\<in>set servers. \<exists>s s'. exchange_once codec net c server q s = (Inr msg, s'))"

definition exchange_ok :: "dns_codec \<Rightarrow> 'n dns_network \<Rightarrow> client \<Rightarrow> string list \<Rightarrow> dns_question \<Rightarrow> dns_kind + dns_message \<Rightarrow> bool" where
  "exchange_ok codec net c servers q r \<longleftrightarrow> (case r of
     Inr msg \<Rightarrow> decides q msg \<and> dg_rcode msg = RCodeSuccess \<and> answered_by codec net c servers q msg
   | Inl k \<Rightarrow> if k = KindNXDomain
       then (\<exists>msg. decides q msg \<and> dg_rcode msg = RCodeNameError \<and> answered_by codec net c servers q msg) else True)"

lemma judge_Finished:
  assumes "exchange_once codec net c server q s = (r, s')" and "judge r = Finished res" and "server \<in> set servers"
  shows "exchange_ok codec net c servers q res"
proof -
  have "decides q msg \<and> answered_by codec net c servers q msg"
    if "r = Inr msg" "dg_rcode msg \<in> {RCodeSuccess, RCodeNameError}" for msg
    using exchange_once_Inr [of codec net c server q s msg s'] parse_response_decides assms that
    by (fastforce simp: answered_by_def)
  then show ?thesis using assms(2)
    by (fastforce simp: judge_def exchange_ok_def split: sum.splits rcode.splits option.splits if_splits)
qed

lemma judge_no_nx: "judge r = NextServer k \<or> judge r = TryAgain k \<Longrightarrow> r = Inl (Some k) \<or> k \<in> {KindRefused, KindTemporary}"
  by (auto simp: judge_def split: sum.splits rcode.splits option.splits if_splits)

lemma no_nx:
  "exchange_udp codec conn qid q m = Inl k \<Longrightarrow> k \<noteq> KindNXDomain"
  "exchange_tcp codec conn qid q m = Inl k \<Longrightarrow> k \<noteq> KindNXDomain"
proof -
  have net: "classify_net_err e \<noteq> KindNXDomain" for e by (cases e) (auto simp: classify_net_err_def)
  have "read_udp codec qid q m e ds = Inl k \<Longrightarrow> k \<noteq> KindNXDomain" for e ds
    by (induction ds) (auto simp: net Let_def split: if_splits sum.splits)
  then show "exchange_udp codec conn qid q m = Inl k \<Longrightarrow> k \<noteq> KindNXDomain"
    by (auto simp: exchange_udp_def net split: option.splits)
  show "exchange_tcp codec conn qid q m = Inl k \<Longrightarrow> k \<noteq> KindNXDomain"
    by (auto simp: exchange_tcp_def net Let_def split: option.splits if_splits sum.splits)
qed

lemma round_trip_no_nx: "round_trip codec net c tr server qid q s = (Inl k, s') \<Longrightarrow> k \<noteq> KindNXDomain"
  by (auto simp: round_trip_def split: option.splits prod.splits transport.splits dest: no_nx)

lemma exchange_once_no_nx: "exchange_once codec net c server q s = (Inl (Some k), s') \<Longrightarrow> k \<noteq> KindNXDomain"
  by (auto simp: exchange_once_def split: option.splits prod.splits sum.splits if_splits dest!: round_trip_no_nx)

lemma attempt_loop_result:
  assumes "attempt_loop codec net c server q n k s = (r, s')" and "k \<noteq> KindNXDomain" and "server \<in> set servers"
  shows "case r of Inl k' \<Rightarrow> k' \<noteq> KindNXDomain | Inr res \<Rightarrow> exchange_ok codec net c servers q res"
  using assms
proof (induction n arbitrary: k s)
  case (Suc n)
  show ?case
  proof (cases "dn_done net s")
    case True
    then show ?thesis using Suc.prems by (auto simp: exchange_ok_def)
  next
    case False
    obtain x s1 where x: "exchange_once codec net c server q s = (x, s1)" by fastforce
    have kind: "k' \<noteq> KindNXDomain" if "judge x = NextServer k' \<or> judge x = TryAgain k'" for k'
      using judge_no_nx [OF that] exchange_once_no_nx [of codec net c server q s k' s1] x by auto
    show ?thesis
      using Suc.prems False x judge_Finished [OF x _ Suc.prems(3)] kind Suc.IH [OF _ _ Suc.prems(3)]
      by (auto split: attempt.splits)
  qed
qed auto

lemma server_loop_result:
  "server_loop codec net c q k servers s = (r, s') \<Longrightarrow> k \<noteq> KindNXDomain \<Longrightarrow> set servers \<subseteq> set all \<Longrightarrow>
    exchange_ok codec net c all q r"
proof (induction servers arbitrary: k s)
  case Nil
  then show ?case by (auto simp: exchange_ok_def)
next
  case (Cons server servers)
  obtain x s1 where x: "attempt_loop codec net c server q (attempts_of c) k s = (x, s1)" by fastforce
  show ?case
    using Cons.prems Cons.IH attempt_loop_result [OF x Cons.prems(2), of all] x
    by (auto split: sum.splits)
qed

subsection \<open>The connections that are opened\<close>

text \<open>\<open>dialled net n s s'\<close>: from \<open>s\<close> the network gets to \<open>s'\<close> with \<open>n\<close> connections opened, and random numbers drawn.\<close>

inductive dialled :: "'n dns_network \<Rightarrow> nat \<Rightarrow> 'n \<Rightarrow> 'n \<Rightarrow> bool" for net where
  dialled_none: "dialled net 0 s s"
| dialled_random: "dialled net n (snd (dn_random net s)) s' \<Longrightarrow> dialled net n s s'"
| dialled_dial: "dialled net n (snd (dn_dial net s tr server)) s' \<Longrightarrow> dialled net (Suc n) s s'"

definition dials :: "'n dns_network \<Rightarrow> nat \<Rightarrow> 'n \<Rightarrow> 'n \<Rightarrow> bool" where
  "dials net k s s' \<longleftrightarrow> (\<exists>n\<le>k. dialled net n s s')"

lemma dialled_trans: "dialled net n s s' \<Longrightarrow> dialled net m s' s'' \<Longrightarrow> dialled net (n + m) s s''"
  by (induction rule: dialled.induct) (auto intro: dialled.intros)

lemma dials_refl [simp]: "dials net k s s"
  by (auto simp: dials_def intro: dialled_none)

lemma dials_trans: "dials net n s s' \<Longrightarrow> dials net m s' s'' \<Longrightarrow> dials net (n + m) s s''"
  by (auto simp: dials_def) (metis add_mono dialled_trans)

lemma dials_mono: "dials net n s s' \<Longrightarrow> n \<le> m \<Longrightarrow> dials net m s s'"
  unfolding dials_def using le_trans by blast

lemma dials_dial: "dn_dial net s tr server = (x, s') \<Longrightarrow> dials net 1 s s'"
  by (auto simp: dials_def intro!: exI [of _ "Suc 0"] dialled_dial [where tr = tr and server = server] dialled_none)

lemma dials_random: "dn_random net s = (x, s') \<Longrightarrow> dials net 0 s s'"
  using dialled_random [of net 0 s s'] by (auto simp: dials_def dialled_none)

lemma round_trip_dials: "round_trip codec net c tr server qid q s = (x, s') \<Longrightarrow> dials net 1 s s'"
  by (auto simp: round_trip_def split: option.splits prod.splits dest: dials_dial)

lemma exchange_once_dials:
  assumes "exchange_once codec net c server q s = (x, s')"
  shows "dials net 2 s s'"
proof (cases "dn_random net s")
  case (Pair o1 s1)
  then have r: "dials net 0 s s1" by (rule dials_random)
  show ?thesis
  proof (cases o1)
    case None
    then show ?thesis using assms Pair r by (auto simp: exchange_once_def intro: dials_mono)
  next
    case (Some qid)
    obtain y s2 where y: "round_trip codec net c Udp server qid q s1 = (y, s2)" by fastforce
    obtain z s3 where z: "round_trip codec net c Tcp server qid q s2 = (z, s3)" by fastforce
    have "dials net 1 s s2" using dials_trans [OF r round_trip_dials [OF y]] by simp
    moreover from this have "dials net 2 s s3"
      using dials_trans [of net 1 s s2 1 s3] round_trip_dials [OF z] by (simp add: numeral_2_eq_2)
    ultimately show ?thesis using assms Pair Some y z
      by (auto simp: exchange_once_def split: sum.splits if_splits intro: dials_mono)
  qed
qed

lemma attempt_loop_dials: "attempt_loop codec net c server q n k s = (x, s') \<Longrightarrow> dials net (2 * n) s s'"
proof (induction n arbitrary: k s)
  case (Suc n)
  obtain y s1 where y: "exchange_once codec net c server q s = (y, s1)" by fastforce
  have two: "dials net (2 * Suc n) s s1" using exchange_once_dials [OF y] by (auto intro: dials_mono)
  have more: "dials net (2 * Suc n) s s'" if "attempt_loop codec net c server q n k' s1 = (x, s')" for k'
    using dials_trans [OF exchange_once_dials [OF y] Suc.IH [OF that]] by simp
  show ?case using Suc.prems y two more by (auto split: if_splits attempt.splits)
qed auto

lemma server_loop_dials:
  "server_loop codec net c q k servers s = (x, s') \<Longrightarrow> dials net (2 * attempts_of c * length servers) s s'"
proof (induction servers arbitrary: k s)
  case (Cons server servers)
  obtain y s1 where y: "attempt_loop codec net c server q (attempts_of c) k s = (y, s1)" by fastforce
  have here: "dials net (2 * attempts_of c * length (server # servers)) s s1"
    using attempt_loop_dials [OF y] by (auto intro: dials_mono)
  have more: "dials net (2 * attempts_of c * length (server # servers)) s s'"
    if "server_loop codec net c q k' servers s1 = (x, s')" for k'
    using dials_trans [OF attempt_loop_dials [OF y] Cons.IH [OF that]] by (simp add: algebra_simps)
  show ?case using Cons.prems y here more by (auto split: sum.splits)
qed auto

abbreviation dials_per_lookup :: "client \<Rightarrow> nat" where
  "dials_per_lookup c \<equiv> 2 * attempts_of c * length (cl_servers c)"

lemma exchange_dials: "exchange codec net c name qtype s = (x, s') \<Longrightarrow> dials net (dials_per_lookup c) s s'"
  by (auto simp: exchange_def Let_def split: if_splits prod.splits dest: server_loop_dials)

lemma lookup_dials: "lookup_step (client_resolver codec net c) s s' \<Longrightarrow> dials net (dials_per_lookup c) s s'"
  by (erule lookup_step.cases)
    (auto simp: client_resolver_def collect_answers_def client_lookup_def client_cname_def
      split: prod.split sum.split dest: exchange_dials)

lemma calls_dials: "calls (client_resolver codec net c) n s s' \<Longrightarrow> dials net (n * dials_per_lookup c) s s'"
proof (induction rule: calls.induct)
  case (calls_more s s' n s'')
  then show ?case using dials_trans [OF lookup_dials [OF calls_more.hyps(1)] calls_more.IH] by (simp add: algebra_simps)
qed simp

subsection \<open>The chain of aliases\<close>

text \<open>The names an answer may be found under: those that \<open>k\<close> CNAME records lead to from the owner.\<close>

inductive alias_of :: "dns_resource list \<Rightarrow> string \<Rightarrow> nat \<Rightarrow> string \<Rightarrow> bool" for rrs owner where
  alias_owner: "alias_of rrs owner 0 owner"
| alias_next: "alias_of rrs owner k n \<Longrightarrow> next_name rrs n \<noteq> [] \<Longrightarrow> alias_of rrs owner (Suc k) (next_name rrs n)"

inductive_cases alias_0E: "alias_of rrs owner 0 n"
inductive_cases alias_SucE: "alias_of rrs owner (Suc k) n"

lemma alias_shift: "alias_of rrs owner (Suc k) n \<longleftrightarrow> next_name rrs owner \<noteq> [] \<and> alias_of rrs (next_name rrs owner) k n"
proof
  show "alias_of rrs owner (Suc k) n \<Longrightarrow> next_name rrs owner \<noteq> [] \<and> alias_of rrs (next_name rrs owner) k n"
  proof (induction k arbitrary: n)
    case 0
    then show ?case by (auto elim!: alias_SucE alias_0E intro: alias_owner)
  next
    case (Suc k)
    then show ?case by (auto elim!: alias_SucE [of _ _ "Suc k"] intro: alias_next)
  qed
  have "alias_of rrs t k n \<Longrightarrow> t = next_name rrs owner \<Longrightarrow> t \<noteq> [] \<Longrightarrow> alias_of rrs owner (Suc k) n" for t
    by (induction rule: alias_of.induct) (auto intro: alias_of.intros)
  then show "next_name rrs owner \<noteq> [] \<and> alias_of rrs (next_name rrs owner) k n \<Longrightarrow> alias_of rrs owner (Suc k) n" by blast
qed

lemma alias_up_to:
  assumes "next_name rrs target \<noteq> []"
  shows "(\<exists>k\<le>Suc n. alias_of rrs target k x) \<longleftrightarrow> x = target \<or> (\<exists>k\<le>n. alias_of rrs (next_name rrs target) k x)"
proof
  assume "\<exists>k\<le>Suc n. alias_of rrs target k x"
  then obtain k where k: "k \<le> Suc n" "alias_of rrs target k x" by blast
  then show "x = target \<or> (\<exists>k\<le>n. alias_of rrs (next_name rrs target) k x)"
    by (cases k) (auto simp: alias_shift elim: alias_0E)
next
  assume "x = target \<or> (\<exists>k\<le>n. alias_of rrs (next_name rrs target) k x)"
  then show "\<exists>k\<le>Suc n. alias_of rrs target k x"
  proof
    assume "x = target"
    then show ?thesis by (auto intro: alias_owner)
  next
    assume "\<exists>k\<le>n. alias_of rrs (next_name rrs target) k x"
    then obtain k where "k \<le> n" "alias_of rrs target (Suc k) x" using assms by (auto simp: alias_shift)
    then show ?thesis by (intro exI [of _ "Suc k"]) simp
  qed
qed

text \<open>A set of names that is closed under the aliases of all but one of them contains all aliases once that one leads back.\<close>

lemma alias_closed:
  assumes "alias_of rrs t k n" and "t \<in> S" and "\<And>x. x \<in> S \<Longrightarrow> next_name rrs x \<noteq> [] \<Longrightarrow> next_name rrs x \<in> S"
  shows "n \<in> S"
  using assms by (induction rule: alias_of.induct) auto

definition all_but_closed :: "dns_resource list \<Rightarrow> string list \<Rightarrow> string \<Rightarrow> bool" where
  "all_but_closed rrs chain target \<longleftrightarrow> target \<in> set chain
     \<and> (\<forall>x\<in>set chain. x \<noteq> target \<longrightarrow> next_name rrs x = [] \<or> next_name rrs x \<in> set chain)"

lemma alias_loop_aliases:
  "all_but_closed rrs chain target \<Longrightarrow>
     set (alias_loop rrs n chain target) = set chain \<union> {x. \<exists>k\<le>n. alias_of rrs target k x}"
proof (induction n arbitrary: chain target)
  case 0
  then show ?case by (auto simp: all_but_closed_def elim: alias_0E)
next
  case (Suc n)
  let ?nx = "next_name rrs target"
  show ?case
  proof (cases "?nx = [] \<or> ?nx \<in> set chain")
    case True
    have "x \<in> set chain" if "alias_of rrs target k x" for k x
      by (rule alias_closed [OF that]) (use Suc.prems True in \<open>auto simp: all_but_closed_def\<close>)
    then show ?thesis using True by (auto simp: Let_def)
  next
    case False
    then have "all_but_closed rrs (?nx # chain) ?nx"
      using Suc.prems by (auto simp: all_but_closed_def)
    moreover have "(\<exists>k\<le>Suc n. alias_of rrs target k x) \<longleftrightarrow> x = target \<or> (\<exists>k\<le>n. alias_of rrs ?nx k x)" for x
      by (rule alias_up_to) (use False in simp)
    moreover have "target \<in> set chain" using Suc.prems by (simp add: all_but_closed_def)
    ultimately show ?thesis using Suc.IH [of "?nx # chain" ?nx] False
      by (auto simp: Let_def intro: alias_owner)
  qed
qed

subsection \<open>Properties\<close>

text \<open>A datagram that is not an answer to the query, by its identifier, and not too large.\<close>

definition foreign :: "dns_codec \<Rightarrow> 16 word \<Rightarrow> nat \<Rightarrow> string \<Rightarrow> bool" where
  "foreign codec qid max_size d \<longleftrightarrow> length d \<le> min max_size 65535 \<and> (case dc_unpack codec d of
     None \<Rightarrow> length d < 2 \<or> id_of_bytes d \<noteq> qid
   | Some msg \<Rightarrow> dg_id msg \<noteq> qid \<or> \<not> dg_response msg)"

lemma foreign_mismatch: "foreign codec qid m d \<Longrightarrow> parse_response codec d qid q = Inl PlainMismatch \<and> take (min m 65535 + 1) d = d"
  by (auto simp: foreign_def parse_response_def split: option.splits)

text \<open>
  Claim C34. Forged datagrams within the size limit are without effect: a datagram that is not larger than the limit of a
  response (nor than 65535 bytes) and does not carry the identifier of the query, or is not a response, changes nothing in
  the outcome of an exchange over UDP, wherever and however often it arrives.  A datagram larger than the limit is not
  ignored, whoever sent it: when the others in front of it are of that kind, the exchange ends with the error for a
  response that is too large.
\<close>

theorem forged_datagrams_ignored:
  "exchange_udp codec conn qid q max_size =
     exchange_udp codec (conn\<lparr>cn_datagrams := filter (\<lambda>d. \<not> foreign codec qid max_size d) (cn_datagrams conn)\<rparr>) qid q max_size
   \<and> (case filter (\<lambda>d. \<not> foreign codec qid max_size d) (cn_datagrams conn) of
        [] \<Rightarrow> True
      | d # ds \<Rightarrow> if cn_write conn = None \<and> max_size < length d \<and> max_size \<le> 65535
          then exchange_udp codec conn qid q max_size = Inl KindTooLarge else True)"
proof -
  have "read_udp codec qid q max_size e ds = read_udp codec qid q max_size e (filter (\<lambda>d. \<not> foreign codec qid max_size d) ds)" for e ds
  proof (induction ds)
    case (Cons d ds)
    then show ?case using foreign_mismatch [of codec qid max_size d q]
      by (cases "foreign codec qid max_size d") (auto simp: Let_def is_mismatch_def foreign_def split: sum.split)
  qed simp
  then have eq: "exchange_udp codec conn qid q max_size =
     exchange_udp codec (conn\<lparr>cn_datagrams := filter (\<lambda>d. \<not> foreign codec qid max_size d) (cn_datagrams conn)\<rparr>) qid q max_size"
    by (simp add: exchange_udp_def split: option.split)
  show ?thesis
    using eq by (auto simp: exchange_udp_def Let_def split: list.split)
qed

text \<open>
  Claim C6. The client only believes answers: a lookup that succeeds returns a complete response of one of its servers to exactly
  the question that was asked, with the code for success, and a name is reported not to exist only when a server
  answered exactly that question with the code for a missing name; errors of the network, of a size or of the format
  never become one.
\<close>

theorem client_answers_are_genuine:
  "let q = \<lparr>qu_name = fqdn name, qu_type = qtype, qu_class = class_inet\<rparr> in
   case fst (exchange codec net c name qtype s) of
     Inr msg \<Rightarrow> decides q msg \<and> dg_rcode msg = RCodeSuccess \<and> answered_by codec net c (cl_servers c) q msg
   | Inl e \<Rightarrow> (if is_nxdomain e
       then (\<exists>msg. decides q msg \<and> dg_rcode msg = RCodeNameError \<and> answered_by codec net c (cl_servers c) q msg) else True)"
proof -
  let ?q = "\<lparr>qu_name = fqdn name, qu_type = qtype, qu_class = class_inet\<rparr>"
  have "exchange_ok codec net c (cl_servers c) ?q (fst (server_loop codec net c ?q KindTemporary (cl_servers c) s))"
    by (rule server_loop_result [of codec net c ?q KindTemporary "cl_servers c" s _ "snd (server_loop codec net c ?q KindTemporary (cl_servers c) s)"]) simp_all
  then show ?thesis
    by (auto simp: exchange_def Let_def exchange_ok_def is_nxdomain_def split: prod.splits sum.splits)
qed

text \<open>
  Claim C35. The records of an answer are those of the right type whose owner is the name asked for or one that at most eight
  CNAME records of the answer lead to from it; a chain that runs into a circle loses nothing by being cut there.
\<close>

theorem answers_follow_aliases:
  "answers_for msg owner qtype =
     filter (\<lambda>rr. rr_type rr = qtype \<and> (\<exists>k\<le>8. alias_of (dg_answers msg) owner k (to_lower (rr_name rr)))) (dg_answers msg)"
proof -
  have "all_but_closed (dg_answers msg) [owner] owner" by (simp add: all_but_closed_def)
  from alias_loop_aliases [OF this, of max_cname_chain]
  have "x \<in> set (alias_loop (dg_answers msg) max_cname_chain [owner] owner) \<longleftrightarrow> (\<exists>k\<le>8. alias_of (dg_answers msg) owner k x)" for x
    by (auto simp: max_cname_chain_def intro: alias_owner)
  then show ?thesis by (simp add: answers_for_def)
qed

end
