(* ===== verification/ScanProps.thy ===== *)
theory ScanProps
  imports ScanMessage SpfEvalSafe DmarcProps DkimProps DnsClientProps
begin

section \<open>What a scan promises\<close>

text \<open>
  Properties of the composition: the queries that the report counts, the budget of a message scan, what a DMARC pass
  rests on, where the inputs of SPF come from, and the exit code.
\<close>

subsection \<open>The queries of a scan\<close>

lemma run_limited_calls:
  "\<exists>n. int n \<le> max 0 limit \<and> calls R n s (snd (run_limited m R limit s))"
proof -
  have "budget_rel R limit (with_budget s) (snd (run m (budget_resolver R limit) (with_budget s)))"
    by (rule budget.R_run)
  then show ?thesis
    by (intro exI [of _ "nat (sent limit (snd (run m (budget_resolver R limit) (with_budget s))) - sent limit (with_budget s))"])
      (auto simp: budget_rel_def run_limited_def with_budget_def sent_def split: prod.split)
qed

text \<open>What a resolver keeps of its state is kept by whole scans.\<close>

context resolver_rel
begin

lemma R_calls: "calls r n s s' \<Longrightarrow> R s s'"
  by (induction rule: calls.induct) (auto intro: R_refl R_trans R_step)

lemma R_limited: "R s (snd (run_limited m r limit s))"
proof -
  obtain n where "calls r n s (snd (run_limited m r limit s))"
    using run_limited_calls [of limit r s m] by auto
  then show ?thesis by (rule R_calls)
qed

lemma R_runD: "run m r s = (x, s') \<Longrightarrow> R s s'"
  using R_run [of s m] by simp

lemma R_limitedD: "run_limited m r limit s = (x, s') \<Longrightarrow> R s s'"
  using R_limited [of s m limit] by simp

lemma R_mtastsD: "check_mtasts env domain mx r s = (x, s') \<Longrightarrow> R s s'"
  by (auto simp: check_mtasts_def R_refl split: if_splits prod.splits dest: R_runD)

lemma audit_keeps: "R s (snd (audit_domain env selectors domain r s))"
  unfolding audit_domain_def Let_def
  by (auto split: prod.split dest!: R_runD R_limitedD R_mtastsD) (assumption | erule R_trans)+

lemma analyze_keeps: "R s (snd (analyze_message env op lim msg rep r s))"
  unfolding analyze_message_def Let_def
  by (auto split: prod.split dest!: R_runD R_limitedD) (assumption | erule R_trans)+

end

lemma finish_scan_queries [simp]: "rp_dns_queries (finish_scan text limit b ctx r) = sent limit b"
  by (simp add: finish_scan_def finalize_def Let_def)

lemma query_limit_pos: "0 < query_limit n"
  by (simp add: query_limit_def default_query_budget_def)

lemma session_calls:
  assumes "cache_rel (budget_rel client limit) (new_session s0) c" and "0 < limit"
  shows "calls client (nat (sent limit (ch_next c))) s0 (bg_next (ch_next c)) \<and> 0 \<le> sent limit (ch_next c) \<and> sent limit (ch_next c) \<le> limit"
  using assms by (auto simp: cache_rel_def budget_rel_def new_session_def new_cache_def with_budget_def sent_def)

lemma audit_calls:
  assumes "audit_domain env selectors domain (session_resolver client (query_limit n)) (new_session s0) = (x, c)"
  shows "calls client (nat (sent (query_limit n) (ch_next c))) s0 (bg_next (ch_next c))
    \<and> 0 \<le> sent (query_limit n) (ch_next c) \<and> sent (query_limit n) (ch_next c) \<le> query_limit n"
  using session.audit_keeps [of client "query_limit n" "new_session s0" env selectors domain]
  by (intro session_calls query_limit_pos) (simp add: assms)

lemma analyze_calls:
  assumes "analyze_message env op lim msg r (session_resolver client (query_limit n)) (new_session s0) = (x, c)"
  shows "calls client (nat (sent (query_limit n) (ch_next c))) s0 (bg_next (ch_next c))
    \<and> 0 \<le> sent (query_limit n) (ch_next c) \<and> sent (query_limit n) (ch_next c) \<le> query_limit n"
  using session.analyze_keeps [of client "query_limit n" "new_session s0" env op lim msg r]
  by (intro session_calls query_limit_pos) (simp add: assms)

text \<open>
  The number of DNS queries in the report of a domain is exact: it is the number of lookups that were passed on to the
  resolver of the client, and it stays within the limit, whatever the resolver answers.
\<close>

theorem domain_report_counts_queries:
  "case scan_domain env budget text ctx selectors domain client s0 of
     ((d, r), s) \<Rightarrow> calls client (nat (rp_dns_queries r)) s0 s \<and> rp_dns_queries r \<le> query_limit budget"
  by (auto simp: scan_domain_def Let_def dest: audit_calls split: prod.split)

text \<open>
  The number of DNS queries in the report of a message is exact as well, and none is sent for an input that cannot be
  read as a message.
\<close>

theorem message_report_counts_queries:
  "case scan_message env op budget text ctx lim target headers_only input client s0 of
     ((d, r, err), s) \<Rightarrow> calls client (nat (rp_dns_queries r)) s0 s \<and> rp_dns_queries r \<le> query_limit budget
       \<and> (if err = None then True else rp_dns_queries r = 0)"
proof -
  have none: "sent (query_limit budget) (with_budget s0) = 0"
    using query_limit_pos [of budget] by (simp add: sent_def with_budget_def)
  show ?thesis
    by (auto simp: scan_message_def input_error_def none Let_def less_imp_le [OF query_limit_pos]
        dest: analyze_calls split: prod.split option.split)
qed

text \<open>
  Claim C31. The queries of a domain report are those that were really made, and they bound the traffic: on any resolver below, the
  reported number is exactly the number of lookups that the scan passed on to it, and at most the limit; with the client of the
  program as that resolver, the scan opens at most two connections for each attempt at each server for each of
  these lookups.
\<close>

theorem scan_connections_bounded:
  "(case scan_domain env budget text ctx selectors domain client s0 of
      ((d, r), s) \<Rightarrow> calls client (nat (rp_dns_queries r)) s0 s \<and> 0 \<le> rp_dns_queries r \<and> rp_dns_queries r \<le> query_limit budget)
   \<and> (case scan_domain env budget text ctx selectors domain (client_resolver codec net c) n0 of
      ((d, r), n) \<Rightarrow> calls (client_resolver codec net c) (nat (rp_dns_queries r)) n0 n
        \<and> dials net (nat (rp_dns_queries r) * dials_per_lookup c) n0 n)"
proof
  show "case scan_domain env budget text ctx selectors domain client s0 of
      ((d, r), s) \<Rightarrow> calls client (nat (rp_dns_queries r)) s0 s \<and> 0 \<le> rp_dns_queries r \<and> rp_dns_queries r \<le> query_limit budget"
    by (auto simp: scan_domain_def Let_def dest: audit_calls split: prod.split)
  show "case scan_domain env budget text ctx selectors domain (client_resolver codec net c) n0 of
      ((d, r), n) \<Rightarrow> calls (client_resolver codec net c) (nat (rp_dns_queries r)) n0 n
        \<and> dials net (nat (rp_dns_queries r) * dials_per_lookup c) n0 n"
    by (auto simp: scan_domain_def Let_def dest!: audit_calls dest: calls_dials split: prod.split)
qed

subsection \<open>The budget of a message\<close>

lemma session_step_used:
  "lookup_step (session_resolver client limit) c c' \<Longrightarrow> bg_used (ch_next c') \<le> bg_used (ch_next c) + 1"
  by (erule lookup_step.cases)
    (auto simp: session_resolver_def cache_resolver_def cached_def budget_resolver_def budget_defs
      split: option.splits sum.splits prod.splits if_splits)

lemma session_calls_used:
  "calls (session_resolver client limit) n c c' \<Longrightarrow> bg_used (ch_next c') \<le> bg_used (ch_next c) + int n"
proof (induction rule: calls.induct)
  case (calls_more s s' n s'')
  then show ?case using session_step_used [OF calls_more.hyps(1)] by simp
qed simp

lemma run_used:
  assumes "asks_at_most n m" and "run m (session_resolver client limit) c = (x, c')"
  shows "bg_used (ch_next c') \<le> bg_used (ch_next c) + int n"
  using asks_at_most_run [OF assms(1), of "session_resolver client limit" c] session_calls_used assms(2) by fastforce

lemma run_limited_used:
  assumes "run_limited m (session_resolver client limit) k c = (x, c')" and "0 \<le> k"
  shows "bg_used (ch_next c') \<le> bg_used (ch_next c) + k"
proof -
  obtain n where "int n \<le> k" and "calls (session_resolver client limit) n c c'"
    using run_limited_calls [of k "session_resolver client limit" c m] assms by auto
  then show ?thesis using session_calls_used [of client limit n c c'] by simp
qed

lemma verify_message_asks: "asks_at_most 10 (verify_message cry msg now)"
proof (rule ends_mono [OF verify_message_ends], elim conjE)
  fix n and vs :: "'a verification list"
  assume "n \<le> card (vf_key_name ` set vs)" and "length vs = min max_signatures (length (get_headers msg ''DKIM-Signature''))"
  then show "n \<le> 10"
    using card_image_le [of "set vs" vf_key_name] card_length [of vs] by (simp add: max_signatures_def)
qed

lemma evaluate_message_asks: "asks_at_most 2 (evaluate_message etld1 parse_list inp)"
  unfolding evaluate_message_def Let_def
  by (auto split: sum.split option.split intro!: ends_bindI [OF discover_ends])

text \<open>
  Claim C5. A message cannot use up the queries of its scan: the checks of a message, whatever its header fields and whatever
  the DNS answers, together draw at most 132 queries from the budget, so that the default limit of 250 is
  never reached, and the lookups of DMARC, which come last, are always sent.
\<close>

theorem message_never_exhausts_budget:
  "case analyze_message env op lim msg r (session_resolver client (query_limit 0)) (new_session s0) of
     (_, c) \<Rightarrow> bg_used (ch_next c) \<le> 132 \<and> \<not> exhausted (query_limit 0) (ch_next c)"
proof -
  have "bg_used (ch_next (new_session s0)) = 0"
    by (simp add: new_session_def new_cache_def with_budget_def)
  then show ?thesis
    by (auto simp: analyze_message_def Let_def spf_query_budget_def exhausted_def query_limit_def default_query_budget_def
        split: prod.split dest!: run_used [OF verify_message_asks] run_used [OF evaluate_message_asks] run_limited_used)
qed

subsection \<open>What a DMARC pass rests on\<close>

text \<open>
  The SPF identity: \<open>spf_identity inp rq domain\<close> says that \<open>rq\<close> asks about the client, with the HELO name if it is known, and
  either about the envelope sender, whose domain is \<open>domain\<close>, or, for a null sender, about the HELO name.
\<close>

definition after_at :: "string \<Rightarrow> string" where
  "after_at s = rev (takeWhile (\<lambda>c. c \<noteq> CHR ''@'') (rev s))"

definition helo_name :: "message_inputs \<Rightarrow> string" where
  "helo_name inp = (case in_helo inp of None \<Rightarrow> [] | Some h \<Rightarrow> trim_name (si_value h))"

definition spf_identity :: "message_inputs \<Rightarrow> request \<Rightarrow> string \<Rightarrow> bool" where
  "spf_identity inp rq domain \<longleftrightarrow>
     (case in_ip inp of None \<Rightarrow> False | Some v \<Rightarrow> parse_addr (si_value v) = Some (rq_ip rq)) \<and> rq_helo rq = helo_name inp
     \<and> (if in_null_sender inp
        then in_helo inp \<noteq> None \<and> rq_sender rq = ''postmaster@'' @ helo_name inp \<and> rq_domain rq = helo_name inp
          \<and> domain = trim_name (helo_name inp)
        else (case in_mail_from inp of None \<Rightarrow> False
          | Some from \<Rightarrow> rq_sender rq = si_value from \<and> rq_domain rq = []
              \<and> domain = trim_name (after_at (if si_value from = [] then helo_name inp else si_value from))))"

text \<open>SPF passed: at some moment of the scan, when the resolver was in a state reached from \<open>s0\<close>, the evaluation of that request passed.\<close>

definition spf_passed :: "int \<Rightarrow> 's resolver \<Rightarrow> 's \<Rightarrow> message_inputs \<Rightarrow> string \<Rightarrow> bool" where
  "spf_passed clock R s0 inp domain \<longleftrightarrow> (\<exists>rq b earlier.
     spf_identity inp rq domain \<and> replies R s0 earlier (bg_next b)
     \<and> ev_result (fst (run (check_host_request zero_limits rq clock) (budget_resolver R spf_query_budget) b)) = Some ResultPass)"

lemma spf_result_name_pass [simp]: "spf_result_name r = ''pass'' \<longleftrightarrow> r = Some ResultPass"
  by (cases r rule: spf_result_name.cases) auto

lemma dkim_result_name_pass [simp]: "dkim_result_name r = ''pass'' \<longleftrightarrow> r = DkimPass"
  by (cases r) auto

lemma after_at_append: "CHR ''@'' \<notin> set d \<Longrightarrow> after_at (l @ CHR ''@'' # d) = d"
  by (simp add: after_at_def takeWhile_append takeWhile_eq_all_conv)

lemma after_at_whole: "CHR ''@'' \<notin> set s \<Longrightarrow> after_at s = s"
proof -
  assume "CHR ''@'' \<notin> set s"
  then have "takeWhile (\<lambda>c. c \<noteq> CHR ''@'') (rev s) = rev s" by (intro takeWhile_eq_all_conv [THEN iffD2]) auto
  then show ?thesis by (simp only: after_at_def rev_rev_ident)
qed

lemma after_at_no_at: "CHR ''@'' \<notin> set (after_at s)"
  by (auto simp: after_at_def dest: set_takeWhileD)

lemma after_at_split: "snd (split_sender s) = after_at s"
proof (cases "CHR ''@'' \<in> set s")
  case True
  then obtain l d where s: "s = l @ CHR ''@'' # d" "CHR ''@'' \<notin> set d" by (blast dest: split_list_last)
  then show ?thesis by (simp add: split_sender_def after_at_append)
next
  case False
  then have none: "last_index_byte s (CHR ''@'') = None" by simp
  show ?thesis unfolding split_sender_def none using False by (simp add: after_at_whole)
qed

lemma after_at_prefix: "after_at (l @ ''@'' @ s) = after_at s"
proof (cases "CHR ''@'' \<in> set s")
  case True
  then obtain l' d where s: "s = l' @ CHR ''@'' # d" "CHR ''@'' \<notin> set d" by (blast dest: split_list_last)
  then show ?thesis using after_at_append [of d "l @ ''@'' @ l'"] after_at_append [of d l'] by simp
next
  case False
  then show ?thesis using after_at_append [of s l] by (simp add: after_at_whole)
qed

lemma sender_domain_kept: "snd (split_sender (fst (split_sender f) @ ''@'' @ snd (split_sender f))) = after_at f"
  by (simp only: after_at_split after_at_prefix) (simp add: after_at_whole after_at_no_at)

lemma effective_domain_mail_from:
  "rq_domain (effective_request (request_for ip f helo []) clock) = trim_name (after_at (if f = [] then helo else f))"
  using sender_domain_kept [of f] after_at_prefix [of "''postmaster''" helo] after_at_whole [of "[]"]
  by (auto simp: effective_request_def request_for_def Let_def after_at_split split_def)

lemma effective_domain_helo:
  "rq_domain (effective_request (request_for ip (''postmaster@'' @ helo) helo helo) clock) = trim_name helo"
proof (cases "helo = []")
  case True
  have "\<not> has_prefix ''postmaster@'' ''@''" by (simp add: has_prefix_def)
  moreover have "after_at ''postmaster@'' = []" using after_at_prefix [of "''postmaster''" "[]"] by (simp add: after_at_whole)
  ultimately show ?thesis by (simp add: True effective_request_def request_for_def Let_def after_at_split)
next
  case False
  then show ?thesis by (simp add: effective_request_def request_for_def Let_def)
qed

text \<open>The check of a message passes only if the evaluation for its identity passed.\<close>

lemma evaluation_domain_run:
  "ev_domain (fst (run (check_host_request zero_limits rq clock) R t)) = rq_domain (effective_request rq clock)"
  by (rule on_every_answer_run [OF evaluation_domain])

lemma check_identities_passed:
  assumes mc: "run (check_identities zero_limits clock ip inp mc0) R s = (mc, s')" and pass: "ck_result mc = Some ResultPass"
    and mc0: "ck_result mc0 = None" and ip: "case in_ip inp of None \<Rightarrow> False | Some v \<Rightarrow> parse_addr (si_value v) = Some ip"
  shows "\<exists>rq t n. spf_identity inp rq (ck_domain mc) \<and> calls R n s t
    \<and> ev_result (fst (run (check_host_request zero_limits rq clock) R t)) = Some ResultPass"
proof -
  let ?helo = "helo_name inp"
  define t where "t = snd (run (check_helo zero_limits clock ip (in_helo inp)) R s)"
  define hev where "hev = map_option (\<lambda>_. fst (run (check_host_request zero_limits
      (request_for ip (''postmaster@'' @ ?helo) ?helo ?helo) clock) R s)) (in_helo inp)"
  have h: "run (check_helo zero_limits clock ip (in_helo inp)) R s = ((?helo, hev), t)"
    by (cases "in_helo inp") (simp_all add: check_helo_def helo_name_def run_and_then Let_def t_def hev_def case_prod_unfold)
  have t: "\<exists>n. calls R n s t"
    using counted.R_run [of R s "check_helo zero_limits clock ip (in_helo inp)"] by (simp add: t_def)
  show ?thesis
  proof (cases "in_null_sender inp")
    case True
    then obtain ev where ev: "hev = Some ev" "mc = with_result ev (mc0\<lparr>ck_helo := hev\<rparr>)"
      using mc pass mc0 by (cases hev) (auto simp: check_identities_def run_and_then h found_def)
    then obtain hl where hl: "in_helo inp = Some hl" by (cases "in_helo inp") (auto simp: hev_def)
    let ?rq = "request_for ip (''postmaster@'' @ ?helo) ?helo ?helo"
    have "ev = fst (run (check_host_request zero_limits ?rq clock) R s)" using hl ev by (simp add: hev_def)
    moreover from this have "ck_domain mc = trim_name ?helo"
      by (simp add: ev with_result_def Let_def evaluation_domain_run effective_domain_helo [of ip ?helo clock, simplified])
    then have "spf_identity inp ?rq (ck_domain mc)"
      using True hl ip by (simp add: spf_identity_def request_for_def split: option.splits)
    moreover have "ev_result ev = Some ResultPass" using pass by (simp add: ev with_result_def Let_def)
    ultimately show ?thesis using calls_none [of R s] by metis
  next
    case False
    then obtain f where f: "in_mail_from inp = Some f"
      using mc pass mc0 by (cases "in_mail_from inp") (auto simp: check_identities_def run_and_then h found_def)
    let ?rq = "request_for ip (si_value f) ?helo []"
    let ?ev = "fst (run (check_host_request zero_limits ?rq clock) R t)"
    have m: "mc = with_result ?ev (mc0\<lparr>ck_helo := hev, ck_mail_from := Some ?ev\<rparr>)"
      using mc False f by (auto simp: check_identities_def run_and_then h split: prod.splits)
    have "ck_domain mc = trim_name (after_at (if si_value f = [] then ?helo else si_value f))"
      unfolding m by (simp only: with_result_def Let_def message_check.simps evaluation_domain_run effective_domain_mail_from)
        (simp add: with_result_def)
    then have "spf_identity inp ?rq (ck_domain mc)"
      using False f ip by (simp add: spf_identity_def request_for_def split: option.splits)
    moreover have "ev_result ?ev = Some ResultPass" using pass unfolding m by (simp add: with_result_def Let_def)
    ultimately show ?thesis using t by blast
  qed
qed

lemma check_message_passed:
  assumes mc: "run (check_message zero_limits clock inp) R s = (mc, s')" and pass: "ck_result mc = Some ResultPass"
  shows "\<exists>rq t n. spf_identity inp rq (ck_domain mc) \<and> calls R n s t
    \<and> ev_result (fst (run (check_host_request zero_limits rq clock) R t)) = Some ResultPass"
proof (cases "in_ip inp")
  case None
  then show ?thesis using assms by (auto simp: check_message_def found_def Let_def)
next
  case (Some v)
  show ?thesis
  proof (cases "parse_addr (si_value v)")
    case None
    then show ?thesis using assms Some by (auto simp: check_message_def found_def Let_def)
  next
    fix ip assume ip: "parse_addr (si_value v) = Some ip"
    have ok: "case in_ip inp of None \<Rightarrow> False | Some v \<Rightarrow> parse_addr (si_value v) = Some ip" using Some ip by simp
    obtain mc0 where mc0: "run (check_identities zero_limits clock ip inp mc0) R s = (mc, s')" "ck_result mc0 = None"
      using mc pass by (auto simp: check_message_def Some ip found_def Let_def split: if_splits)
    show ?thesis by (rule check_identities_passed [OF mc0(1) pass mc0(2) ok])
  qed
qed

lemma run_limited_passed:
  assumes "replies R s0 earlier s" and "run_limited (check_message zero_limits clock inp) R spf_query_budget s = (mc, s')"
    and "ck_result mc = Some ResultPass"
  shows "spf_passed clock R s0 inp (ck_domain mc)"
proof -
  obtain b' where run: "run (check_message zero_limits clock inp) (budget_resolver R spf_query_budget) (with_budget s) = (mc, b')"
    using assms(2) by (auto simp: run_limited_def split: prod.splits)
  obtain rq b n where b: "spf_identity inp rq (ck_domain mc)" "calls (budget_resolver R spf_query_budget) n (with_budget s) b"
      "ev_result (fst (run (check_host_request zero_limits rq clock) (budget_resolver R spf_query_budget) b)) = Some ResultPass"
    using check_message_passed [OF run assms(3)] by blast
  have "budget_rel R spf_query_budget (with_budget s) b" using b(2) by (rule budget.R_calls)
  then obtain k where "calls R k s (bg_next b)" by (auto simp: budget_rel_def with_budget_def)
  then obtain l where "replies R s l (bg_next b)" by (auto dest: calls_replies)
  then have "replies R s0 (earlier @ l) (bg_next b)" using assms(1) by (auto intro: replies_append)
  then show ?thesis using b by (auto simp: spf_passed_def)
qed

text \<open>The identifier that is aligned and passes is a signature that verifies or the identity of SPF.\<close>

lemma earned_by:
  assumes p: "pass_told etld1 parse_list (dmarc_input msg inp mc vs) l3 author rec"
    and vs: "replies R s0 l1 s1" "list_all (pass_genuine cry msg now l1) vs"
    and mc: "run_limited (check_message zero_limits clock inp) R spf_query_budget s1 = (mc, s2)"
  shows "sole_author parse_list (header_values msg ''From'') author \<and> policy_told etld1 (l1 @ l2 @ l3) author rec
    \<and> ((\<exists>sig key. genuine cry msg now (l1 @ l2 @ l3) sig key \<and> in_alignment etld1 (dm_adkim rec) (sg_domain sig) author)
     \<or> (\<exists>domain. spf_passed clock R s0 inp domain \<and> in_alignment etld1 (dm_aspf rec) domain author))"
proof -
  have "policy_told etld1 (l1 @ l2 @ l3) author rec"
    using p by (auto simp: pass_told_def intro: policy_told_mono)
  moreover have "spf_passed clock R s0 inp (ck_domain mc) \<and> in_alignment etld1 (dm_aspf rec) (ck_domain mc) author"
    if "spf_aligned_with etld1 author rec (dmarc_input msg inp mc vs) ''pass''"
    using that run_limited_passed [OF vs(1) mc] by (simp add: spf_aligned_with_def dmarc_input_def)
  moreover have "\<exists>sig key. genuine cry msg now (l1 @ l2 @ l3) sig key \<and> in_alignment etld1 (dm_adkim rec) (sg_domain sig) author"
    if dkim: "dkim_aligned_with etld1 author rec (dmarc_input msg inp mc vs) ''pass''"
  proof -
    obtain v where v: "v \<in> set vs" "vf_result v = DkimPass" "in_alignment etld1 (dm_adkim rec) (vf_domain v) author"
      using dkim by (auto simp: dkim_aligned_with_def dmarc_input_def list_ex_iff)
    then have "pass_genuine cry msg now l1 v" using vs(2) by (simp add: list_all_iff)
    then obtain sig key where "genuine cry msg now l1 sig key" "vf_domain v = sg_domain sig"
      using v(2) by (auto simp: pass_genuine_def split: option.splits)
    then show ?thesis using v(3) genuine_mono [of cry msg now l1 sig key "l1 @ l2 @ l3"] by auto
  qed
  ultimately show ?thesis using p by (auto simp: pass_told_def dmarc_input_def)
qed

text \<open>
  Claim C1. A DMARC pass is earned.  When a scan, on any resolver and any message, reports that the message passes DMARC, the
  DNS answers that it got prove it: there is a single author domain, the policy is the only DMARC record that
  the DNS told for that domain, or for its organisational domain when the domain has none, and either a DKIM-Signature field
  of this very message verifies with the key that the DNS told for its selector and domain, and its \<^verbatim>\<open>d=\<close> domain is
  aligned with the author, or the evaluation of SPF for the client and the envelope sender (the HELO name for a null
  sender) passed, and the domain of that identity is aligned.
\<close>

theorem dmarc_pass_is_earned:
  "case analyze_message env op lim msg r R s0 of ((d, _), s') \<Rightarrow>
     (case me_result (md_dmarc d) of
        MessagePass \<Rightarrow> (\<exists>log from rec. replies R s0 log s'
          \<and> sole_author (en_parse_list env) (header_values msg ''From'') from
          \<and> policy_told (en_etld1 env) log from rec
          \<and> ((\<exists>sig key. genuine (en_crypto env) msg (en_now env) log sig key
                \<and> in_alignment (en_etld1 env) (dm_adkim rec) (sg_domain sig) from)
           \<or> (\<exists>domain. spf_passed (en_clock env) R s0
                  (spf_inputs (en_parse_address env) op (build_chain (en_parse_date env) (header_values msg ''Received''))
                    (received_spfs msg) (header_values msg ''Return-Path'')) domain
                \<and> in_alignment (en_etld1 env) (dm_aspf rec) domain from)))
      | _ \<Rightarrow> True)"
proof -
  define inp where "inp = spf_inputs (en_parse_address env) op (build_chain (en_parse_date env) (header_values msg ''Received''))
    (received_spfs msg) (header_values msg ''Return-Path'')"
  obtain vs s1 where vs: "run (verify_message (en_crypto env) msg (en_now env)) R s0 = (vs, s1)" by fastforce
  obtain mc s2 where mc: "run_limited (check_message zero_limits (en_clock env) inp) R spf_query_budget s1 = (mc, s2)" by fastforce
  let ?in = "dmarc_input msg inp mc vs"
  obtain ev s3 where ev: "run (evaluate_message (en_etld1 env) (en_parse_list env) ?in) R s2 = (ev, s3)" by fastforce
  obtain l1 where l1: "replies R s0 l1 s1" "list_all (pass_genuine (en_crypto env) msg (en_now env) l1) vs"
    using told_run [OF verify_message_told, of R s0 "en_crypto env" msg "en_now env" "[]"] by (auto simp: vs)
  obtain l2 where l2: "replies R s1 l2 s2"
    using run_limited_calls [of spf_query_budget R s1 "check_message zero_limits (en_clock env) inp"]
    by (auto simp: mc dest: calls_replies)
  obtain l3 where l3: "replies R s2 l3 s3"
      "if me_result ev = MessagePass then \<exists>from rec. pass_told (en_etld1 env) (en_parse_list env) ?in l3 from rec else True"
    using told_run [OF evaluate_message_told, of R s2 "en_etld1 env" "en_parse_list env" ?in "[]"]
    unfolding ev fst_conv snd_conv append_Nil by blast
  have log: "replies R s0 (l1 @ l2 @ l3) s3" using l1(1) l2 l3(1) by (intro replies_append)
  have scan: "analyze_message env op lim msg r R s0 = ((d, r'), s') \<Longrightarrow> s' = s3 \<and> md_dmarc d = ev" for d r' s'
    by (auto simp: analyze_message_def Let_def inp_def [symmetric] vs mc ev)
  have "\<exists>log from rec. replies R s0 log s3 \<and> sole_author (en_parse_list env) (header_values msg ''From'') from
      \<and> policy_told (en_etld1 env) log from rec
      \<and> ((\<exists>sig key. genuine (en_crypto env) msg (en_now env) log sig key
            \<and> in_alignment (en_etld1 env) (dm_adkim rec) (sg_domain sig) from)
       \<or> (\<exists>domain. spf_passed (en_clock env) R s0 inp domain \<and> in_alignment (en_etld1 env) (dm_aspf rec) domain from))"
    if "me_result ev = MessagePass"
    using that l3(2) earned_by [OF _ l1 mc] log by (simp del: append_assoc) blast
  then show ?thesis
    unfolding inp_def [symmetric] by (auto split: prod.split message_result.split dest!: scan)
qed

subsection \<open>Where the inputs of SPF come from\<close>

text \<open>
  The reference.  A plausible HELO name is a domain of at most 253 bytes; a plausible sender is an address of at
  most 254 bytes with a local part of 1 to 64 printable bytes.  A Received-SPF field is about a client when its
  \<^verbatim>\<open>client-ip\<close> is that address.
\<close>

definition plausible_helo :: "string \<Rightarrow> bool" where
  "plausible_helo h \<longleftrightarrow> h \<noteq> [] \<and> length h \<le> 253 \<and> valid_domain h"

definition plausible_sender :: "string \<Rightarrow> bool" where
  "plausible_sender a \<longleftrightarrow> (\<exists>local domain. a = local @ ''@'' @ domain \<and> CHR ''@'' \<notin> set domain
     \<and> 1 \<le> length local \<and> length local \<le> 64 \<and> length a \<le> 254
     \<and> (\<forall>c\<in>set local. 0x20 < byte c \<and> byte c < 0x7F) \<and> valid_domain domain)"

definition about_client :: "string \<Rightarrow> received_spf \<Rightarrow> bool" where
  "about_client client rs \<longleftrightarrow> (\<exists>v ip. rs_params rs ''client-ip'' = Some v \<and> parse_addr v = Some ip \<and> addr_string (unmap ip) = client)"

text \<open>The first Received-SPF field about the client, and the HELO names on offer, best first.\<close>

definition first_about :: "spf_input option \<Rightarrow> received_spf list \<Rightarrow> received_spf list" where
  "first_about client rss = (case client of None \<Rightarrow> [] | Some c \<Rightarrow> take 1 (filter (about_client (si_value c)) rss))"

definition helo_offers :: "spf_input option \<Rightarrow> smtp_source option \<Rightarrow> received_spf list \<Rightarrow> spf_input list" where
  "helo_offers client src rss =
     map (\<lambda>rs. inferred_input SourceReceivedSPF (spf_param_of rs ''helo'')) (first_about client rss)
     @ (case (client, src) of
          (Some c, Some s) \<Rightarrow> if sc_ip s = si_value c then [inferred_input SourceReceived (sc_helo s)] else []
        | _ \<Rightarrow> [])"

definition expected_client :: "operator_values \<Rightarrow> smtp_source option \<Rightarrow> spf_input option" where
  "expected_client op src = (if op_source_ip op \<noteq> [] then Some (flag_input (op_source_ip op))
     else map_option (\<lambda>s. inferred_input SourceReceived (sc_ip s)) src)"

definition expected_helo :: "operator_values \<Rightarrow> smtp_source option \<Rightarrow> received_spf list \<Rightarrow> spf_input option" where
  "expected_helo op src rss = (if op_helo op \<noteq> [] then Some (flag_input (op_helo op))
     else find (\<lambda>v. plausible_helo (si_value v)) (helo_offers (expected_client op src) src rss))"

text \<open>Whether the sender is null, and the sender otherwise.\<close>

definition expected_sender :: "(string \<Rightarrow> string option) \<Rightarrow> operator_values \<Rightarrow> smtp_source option \<Rightarrow> received_spf list
    \<Rightarrow> string list \<Rightarrow> bool \<times> spf_input option" where
  "expected_sender parse_address op src rss return_paths = (
     let offers = map (\<lambda>rs. inferred_input SourceReceivedSPF (trim_set (spf_param_of rs ''envelope-from'') ''<>''))
                    (first_about (expected_client op src) rss)
     in if op_mail_from op = ''<>'' then (True, None)
        else if op_mail_from op \<noteq> [] then (False, Some (flag_input (trim_set (op_mail_from op) ''<>'')))
        else case find (\<lambda>v. plausible_sender (si_value v)) offers of
          Some v \<Rightarrow> (False, Some v)
        | None \<Rightarrow> (case map (parse_return_path parse_address) (take 1 return_paths) of
            [Inl NullReversePath] \<Rightarrow> (True, None)
          | [Inr addr] \<Rightarrow> (False, if plausible_sender addr then Some (inferred_input SourceReturnPath addr) else None)
          | _ \<Rightarrow> (False, None)))"

lemma plausible_helo_valid: "valid_helo h = plausible_helo h"
  by (simp add: valid_helo_def plausible_helo_def)

lemma valid_mail_from_parts:
  assumes "CHR ''@'' \<notin> set d"
  shows "valid_mail_from (l @ ''@'' @ d) \<longleftrightarrow> 1 \<le> length l \<and> length l \<le> 64 \<and> length (l @ ''@'' @ d) \<le> 254
    \<and> (\<forall>c\<in>set l. 0x20 < byte c \<and> byte c < 0x7F) \<and> valid_domain d"
  using assms by (auto simp: valid_mail_from_def list_all_iff Suc_le_eq)

lemma plausible_sender_valid: "valid_mail_from a \<longleftrightarrow> plausible_sender a"
proof
  assume v: "valid_mail_from a"
  have "CHR ''@'' \<in> set a"
  proof (rule ccontr)
    assume "CHR ''@'' \<notin> set a"
    then have none: "last_index_byte a (CHR ''@'') = None" by simp
    show False using v unfolding valid_mail_from_def none by simp
  qed
  then obtain l d where a: "a = l @ ''@'' @ d" "CHR ''@'' \<notin> set d" by (auto dest: split_list_last)
  show "plausible_sender a"
    using v valid_mail_from_parts [OF a(2), of l] a unfolding plausible_sender_def by blast
next
  assume "plausible_sender a"
  then show "valid_mail_from a"
    unfolding plausible_sender_def using valid_mail_from_parts by blast
qed

lemma describes_about: "describes_client client rs \<longleftrightarrow> about_client client rs"
proof -
  have none: "parse_addr [] = None" by (simp add: parse_addr_def index_any_def index_pred_None_iff)
  show ?thesis by (auto simp: describes_client_def about_client_def spf_param_of_def none split: option.splits)
qed

lemma find_first: "find P xs = (case take 1 (filter P xs) of [] \<Rightarrow> None | x # _ \<Rightarrow> Some x)"
  by (induction xs) auto

lemma find_about: "find (describes_client c) rss = (case take 1 (filter (about_client c) rss) of [] \<Rightarrow> None | rs # _ \<Rightarrow> Some rs)"
  by (simp add: find_first describes_about [abs_def])

lemma take_one_cases: obtains "take (Suc 0) xs = []" | x where "take (Suc 0) xs = [x]"
  by (cases xs) auto

text \<open>What each step fills in.\<close>

lemma received_spf_fills:
  "in_helo (from_received_spf rss inp) = (case in_helo inp of Some h \<Rightarrow> Some h
     | None \<Rightarrow> find (\<lambda>v. plausible_helo (si_value v))
         (map (\<lambda>rs. inferred_input SourceReceivedSPF (spf_param_of rs ''helo'')) (first_about (in_ip inp) rss)))"
  "in_mail_from (from_received_spf rss inp) = (if in_mail_from inp = None \<and> \<not> in_null_sender inp
     then find (\<lambda>v. plausible_sender (si_value v))
         (map (\<lambda>rs. inferred_input SourceReceivedSPF (trim_set (spf_param_of rs ''envelope-from'') ''<>'')) (first_about (in_ip inp) rss))
     else in_mail_from inp)"
  "in_ip (from_received_spf rss inp) = in_ip inp" "in_null_sender (from_received_spf rss inp) = in_null_sender inp"
proof -
  let ?helo = "\<lambda>rs. inferred_input SourceReceivedSPF (spf_param_of rs ''helo'')"
  let ?from = "\<lambda>rs. inferred_input SourceReceivedSPF (trim_set (spf_param_of rs ''envelope-from'') ''<>'')"
  have all: "in_helo (from_received_spf rss inp) = (case in_helo inp of Some h \<Rightarrow> Some h
       | None \<Rightarrow> find (\<lambda>v. plausible_helo (si_value v)) (map ?helo (first_about (in_ip inp) rss)))
     \<and> in_mail_from (from_received_spf rss inp) = (if in_mail_from inp = None \<and> \<not> in_null_sender inp
       then find (\<lambda>v. plausible_sender (si_value v)) (map ?from (first_about (in_ip inp) rss)) else in_mail_from inp)
     \<and> in_ip (from_received_spf rss inp) = in_ip inp \<and> in_null_sender (from_received_spf rss inp) = in_null_sender inp"
  proof (cases "first_about (in_ip inp) rss")
    case Nil
    then have "from_received_spf rss inp = inp"
      by (auto simp: from_received_spf_def first_about_def find_about split: option.splits)
    then show ?thesis by (simp add: Nil split: option.split)
  next
    case (Cons rs rest)
    then obtain c where c: "in_ip inp = Some c" "take 1 (filter (about_client (si_value c)) rss) = rs # rest"
      by (auto simp: first_about_def split: option.splits)
    then have one: "find (describes_client (si_value c)) rss = Some rs" "rest = []"
      by (auto simp: find_about) (metis length_Cons length_take min.cobounded2 One_nat_def Suc_le_mono le_zero_eq length_0_conv)
    obtain h f where h: "h = spf_param_of rs ''helo''" and f: "f = trim_set (spf_param_of rs ''envelope-from'') ''<>''" by simp
    show ?thesis unfolding from_received_spf_def Cons c(1) option.case one Let_def h [symmetric] f [symmetric]
      by (cases "in_helo inp"; cases "in_mail_from inp"; cases "in_null_sender inp")
        (simp_all add: plausible_helo_valid plausible_sender_valid inferred_input_def h [symmetric] f [symmetric] c(1)
          Cons [unfolded c(1) one(2)])
  qed
  then show "in_helo (from_received_spf rss inp) = (case in_helo inp of Some h \<Rightarrow> Some h
     | None \<Rightarrow> find (\<lambda>v. plausible_helo (si_value v)) (map ?helo (first_about (in_ip inp) rss)))"
    "in_mail_from (from_received_spf rss inp) = (if in_mail_from inp = None \<and> \<not> in_null_sender inp
     then find (\<lambda>v. plausible_sender (si_value v)) (map ?from (first_about (in_ip inp) rss)) else in_mail_from inp)"
    "in_ip (from_received_spf rss inp) = in_ip inp" "in_null_sender (from_received_spf rss inp) = in_null_sender inp"
    by blast+
qed

lemma source_fills:
  "in_helo (from_source src inp) = (case in_helo inp of Some h \<Rightarrow> Some h
     | None \<Rightarrow> find (\<lambda>v. plausible_helo (si_value v)) (case (in_ip inp, src) of
          (Some c, Some s) \<Rightarrow> if sc_ip s = si_value c then [inferred_input SourceReceived (sc_helo s)] else []
        | _ \<Rightarrow> []))"
  "in_null_sender (from_source src inp) = in_null_sender inp" "in_mail_from (from_source src inp) = in_mail_from inp"
  "in_ip (from_source src inp) = in_ip inp"
  by (simp_all add: from_source_def plausible_helo_valid inferred_input_def split: option.split)

lemma return_path_fills:
  "in_helo (from_return_path pa paths inp) = in_helo inp" "in_ip (from_return_path pa paths inp) = in_ip inp"
  "(in_null_sender (from_return_path pa paths inp), in_mail_from (from_return_path pa paths inp)) =
    (if in_mail_from inp = None \<and> \<not> in_null_sender inp then
      (case map (parse_return_path pa) (take 1 paths) of
         [Inl NullReversePath] \<Rightarrow> (True, None)
       | [Inr addr] \<Rightarrow> (False, if plausible_sender addr then Some (inferred_input SourceReturnPath addr) else None)
       | _ \<Rightarrow> (False, None))
     else (in_null_sender inp, in_mail_from inp))"
  by (auto simp: from_return_path_def plausible_sender_valid split: list.split sum.split return_path_error.split)

lemma operator_fields:
  "in_helo (operator_inputs op) = (if op_helo op \<noteq> [] then Some (flag_input (op_helo op)) else None)"
  "in_mail_from (operator_inputs op) = (if op_mail_from op \<noteq> [] \<and> op_mail_from op \<noteq> ''<>''
     then Some (flag_input (trim_set (op_mail_from op) ''<>'')) else None)"
  "in_null_sender (operator_inputs op) \<longleftrightarrow> op_mail_from op = ''<>''"
  "in_ip (operator_inputs op) = (if op_source_ip op \<noteq> [] then Some (flag_input (op_source_ip op)) else None)"
  by (simp_all add: operator_inputs_def)

lemma client_filled: "(case (in_ip (operator_inputs op), src) of
     (None, Some s) \<Rightarrow> (operator_inputs op)\<lparr>in_ip := Some (inferred_input SourceReceived (sc_ip s))\<rparr>
   | _ \<Rightarrow> operator_inputs op) = (operator_inputs op)\<lparr>in_ip := expected_client op src\<rparr>"
  by (cases src; cases "op_source_ip op = []") (simp_all add: operator_inputs_def expected_client_def)

lemma find_append: "find P (xs @ ys) = (case find P xs of None \<Rightarrow> find P ys | Some x \<Rightarrow> Some x)"
  by (induction xs) auto

lemma helo_filled:
  "in_helo (from_source src (from_received_spf rss ((operator_inputs op)\<lparr>in_ip := expected_client op src\<rparr>))) = expected_helo op src rss"
  by (simp add: source_fills received_spf_fills operator_fields expected_helo_def helo_offers_def find_append split: option.split)

lemma sender_filled:
  fixes op src rss src'
  defines "inp \<equiv> from_source src' (from_received_spf rss ((operator_inputs op)\<lparr>in_ip := expected_client op src\<rparr>))"
  shows "(in_null_sender (from_return_path pa paths inp), in_mail_from (from_return_path pa paths inp))
    = expected_sender pa op src rss paths"
  unfolding return_path_fills(3) inp_def source_fills received_spf_fills
  by (simp add: operator_fields expected_sender_def Let_def split: option.split)

text \<open>
  Claim C9. The address that SPF is evaluated for is the one the operator gave or else the client of the most recent public hop of the
  Received fields, and never one that a Received-SPF field claims.  A HELO name of the operator wins; otherwise it is the
  first plausible one of that in the first Received-SPF field about this client and that in the Received field of the
  inferred client, the latter only if it is the client that is evaluated.  A sender of the operator wins, and a null
  one stays null; otherwise the sender is the plausible one in the first Received-SPF field about this client, or else
  what the first Return-Path field says, whoever wrote it: null, or an address if it is plausible.
\<close>

theorem spf_inputs_provenance:
  "let inp = spf_inputs parse_address op path rss return_paths; src = infer_source path in
     in_ip inp = (if op_source_ip op \<noteq> [] then Some (flag_input (op_source_ip op))
        else map_option (\<lambda>s. inferred_input SourceReceived (sc_ip s)) src)
     \<and> in_helo inp = expected_helo op src rss
     \<and> (in_null_sender inp, in_mail_from inp) = expected_sender parse_address op src rss return_paths"
proof -
  have steps: "spf_inputs parse_address op path rss return_paths = from_return_path parse_address return_paths
      (from_source (infer_source path) (from_received_spf rss ((operator_inputs op)\<lparr>in_ip := expected_client op (infer_source path)\<rparr>)))"
    by (simp only: spf_inputs_def Let_def client_filled)
  show ?thesis
    unfolding Let_def steps sender_filled return_path_fills(1,2) helo_filled
    by (simp add: source_fills received_spf_fills expected_client_def)
qed

subsection \<open>Failed lookups\<close>

text \<open>The components of the errors of the DNS in a report, in order.\<close>

definition dns_failures :: "report \<Rightarrow> string list" where
  "dns_failures r = map er_component (filter (\<lambda>e. er_kind e = ErrorDNS) (rp_errors r))"

lemma dns_failures_simps [simp]:
  "dns_failures (new_report kind target) = []"
  "dns_failures (add_observed w obs r) = dns_failures r"
  "dns_failures (add_error k part r) = dns_failures r @ (if k = ErrorDNS then [part] else [])"
  by (simp_all add: dns_failures_def new_report_def add_observed_def add_error_def)

lemma dns_failures_finish [simp]:
  "dns_failures (finish_scan text limit b ctx r) = dns_failures r @ (case ctx of ContextLive \<Rightarrow> [] | _ \<Rightarrow> [''scan''])"
  by (cases ctx) (simp_all add: dns_failures_def finish_scan_def finalize_def summarize_refused_def add_error_def Let_def)

text \<open>
  The errors that stand for a failure of the DNS: all but those of a lookup for a name that does not exist or that cannot be
  asked for, or that the budget of the scan refused.
\<close>

definition lookup_failed :: "dns_error option \<Rightarrow> bool" where
  "lookup_failed err \<longleftrightarrow> (case err of None \<Rightarrow> False
     | Some e \<Rightarrow> kind_of e \<notin> {Some KindNXDomain, Some KindInvalidName, Some KindBudget})"

lemma dns_failures_error [simp]:
  "dns_failures (dns_error_in part err r) = dns_failures r @ (if lookup_failed err then [part] else [])"
  by (auto simp: dns_error_in_def lookup_failed_def is_infrastructure_def split: option.split dns_kind.split)

text \<open>What the six checks of an audit return as their errors, in the order of the checks.\<close>

definition audit_errors :: "'k environment \<Rightarrow> string list \<Rightarrow> string \<Rightarrow> 's resolver \<Rightarrow> 's \<Rightarrow> (string \<times> dns_error option) list" where
  "audit_errors env selectors domain0 R s0 = (
     let domain = trim_name domain0;
         (mx, s1) = run (assess_mx domain) R s0;
         (spf, s2) = run_limited (analyze_spf zero_limits domain) R spf_query_budget s1;
         (dmarc, s3) = run (assess_dmarc (en_etld1 env) domain) R s2;
         providers = detect (map hx_name (mr_hosts (fst mx))) (spf_targets (fst spf) domain);
         (dkim, s4) = run (assess_dkim (en_crypto env) domain selectors providers) R s3;
         (sts, s5) = check_mtasts env domain (fst mx) R s4;
         (tls, s6) = run (assess_tlsrpt (en_uri env) domain (uses_sts sts)) R s5
     in [(''mx'', snd mx), (''spf'', snd spf), (''dmarc'', snd dmarc), (''dkim'', snd dkim),
         (''mta-sts'', case sts of None \<Rightarrow> None | Some (a, e) \<Rightarrow> e), (''tls-rpt'', snd tls)])"

lemma dns_failures_sts [simp]: "dns_failures (add_mtasts env sts r) = dns_failures r
    @ (if lookup_failed (case sts of None \<Rightarrow> None | Some (a, e) \<Rightarrow> e) then [''mta-sts''] else [])"
  by (auto simp: add_mtasts_def lookup_failed_def split: option.split prod.split)

lemma audit_failures:
  "dns_failures (snd (fst (audit_domain env selectors domain R s)))
     = map fst (filter (\<lambda>(_, err). lookup_failed err) (audit_errors env selectors domain R s))"
  by (simp add: audit_domain_def audit_errors_def collect_domain_def Let_def split: prod.split)

text \<open>
  Claim C32. The DNS errors that the report of a domain lists, on which the exit code depends, are exactly these, in order: the name of each of the
  six checks (MX, SPF, DMARC, DKIM, MTA-STS, TLS-RPT) that returned an error of a kind other than a name that does not
  exist, a name that cannot be asked for and a lookup that the budget refused, and \<^verbatim>\<open>scan\<close> at the end if the deadline passed
  or the scan was interrupted.  An error that has no kind counts as well: so does, other than \<^verbatim>\<open>dnsError\<close> intends, a refusal
  by the budget that the SPF analysis wraps in an error of its own, and a policy host without addresses.
\<close>

theorem domain_reports_failed_lookups:
  "case scan_domain env budget text ctx selectors domain client s0 of ((d, r), s) \<Rightarrow>
     map er_component (filter (\<lambda>e. er_kind e = ErrorDNS) (rp_errors r)) =
       map fst (filter (\<lambda>(_, err). case err of None \<Rightarrow> False
           | Some e \<Rightarrow> kind_of e \<notin> {Some KindNXDomain, Some KindInvalidName, Some KindBudget})
         (audit_errors env selectors domain (session_resolver client (query_limit budget)) (new_session s0)))
       @ (case ctx of ContextLive \<Rightarrow> [] | _ \<Rightarrow> [''scan''])"
proof -
  obtain d r s where run: "audit_domain env selectors domain (session_resolver client (query_limit budget)) (new_session s0) = ((d, r), s)"
    by (metis prod.collapse)
  show ?thesis
    using audit_failures [of env selectors domain "session_resolver client (query_limit budget)" "new_session s0"]
    by (simp add: scan_domain_def run Let_def dns_failures_def [symmetric] lookup_failed_def [abs_def, symmetric])
qed

end
