(* ===== verification/Cli.thy ===== *)
theory Cli
  imports ScanMessage TextDetails DnsConfig NetUtil
begin

section \<open>The command line (internal/cli)\<close>

text \<open>
  The commands from their arguments to what they print and the exit code.  \<^verbatim>\<open>cobra\<close> has parsed the flags; a command is
  given its positional arguments and the values of its flags, and what \<^verbatim>\<open>cobra\<close> refuses is a failure of its own.  What the
  system provides is a record: the content of \<^verbatim>\<open>resolv.conf\<close>, the standard input, the files, the environment, whether
  the output can be written, and the texts of errors.  The scan is a parameter that is given the settings chosen here.
\<close>

subsection \<open>Exit codes (exitcode.go)\<close>

definition exit_ok :: int where "exit_ok = 0"
definition exit_findings :: int where "exit_findings = 1"
definition exit_usage :: int where "exit_usage = 2"
definition exit_input :: int where "exit_input = 3"
definition exit_network :: int where "exit_network = 4"
definition exit_internal :: int where "exit_internal = 5"

text \<open>
  The errors that a command returns, each with the values it mentions.  \<open>SilentExit\<close> is an \<^verbatim>\<open>exitError\<close> without an error in
  it; \<open>CobraError\<close> is one that is not an \<^verbatim>\<open>exitError\<close>, and \<open>FlagError\<close> one that \<^verbatim>\<open>SetFlagErrorFunc\<close> wraps.
\<close>

datatype failure = CobraError string | FlagError string | WrongArguments "string list"
  | QuietAndVerbose | TimeoutNotPositive int | UnknownFailOn string
  | NotADomainName string | BadSelector string | BadSourceIP string | BadHelo string | BadMailFrom string | BadResolver string
  | CannotOpenMessage string | InputIsDirectory string | UnusableInput
  | WriteFailed | ScanFailed | ResultsIncomplete | SilentExit int

fun failure_code :: "failure \<Rightarrow> int" where
  "failure_code (SilentExit code) = code"
| "failure_code WriteFailed = exit_internal"
| "failure_code ScanFailed = exit_internal"
| "failure_code ResultsIncomplete = exit_network"
| "failure_code (CannotOpenMessage target) = exit_input"
| "failure_code (InputIsDirectory target) = exit_input"
| "failure_code UnusableInput = exit_input"
| "failure_code _ = exit_usage"

definition exit_code :: "failure option \<Rightarrow> int" where
  "exit_code err = (case err of None \<Rightarrow> exit_ok | Some f \<Rightarrow> failure_code f)"

definition is_silent :: "failure \<Rightarrow> bool" where
  "is_silent f \<longleftrightarrow> (case f of SilentExit code \<Rightarrow> True | _ \<Rightarrow> False)"

subsection \<open>The process\<close>

text \<open>
  What the reads of a file or of the standard input yield, in their order; \<open>ContextDone\<close> is the end of the scan's context,
  which makes reads of the standard input fail (\<^verbatim>\<open>contextReader\<close>) and does not touch those of a file.
\<close>

datatype read_event = ReadBytes string | ReadEnd | ReadFails | ContextDone

datatype file_answer = OpenFails | OpenDirectory | OpenFile "read_event list"

record cli_options =
  co_json :: bool
  co_quiet :: bool
  co_verbose :: bool
  co_no_color :: bool
  co_fail_on :: string
  co_timeout :: int
  co_resolver :: string

record 'k process =
  pr_conf :: "string option"
  pr_stdin :: "read_event list"
  pr_open :: "string \<Rightarrow> file_answer"
  pr_getenv :: "string \<Rightarrow> string"
  pr_windows :: bool
  pr_char_device :: bool
  pr_write_ok :: bool
  pr_json :: "'k details \<Rightarrow> report \<Rightarrow> string"
  pr_texts :: "'k texts"
  pr_failure :: "failure \<Rightarrow> string"

text \<open>\<^verbatim>\<open>io.ReadAll\<close> of the first \<open>n\<close> bytes; \<open>None\<close> when a read fails before that.\<close>

fun read_all :: "bool \<Rightarrow> nat \<Rightarrow> read_event list \<Rightarrow> string option" where
  "read_all stdin n [] = Some []"
| "read_all stdin n (e # es) = (if n = 0 then Some [] else (case e of
     ReadBytes s \<Rightarrow> map_option ((@) (take n s)) (read_all stdin (n - length s) es)
   | ReadEnd \<Rightarrow> Some []
   | ReadFails \<Rightarrow> None
   | ContextDone \<Rightarrow> if stdin then None else read_all stdin n es))"

definition read_size :: nat where
  "read_size = nat (max_message_bytes default_mail_limits + 1)"

subsection \<open>Options (root.go)\<close>

definition fail_on_values :: "string list" where
  "fail_on_values = [''none'', ''info'', ''low'', ''medium'', ''high'', ''critical'']"

definition validate_options :: "cli_options \<Rightarrow> failure + cli_options" where
  "validate_options opts = (
     if co_quiet opts \<and> co_verbose opts then Inl QuietAndVerbose
     else if co_timeout opts \<le> 0 then Inl (TimeoutNotPositive (co_timeout opts))
     else case find (equal_fold (co_fail_on opts)) fail_on_values of
       None \<Rightarrow> Inl (UnknownFailOn (co_fail_on opts))
     | Some v \<Rightarrow> Inr (opts\<lparr>co_fail_on := v\<rparr>))"

subsection \<open>The settings of a scan\<close>

definition default_query_timeout :: int where "default_query_timeout = 5 * 1000000000"

record scan_settings =
  ss_resolver :: resolver_choice
  ss_query_timeout :: int
  ss_http_timeout :: int
  ss_deadline :: int

definition analyzer_options :: "'k process \<Rightarrow> cli_options \<Rightarrow> failure + scan_settings" where
  "analyzer_options pr opts = (case new_dns_resolver (co_resolver opts) (pr_conf pr) of
     None \<Rightarrow> Inl (BadResolver (co_resolver opts))
   | Some choice \<Rightarrow> Inr \<lparr>ss_resolver = choice, ss_query_timeout = min default_query_timeout (co_timeout opts),
       ss_http_timeout = min (10 * 1000000000) (co_timeout opts), ss_deadline = co_timeout opts\<rparr>)"

subsection \<open>The end of a command\<close>

definition use_color :: "'k process \<Rightarrow> cli_options \<Rightarrow> bool" where
  "use_color pr opts \<longleftrightarrow> (
     if co_no_color opts \<or> pr_getenv pr ''NO_COLOR'' \<noteq> [] \<or> pr_getenv pr ''TERM'' = ''dumb'' \<or> pr_windows pr then False
     else pr_char_device pr)"

record outcome =
  oc_stdout :: string
  oc_stderr :: string
  oc_failure :: "failure option"

definition command_fails :: "failure \<Rightarrow> outcome" where
  "command_fails f = \<lparr>oc_stdout = [], oc_stderr = [], oc_failure = Some f\<rparr>"

definition threshold_of :: "string \<Rightarrow> severity" where
  "threshold_of s = (case parse_severity s of None \<Rightarrow> SeverityZero | Some v \<Rightarrow> v)"

text \<open>Whether a report is written, and what it is; a writer that fails may have printed a part of it.\<close>

definition writes_report :: "cli_options \<Rightarrow> scan_error option \<Rightarrow> bool" where
  "writes_report opts err \<longleftrightarrow> \<not> co_quiet opts \<and> (co_json opts \<or> err = None)"

definition report_output :: "'k process \<Rightarrow> cli_options \<Rightarrow> 'k details \<Rightarrow> report \<Rightarrow> scan_error option \<Rightarrow> string" where
  "report_output pr opts d rep err = (
     if \<not> writes_report opts err then []
     else if co_json opts then pr_json pr d rep
     else write_text \<lparr>tx_color = use_color pr opts, tx_verbose = co_verbose opts, tx_width = 0\<rparr> (pr_texts pr) d rep)"

definition reached :: "cli_options \<Rightarrow> report \<Rightarrow> finding list" where
  "reached opts rep = (if co_fail_on opts = ''none'' then [] else at_least (rp_findings rep) (threshold_of (co_fail_on opts)))"

definition finish_failure :: "'k process \<Rightarrow> cli_options \<Rightarrow> report \<Rightarrow> scan_error option \<Rightarrow> failure option" where
  "finish_failure pr opts rep err = (
     if writes_report opts err \<and> \<not> pr_write_ok pr then Some WriteFailed
     else case err of
       Some InputFailure \<Rightarrow> Some UnusableInput
     | Some OtherFailure \<Rightarrow> Some ScanFailed
     | None \<Rightarrow>
         if has_error_kind rep ErrorDNS then Some (if co_json opts \<or> co_quiet opts then ResultsIncomplete else SilentExit exit_network)
         else if reached opts rep \<noteq> [] then Some (SilentExit exit_findings)
         else None)"

definition threshold_notice :: "cli_options \<Rightarrow> report \<Rightarrow> string" where
  "threshold_notice opts rep = ''mailauthprobe: '' @ show_nat (length (reached opts rep)) @ '' finding(s) at or above ''
     @ severity_string (threshold_of (co_fail_on opts)) @ newline"

definition finish_command :: "'k process \<Rightarrow> cli_options \<Rightarrow> 'k details \<Rightarrow> report \<Rightarrow> scan_error option \<Rightarrow> outcome" where
  "finish_command pr opts d rep err = (let f = finish_failure pr opts rep err in
     \<lparr>oc_stdout = report_output pr opts d rep err,
      oc_stderr = (if f = Some (SilentExit exit_findings) \<and> co_verbose opts then threshold_notice opts rep else []),
      oc_failure = f\<rparr>)"

subsection \<open>The commands (scan.go)\<close>

text \<open>The domain, when the argument is a fully qualified name.\<close>

definition domain_argument :: "string \<Rightarrow> string option" where
  "domain_argument a = (let domain = trim_suffix (trim_space a) ''.'' in
     if parse_addr domain \<noteq> None \<or> \<not> valid_domain domain \<or> \<not> contains_byte domain (CHR ''.'') then None
     else Some domain)"

definition valid_selector :: "string \<Rightarrow> string \<Rightarrow> bool" where
  "valid_selector domain s \<longleftrightarrow> \<not> (s = [] \<or> index_any s [CHR '' '', tab] \<noteq> None \<or> \<not> valid_domain (s @ ''._domainkey.'' @ domain))"

definition domain_command :: "'k process \<Rightarrow> cli_options \<Rightarrow> string list \<Rightarrow> string list
    \<Rightarrow> (scan_settings \<Rightarrow> string \<Rightarrow> string list \<Rightarrow> 'k details \<times> report) \<Rightarrow> outcome" where
  "domain_command pr opts0 args selectors scan = (case args of
     [a] \<Rightarrow> (case validate_options opts0 of
         Inl f \<Rightarrow> command_fails f
       | Inr opts \<Rightarrow> (case domain_argument a of
           None \<Rightarrow> command_fails (NotADomainName a)
         | Some domain \<Rightarrow> (case find (\<lambda>s. \<not> valid_selector domain s) selectors of
             Some s \<Rightarrow> command_fails (BadSelector s)
           | None \<Rightarrow> (case analyzer_options pr opts of
               Inl f \<Rightarrow> command_fails f
             | Inr st \<Rightarrow> (case scan st domain selectors of (d, rep) \<Rightarrow> finish_command pr opts d rep None)))))
   | _ \<Rightarrow> command_fails (WrongArguments args))"

definition validate_flags :: "operator_values \<Rightarrow> failure option" where
  "validate_flags mf = (
     if op_source_ip mf \<noteq> [] \<and> parse_addr (op_source_ip mf) = None then Some (BadSourceIP (op_source_ip mf))
     else if op_helo mf \<noteq> [] \<and> \<not> valid_domain (op_helo mf) \<and> \<not> is_hostname (op_helo mf) then Some (BadHelo (op_helo mf))
     else if op_mail_from mf \<noteq> [] \<and> op_mail_from mf \<noteq> ''<>'' then
       (let addr = trim_set (op_mail_from mf) [CHR ''<'', CHR ''>''] in
        case last_index_byte addr (CHR ''@'') of
          None \<Rightarrow> Some (BadMailFrom (op_mail_from mf))
        | Some at \<Rightarrow> if 0 < at \<and> valid_domain (drop (at + 1) addr) then None else Some (BadMailFrom (op_mail_from mf)))
     else None)"

text \<open>The input, or the failure to open it.\<close>

definition open_input :: "'k process \<Rightarrow> string \<Rightarrow> failure + string option" where
  "open_input pr target = (
     if target = ''-'' then Inr (read_all True read_size (pr_stdin pr))
     else case pr_open pr target of
       OpenFails \<Rightarrow> Inl (CannotOpenMessage target)
     | OpenDirectory \<Rightarrow> Inl (InputIsDirectory target)
     | OpenFile es \<Rightarrow> Inr (read_all False read_size es))"

definition message_command :: "'k process \<Rightarrow> cli_options \<Rightarrow> string list \<Rightarrow> operator_values
    \<Rightarrow> (scan_settings \<Rightarrow> string \<Rightarrow> operator_values \<Rightarrow> string option \<Rightarrow> 'k details \<times> report \<times> scan_error option) \<Rightarrow> outcome" where
  "message_command pr opts0 args mf scan = (case args of
     [target] \<Rightarrow> (case validate_options opts0 of
         Inl f \<Rightarrow> command_fails f
       | Inr opts \<Rightarrow> (case validate_flags mf of
           Some f \<Rightarrow> command_fails f
         | None \<Rightarrow> (case open_input pr target of
             Inl f \<Rightarrow> command_fails f
           | Inr input \<Rightarrow> (case analyzer_options pr opts of
               Inl f \<Rightarrow> command_fails f
             | Inr st \<Rightarrow> (case scan st target mf input of (d, rep, err) \<Rightarrow> finish_command pr opts d rep err)))))
   | _ \<Rightarrow> command_fails (WrongArguments args))"

subsection \<open>The program\<close>

text \<open>\<^verbatim>\<open>Execute\<close>: what is printed in the end, and the exit code.  The functions of the model are total, so nothing panics.\<close>

definition failure_notice :: "'k process \<Rightarrow> failure option \<Rightarrow> string" where
  "failure_notice pr err = (case err of
     None \<Rightarrow> []
   | Some f \<Rightarrow> (if is_silent f then [] else ''mailauthprobe: '' @ pr_failure pr f @ newline)
       @ (if exit_code err = exit_usage then ''Run 'mailauthprobe --help' for usage.'' @ newline else []))"

definition execute :: "'k process \<Rightarrow> outcome \<Rightarrow> string \<times> string \<times> int" where
  "execute pr out = (oc_stdout out, oc_stderr out @ failure_notice pr (oc_failure out), exit_code (oc_failure out))"

end
