(* ===== verification/CliProps.thy ===== *)
theory CliProps
  imports Cli ScanProps TextProps
begin

section \<open>What the commands promise\<close>

lemma execute_simps [simp]:
  "fst (execute pr out) = oc_stdout out"
  "fst (snd (execute pr out)) = oc_stderr out @ failure_notice pr (oc_failure out)"
  "snd (snd (execute pr out)) = exit_code (oc_failure out)"
  by (simp_all add: execute_def)

lemma command_fails_simps [simp]:
  "oc_stdout (command_fails f) = []" "oc_stderr (command_fails f) = []" "oc_failure (command_fails f) = Some f"
  by (simp_all add: command_fails_def)

lemmas exit_defs = exit_ok_def exit_findings_def exit_usage_def exit_input_def exit_network_def exit_internal_def

subsection \<open>Usage errors\<close>

text \<open>The failures that a command finds before it opens anything.\<close>

definition is_usage :: "failure \<Rightarrow> bool" where
  "is_usage f \<longleftrightarrow> failure_code f = exit_usage \<and> \<not> is_silent f"

lemma usage_constructors [simp]:
  "is_usage (WrongArguments args)" "is_usage QuietAndVerbose" "is_usage (TimeoutNotPositive t)" "is_usage (UnknownFailOn s)"
  "is_usage (NotADomainName s)" "is_usage (BadSelector s)" "is_usage (BadSourceIP s)" "is_usage (BadHelo s)"
  "is_usage (BadMailFrom s)" "is_usage (BadResolver s)"
  by (simp_all add: is_usage_def is_silent_def)

lemma options_usage: "validate_options opts = Inl f \<Longrightarrow> is_usage f"
  by (auto simp: validate_options_def split: if_splits option.splits)

lemma flags_usage: "validate_flags mf = Some f \<Longrightarrow> is_usage f"
  by (auto simp: validate_flags_def Let_def split: if_splits option.splits)

lemma analyzer_usage: "analyzer_options pr opts = Inl f \<Longrightarrow> is_usage f"
  by (auto simp: analyzer_options_def split: option.splits)

lemma options_keep: "validate_options opts = Inr o' \<Longrightarrow> co_quiet o' = co_quiet opts \<and> co_json o' = co_json opts"
  by (auto simp: validate_options_def split: if_splits option.splits)

lemma usage_not_ok: "is_usage f \<Longrightarrow> failure_code f \<noteq> exit_ok"
  by (simp add: is_usage_def exit_defs)

lemma usage_noticed: "is_usage f \<Longrightarrow> failure_notice pr (Some f) \<noteq> []"
  by (simp add: is_usage_def failure_notice_def)

subsection \<open>The end of a command\<close>

lemma finish_ok:
  "exit_code (finish_failure pr opts rep err) = exit_ok \<longleftrightarrow>
     err = None \<and> (if co_quiet opts then True else pr_write_ok pr) \<and> \<not> has_error_kind rep ErrorDNS
       \<and> (if co_fail_on opts = ''none'' then True
          else list_all (\<lambda>f. fd_severity f < threshold_of (co_fail_on opts)) (rp_findings rep))"
  by (auto simp: finish_failure_def exit_code_def writes_report_def reached_def exit_defs at_least_def filter_empty_conv
      list_all_iff not_le split: option.split scan_error.split)

lemma finish_input: "exit_code (finish_failure pr opts rep err) = exit_input \<longleftrightarrow>
    err = Some InputFailure \<and> (if writes_report opts err then pr_write_ok pr else True)"
  by (auto simp: finish_failure_def exit_code_def exit_defs split: option.split scan_error.split)

lemma finish_quiet: "co_quiet opts \<Longrightarrow> report_output pr opts d rep err = []"
  by (simp add: report_output_def writes_report_def)

text \<open>A failure is silent only when the report was printed, or for findings under \<^verbatim>\<open>--quiet\<close>.\<close>

lemma finish_explained:
  "finish_failure pr opts rep err = Some f \<Longrightarrow> is_silent f \<Longrightarrow> writes_report opts err \<or> co_quiet opts \<and> f = SilentExit exit_findings"
  by (auto simp: finish_failure_def is_silent_def writes_report_def split: if_splits option.splits scan_error.splits)

lemma finish_fields [simp]: "oc_failure (finish_command pr opts d rep err) = finish_failure pr opts rep err"
    "oc_stdout (finish_command pr opts d rep err) = report_output pr opts d rep err"
  by (simp_all add: finish_command_def Let_def)

lemma terminal_output: "\<not> co_json opts \<Longrightarrow> terminal_text (report_output pr opts d rep err)"
  by (auto simp: report_output_def write_text_def Let_def intro!: terminal)

text \<open>
  The ways a command can end: with a usage error, with an input that cannot be opened, or with a report.
\<close>

definition ends_well :: "'k process \<Rightarrow> cli_options \<Rightarrow> outcome \<Rightarrow> bool" where
  "ends_well pr opts out \<longleftrightarrow> (\<exists>f. out = command_fails f \<and> (is_usage f \<or> failure_code f = exit_input \<and> \<not> is_silent f))
     \<or> (\<exists>o' d rep err. validate_options opts = Inr o' \<and> out = finish_command pr o' d rep err)"

lemma ends_usage: "is_usage f \<Longrightarrow> ends_well pr opts (command_fails f)"
  by (auto simp: ends_well_def)

lemma ends_finish: "validate_options opts = Inr o' \<Longrightarrow> ends_well pr opts (finish_command pr o' d rep err)"
  by (auto simp: ends_well_def)

lemma ends_open: "open_input pr target = Inl f \<Longrightarrow> ends_well pr opts (command_fails f)"
  by (auto simp: ends_well_def open_input_def is_silent_def split: if_splits file_answer.splits)

lemma domain_ends: "ends_well pr opts (domain_command pr opts args selectors scan)"
  by (auto simp: domain_command_def split: list.split sum.split option.split prod.split
      intro: ends_usage ends_finish options_usage analyzer_usage)

lemma message_ends: "ends_well pr opts (message_command pr opts args mf scan)"
  by (auto simp: message_command_def split: list.split sum.split option.split prod.split
      intro: ends_usage ends_finish ends_open options_usage analyzer_usage flags_usage)

subsection \<open>Properties\<close>

text \<open>
  The names a domain scan looks keys up under are valid: a selector that the command accepts gives a name that the DNS
  layer accepts, and the domain itself is a valid name of at least two labels and no address.
\<close>

theorem accepted_arguments_are_names:
  "case domain_argument a of
     None \<Rightarrow> True
   | Some domain \<Rightarrow> valid_domain domain \<and> CHR ''.'' \<in> set domain \<and> parse_addr domain = None
       \<and> list_all (\<lambda>s. valid_domain (s @ ''._domainkey.'' @ domain)) (filter (valid_selector domain) selectors)"
  by (auto simp: domain_argument_def valid_selector_def contains_byte_def Let_def list_all_iff split: if_split)

text \<open>
  Claim C33. The command for a domain exits with 0 exactly when its arguments, its options and the resolver are usable, the report
  was written (unless \<^verbatim>\<open>--quiet\<close> is given), no lookup failed in a way that makes the results incomplete, and no finding
  of the report reaches the threshold of \<^verbatim>\<open>--fail-on\<close>.
\<close>

theorem domain_command_success:
  "snd (snd (execute pr (domain_command pr opts args selectors scan))) = exit_ok \<longleftrightarrow>
     (case (args, validate_options opts) of
       ([a], Inr o') \<Rightarrow> (case (domain_argument a, analyzer_options pr o') of
           (Some domain, Inr settings) \<Rightarrow> list_all (valid_selector domain) selectors
             \<and> (case scan settings domain selectors of (details, rep) \<Rightarrow>
                  (if co_quiet o' then True else pr_write_ok pr)
                  \<and> \<not> has_error_kind rep ErrorDNS
                  \<and> (if co_fail_on o' = ''none'' then True
                     else list_all (\<lambda>f. fd_severity f < threshold_of (co_fail_on o')) (rp_findings rep)))
         | _ \<Rightarrow> False)
     | _ \<Rightarrow> False)"
proof -
  have stop: "exit_code (Some f) \<noteq> exit_ok" if "is_usage f" for f
    using usage_not_ok [OF that] by (simp add: exit_code_def)
  have sel: "find (\<lambda>s. \<not> valid_selector domain s) selectors = None \<longleftrightarrow> list_all (valid_selector domain) selectors" for domain
    by (auto simp: find_None_iff list_all_iff)
  show ?thesis
    by (auto simp: domain_command_def finish_ok sel [symmetric] stop dest!: options_usage analyzer_usage
        split: list.split sum.split option.split prod.split)
qed

text \<open>
  An input that cannot be read is told apart from a failed scan: the command for a message exits with 3 exactly when its
  arguments are usable and the input cannot be opened or read as a message.
\<close>

theorem message_command_input_error:
  "snd (snd (execute pr (message_command pr opts [target] mf scan))) = exit_input \<longleftrightarrow>
     (case (validate_options opts, validate_flags mf) of
        (Inr o', None) \<Rightarrow> (case open_input pr target of
            Inl f \<Rightarrow> True
          | Inr input \<Rightarrow> (case analyzer_options pr o' of
              Inl f \<Rightarrow> False
            | Inr settings \<Rightarrow> (case scan settings target mf input of (details, rep, err) \<Rightarrow>
                err = Some InputFailure \<and> (if writes_report o' err then pr_write_ok pr else True))))
      | _ \<Rightarrow> False)"
proof -
  have stop: "exit_code (Some f) \<noteq> exit_input" if "is_usage f" for f
    using that by (simp add: exit_code_def is_usage_def exit_defs)
  have opened: "exit_code (Some f) = exit_input" if "open_input pr target = Inl f" for f
    using that by (auto simp: open_input_def exit_code_def split: if_splits file_answer.splits)
  show ?thesis
    by (auto simp: message_command_def finish_input stop opened dest!: options_usage analyzer_usage flags_usage
        split: sum.split option.split prod.split)
qed

text \<open>
  A failure is never left unexplained: a command that does not exit with 0 has printed an error, or it has written a report,
  or it was told to be quiet and found something.
\<close>

definition explained :: "'k process \<Rightarrow> cli_options \<Rightarrow> string \<times> string \<times> int \<Rightarrow> bool" where
  "explained pr opts result \<longleftrightarrow> (case result of (output, errors, code) \<Rightarrow>
     code = exit_ok \<or> errors \<noteq> []
     \<or> (\<exists>o' d rep err. validate_options opts = Inr o' \<and> writes_report o' err \<and> output = report_output pr o' d rep err)
     \<or> co_quiet opts \<and> code = exit_findings)"

lemma ends_explained: "ends_well pr opts out \<Longrightarrow> explained pr opts (execute pr out)"
proof -
  assume "ends_well pr opts out"
  then consider (stopped) f where "out = command_fails f" "\<not> is_silent f"
    | (finished) o' d rep err where "validate_options opts = Inr o'" "out = finish_command pr o' d rep err"
    by (auto simp: ends_well_def is_usage_def)
  then show ?thesis
  proof cases
    case stopped
    then show ?thesis by (simp add: explained_def execute_def failure_notice_def)
  next
    case finished
    then show ?thesis
    proof (cases "finish_failure pr o' rep err")
      case None
      then show ?thesis using finished by (simp add: explained_def execute_def exit_code_def)
    next
      case (Some f)
      then show ?thesis
        using finished finish_explained [OF Some] options_keep [OF finished(1)]
        by (cases "is_silent f") (auto simp: explained_def execute_def exit_code_def failure_notice_def)
    qed
  qed
qed

theorem failure_is_explained:
  "explained pr opts (execute pr (domain_command pr opts args selectors scan))"
  "explained pr opts (execute pr (message_command pr opts args mf scan'))"
  by (rule ends_explained, rule domain_ends) (rule ends_explained, rule message_ends)

text \<open>
  What a command prints to the standard output without \<^verbatim>\<open>--json\<close> is safe for a terminal, and nothing at all with
  \<^verbatim>\<open>--quiet\<close>.
\<close>

lemma ends_output: "ends_well pr opts out \<Longrightarrow>
    (if co_quiet opts then oc_stdout out = [] else if co_json opts then True else terminal_text (oc_stdout out))"
  by (auto simp: ends_well_def finish_quiet terminal_output terminal dest: options_keep)

theorem output_is_safe:
  "case execute pr (message_command pr opts args mf scan) of (output, errors, code) \<Rightarrow>
     if co_quiet opts then output = [] else if co_json opts then True else terminal_text output"
  using ends_output [OF message_ends [of pr opts args mf scan]] by (simp add: execute_def)

subsection \<open>The input\<close>

text \<open>
  A read of the input never holds more than the limit of the parser and one byte; on the standard input, a scan whose time is
  over before the input has ended does not analyse the part that it has read.
\<close>

theorem read_all_bounded: "case read_all stdin n es of None \<Rightarrow> True | Some s \<Rightarrow> length s \<le> n"
proof (induction stdin n es rule: read_all.induct)
  case (2 stdin n e es)
  then show ?case by (auto split: read_event.split option.splits)
qed simp

theorem cut_short_is_not_analysed:
  "read_all True n (map ReadBytes bs @ ContextDone # es) = (if n \<le> length (concat bs) then Some (take n (concat bs)) else None)"
  by (induction bs arbitrary: n) auto

end
