(* ===== verification/Spec2Isabelle.thy ===== *)
theory Spec2Isabelle
  imports SpfEvalSafe CacheThreads ZoneRuns NetUtil FindingsCatalog DmarcProps DkimProps DkimAssess MxProps MtaStsProps MailMessage MailProvider SpfAnalyzeProps SpfMessage TlsRpt MailMimeProps ReceivedProps AuthProps ArcProps DnsConfig TextProps ScanProps CliProps
begin

text \<open>
  MailAuthProbe audits the mail authentication of a domain (MX, SPF, DKIM, DMARC, MTA-STS, TLS-RPT) or of a message
  (SPF, DKIM and DMARC as a receiver would evaluate them).  This development models its core in the order of the
  calls; the paths below are under \<^verbatim>\<open>src/internal\<close>.

  \<^bold>\<open>Foundations.\<close>  \<^verbatim>\<open>GoStrings\<close> holds the functions of Go's packages strings, bytes and strconv that the program
  uses, on lists of characters that stand for bytes; letters are those of ASCII.  \<^verbatim>\<open>Netip\<close> holds net/netip: addresses
  are words of 32 or 128 bits.  \<^verbatim>\<open>NetUtil\<close> is \<^verbatim>\<open>netutil/netutil.go\<close>.  \<^verbatim>\<open>Findings\<close> and \<^verbatim>\<open>FindingsCatalog\<close> are
  \<^verbatim>\<open>findings/\<close>: severities, findings, their order, and the catalog of rules.  The checks report \<open>observation\<close>s (a rule,
  a severity, a subject); the texts of findings are not modelled.

  \<^bold>\<open>DNS.\<close>  \<^verbatim>\<open>Dns\<close> is the resolver interface, its errors and names (\<^verbatim>\<open>dnsresolver/resolver.go\<close>, \<^verbatim>\<open>names.go\<close>).
  \<^verbatim>\<open>DnsBudget\<close> models a check as a tree of the questions it asks, \<open>'a dns\<close>, and \<open>run\<close> executes it on a resolver; the
  query budget and the cache of \<^verbatim>\<open>budget.go\<close> are two resolvers, and two locales state what such a resolver promises to
  every tree.  \<open>ends P m j\<close> says that \<open>m\<close> ends with \<open>P\<close> on every answer; the bounds on questions are stated with it.
  \<^verbatim>\<open>DnsTranscript\<close> keeps the list of the answers instead: \<open>told\<close> says what a result has to do with the answers that led to it, and
  \<open>replies\<close> ties that list to a run on a resolver, so that a key or a policy is the one that the DNS published at its name.
  A scan looks names up one after the other.  \<^verbatim>\<open>CacheThreads\<close> is the cache and the budget under lookups that run at once: a
  step relation on their shared state, in which every schedule shares queries, keeps to the budget and ends; a call that
  runs alone does what the sequential cache does.  \<^verbatim>\<open>DnsClient\<close> is the stub resolver
  (\<^verbatim>\<open>client.go\<close>) over an arbitrary network: a connection is the script of what arrives before its deadline, and the packing
  of messages is a parameter; \<^verbatim>\<open>DnsClientProps\<close> shows that it only believes answers to its questions, that forged datagrams
  within the size limit are without effect, and how many connections a lookup opens.  \<^verbatim>\<open>DnsConfig\<close> is the choice of the resolver (\<^verbatim>\<open>config.go\<close>,
  \<^verbatim>\<open>std.go\<close>).  \<^verbatim>\<open>TestZone\<close> is the zone in memory (\<^verbatim>\<open>dnstest/zone.go\<close>), a concrete resolver that is read from text;
  \<^verbatim>\<open>TestZoneProps\<close> shows that what was written is answered, that aliases are followed at most eight times, and which
  names are missing, and \<^verbatim>\<open>ZoneRuns\<close> evaluates SPF checks on a zone through the whole session.

  \<^bold>\<open>SPF.\<close>  \<^verbatim>\<open>SpfMacro\<close> and \<^verbatim>\<open>SpfRecord\<close> are the parsers (\<^verbatim>\<open>spf/macro.go\<close>, \<^verbatim>\<open>record.go\<close>), \<^verbatim>\<open>SpfExpand\<close> the
  expansion of macros (\<^verbatim>\<open>expand.go\<close>), \<^verbatim>\<open>SpfEval\<close> check_host with its counters (\<^verbatim>\<open>eval.go\<close>), and \<^verbatim>\<open>SpfEvalSafe\<close> the proof
  that every evaluation ends within the limits.  No fuel is needed: the recursion of check_host is
  a total function because each call is one level deeper and the code refuses to go deeper than its limit.  \<^verbatim>\<open>SpfAnalyze\<close> is the walk over the
  tree of includes (\<^verbatim>\<open>analyze.go\<close>), bounded by its depth in the same way, \<^verbatim>\<open>SpfAnalyzeProps\<close> its limits and what its lookups cost, and \<^verbatim>\<open>SpfMessage\<close> the
  choice of the identity that is checked for a message (\<^verbatim>\<open>message.go\<close>).

  \<^bold>\<open>DMARC.\<close>  \<^verbatim>\<open>Dmarc\<close> is the record parser (\<^verbatim>\<open>dmarc/record.go\<close>), \<^verbatim>\<open>DmarcSpec\<close> a declarative reading of records that it
  is proved equal to, \<^verbatim>\<open>DmarcPolicy\<close> alignment, discovery, evaluation and assessment (\<^verbatim>\<open>alignment.go\<close>, \<^verbatim>\<open>discover.go\<close>,
  \<^verbatim>\<open>evaluate.go\<close>, \<^verbatim>\<open>assess.go\<close>), and \<^verbatim>\<open>DmarcProps\<close> shows that discovery finds the policy that the zone publishes, which
  verdict a message gets on every branch, and which answers stand behind a pass.  The public suffix list and the reader of address lists are parameters.

  \<^bold>\<open>DKIM.\<close>  \<^verbatim>\<open>DkimCanon\<close> is canonicalization (\<^verbatim>\<open>dkim/canon.go\<close>) with a reference definition by lines, \<^verbatim>\<open>DkimSyntax\<close> tag
  lists, signatures and key records (\<^verbatim>\<open>taglist.go\<close>, \<^verbatim>\<open>signature.go\<close>, \<^verbatim>\<open>key.go\<close>), \<^verbatim>\<open>DkimVerify\<close> the verification of a
  message (\<^verbatim>\<open>verify.go\<close>), \<^verbatim>\<open>DkimProps\<close> what a pass means for the message and the answers of the DNS, and \<^verbatim>\<open>DkimAssess\<close> the audit of selectors (\<^verbatim>\<open>assess.go\<close>).
  The cryptography is a record of functions, a parameter.  \<^verbatim>\<open>MailProvider\<close> is the table of \<^verbatim>\<open>mailprovider/\<close>.

  \<^bold>\<open>Messages.\<close>  \<^verbatim>\<open>MailMessage\<close> is the parser of the header section (\<^verbatim>\<open>mailparser/message.go\<close>, \<^verbatim>\<open>limits.go\<close>,
  \<^verbatim>\<open>address.go\<close>), \<^verbatim>\<open>MailMime\<close> and \<^verbatim>\<open>MailMimeProps\<close> the walk over the MIME parts with its limits, and that parsing loses no byte (\<^verbatim>\<open>mime.go\<close>); the readers of
  media types and of multipart bodies are parameters.  \<^verbatim>\<open>Received\<close> reads Received headers, \<^verbatim>\<open>ReceivedChain\<close> builds the
  transport path and infers the client (\<^verbatim>\<open>received/\<close>), and \<^verbatim>\<open>ReceivedProps\<close> is about both.  \<^verbatim>\<open>AuthRes\<close> reads
  Authentication-Results and Received-SPF headers, \<^verbatim>\<open>AuthCompare\<close> compares them with each other and with what was computed
  (\<^verbatim>\<open>authres/\<close>), and \<^verbatim>\<open>AuthProps\<close> says when a conflict is reported.  \<^verbatim>\<open>Arc\<close> and \<^verbatim>\<open>ArcProps\<close> are the structure of ARC sets
  (\<^verbatim>\<open>arc/arc.go\<close>).

  \<^bold>\<open>Transport.\<close>  \<^verbatim>\<open>Mx\<close> and \<^verbatim>\<open>MxProps\<close> are \<^verbatim>\<open>mx/mx.go\<close>; \<^verbatim>\<open>MtaSts\<close> and \<^verbatim>\<open>MtaStsProps\<close> are \<^verbatim>\<open>mtasts/\<close>, with the network
  as a parameter of the fetch; \<^verbatim>\<open>TlsRpt\<close> is \<^verbatim>\<open>tlsrpt/tlsrpt.go\<close>.

  \<^bold>\<open>Scans and reports.\<close>  \<^verbatim>\<open>Report\<close> is the report with its summary (\<^verbatim>\<open>report/report.go\<close>) and the session that collects findings
  and errors (\<^verbatim>\<open>analyzer/analyzer.go\<close>).  \<^verbatim>\<open>AnalyzeDomain\<close> is the audit of a
  domain (\<^verbatim>\<open>analyzer/domain.go\<close>), \<^verbatim>\<open>AnalyzeMessage\<close> and \<^verbatim>\<open>ScanMessage\<close> the analysis of a message (\<^verbatim>\<open>analyzer/message.go\<close>): every
  check runs on the session's resolver, a cache over the budget over the client, whose state is threaded through.
  \<^verbatim>\<open>ScanProps\<close> holds what the composition promises: the queries counted are those sent, a message cannot use up the
  budget (ten keys, 120 queries for SPF and two for DMARC make 132 of 250), a DMARC pass is earned, the inputs of SPF come
  from where they should, and failed lookups are reported.  The wording of findings is a parameter.  \<^verbatim>\<open>TextReport\<close> is the
  part of the text report that both kinds share (\<^verbatim>\<open>report/text.go\<close>) and \<^verbatim>\<open>TextDetails\<close> its sections on a domain and on a
  message; \<^verbatim>\<open>TextProps\<close> shows that nothing but harmless text and the program's own styles reaches the terminal.
  \<^verbatim>\<open>Cli\<close> is the commands from their arguments to what they print and the exit code (\<^verbatim>\<open>cli/scan.go\<close>, \<^verbatim>\<open>root.go\<close>,
  \<^verbatim>\<open>exitcode.go\<close>), and \<^verbatim>\<open>CliProps\<close> says when they succeed and that no failure is left unexplained.

  \<^bold>\<open>Not modelled.\<close>  The texts of errors, reasons and findings, which are constructors here and parameters where they are
  printed; the JSON report, a call of the library; the parsing of flags by cobra, and files and streams, of
  which the model is given the answers; the packing of DNS messages, cryptography, the public suffix
  list and the readers of addresses, dates, media types and URLs, which are libraries and parameters of the model; the
  tools, the DNS server and the signer for tests.
\<close>

end
